(* ===== verification/Prelude.thy ===== *)
theory Prelude
  imports Main "HOL-Library.Word"
begin

unbundle bit_operations_syntax

text \<open>
  What every component of the development shares: the machine types of the C code, pointers,
  arrays as lists with in-place writes, the two search loops the fixed-size tables of the
  program are built from (first slot that matches, number of slots in use), and the collections
  of rewrite rules the component theories add to.
\<close>

section \<open>Machine types\<close>

text \<open>
  Fixed-width C integers are words; \<open>size_t\<close> values are lengths of objects in memory and are
  natural numbers; plain \<open>int\<close> fields (flags, layers, counters that stay small) are integers.
  A pointer is an address; address 0 is the null pointer.
\<close>

type_synonym u8 = "8 word"
type_synonym u16 = "16 word"
type_synonym u32 = "32 word"
type_synonym u64 = "64 word"
type_synonym ptr = nat
type_synonym mac = "u8 list"

abbreviation (input) NULL :: ptr where "NULL \<equiv> 0"

named_theorems struct_defs "definitions that only read or write structure fields"
named_theorems layout_simps "memory layout of packed headers"
named_theorems world_defs "definitions of the operations on the simulated heap"

section \<open>Arrays\<close>

text \<open>\<open>memcpy\<close> into a buffer: the bytes \<open>bs\<close> replace those at offset \<open>off\<close>.\<close>

definition bwrite :: "'a list \<Rightarrow> nat \<Rightarrow> 'a list \<Rightarrow> 'a list" where
  "bwrite buf off bs = take off buf @ bs @ drop (off + length bs) buf"

text \<open>The \<open>n\<close> bytes of a buffer from offset \<open>off\<close>.\<close>

definition bread :: "'a list \<Rightarrow> nat \<Rightarrow> nat \<Rightarrow> 'a list" where
  "bread buf off n = take n (drop off buf)"

lemma length_bwrite [simp]:
  "off + length bs \<le> length buf \<Longrightarrow> length (bwrite buf off bs) = length buf"
  by (simp add: bwrite_def)

lemma length_bread [simp]:
  "off + n \<le> length buf \<Longrightarrow> length (bread buf off n) = n"
  by (simp add: bread_def)

lemma bread_bwrite_same [simp]:
  "off + length bs \<le> length buf \<Longrightarrow> n = length bs \<Longrightarrow> bread (bwrite buf off bs) off n = bs"
  by (simp add: bread_def bwrite_def)

lemma bread_bwrite_after:
  assumes "off + length bs \<le> off'" "off' + n \<le> length buf"
  shows "bread (bwrite buf off bs) off' n = bread buf off' n"
proof (rule nth_equalityI)
  show "length (bread (bwrite buf off bs) off' n) = length (bread buf off' n)"
    using assms by (simp add: bread_def bwrite_def)
next
  fix i assume "i < length (bread (bwrite buf off bs) off' n)"
  then have "i < n" by (simp add: bread_def)
  then show "bread (bwrite buf off bs) off' n ! i = bread buf off' n ! i"
    using assms by (simp add: bread_def bwrite_def nth_append min_def)
qed

lemma bread_bwrite_before:
  assumes "off' + n \<le> off" "off + length bs \<le> length buf"
  shows "bread (bwrite buf off bs) off' n = bread buf off' n"
proof -
  have "drop off' (take off buf @ bs @ drop (off + length bs) buf)
      = take (off - off') (drop off' buf) @ bs @ drop (off + length bs) buf"
    using assms by (simp add: drop_take)
  then show ?thesis
    using assms by (simp add: bread_def bwrite_def)
qed

lemma bread_split:
  "bread buf off (m + n) = bread buf off m @ bread buf (off + m) n"
  by (simp add: bread_def take_add add.commute)

lemma bread_0 [simp]: "bread buf off 0 = []"
  by (simp add: bread_def)

lemma nth_bread: "i < n \<Longrightarrow> off + n \<le> length buf \<Longrightarrow> bread buf off n ! i = buf ! (off + i)"
  by (simp add: bread_def)

section \<open>Search loops over a table\<close>

text \<open>
  \<open>for (i = 0; i < N; i++) if (P(a[i])) return i;\<close> is \<open>first_index P a\<close>: the index of the
  first element that satisfies the test, if there is one.
\<close>

fun first_index :: "('a \<Rightarrow> bool) \<Rightarrow> 'a list \<Rightarrow> nat option" where
  "first_index P [] = None"
| "first_index P (x # xs) = (if P x then Some 0 else map_option Suc (first_index P xs))"

lemma first_index_None: "first_index P xs = None \<longleftrightarrow> (\<forall>x \<in> set xs. \<not> P x)"
  by (induction xs) auto

lemma first_index_Some:
  "first_index P xs = Some i \<longleftrightarrow> i < length xs \<and> P (xs ! i) \<and> (\<forall>j < i. \<not> P (xs ! j))"
proof (induction xs arbitrary: i)
  case Nil
  then show ?case by simp
next
  case (Cons x xs)
  show ?case
  proof (cases i)
    case 0
    then show ?thesis by auto
  next
    case (Suc k)
    then show ?thesis
      using Cons.IH [of k] by (auto simp: All_less_Suc2)
  qed
qed

lemma first_index_SomeD:
  assumes "first_index P xs = Some i"
  shows "i < length xs" "P (xs ! i)" "\<And>j. j < i \<Longrightarrow> \<not> P (xs ! j)"
  using assms by (auto simp: first_index_Some)

lemma first_index_exists: "i < length xs \<Longrightarrow> P (xs ! i) \<Longrightarrow> \<exists>j. first_index P xs = Some j"
  by (cases "first_index P xs") (auto simp: first_index_None)

text \<open>At most one match: then the search finds that one.\<close>

lemma first_index_unique:
  assumes "i < length xs" "P (xs ! i)" "\<And>j. j < length xs \<Longrightarrow> P (xs ! j) \<Longrightarrow> j = i"
  shows "first_index P xs = Some i"
proof -
  have "\<not> P (xs ! j)" if "j < i" for j
    using that assms(3) [of j] assms(1) by auto
  with assms(1,2) show ?thesis by (simp add: first_index_Some)
qed

text \<open>
  A table with a validity flag keeps the number of slots in use in a counter. \<open>in_use\<close> is that
  number; the three lemmas say how it changes when one slot is written.
\<close>

definition in_use :: "('a \<Rightarrow> bool) \<Rightarrow> 'a list \<Rightarrow> nat" where
  "in_use P xs = length (filter P xs)"

lemma in_use_Nil [simp]: "in_use P [] = 0"
  by (simp add: in_use_def)

lemma in_use_Cons [simp]: "in_use P (x # xs) = (if P x then Suc (in_use P xs) else in_use P xs)"
  by (simp add: in_use_def)

lemma in_use_le: "in_use P xs \<le> length xs"
  by (simp add: in_use_def)

lemma in_use_update_same:
  "i < length xs \<Longrightarrow> P y = P (xs ! i) \<Longrightarrow> in_use P (xs[i := y]) = in_use P xs"
proof (induction xs arbitrary: i)
  case Nil
  then show ?case by simp
next
  case (Cons x xs)
  then show ?case by (cases i) auto
qed

lemma in_use_update_take:
  "i < length xs \<Longrightarrow> P y \<Longrightarrow> \<not> P (xs ! i) \<Longrightarrow> in_use P (xs[i := y]) = Suc (in_use P xs)"
proof (induction xs arbitrary: i)
  case Nil
  then show ?case by simp
next
  case (Cons x xs)
  then show ?case by (cases i) auto
qed

lemma in_use_update_release:
  "i < length xs \<Longrightarrow> \<not> P y \<Longrightarrow> P (xs ! i) \<Longrightarrow> Suc (in_use P (xs[i := y])) = in_use P xs"
proof (induction xs arbitrary: i)
  case Nil
  then show ?case by simp
next
  case (Cons x xs)
  then show ?case by (cases i) auto
qed

lemma in_use_0: "in_use P xs = 0 \<longleftrightarrow> (\<forall>x \<in> set xs. \<not> P x)"
  by (auto simp: in_use_def filter_empty_conv)

lemma in_use_pos: "i < length xs \<Longrightarrow> P (xs ! i) \<Longrightarrow> 0 < in_use P xs"
  by (metis in_use_0 neq0_conv nth_mem)

lemma in_use_full: "in_use P xs = length xs \<longleftrightarrow> (\<forall>x \<in> set xs. P x)"
proof (induction xs)
  case Nil
  then show ?case by simp
next
  case (Cons x xs)
  then show ?case using in_use_le [of P xs] by auto
qed

lemma in_use_room: "in_use P xs < length xs \<longleftrightarrow> (\<exists>x \<in> set xs. \<not> P x)"
  using in_use_le [of P xs] in_use_full [of P xs] by (auto simp: le_less)

section \<open>Small facts on words\<close>

lemma unat_u8: "unat (x :: u8) < 256"
  using unsigned_less [of x, where ?'a = nat] by simp

lemma unat_u16: "unat (x :: u16) < 65536"
  using unsigned_less [of x, where ?'a = nat] by simp

lemma unat_u32: "unat (x :: u32) < 4294967296"
  using unsigned_less [of x, where ?'a = nat] by simp

lemma unat_u64: "unat (x :: u64) < 18446744073709551616"
  using unsigned_less [of x, where ?'a = nat] by simp

section \<open>Pointers to objects\<close>

text \<open>
  A function that tests a pointer to one of the program's tables against \<open>NULL\<close> takes the table
  as an option: \<open>None\<close> is the null pointer. \<open>deref\<close> follows an address into the heap of one
  structure type, \<open>store\<close> writes the object back.
\<close>

definition deref :: "(ptr \<Rightarrow> 'a) \<Rightarrow> ptr \<Rightarrow> 'a option" where
  "deref heap p = (if p = NULL then None else Some (heap p))"

definition store :: "(ptr \<Rightarrow> 'a) \<Rightarrow> ptr \<Rightarrow> 'a option \<Rightarrow> (ptr \<Rightarrow> 'a)" where
  "store heap p obj = (case obj of None \<Rightarrow> heap | Some x \<Rightarrow> heap(p := x))"

lemma deref_simps [simp]:
  "deref heap 0 = None" "p \<noteq> 0 \<Longrightarrow> deref heap p = Some (heap p)"
  by (simp_all add: deref_def)

lemma store_simps [simp]:
  "store heap p None = heap" "store heap p (Some x) = heap(p := x)"
  by (simp_all add: store_def)

end
