(* ===== verification/Byte_Order.thy ===== *)
theory Byte_Order
  imports Prelude
begin

text \<open>
  The byte-order helpers of \<open>src/src/common/byte_order.h\<close> and the memory layout of integers on
  the little-endian hosts that header assumes. \<open>le16\<close> and \<open>le32\<close> are the bytes an integer has
  in memory, \<open>ld16\<close> and \<open>ld32\<close> read it back; together with the swaps they give the big-endian
  wire format of the protocol headers.
\<close>

section \<open>Byte swaps\<close>

text \<open>
  The C expression promotes the 16-bit argument to \<open>int\<close> before shifting and the cast cuts the
  result back to 16 bits; the shifts below are done on 32 bits for the same reason.
\<close>

definition ns_bswap16 :: "u16 \<Rightarrow> u16" where
  "ns_bswap16 x = ucast (push_bit 8 (ucast x :: u32) OR drop_bit 8 (ucast x :: u32))"

definition ns_bswap32 :: "u32 \<Rightarrow> u32" where
  "ns_bswap32 x =
     (push_bit 24 (x AND 0x000000FF)) OR
     (push_bit 8 (x AND 0x0000FF00)) OR
     (drop_bit 8 (x AND 0x00FF0000)) OR
     (drop_bit 24 (x AND 0xFF000000))"

definition ns_htons :: "u16 \<Rightarrow> u16" where
  "ns_htons x = ns_bswap16 x"

definition ns_ntohs :: "u16 \<Rightarrow> u16" where
  "ns_ntohs x = ns_bswap16 x"

definition ns_htonl :: "u32 \<Rightarrow> u32" where
  "ns_htonl x = ns_bswap32 x"

definition ns_ntohl :: "u32 \<Rightarrow> u32" where
  "ns_ntohl x = ns_bswap32 x"

lemmas ns_order_defs = ns_htons_def ns_ntohs_def ns_htonl_def ns_ntohl_def

lemma byte_masks:
  "(0x000000FF :: u32) = mask 8" "(0x0000FF00 :: u32) = push_bit 8 (mask 8)"
  "(0x00FF0000 :: u32) = push_bit 16 (mask 8)" "(0xFF000000 :: u32) = push_bit 24 (mask 8)"
  by (simp_all add: mask_eq_decr_exp push_bit_eq_mult)

lemma bit_u8D [dest]: "bit (w :: u8) n \<Longrightarrow> n < 8"
  using bit_imp_le_length by force

lemma bit_u8_high [simp]: "8 \<le> n \<Longrightarrow> \<not> bit (w :: u8) n"
  by auto

lemma bit_u16D: "bit (w :: u16) n \<Longrightarrow> n < 16"
  using bit_imp_le_length by force

lemma bit_bswap16:
  "bit (ns_bswap16 x) n \<longleftrightarrow> n < 16 \<and> (if n < 8 then bit x (8 + n) else bit x (n - 8))"
  by (auto simp: ns_bswap16_def bit_simps add.commute dest: bit_u16D)

lemma bit_bswap32:
  "bit (ns_bswap32 x) n \<longleftrightarrow>
     n < 32 \<and>
     (if n < 8 then bit x (24 + n)
      else if n < 16 then bit x (8 + n)
      else if n < 24 then bit x (n - 8)
      else bit x (n - 24))"
  unfolding ns_bswap32_def byte_masks
  by (auto simp: bit_simps add.commute)

lemma bswap16_involution [simp]: "ns_bswap16 (ns_bswap16 x) = x"
  by (rule bit_word_eqI) (auto simp: bit_bswap16)

lemma bswap32_involution [simp]: "ns_bswap32 (ns_bswap32 x) = x"
  by (rule bit_word_eqI) (auto simp: bit_bswap32)

lemma ntohs_htons [simp]: "ns_ntohs (ns_htons x) = x" "ns_htons (ns_ntohs x) = x"
  by (simp_all add: ns_order_defs)

lemma ntohl_htonl [simp]: "ns_ntohl (ns_htonl x) = x" "ns_htonl (ns_ntohl x) = x"
  by (simp_all add: ns_order_defs)

lemma htonl_inject [simp]:
  "ns_htonl x = ns_htonl y \<longleftrightarrow> x = y" "ns_ntohl x = ns_ntohl y \<longleftrightarrow> x = y"
  by (metis ntohl_htonl)+

lemma htons_inject [simp]:
  "ns_htons x = ns_htons y \<longleftrightarrow> x = y" "ns_ntohs x = ns_ntohs y \<longleftrightarrow> x = y"
  by (metis ntohs_htons)+

section \<open>Integers in memory\<close>

definition le16 :: "u16 \<Rightarrow> u8 list" where
  "le16 w = [ucast w, ucast (drop_bit 8 w)]"

definition le32 :: "u32 \<Rightarrow> u8 list" where
  "le32 w = [ucast w, ucast (drop_bit 8 w), ucast (drop_bit 16 w), ucast (drop_bit 24 w)]"

definition ld16 :: "u8 list \<Rightarrow> u16" where
  "ld16 bs = ucast (bs ! 0) OR push_bit 8 (ucast (bs ! 1))"

definition ld32 :: "u8 list \<Rightarrow> u32" where
  "ld32 bs = ucast (bs ! 0) OR push_bit 8 (ucast (bs ! 1))
     OR push_bit 16 (ucast (bs ! 2)) OR push_bit 24 (ucast (bs ! 3))"

lemma length_le16 [simp]: "length (le16 w) = 2"
  by (simp add: le16_def)

lemma length_le32 [simp]: "length (le32 w) = 4"
  by (simp add: le32_def)

lemma ld16_le16 [simp]: "ld16 (le16 w @ rest) = w"
  by (rule bit_word_eqI) (auto simp: ld16_def le16_def bit_simps)

lemma ld32_le32 [simp]: "ld32 (le32 w @ rest) = w"
proof (rule bit_word_eqI)
  fix n assume "n < LENGTH(32)"
  then consider "n < 8" | "8 \<le> n" "n < 16" | "16 \<le> n" "n < 24" | "24 \<le> n" "n < 32"
    by fastforce
  then show "bit (ld32 (le32 w @ rest)) n \<longleftrightarrow> bit w n"
    by cases (auto simp: ld32_def le32_def bit_simps)
qed

lemma ld16_le16_exact [simp]: "ld16 (le16 w) = w"
  using ld16_le16 [of w "[]"] by simp

lemma ld32_le32_exact [simp]: "ld32 (le32 w) = w"
  using ld32_le32 [of w "[]"] by simp

lemma le16_ld16: "le16 (ld16 (a # b # rest)) = [a, b]"
  by (auto simp: ld16_def le16_def bit_simps intro!: bit_word_eqI)

lemma le32_ld32: "le32 (ld32 (a # b # c # d # rest)) = [a, b, c, d]"
  by (auto simp: ld32_def le32_def bit_simps intro!: bit_word_eqI)

lemma unat_ucast_16 [simp]: "unat (ucast (a :: u8) :: u16) = unat a"
proof -
  have "unat a < 65536" using unat_u8 [of a] by linarith
  then show ?thesis by (simp add: unsigned_ucast_eq take_bit_nat_def)
qed

lemma unat_ld16: "unat (ld16 (a # b # rest)) = unat a + 256 * unat b"
proof -
  have "ld16 (a # b # rest) = ucast a + push_bit 8 (ucast b)"
    unfolding ld16_def
    by (subst disjunctive_add) (auto simp: bit_simps)
  moreover have "unat (push_bit 8 (ucast b :: u16)) = 256 * unat b"
    using unat_u8 [of b] by (simp add: push_bit_eq_mult unat_word_ariths unat_ucast_16)
  moreover have "unat (ucast a :: u16) = unat a"
    by (simp add: unat_ucast_16)
  moreover have "unat a + 256 * unat b < 65536"
    using unat_u8 [of a] unat_u8 [of b] by linarith
  ultimately show ?thesis
    by (simp add: unat_word_ariths)
qed

text \<open>The wire order: the bytes of a converted integer are its bytes, most significant first.\<close>

lemma le16_htons: "le16 (ns_htons x) = [ucast (drop_bit 8 x), ucast x]"
  by (auto simp: le16_def ns_htons_def bit_bswap16 bit_simps intro!: bit_word_eqI)

lemma le32_htonl:
  "le32 (ns_htonl x) =
     [ucast (drop_bit 24 x), ucast (drop_bit 16 x), ucast (drop_bit 8 x), ucast x]"
  by (auto simp: le32_def ns_htonl_def bit_bswap32 bit_simps intro!: bit_word_eqI)

lemma bit_ld16:
  "bit (ld16 (a # b # rest)) n \<longleftrightarrow> (if n < 8 then bit a n else bit b (n - 8))"
  by (auto simp: ld16_def bit_simps)

lemma ntohs_ld16: "ns_ntohs (ld16 (a # b # rest)) = ld16 [b, a]"
  by (rule bit_word_eqI) (auto simp: ns_ntohs_def bit_bswap16 bit_ld16)

lemma unat_ntohs_ld16: "unat (ns_ntohs (ld16 (a # b # rest))) = 256 * unat a + unat b"
  by (simp add: ntohs_ld16 unat_ld16)

section \<open>Properties\<close>

text \<open>
  C31 The byte-order functions put the most significant byte first in memory, and reading back
  after writing is the identity in both directions, for 16 and 32 bits.
\<close>

theorem network_order:
  "le16 (ns_htons s) = [ucast (drop_bit 8 s), ucast s] \<and>
   le32 (ns_htonl l) = [ucast (drop_bit 24 l), ucast (drop_bit 16 l), ucast (drop_bit 8 l), ucast l] \<and>
   ns_ntohs (ns_htons s) = s \<and> ns_htons (ns_ntohs s) = s \<and>
   ns_ntohl (ns_htonl l) = l \<and> ns_htonl (ns_ntohl l) = l"
  by (simp add: le16_htons le32_htonl)

end
