(* ===== verification/Checksum.thy ===== *)
theory Checksum
  imports Byte_Order
begin

text \<open>
  The Internet checksum as the program computes it, three times: \<open>ip_checksum\<close>
  (\<open>protocols/ip.c\<close>) over the ten words of an IPv4 header, \<open>icmp_checksum\<close>
  (\<open>protocols/icmp.c\<close>) over a message of any length, and \<open>packet_checksum\<close>
  (\<open>network/packet.c\<close>), which sums the words in host order. The carry loop
  \<open>while (sum >> 16) sum = (sum & 0xFFFF) + (sum >> 16)\<close> is \<open>fold16\<close>, with its termination
  proof. The lemmas relate all three to ones' complement arithmetic: a message verifies exactly
  when the sum of its 16-bit words is a positive multiple of 65535.
\<close>

section \<open>The carry loop\<close>

lemma unat_low16: "unat (s AND 0xFFFF) = unat s mod 65536" for s :: u32
proof -
  have "(0xFFFF :: u32) = mask 16" by (simp add: mask_eq_decr_exp)
  then have "s AND 0xFFFF = take_bit 16 s" by (simp add: take_bit_eq_mask)
  then show ?thesis by (simp add: unsigned_take_bit_eq take_bit_nat_def)
qed

lemma unat_high16: "unat (drop_bit 16 s) = unat s div 65536" for s :: u32
  using unat_u32 [of s] by (simp add: unsigned_drop_bit_eq drop_bit_nat_def take_bit_nat_def)

lemma unat_fold_step:
  "unat ((s AND 0xFFFF) + drop_bit 16 s) = unat s mod 65536 + unat s div 65536" for s :: u32
proof -
  have "unat s div 65536 < 65536" using unat_u32 [of s] by (simp add: div_less_iff_less_mult)
  moreover have "unat s mod 65536 < 65536" by simp
  ultimately have "unat s mod 65536 + unat s div 65536 < 4294967296" by linarith
  then show ?thesis by (simp add: unat_word_ariths unat_low16 unat_high16)
qed

lemma fold_step_less:
  fixes s :: u32
  assumes "drop_bit 16 s \<noteq> 0"
  shows "unat ((s AND 0xFFFF) + drop_bit 16 s) < unat s"
proof -
  from assms have "unat (drop_bit 16 s) \<noteq> 0" by (simp add: unat_eq_zero)
  then have "0 < unat s div 65536" by (simp add: unat_high16)
  moreover have "unat s = 65536 * (unat s div 65536) + unat s mod 65536" by simp
  ultimately show ?thesis unfolding unat_fold_step by linarith
qed

function fold16 :: "u32 \<Rightarrow> u32" where
  "fold16 s = (if drop_bit 16 s \<noteq> 0
               then fold16 ((s AND 0xFFFF) + drop_bit 16 s) else s)"
  by pat_completeness auto
termination
  by (relation "measure unat") (simp_all add: fold_step_less)

declare fold16.simps [simp del]

text \<open>\<open>csum16 n\<close> is what folding the carries of \<open>n\<close> back in leaves: \<open>n\<close> modulo 65535, with
  65535 instead of 0 for positive \<open>n\<close>.\<close>

definition csum16 :: "nat \<Rightarrow> nat" where
  "csum16 n = (if n = 0 then 0 else (n - 1) mod 65535 + 1)"

lemma csum16_small: "n < 65536 \<Longrightarrow> csum16 n = n"
  by (cases "n = 65536 - 1") (auto simp: csum16_def)

lemma csum16_le: "csum16 n \<le> 65535"
proof -
  have "(n - 1) mod 65535 < 65535" by simp
  then have "(n - 1) mod 65535 + 1 \<le> 65535" by linarith
  then show ?thesis by (simp add: csum16_def)
qed

lemma csum16_step:
  assumes "65536 \<le> n"
  shows "csum16 (n mod 65536 + n div 65536) = csum16 n"
proof -
  define q r where "q = n div 65536" and "r = n mod 65536"
  have n: "n = 65536 * q + r" by (simp add: q_def r_def)
  have q: "1 \<le> q" using assms by (simp add: q_def Suc_leI div_greater_zero_iff)
  have "n - 1 = 65535 * q + (r + q - 1)" using n q by simp
  then have "(n - 1) mod 65535 = (r + q - 1) mod 65535" by simp
  then show ?thesis
    using q n unfolding csum16_def q_def [symmetric] r_def [symmetric] by simp
qed

lemma unat_fold16: "unat (fold16 s) = csum16 (unat s)"
proof (induction s rule: fold16.induct)
  case (1 s)
  show ?case
  proof (cases "drop_bit 16 s \<noteq> 0")
    case True
    then have "unat (drop_bit 16 s) \<noteq> 0" by (simp add: unat_eq_zero)
    then have "65536 \<le> unat s" by (simp add: unat_high16 div_eq_0_iff)
    with True 1 show ?thesis
      by (simp add: fold16.simps [of s] unat_fold_step csum16_step)
  next
    case False
    then have "unat (drop_bit 16 s) = 0" by simp
    then have "unat s < 65536" by (simp add: unat_high16 div_eq_0_iff)
    with False show ?thesis by (simp add: fold16.simps [of s] csum16_small)
  qed
qed

text \<open>The cast of the complemented sum to 16 bits.\<close>

lemma unat_not_low16:
  fixes s :: u32
  assumes "unat s \<le> 65535"
  shows "unat (ucast (NOT s) :: u16) = 65535 - unat s"
proof -
  have le: "unat s \<le> 4294967295" using unat_u32 [of s] by linarith
  have "(of_nat (4294967295 - unat s) :: u32) = - 1 - s"
    using le by (simp add: of_nat_diff)
  then have "NOT s = of_nat (4294967295 - unat s)" by (simp add: not_eq_complement)
  then have "unat (NOT s) = 4294967295 - unat s" by (simp add: unat_of_nat)
  then have "unat (ucast (NOT s) :: u16) = (4294967295 - unat s) mod 65536"
    by (simp add: unsigned_ucast_eq take_bit_nat_def)
  also have "4294967295 - unat s = 65535 * 65536 + (65535 - unat s)"
    using assms by simp
  also have "\<dots> mod 65536 = (65535 - unat s) mod 65536"
    by (metis mod_mult_self3)
  also have "\<dots> = 65535 - unat s" by simp
  finally show ?thesis .
qed

section \<open>The three checksums\<close>

text \<open>
  \<open>be_words n bs s\<close> is the loop that adds \<open>n\<close> 16-bit words, converted from network order,
  to the accumulator \<open>s\<close>; \<open>host_words\<close> is the loop of \<open>packet_checksum\<close>, which adds the
  words as the host reads them and the last byte of an odd length as it is.
\<close>

fun be_words :: "nat \<Rightarrow> u8 list \<Rightarrow> u32 \<Rightarrow> u32" where
  "be_words 0 bs s = s"
| "be_words (Suc n) bs s = be_words n (drop 2 bs) (s + ucast (ns_ntohs (ld16 bs)))"

fun host_words :: "nat \<Rightarrow> u8 list \<Rightarrow> u32 \<Rightarrow> u32" where
  "host_words len bs s =
     (if len > 1 then host_words (len - 2) (drop 2 bs) (s + ucast (ld16 bs))
      else if len = 1 then s + ucast (bs ! 0)
      else s)"

declare host_words.simps [simp del]

definition packet_checksum :: "u8 list \<Rightarrow> nat \<Rightarrow> u16" where
  "packet_checksum bytes len = ucast (NOT (fold16 (host_words len bytes 0)))"

definition ip_checksum :: "u8 list option \<Rightarrow> u16" where
  "ip_checksum ip_hdr =
     (case ip_hdr of
        None \<Rightarrow> 0xFFFF
      | Some hdr \<Rightarrow> ns_htons (ucast (NOT (fold16 (be_words (20 div 2) hdr 0)))))"

definition icmp_checksum :: "u8 list option \<Rightarrow> nat \<Rightarrow> u16" where
  "icmp_checksum msg len =
     (case msg of
        None \<Rightarrow> 0xFFFF
      | Some bytes \<Rightarrow>
          if len = 0 then 0xFFFF
          else
            let s = be_words (len div 2) bytes 0;
                s = (if len mod 2 = 1 then s + push_bit 8 (ucast (bytes ! (len - 1))) else s)
            in ns_htons (ucast (NOT (fold16 s))))"

section \<open>The sums as natural numbers\<close>

fun be_total :: "u8 list \<Rightarrow> nat" where
  "be_total [] = 0"
| "be_total [a] = 256 * unat a"
| "be_total (a # b # rest) = 256 * unat a + unat b + be_total rest"

fun le_total :: "u8 list \<Rightarrow> nat" where
  "le_total [] = 0"
| "le_total [a] = unat a"
| "le_total (a # b # rest) = unat a + 256 * unat b + le_total rest"

lemma be_total_append: "even (length xs) \<Longrightarrow> be_total (xs @ ys) = be_total xs + be_total ys"
  by (induction xs rule: be_total.induct) auto

lemma be_total_bound: "be_total xs \<le> 65535 * ((length xs + 1) div 2)"
proof (induction xs rule: be_total.induct)
  case 1
  then show ?case by simp
next
  case (2 a)
  then show ?case using unat_u8 [of a] by simp
next
  case (3 a b rest)
  then show ?case using unat_u8 [of a] unat_u8 [of b] by simp
qed

lemma be_total_bound_even: "even (length xs) \<Longrightarrow> be_total xs \<le> 65535 * (length xs div 2)"
  using be_total_bound [of xs] by (auto elim!: evenE)

lemma le_total_bound: "le_total xs \<le> 65535 * ((length xs + 1) div 2)"
proof (induction xs rule: le_total.induct)
  case 1
  then show ?case by simp
next
  case (2 a)
  then show ?case using unat_u8 [of a] by simp
next
  case (3 a b rest)
  then show ?case using unat_u8 [of a] unat_u8 [of b] by simp
qed

lemma unat_ucast_u16_u32 [simp]: "unat (ucast (w :: u16) :: u32) = unat w"
proof -
  have "unat w < 4294967296" using unat_u16 [of w] by linarith
  then show ?thesis by (simp add: unsigned_ucast_eq take_bit_nat_def)
qed

lemma unat_ucast_u8_u32 [simp]: "unat (ucast (w :: u8) :: u32) = unat w"
proof -
  have "unat w < 4294967296" using unat_u8 [of w] by linarith
  then show ?thesis by (simp add: unsigned_ucast_eq take_bit_nat_def)
qed

text \<open>The accumulators never wrap for messages below 128 KiB.\<close>

lemma unat_be_words:
  assumes "length bs = 2 * n" "unat s + be_total bs < 4294967296"
  shows "unat (be_words n bs s) = unat s + be_total bs"
  using assms
proof (induction n arbitrary: bs s)
  case 0
  then show ?case by simp
next
  case (Suc n)
  then obtain a b rest where bs: "bs = a # b # rest"
    by (cases bs; cases "tl bs") auto
  have w: "unat (ns_ntohs (ld16 (a # b # rest))) = 256 * unat a + unat b"
    by (rule unat_ntohs_ld16)
  have step: "unat (s + ucast (ns_ntohs (ld16 (a # b # rest)))) = unat s + (256 * unat a + unat b)"
    using Suc.prems(2) w by (simp add: unat_word_ariths bs)
  show ?case
    using Suc.IH [of rest "s + ucast (ns_ntohs (ld16 bs))"] Suc.prems step
    by (simp add: bs)
qed

lemma be_words_append: "length bs = 2 * n \<Longrightarrow> be_words n (bs @ rest) s = be_words n bs s"
proof (induction n arbitrary: bs s)
  case 0
  then show ?case by simp
next
  case (Suc n)
  then obtain a b tail where bs: "bs = a # b # tail"
    by (cases bs; cases "tl bs") auto
  have "ld16 (bs @ rest) = ld16 bs" by (simp add: bs ld16_def)
  then show ?case using Suc by (simp add: bs)
qed

lemma unat_push8: "unat (push_bit 8 (ucast (a :: u8)) :: u32) = 256 * unat a"
  using unat_u8 [of a] by (simp add: push_bit_eq_mult unat_word_ariths)

lemma unat_be_finish:
  assumes "unat s = n"
  shows "unat (ucast (NOT (fold16 s)) :: u16) = 65535 - csum16 n"
  using assms csum16_le [of n] unat_not_low16 [of "fold16 s"] by (simp add: unat_fold16)

section \<open>What the checksums compute\<close>

lemma ip_checksum_value:
  assumes "length hdr = 20"
  shows "unat (ns_ntohs (ip_checksum (Some (hdr @ rest)))) = 65535 - csum16 (be_total hdr)"
proof -
  have "be_total hdr < 4294967296"
    using be_total_bound [of hdr] assms by simp
  then have "unat (be_words 10 hdr 0) = be_total hdr"
    using unat_be_words [of hdr 10 0] assms by simp
  moreover have "be_words 10 (hdr @ rest) 0 = be_words 10 hdr 0"
    using be_words_append [of hdr 10] assms by simp
  ultimately show ?thesis
    by (simp add: ip_checksum_def unat_be_finish)
qed

lemma icmp_checksum_value:
  assumes "bytes \<noteq> []" "length bytes < 131072"
  shows "unat (ns_ntohs (icmp_checksum (Some bytes) (length bytes))) = 65535 - csum16 (be_total bytes)"
proof (cases "even (length bytes)")
  case True
  have "be_total bytes < 4294967296"
    using be_total_bound_even [OF True] assms(2) by linarith
  then have "unat (be_words (length bytes div 2) bytes 0) = be_total bytes"
    using unat_be_words [of bytes "length bytes div 2" 0] True by simp
  moreover have "length bytes mod 2 = 0" using True by presburger
  ultimately show ?thesis
    using assms(1) by (simp add: icmp_checksum_def unat_be_finish)
next
  case False
  then obtain pre x where bytes: "bytes = pre @ [x]"
    using assms(1) rev_exhaust by metis
  with False have ev: "even (length pre)" by simp
  have x: "unat x < 256" by (rule unat_u8)
  have total: "be_total bytes = be_total pre + 256 * unat x"
    using be_total_append [OF ev, of "[x]"] by (simp add: bytes)
  have small: "be_total pre + 256 * unat x < 4294967296"
    using be_total_bound_even [OF ev] assms(2) x by (simp add: bytes)
  have half: "(length pre + 1) div 2 = length pre div 2" using ev by presburger
  have "unat (be_words (length bytes div 2) bytes 0) = be_total pre"
    using unat_be_words [of pre "length pre div 2" 0] ev small
      be_words_append [of pre "length pre div 2" "[x]" 0] by (simp add: bytes half)
  then have "unat (be_words (length bytes div 2) bytes 0 + push_bit 8 (ucast x)) = be_total bytes"
    using small by (simp add: unat_word_ariths(1) unat_push8 total)
  moreover have "length bytes mod 2 = 1" "bytes ! (length bytes - 1) = x"
    using ev by (simp_all add: bytes) presburger
  ultimately show ?thesis
    using assms(1) by (simp add: icmp_checksum_def unat_be_finish)
qed

lemma csum16_eq_65535: "csum16 n = 65535 \<longleftrightarrow> 0 < n \<and> 65535 dvd n"
proof (cases n)
  case 0
  then show ?thesis by (simp add: csum16_def)
next
  case (Suc m)
  have "m mod 65535 = 65534 \<longleftrightarrow> 65535 dvd Suc m"
    by (simp add: dvd_eq_mod_eq_0 mod_Suc)
  then show ?thesis by (simp add: csum16_def Suc)
qed

lemma csum16_complement: "65535 dvd (n + (65535 - csum16 n))"
proof (cases n)
  case 0
  then show ?thesis by (simp add: csum16_def)
next
  case (Suc m)
  define q r where "q = m div 65535" and "r = m mod 65535"
  have m: "m = 65535 * q + r" and r: "r < 65535" by (simp_all add: q_def r_def)
  have "Suc m + (65535 - (r + 1)) = 65535 * (q + 1)" using r by (simp add: m)
  then have "65535 dvd (Suc m + (65535 - (m mod 65535 + 1)))"
    unfolding r_def by (metis dvd_triv_left)
  then show ?thesis by (simp add: csum16_def Suc)
qed

lemma ntohs_zero [simp]: "ns_ntohs 0 = 0" "ns_htons 0 = 0"
  by (simp_all add: ns_order_defs ns_bswap16_def)

lemma checksum_zero_iff:
  "unat (ns_ntohs c) = 65535 - csum16 n \<Longrightarrow> c = 0 \<longleftrightarrow> 0 < n \<and> 65535 dvd n"
proof -
  assume c: "unat (ns_ntohs c) = 65535 - csum16 n"
  have "c = 0 \<longleftrightarrow> ns_ntohs c = 0" using htons_inject(2) [of c 0] by simp
  also have "\<dots> \<longleftrightarrow> unat (ns_ntohs c) = 0" by (simp add: unat_eq_zero)
  also have "\<dots> \<longleftrightarrow> csum16 n = 65535" using c csum16_le [of n] by linarith
  finally show ?thesis by (simp add: csum16_eq_65535)
qed

lemma ip_checksum_ok_iff:
  assumes "length hdr = 20"
  shows "ip_checksum (Some (hdr @ rest)) = 0 \<longleftrightarrow> 0 < be_total hdr \<and> 65535 dvd be_total hdr"
  by (rule checksum_zero_iff [OF ip_checksum_value [OF assms]])

lemma icmp_checksum_ok_iff:
  assumes "bytes \<noteq> []" "length bytes < 131072"
  shows "icmp_checksum (Some bytes) (length bytes) = 0
    \<longleftrightarrow> 0 < be_total bytes \<and> 65535 dvd be_total bytes"
  by (rule checksum_zero_iff [OF icmp_checksum_value [OF assms]])

text \<open>Writing the checksum of the message into its zeroed field makes the sum verify.\<close>

lemma be_total_le16: "be_total (le16 c @ rest) = unat (ns_ntohs c) + be_total rest"
proof -
  obtain a b where ab: "le16 c = [a, b]" by (simp add: le16_def)
  then have "ld16 [a, b] = c" using ld16_le16_exact [of c] by simp
  then show ?thesis using unat_ntohs_ld16 [of a b "[]"] by (simp add: ab)
qed

lemma total_with_checksum:
  assumes "even (length pre)"
    and "unat (ns_ntohs c) = 65535 - csum16 (be_total (pre @ [0, 0] @ post))"
  shows "0 < be_total (pre @ le16 c @ post) \<and> 65535 dvd be_total (pre @ le16 c @ post)"
proof -
  let ?n = "be_total (pre @ [0, 0] @ post)"
  have "be_total (pre @ le16 c @ post) = ?n + (65535 - csum16 ?n)"
    using assms by (simp add: be_total_append be_total_le16)
  moreover have "0 < ?n + (65535 - csum16 ?n)"
    by (cases "?n = 0") (simp_all add: csum16_def)
  ultimately show ?thesis using csum16_complement [of ?n] by simp
qed

section \<open>Corrupted bytes\<close>

lemma be_total_update:
  "i < length xs \<Longrightarrow> be_total (xs[i := b]) + (if even i then 256 else 1) * unat (xs ! i)
     = be_total xs + (if even i then 256 else 1) * unat b"
proof (induction xs arbitrary: i rule: be_total.induct)
  case 1
  then show ?case by simp
next
  case (2 a)
  then show ?case by simp
next
  case (3 x y rest)
  consider "i = 0" | "i = 1" | j where "i = Suc (Suc j)"
    by (metis One_nat_def not0_implies_Suc)
  then show ?case
  proof cases
    case (3 j)
    then show ?thesis using "3.IH" [of j] "3.prems" by simp
  qed simp_all
qed

lemma dvd_close_numbers:
  fixes m n :: nat
  assumes "k dvd m" "k dvd n" "m < n + k" "n < m + k"
  shows "m = n"
proof -
  have "k dvd m - n" "k dvd n - m" using assms(1,2) by (simp_all add: dvd_diff_nat)
  moreover have "m - n < k" "n - m < k" using assms(3,4) by linarith+
  ultimately have "m - n = 0" "n - m = 0" by (metis nat_dvd_not_less neq0_conv)+
  then show ?thesis by simp
qed

lemma corrupted_total:
  assumes "i < length xs" "b \<noteq> xs ! i" "65535 dvd be_total xs"
  shows "\<not> 65535 dvd be_total (xs[i := b])"
proof
  assume dvd: "65535 dvd be_total (xs[i := b])"
  let ?c = "if even i then 256 else (1 :: nat)"
  note upd = be_total_update [OF assms(1), of b]
  have "be_total (xs[i := b]) = be_total xs"
    using upd unat_u8 [of b] unat_u8 [of "xs ! i"]
    by (intro dvd_close_numbers [OF dvd assms(3)]) (simp_all split: if_splits)
  then have "unat b = unat (xs ! i)" using upd by (simp split: if_splits)
  then show False using assms(2) by (simp add: word_unat_eq_iff)
qed

section \<open>Properties\<close>

text \<open>
  C13 Corruption is detected: if the header checksum of the 20 bytes of an IP header verifies, or the
  ICMP checksum of a message of less than 131072 bytes, then after changing any single byte of the
  header, or of the message, it no longer does. The bound is the one below which the 32-bit sum of
  \<open>icmp_checksum\<close> cannot wrap around.
\<close>

theorem corruption_detected:
  assumes "b \<noteq> bytes ! i" "i < length bytes"
  shows "(length bytes = 20 \<longrightarrow> ip_checksum (Some (bytes @ rest)) = 0 \<longrightarrow>
      ip_checksum (Some (bytes[i := b] @ rest)) \<noteq> 0) \<and>
    (length bytes < 131072 \<longrightarrow> icmp_checksum (Some bytes) (length bytes) = 0 \<longrightarrow>
      icmp_checksum (Some (bytes[i := b])) (length bytes) \<noteq> 0)"
proof (intro conjI impI)
  assume "length bytes = 20" "ip_checksum (Some (bytes @ rest)) = 0"
  then show "ip_checksum (Some (bytes[i := b] @ rest)) \<noteq> 0"
    using corrupted_total [OF assms(2,1)] by (simp add: ip_checksum_ok_iff)
next
  assume len: "length bytes < 131072" and ok: "icmp_checksum (Some bytes) (length bytes) = 0"
  have "bytes \<noteq> []" "bytes[i := b] \<noteq> []" using assms(2) by auto
  then show "icmp_checksum (Some (bytes[i := b])) (length bytes) \<noteq> 0"
    using ok corrupted_total [OF assms(2,1)] icmp_checksum_ok_iff [of bytes]
      icmp_checksum_ok_iff [of "bytes[i := b]"] len by simp
qed

theorem corruption_detected_witness:
  "icmp_checksum (Some [0xFF, 0xFF]) (length [0xFF :: u8, 0xFF]) = 0 \<and>
   icmp_checksum (Some [0xFF, 0xFE]) (length [0xFF :: u8, 0xFF]) \<noteq> 0"
proof -
  have "be_total [0xFF, 0xFF] = 65535" by simp
  then have ok: "icmp_checksum (Some [0xFF, 0xFF]) (length [0xFF :: u8, 0xFF]) = 0"
    by (subst icmp_checksum_ok_iff) simp_all
  have "[0xFF :: u8, 0xFF][1 := 0xFE] = [0xFF, 0xFE]" by simp
  then show ?thesis
    using corruption_detected [of "0xFE" "[0xFF, 0xFF]" 1 "[]"] ok by (simp del: One_nat_def)
qed

end
