(* ===== verification/Wire_Format.thy ===== *)
theory Wire_Format
  imports Checksum
begin

text \<open>
  The packed protocol headers: \<open>EthernetHeader\<close> (\<open>protocols/ethernet.h\<close>), \<open>ArpPacket\<close>
  (\<open>arp.h\<close>), \<open>IpHeader\<close> (\<open>ip.h\<close>), \<open>IcmpHeader\<close> (\<open>icmp.h\<close>), \<open>UdpHeader\<close> (\<open>udp.h\<close>) and
  \<open>TcpHeader\<close> (\<open>tcp.h\<close>). The code reads and writes them by casting a byte pointer to a
  pointer to the packed structure, so each header has the bytes of its structure in memory
  (\<open>..._bytes\<close>) and the structure seen at a byte pointer (\<open>..._at\<close>). The locale
  \<open>packed_struct\<close> is what the protocol code relies on about such a cast; it is interpreted for
  all six headers.
\<close>

section \<open>Packed structures\<close>

locale packed_struct =
  fixes bytes_of :: "'s \<Rightarrow> u8 list"
    and struct_at :: "u8 list \<Rightarrow> 's"
    and width :: nat
    and wf :: "'s \<Rightarrow> bool"
  assumes length_bytes: "wf s \<Longrightarrow> length (bytes_of s) = width"
    and at_bytes: "wf s \<Longrightarrow> struct_at (bytes_of s @ rest) = s"
    and bytes_at: "width \<le> length bs \<Longrightarrow> bytes_of (struct_at bs) = take width bs"
    and wf_at: "width \<le> length bs \<Longrightarrow> wf (struct_at bs)"
begin

lemma at_bytes_exact: "wf s \<Longrightarrow> struct_at (bytes_of s) = s"
  using at_bytes [of s "[]"] by simp

lemma at_prefix:
  assumes "width \<le> length bs"
  shows "struct_at (bs @ rest) = struct_at bs"
proof -
  have "struct_at (bytes_of (struct_at bs) @ (drop width bs @ rest)) = struct_at bs"
    by (rule at_bytes [OF wf_at [OF assms]])
  then show ?thesis by (simp add: bytes_at [OF assms] append_assoc [symmetric] del: append_assoc)
qed

lemma bytes_of_inject: "wf s \<Longrightarrow> wf t \<Longrightarrow> bytes_of s = bytes_of t \<Longrightarrow> s = t"
  by (metis at_bytes_exact)

text \<open>A structure written into a buffer is the structure read there afterwards.\<close>

lemma at_bwrite:
  assumes "wf s" "off + width \<le> length buf"
  shows "struct_at (drop off (bwrite buf off (bytes_of s))) = s"
proof -
  have "drop off (bwrite buf off (bytes_of s)) = bytes_of s @ drop (off + width) buf"
    using assms by (simp add: bwrite_def length_bytes)
  then show ?thesis using assms by (simp add: at_bytes)
qed

lemma split_at:
  assumes "width \<le> length bs"
  shows "bs = bytes_of (struct_at bs) @ drop width bs"
  using assms by (simp add: bytes_at)

end

lemma drop_le16 [layout_simps]: "2 \<le> n \<Longrightarrow> drop n (le16 w @ rest) = drop (n - 2) rest"
  by simp

lemma drop_le32 [layout_simps]: "4 \<le> n \<Longrightarrow> drop n (le32 w @ rest) = drop (n - 4) rest"
  by simp

lemma drop_mac [layout_simps]:
  "length m = 6 \<Longrightarrow> 6 \<le> n \<Longrightarrow> drop n (m @ rest) = drop (n - 6) rest"
  by simp

lemma nth_le16 [layout_simps]: "2 \<le> n \<Longrightarrow> (le16 w @ rest) ! n = rest ! (n - 2)"
  by (simp add: nth_append)

section \<open>Ethernet\<close>

record EthernetHeader =
  eth_dst_mac :: mac
  eth_src_mac :: mac
  eth_ethertype :: u16

definition eth_bytes :: "EthernetHeader \<Rightarrow> u8 list" where
  "eth_bytes h = eth_dst_mac h @ eth_src_mac h @ le16 (eth_ethertype h)"

definition eth_at :: "u8 list \<Rightarrow> EthernetHeader" where
  "eth_at bs = \<lparr>eth_dst_mac = take 6 bs, eth_src_mac = take 6 (drop 6 bs),
                eth_ethertype = ld16 (drop 12 bs)\<rparr>"

definition eth_wf :: "EthernetHeader \<Rightarrow> bool" where
  "eth_wf h \<longleftrightarrow> length (eth_dst_mac h) = 6 \<and> length (eth_src_mac h) = 6"

interpretation eth: packed_struct eth_bytes eth_at 14 eth_wf
proof unfold_locales
  fix h :: EthernetHeader and rest :: "u8 list"
  assume "eth_wf h"
  then show "length (eth_bytes h) = 14" "eth_at (eth_bytes h @ rest) = h"
    by (simp_all add: eth_wf_def eth_bytes_def eth_at_def layout_simps)
next
  fix bs :: "u8 list" assume "14 \<le> length bs"
  then show "eth_bytes (eth_at bs) = take 14 bs"
    by (auto simp: Suc_le_length_iff numeral_eq_Suc eth_bytes_def eth_at_def le16_ld16)
next
  fix bs :: "u8 list" assume "14 \<le> length bs"
  then show "eth_wf (eth_at bs)" by (simp add: eth_wf_def eth_at_def)
qed

section \<open>ARP\<close>

record ArpPacket =
  arp_hardware_type :: u16
  arp_protocol_type :: u16
  arp_hardware_addr_len :: u8
  arp_protocol_addr_len :: u8
  arp_opcode :: u16
  arp_sender_hardware_addr :: mac
  arp_sender_protocol_addr :: u32
  arp_target_hardware_addr :: mac
  arp_target_protocol_addr :: u32

definition arp_bytes :: "ArpPacket \<Rightarrow> u8 list" where
  "arp_bytes a =
     le16 (arp_hardware_type a) @ le16 (arp_protocol_type a) @
     [arp_hardware_addr_len a] @ [arp_protocol_addr_len a] @ le16 (arp_opcode a) @
     arp_sender_hardware_addr a @ le32 (arp_sender_protocol_addr a) @
     arp_target_hardware_addr a @ le32 (arp_target_protocol_addr a)"

definition arp_at :: "u8 list \<Rightarrow> ArpPacket" where
  "arp_at bs =
     \<lparr>arp_hardware_type = ld16 bs, arp_protocol_type = ld16 (drop 2 bs),
      arp_hardware_addr_len = bs ! 4, arp_protocol_addr_len = bs ! 5,
      arp_opcode = ld16 (drop 6 bs),
      arp_sender_hardware_addr = take 6 (drop 8 bs),
      arp_sender_protocol_addr = ld32 (drop 14 bs),
      arp_target_hardware_addr = take 6 (drop 18 bs),
      arp_target_protocol_addr = ld32 (drop 24 bs)\<rparr>"

definition arp_wf :: "ArpPacket \<Rightarrow> bool" where
  "arp_wf a \<longleftrightarrow> length (arp_sender_hardware_addr a) = 6 \<and> length (arp_target_hardware_addr a) = 6"

interpretation arp: packed_struct arp_bytes arp_at 28 arp_wf
proof unfold_locales
  fix a :: ArpPacket and rest :: "u8 list"
  assume "arp_wf a"
  then show "length (arp_bytes a) = 28" "arp_at (arp_bytes a @ rest) = a"
    by (simp_all add: arp_wf_def arp_bytes_def arp_at_def layout_simps)
next
  fix bs :: "u8 list" assume "28 \<le> length bs"
  then show "arp_bytes (arp_at bs) = take 28 bs"
    by (auto simp: Suc_le_length_iff numeral_eq_Suc arp_bytes_def arp_at_def le16_ld16 le32_ld32)
next
  fix bs :: "u8 list" assume "28 \<le> length bs"
  then show "arp_wf (arp_at bs)" by (simp add: arp_wf_def arp_at_def)
qed

section \<open>IPv4\<close>

record IpHeader =
  ip_version_ihl :: u8
  ip_dscp_ecn :: u8
  ip_total_length :: u16
  ip_identification :: u16
  ip_flags_fragment_offset :: u16
  ip_ttl :: u8
  ip_protocol :: u8
  ip_header_checksum :: u16
  ip_src_ip :: u32
  ip_dst_ip :: u32

definition ip_bytes :: "IpHeader \<Rightarrow> u8 list" where
  "ip_bytes h =
     [ip_version_ihl h] @ [ip_dscp_ecn h] @ le16 (ip_total_length h) @
     le16 (ip_identification h) @ le16 (ip_flags_fragment_offset h) @
     [ip_ttl h] @ [ip_protocol h] @ le16 (ip_header_checksum h) @
     le32 (ip_src_ip h) @ le32 (ip_dst_ip h)"

definition ip_at :: "u8 list \<Rightarrow> IpHeader" where
  "ip_at bs =
     \<lparr>ip_version_ihl = bs ! 0, ip_dscp_ecn = bs ! 1, ip_total_length = ld16 (drop 2 bs),
      ip_identification = ld16 (drop 4 bs), ip_flags_fragment_offset = ld16 (drop 6 bs),
      ip_ttl = bs ! 8, ip_protocol = bs ! 9, ip_header_checksum = ld16 (drop 10 bs),
      ip_src_ip = ld32 (drop 12 bs), ip_dst_ip = ld32 (drop 16 bs)\<rparr>"

interpretation ip: packed_struct ip_bytes ip_at 20 "\<lambda>_. True"
proof unfold_locales
  fix h :: IpHeader and rest :: "u8 list"
  show "length (ip_bytes h) = 20" "ip_at (ip_bytes h @ rest) = h"
    by (simp_all add: ip_bytes_def ip_at_def layout_simps)
next
  fix bs :: "u8 list" assume "20 \<le> length bs"
  then show "ip_bytes (ip_at bs) = take 20 bs"
    by (auto simp: Suc_le_length_iff numeral_eq_Suc ip_bytes_def ip_at_def le16_ld16 le32_ld32)
qed simp

section \<open>ICMP\<close>

record IcmpHeader =
  icmp_type :: u8
  icmp_code :: u8
  icmp_hdr_checksum :: u16
  icmp_id :: u16
  icmp_seq :: u16

definition icmp_bytes :: "IcmpHeader \<Rightarrow> u8 list" where
  "icmp_bytes h =
     [icmp_type h] @ [icmp_code h] @ le16 (icmp_hdr_checksum h) @ le16 (icmp_id h) @ le16 (icmp_seq h)"

definition icmp_at :: "u8 list \<Rightarrow> IcmpHeader" where
  "icmp_at bs =
     \<lparr>icmp_type = bs ! 0, icmp_code = bs ! 1, icmp_hdr_checksum = ld16 (drop 2 bs),
      icmp_id = ld16 (drop 4 bs), icmp_seq = ld16 (drop 6 bs)\<rparr>"

interpretation icmp: packed_struct icmp_bytes icmp_at 8 "\<lambda>_. True"
proof unfold_locales
  fix h :: IcmpHeader and rest :: "u8 list"
  show "length (icmp_bytes h) = 8" "icmp_at (icmp_bytes h @ rest) = h"
    by (simp_all add: icmp_bytes_def icmp_at_def layout_simps)
next
  fix bs :: "u8 list" assume "8 \<le> length bs"
  then show "icmp_bytes (icmp_at bs) = take 8 bs"
    by (auto simp: Suc_le_length_iff numeral_eq_Suc icmp_bytes_def icmp_at_def le16_ld16)
qed simp

section \<open>UDP\<close>

record UdpHeader =
  udp_src_port :: u16
  udp_dst_port :: u16
  udp_length :: u16
  udp_hdr_checksum :: u16

definition udp_bytes :: "UdpHeader \<Rightarrow> u8 list" where
  "udp_bytes h =
     le16 (udp_src_port h) @ le16 (udp_dst_port h) @ le16 (udp_length h) @ le16 (udp_hdr_checksum h)"

definition udp_at :: "u8 list \<Rightarrow> UdpHeader" where
  "udp_at bs =
     \<lparr>udp_src_port = ld16 bs, udp_dst_port = ld16 (drop 2 bs), udp_length = ld16 (drop 4 bs),
      udp_hdr_checksum = ld16 (drop 6 bs)\<rparr>"

interpretation udp: packed_struct udp_bytes udp_at 8 "\<lambda>_. True"
proof unfold_locales
  fix h :: UdpHeader and rest :: "u8 list"
  show "length (udp_bytes h) = 8" "udp_at (udp_bytes h @ rest) = h"
    by (simp_all add: udp_bytes_def udp_at_def layout_simps)
next
  fix bs :: "u8 list" assume "8 \<le> length bs"
  then show "udp_bytes (udp_at bs) = take 8 bs"
    by (auto simp: Suc_le_length_iff numeral_eq_Suc udp_bytes_def udp_at_def le16_ld16)
qed simp

section \<open>TCP\<close>

record TcpHeader =
  tcp_src_port :: u16
  tcp_dst_port :: u16
  tcp_seq_num :: u32
  tcp_ack_num :: u32
  tcp_data_off_flags :: u16
  tcp_window :: u16
  tcp_hdr_checksum :: u16
  tcp_urgent_ptr :: u16

definition tcp_bytes :: "TcpHeader \<Rightarrow> u8 list" where
  "tcp_bytes h =
     le16 (tcp_src_port h) @ le16 (tcp_dst_port h) @ le32 (tcp_seq_num h) @ le32 (tcp_ack_num h) @
     le16 (tcp_data_off_flags h) @ le16 (tcp_window h) @ le16 (tcp_hdr_checksum h) @
     le16 (tcp_urgent_ptr h)"

definition tcp_at :: "u8 list \<Rightarrow> TcpHeader" where
  "tcp_at bs =
     \<lparr>tcp_src_port = ld16 bs, tcp_dst_port = ld16 (drop 2 bs), tcp_seq_num = ld32 (drop 4 bs),
      tcp_ack_num = ld32 (drop 8 bs), tcp_data_off_flags = ld16 (drop 12 bs),
      tcp_window = ld16 (drop 14 bs), tcp_hdr_checksum = ld16 (drop 16 bs),
      tcp_urgent_ptr = ld16 (drop 18 bs)\<rparr>"

interpretation tcp: packed_struct tcp_bytes tcp_at 20 "\<lambda>_. True"
proof unfold_locales
  fix h :: TcpHeader and rest :: "u8 list"
  show "length (tcp_bytes h) = 20" "tcp_at (tcp_bytes h @ rest) = h"
    by (simp_all add: tcp_bytes_def tcp_at_def layout_simps)
next
  fix bs :: "u8 list" assume "20 \<le> length bs"
  then show "tcp_bytes (tcp_at bs) = take 20 bs"
    by (auto simp: Suc_le_length_iff numeral_eq_Suc tcp_bytes_def tcp_at_def le16_ld16 le32_ld32)
qed simp

lemma bytes_widths [simp]:
  "length (ip_bytes ih) = 20" "length (icmp_bytes ch) = 8"
  "length (udp_bytes uh) = 8" "length (tcp_bytes th) = 20"
  by (simp_all add: ip.length_bytes icmp.length_bytes udp.length_bytes tcp.length_bytes)

end
