(* ===== verification/Packet.thy ===== *)
theory Packet
  imports Wire_Format
begin

text \<open>
  Packet buffers (\<open>network/packet.h\<close>, \<open>network/packet.c\<close>): a buffer of \<open>PKT_HEADROOM\<close> bytes
  of headroom followed by the capacity, and a data pointer that retreats when a header is
  prepended and advances when one is stripped. \<open>pk_data\<close> is the offset of the data pointer from
  \<open>head\<close>, \<open>pk_buf\<close> the bytes from \<open>head\<close>. The operations that only touch an existing packet are
  here; those that allocate or free are in the theory of the simulated heap.
\<close>

abbreviation (input) PKT_HEADROOM :: nat where "PKT_HEADROOM \<equiv> 64"

record Packet =
  pk_head :: ptr
  pk_buf :: "u8 list"
  pk_data :: nat
  pk_len :: nat
  pk_capacity :: nat
  pk_id :: u32
  pk_layer :: int

text \<open>The bytes at the data pointer, and the valid data.\<close>

definition pk_rest :: "Packet \<Rightarrow> u8 list" where
  "pk_rest p = drop (pk_data p) (pk_buf p)"

definition pk_bytes :: "Packet \<Rightarrow> u8 list" where
  "pk_bytes p = bread (pk_buf p) (pk_data p) (pk_len p)"

definition packet_prepend :: "Packet \<Rightarrow> u8 list \<Rightarrow> nat \<Rightarrow> int \<times> Packet" where
  "packet_prepend p header header_len =
     (if pk_data p < header_len then (- 1, p)
      else
        let p = p\<lparr>pk_data := pk_data p - header_len\<rparr>;
            p = p\<lparr>pk_len := pk_len p + header_len\<rparr>;
            p = p\<lparr>pk_buf := bwrite (pk_buf p) (pk_data p) (take header_len header)\<rparr>
        in (0, p))"

definition packet_strip :: "Packet \<Rightarrow> nat \<Rightarrow> int \<times> Packet" where
  "packet_strip p header_len =
     (if header_len > pk_len p then (- 1, p)
      else
        let p = p\<lparr>pk_data := pk_data p + header_len\<rparr>;
            p = p\<lparr>pk_len := pk_len p - header_len\<rparr>
        in (0, p))"

text \<open>
  The structure a fresh allocation is filled in with by \<open>packet_create\<close>; \<open>fill\<close> is what the
  buffer happens to contain.
\<close>

definition packet_fresh :: "ptr \<Rightarrow> (nat \<Rightarrow> u8) \<Rightarrow> nat \<Rightarrow> u32 \<Rightarrow> Packet" where
  "packet_fresh head fill capacity next_id =
     \<lparr>pk_head = head, pk_buf = map fill [0..<PKT_HEADROOM + capacity], pk_data = PKT_HEADROOM,
      pk_len = 0, pk_capacity = capacity, pk_id = next_id, pk_layer = 0\<rparr>"

section \<open>The packet invariant\<close>

text \<open>The data lies inside the buffer, which has the size it was allocated with.\<close>

definition packet_ok :: "Packet \<Rightarrow> bool" where
  "packet_ok p \<longleftrightarrow>
     length (pk_buf p) = PKT_HEADROOM + pk_capacity p \<and>
     pk_data p + pk_len p \<le> PKT_HEADROOM + pk_capacity p"

lemma packet_okD:
  assumes "packet_ok p"
  shows "pk_data p + pk_len p \<le> length (pk_buf p)" "length (pk_bytes p) = pk_len p"
  using assms by (simp_all add: packet_ok_def pk_bytes_def)

lemma packet_fresh_ok [simp]: "packet_ok (packet_fresh h fill n i)"
  by (simp add: packet_ok_def packet_fresh_def)

lemma packet_prepend_ok:
  assumes "packet_ok p" "length header = n" "packet_prepend p header n = (r, p')"
  shows "packet_ok p'"
  using assms by (auto simp: packet_prepend_def packet_ok_def Let_def split: if_splits)

lemma packet_strip_ok:
  assumes "packet_ok p" "packet_strip p n = (r, p')"
  shows "packet_ok p'"
  using assms by (auto simp: packet_strip_def packet_ok_def Let_def split: if_splits)

section \<open>Prepending and stripping\<close>

lemma packet_prepend_fail:
  "pk_data p < n \<Longrightarrow> packet_prepend p header n = (- 1, p)"
  by (simp add: packet_prepend_def)

lemma packet_prepend_fst: "fst (packet_prepend p header n) = (if pk_data p < n then - 1 else 0)"
  by (simp add: packet_prepend_def Let_def)

lemma packet_prepend_frame [simp]:
  "pk_head (snd (packet_prepend p header n)) = pk_head p"
  "pk_id (snd (packet_prepend p header n)) = pk_id p"
  "pk_layer (snd (packet_prepend p header n)) = pk_layer p"
  "pk_capacity (snd (packet_prepend p header n)) = pk_capacity p"
  by (simp_all add: packet_prepend_def Let_def)

lemma packet_prepend_len:
  "n \<le> pk_data p \<Longrightarrow> pk_len (snd (packet_prepend p header n)) = pk_len p + n"
  "n \<le> pk_data p \<Longrightarrow> pk_data (snd (packet_prepend p header n)) = pk_data p - n"
  by (simp_all add: packet_prepend_def Let_def)

text \<open>After a successful prepend the data is the header followed by the old data.\<close>

lemma packet_prepend_bytes:
  assumes "packet_ok p" "length header = n" "n \<le> pk_data p"
  shows "pk_bytes (snd (packet_prepend p header n)) = header @ pk_bytes p"
proof -
  have fits: "pk_data p + pk_len p \<le> length (pk_buf p)" using assms by (simp add: packet_okD)
  let ?buf = "bwrite (pk_buf p) (pk_data p - n) header"
  have "bread ?buf (pk_data p - n) (n + pk_len p)
      = bread ?buf (pk_data p - n) n @ bread ?buf (pk_data p) (pk_len p)"
    using assms by (simp add: bread_split)
  also have "bread ?buf (pk_data p - n) n = header"
    using assms fits by simp
  also have "bread ?buf (pk_data p) (pk_len p) = bread (pk_buf p) (pk_data p) (pk_len p)"
    using assms fits by (simp add: bread_bwrite_after)
  finally show ?thesis
    using assms by (simp add: packet_prepend_def pk_bytes_def Let_def add.commute)
qed

lemma packet_strip_bytes:
  assumes "packet_ok p" "n \<le> pk_len p"
  shows "pk_bytes p = take n (pk_bytes p) @ pk_bytes (snd (packet_strip p n))"
proof -
  have "pk_bytes p = bread (pk_buf p) (pk_data p) n @ bread (pk_buf p) (pk_data p + n) (pk_len p - n)"
    using assms(2) bread_split [of "pk_buf p" "pk_data p" n "pk_len p - n"]
    by (simp add: pk_bytes_def)
  moreover have "length (bread (pk_buf p) (pk_data p) n) = n"
    using assms packet_okD(1) [of p] by simp
  ultimately show ?thesis
    using assms(2) by (simp add: packet_strip_def pk_bytes_def Let_def)
qed

lemma pk_rest_bytes: "pk_rest p = pk_bytes p @ drop (pk_len p) (pk_rest p)"
  by (simp add: pk_rest_def pk_bytes_def bread_def del: drop_drop)

text \<open>
  The bytes in front of the data pointer: after a strip the header stays readable there, which
  the transport handlers use to read the IP header back.
\<close>

definition pk_before :: "Packet \<Rightarrow> nat \<Rightarrow> u8 list" where
  "pk_before p n = bread (pk_buf p) (pk_data p - n) n"

lemma packet_strip_before:
  assumes "n \<le> pk_len p"
  shows "pk_before (snd (packet_strip p n)) n = take n (pk_bytes p)"
  using assms by (simp add: packet_strip_def Let_def pk_before_def pk_bytes_def bread_def)

section \<open>Properties\<close>

text \<open>
  C30 Prepending a header that fits the headroom and stripping as many bytes again gives back the
  packet's data, length and data pointer, with the header in front of the data; prepending beyond
  the headroom or stripping more than the data fails and changes nothing.
\<close>

theorem prepend_strip:
  assumes "packet_ok p" "length header = n" "packet_prepend p header n = (r, q)"
  shows "if n \<le> pk_data p
    then r = 0 \<and> packet_ok q \<and> pk_bytes q = header @ pk_bytes p \<and>
      (\<exists>s. packet_strip q n = (0, s) \<and> pk_bytes s = pk_bytes p \<and> pk_data s = pk_data p \<and>
           pk_len s = pk_len p \<and> pk_before s n = header) \<and>
      (\<forall>m > pk_len q. packet_strip q m = (- 1, q))
    else r = - 1 \<and> q = p"
proof (cases "n \<le> pk_data p")
  case True
  then have q: "q = snd (packet_prepend p header n)" "r = 0"
    using assms(3) by (auto simp: packet_prepend_def Let_def)
  have bytes: "pk_bytes q = header @ pk_bytes p"
    unfolding q using packet_prepend_bytes [OF assms(1,2) True] .
  have ok: "packet_ok q" by (rule packet_prepend_ok [OF assms])
  have len: "pk_len q = pk_len p + n" "pk_data q = pk_data p - n"
    unfolding q using packet_prepend_len [OF True] by auto
  let ?s = "snd (packet_strip q n)"
  have strip: "packet_strip q n = (0, ?s)" "pk_data ?s = pk_data p" "pk_len ?s = pk_len p"
    using len True by (simp_all add: packet_strip_def Let_def)
  have "pk_bytes q = take n (pk_bytes q) @ pk_bytes ?s"
    using packet_strip_bytes [OF ok, of n] len by simp
  then have "pk_bytes ?s = pk_bytes p" using bytes assms(2) by simp
  moreover have "pk_before ?s n = header"
    using packet_strip_before [of n q] len bytes assms(2) by simp
  moreover have "packet_strip q m = (- 1, q)" if "m > pk_len q" for m
    using that by (simp add: packet_strip_def)
  ultimately show ?thesis using True q(2) ok bytes strip by auto
next
  case False
  then show ?thesis using assms(3) by (auto simp: packet_prepend_def)
qed

theorem prepend_strip_witness:
  "fst (packet_prepend (packet_fresh 1 (\<lambda>_. 0) 4 1) [1, 2, 3] 3) = 0 \<and>
   pk_bytes (snd (packet_prepend (packet_fresh 1 (\<lambda>_. 0) 4 1) [1, 2, 3] 3)) = [1, 2, 3]"
proof -
  define p where "p = packet_fresh 1 (\<lambda>_. 0) 4 1"
  have p: "packet_ok p" "3 \<le> pk_data p" "pk_bytes p = []"
    by (simp_all add: p_def packet_fresh_def packet_ok_def pk_bytes_def)
  show ?thesis
    using prepend_strip [OF p(1), of "[1, 2, 3]" 3 "fst (packet_prepend p [1, 2, 3] 3)"
        "snd (packet_prepend p [1, 2, 3] 3)"] p
    unfolding p_def [symmetric] by simp
qed

end
