(* ===== verification/Event_Queue.thy ===== *)
theory Event_Queue
  imports Prelude "HOL-Library.Multiset"
begin

text \<open>
  Events and the time-ordered event queue (\<open>engine/event.h\<close>, \<open>engine/event.c\<close>). The queue is
  modelled as the code has it, an array with a count and a capacity into which an event is
  inserted by shifting the later ones up by one; the lemmas show that this is a stable insertion
  into a list sorted by timestamp. The locale \<open>timed_queue\<close> is what the scheduler relies on.
\<close>

section \<open>Events\<close>

datatype EventType =
    EVT_PACKET_SEND | EVT_PACKET_RECEIVE | EVT_ARP_REQUEST | EVT_ARP_REPLY
  | EVT_ROUTING_UPDATE | EVT_ROUTE_ADDED | EVT_LINK_UP | EVT_LINK_DOWN | EVT_TIMER_EXPIRED
  | EVT_RENDER | EVT_RESET | EVT_MAC_AGE | EVT_TCP_RETRANSMIT
  | EVT_RIP_UPDATE | EVT_RIP_TIMEOUT | EVT_RIP_GC
  | EVT_OSPF_HELLO | EVT_OSPF_DEAD | EVT_OSPF_SPF
  | EVT_BGP_KEEPALIVE | EVT_BGP_HOLD | EVT_BGP_CONNECT_RETRY
  | EVT_EIGRP_HELLO | EVT_EIGRP_HOLD
  | EVT_ISIS_HELLO | EVT_ISIS_HOLD | EVT_ISIS_SPF | EVT_ISIS_LSP_REGEN
  | EVT_NAT_GC | EVT_TYPE_COUNT

text \<open>
  \<open>type < 0 || type >= EVT_TYPE_COUNT\<close>: of the enumerators only the sentinel is out of range.
\<close>

definition evt_in_range :: "EventType \<Rightarrow> bool" where
  "evt_in_range type \<longleftrightarrow> type \<noteq> EVT_TYPE_COUNT"

text \<open>
  An \<open>EventCallback\<close> is a pointer to one of the functions of the program with that type, the
  null pointer, or a function of the application that uses the library.
\<close>

datatype EventCallback =
    CB_NULL
  | CB_ethernet_receive_event
  | CB_arp_request_handler
  | CB_arp_reply_handler
  | CB_mac_age_handler
  | CB_tcp_retransmit_handler
  | CB_tcp_time_wait_handler
  | CB_app nat

text \<open>
  The payload of an event is only ever a connection block, which is a slot of a connection
  table: its address is the table's and the index.
\<close>

type_synonym tcb_ptr = "(ptr \<times> nat) option"

record Event =
  ev_self :: ptr
  ev_type :: EventType
  ev_timestamp :: u64
  ev_src_device :: ptr
  ev_dst_device :: ptr
  ev_packet :: ptr
  ev_data :: tcb_ptr
  ev_handler :: EventCallback
  ev_handler_ctx :: ptr

section \<open>The queue\<close>

record EventQueue =
  eq_events :: "Event list"
  eq_count :: nat
  eq_capacity :: nat

text \<open>
  \<open>malloc\<close> leaves the array uninitialised. \<open>realloc\<close> keeps the old contents; growing from
  capacity 0 leaves capacity 0. \<open>grow\<close> says whether \<open>realloc\<close> returned memory.
\<close>

definition event_queue_new :: "nat \<Rightarrow> EventQueue" where
  "event_queue_new capacity =
     \<lparr>eq_events = replicate capacity undefined, eq_count = 0, eq_capacity = capacity\<rparr>"

fun shift_up :: "Event list \<Rightarrow> u64 \<Rightarrow> nat \<Rightarrow> Event list \<times> nat" where
  "shift_up events t 0 = (events, 0)"
| "shift_up events t (Suc i) =
     (if ev_timestamp (events ! i) > t then shift_up (events[i + 1 := events ! i]) t i
      else (events, Suc i))"

definition event_queue_push :: "bool \<Rightarrow> EventQueue \<Rightarrow> Event \<Rightarrow> int \<times> EventQueue" where
  "event_queue_push grow eq e =
     (if eq_count eq \<ge> eq_capacity eq \<and> \<not> grow then (- 1, eq)
      else
        let eq = (if eq_count eq \<ge> eq_capacity eq
                  then eq\<lparr>eq_events := eq_events eq @ replicate (eq_capacity eq * 2 - eq_capacity eq) undefined,
                          eq_capacity := eq_capacity eq * 2\<rparr>
                  else eq);
            (events, i) = shift_up (eq_events eq) (ev_timestamp e) (eq_count eq)
        in (0, eq\<lparr>eq_events := events[i := e], eq_count := eq_count eq + 1\<rparr>))"

definition event_queue_pop :: "EventQueue \<Rightarrow> Event option \<times> EventQueue" where
  "event_queue_pop eq =
     (if eq_count eq = 0 then (None, eq)
      else
        let e = eq_events eq ! 0;
            events = bwrite (eq_events eq) 0 (bread (eq_events eq) 1 (eq_count eq - 1))
        in (Some e, eq\<lparr>eq_events := events, eq_count := eq_count eq - 1\<rparr>))"

definition event_queue_peek :: "EventQueue \<Rightarrow> Event option" where
  "event_queue_peek eq = (if eq_count eq = 0 then None else Some (eq_events eq ! 0))"

definition event_queue_is_empty :: "EventQueue \<Rightarrow> int" where
  "event_queue_is_empty eq = (if eq_count eq = 0 then 1 else 0)"

section \<open>Abstraction to a sorted list\<close>

text \<open>The events waiting, in order; and the invariant of the array.\<close>

definition eq_list :: "EventQueue \<Rightarrow> Event list" where
  "eq_list eq = take (eq_count eq) (eq_events eq)"

definition eq_times :: "EventQueue \<Rightarrow> u64 list" where
  "eq_times eq = map ev_timestamp (eq_list eq)"

definition eq_inv :: "EventQueue \<Rightarrow> bool" where
  "eq_inv eq \<longleftrightarrow>
     0 < eq_capacity eq \<and> eq_count eq \<le> eq_capacity eq \<and>
     length (eq_events eq) = eq_capacity eq \<and> sorted (eq_times eq)"

text \<open>Stable insertion: behind every event that is not later.\<close>

fun insert_event :: "Event \<Rightarrow> Event list \<Rightarrow> Event list" where
  "insert_event e [] = [e]"
| "insert_event e (x # xs) =
     (if ev_timestamp x > ev_timestamp e then e # x # xs else x # insert_event e xs)"

lemma mset_insert_event: "mset (insert_event e xs) = {#e#} + mset xs"
  by (induction xs) auto

lemma set_insert_event: "set (insert_event e xs) = insert e (set xs)"
  using mset_insert_event [of e xs] by (metis set_mset_add_mset_insert set_mset_mset
      add_mset_add_single union_commute)

lemma length_insert_event [simp]: "length (insert_event e xs) = Suc (length xs)"
  by (induction xs) auto

lemma sorted_insert_event:
  "sorted (map ev_timestamp xs) \<Longrightarrow> sorted (map ev_timestamp (insert_event e xs))"
  by (induction xs) (auto simp: set_insert_event)

lemma insert_event_split:
  "sorted (map ev_timestamp xs) \<Longrightarrow>
   insert_event e xs = filter (\<lambda>x. ev_timestamp x \<le> ev_timestamp e) xs @ e #
                       filter (\<lambda>x. ev_timestamp x > ev_timestamp e) xs"
proof (induction xs)
  case Nil
  then show ?case by simp
next
  case (Cons x xs)
  show ?case
  proof (cases "ev_timestamp x > ev_timestamp e")
    case True
    then have later: "\<forall>y \<in> set (x # xs). ev_timestamp y > ev_timestamp e"
      using Cons.prems by fastforce
    then have "filter (\<lambda>y. ev_timestamp y \<le> ev_timestamp e) (x # xs) = []"
      "filter (\<lambda>y. ev_timestamp y > ev_timestamp e) (x # xs) = x # xs"
      by (fastforce simp: filter_empty_conv filter_id_conv)+
    then show ?thesis using True by simp
  next
    case False
    then show ?thesis using Cons by simp
  qed
qed

section \<open>The array operations refine the list operations\<close>

text \<open>
  The shifting loop, seen from any count \<open>n\<close>: the prefix in front of the insertion point is
  untouched, the events behind it have moved up by one.
\<close>

lemma shift_up_spec:
  assumes "n < length events" "shift_up events t n = (events', i)"
  shows "i \<le> n \<and> length events' = length events
    \<and> take i events' = take i events
    \<and> (\<forall>k. i < k \<and> k \<le> n \<longrightarrow> events' ! k = events ! (k - 1))
    \<and> (\<forall>k. n < k \<longrightarrow> events' ! k = events ! k)
    \<and> (\<forall>k. i \<le> k \<and> k < n \<longrightarrow> ev_timestamp (events ! k) > t)
    \<and> (0 < i \<longrightarrow> ev_timestamp (events ! (i - 1)) \<le> t)"
  using assms
proof (induction events t n arbitrary: events' i rule: shift_up.induct)
  case (1 events t)
  then show ?case by auto
next
  case (2 events t m)
  show ?case
  proof (cases "ev_timestamp (events ! m) > t")
    case True
    let ?ev = "events[m + 1 := events ! m]"
    have sh: "shift_up ?ev t m = (events', i)" using True 2(3) by simp
    have len: "m < length ?ev" using 2(2) by simp
    note IH = 2(1) [OF True len sh]
    have "take i events' = take i events" using IH by (simp add: take_update_cancel)
    moreover have "events' ! k = events ! (k - 1)" if "i < k" "k \<le> Suc m" for k
    proof (cases "k \<le> m")
      case True
      then have "events' ! k = ?ev ! (k - 1)" using IH that by blast
      then show ?thesis using True by simp
    next
      case False
      then have "k = Suc m" using that by simp
      moreover have "events' ! Suc m = ?ev ! Suc m" using IH by blast
      ultimately show ?thesis using 2(2) by simp
    qed
    moreover have "events' ! k = events ! k" if "Suc m < k" for k
    proof -
      have "events' ! k = ?ev ! k" using IH that by simp
      then show ?thesis using that by simp
    qed
    moreover have "ev_timestamp (events ! k) > t" if "i \<le> k" "k < Suc m" for k
    proof (cases "k = m")
      case False
      then have "k < m" using that by simp
      then have "ev_timestamp (?ev ! k) > t" using IH that by blast
      then show ?thesis using \<open>k < m\<close> by simp
    qed (use True in simp)
    moreover have "0 < i \<longrightarrow> ev_timestamp (events ! (i - 1)) \<le> t"
      using IH by (auto simp: nth_list_update split: if_splits)
    ultimately show ?thesis using IH by simp
  next
    case False
    then have "events' = events" "i = Suc m" using 2(3) by auto
    then show ?thesis using False by auto
  qed
qed

lemma insert_event_at:
  assumes "sorted (map ev_timestamp xs)" "i \<le> length xs"
    and "\<forall>k. i \<le> k \<and> k < length xs \<longrightarrow> ev_timestamp (xs ! k) > ev_timestamp e"
    and "0 < i \<longrightarrow> ev_timestamp (xs ! (i - 1)) \<le> ev_timestamp e"
  shows "insert_event e xs = take i xs @ e # drop i xs"
  using assms
proof (induction xs arbitrary: i)
  case Nil
  then show ?case by simp
next
  case (Cons x xs)
  show ?case
  proof (cases i)
    case 0
    then have "ev_timestamp x > ev_timestamp e" using Cons.prems(3) by force
    then show ?thesis using 0 by simp
  next
    case (Suc j)
    have "\<forall>k. j \<le> k \<and> k < length xs \<longrightarrow> ev_timestamp (xs ! k) > ev_timestamp e"
      using Cons.prems(3) Suc by (metis Suc_le_mono Suc_less_eq length_Cons nth_Cons_Suc)
    moreover have "0 < j \<longrightarrow> ev_timestamp (xs ! (j - 1)) \<le> ev_timestamp e"
      using Cons.prems(4) Suc by (cases j) auto
    ultimately have "insert_event e xs = take j xs @ e # drop j xs"
      using Cons.IH [of j] Cons.prems(1,2) Suc by simp
    moreover have "ev_timestamp x \<le> ev_timestamp e"
    proof (cases j)
      case 0
      then show ?thesis using Cons.prems(4) Suc by simp
    next
      case (Suc m)
      then have "xs ! m \<in> set xs" using Cons.prems(2) \<open>i = Suc j\<close> by simp
      then have "ev_timestamp x \<le> ev_timestamp (xs ! m)" using Cons.prems(1) by simp
      then show ?thesis using Cons.prems(4) \<open>i = Suc j\<close> Suc by simp
    qed
    ultimately show ?thesis using Suc by (simp add: not_less [symmetric])
  qed
qed

lemma shift_up_insert:
  assumes "n < length events" "shift_up events t n = (events', i)" "t = ev_timestamp e"
    and "sorted (map ev_timestamp (take n events))"
  shows "take (n + 1) (events'[i := e]) = insert_event e (take n events)"
proof -
  note spec = shift_up_spec [OF assms(1,2)]
  have i: "i \<le> n" and len: "length events' = length events" using spec by auto
  have "insert_event e (take n events) = take i (take n events) @ e # drop i (take n events)"
    using assms spec by (intro insert_event_at) (auto simp: nth_append)
  also have "\<dots> = take (n + 1) (events'[i := e])"
  proof (rule nth_equalityI)
    show "length (take i (take n events) @ e # drop i (take n events))
        = length (take (n + 1) (events'[i := e]))"
      using i len assms(1) by simp
  next
    fix k assume "k < length (take i (take n events) @ e # drop i (take n events))"
    then have k: "k \<le> n" using assms(1) i by simp
    consider "k < i" | "k = i" | "i < k" by linarith
    then show "(take i (take n events) @ e # drop i (take n events)) ! k
        = take (n + 1) (events'[i := e]) ! k"
    proof cases
      case 1
      then have "take i events' ! k = take i events ! k" using spec by simp
      then show ?thesis using 1 i k assms(1) by (simp add: nth_append)
    next
      case 2
      then show ?thesis using i k len assms(1) by (simp add: nth_append)
    next
      case 3
      then have "events' ! k = events ! (k - 1)" using spec k by blast
      then show ?thesis using 3 i k assms(1)
        by (simp add: nth_append nth_Cons')
    qed
  qed
  finally show ?thesis by simp
qed

text \<open>Growing keeps the waiting events and gives room; with it, a push is an insertion.\<close>

lemma event_queue_push_list:
  assumes "eq_inv eq" "event_queue_push grow eq e = (r, eq')" "r = 0"
  shows "eq_inv eq' \<and> eq_list eq' = insert_event e (eq_list eq)"
proof -
  define eq1 where "eq1 = (if eq_count eq \<ge> eq_capacity eq
    then eq\<lparr>eq_events := eq_events eq @ replicate (eq_capacity eq * 2 - eq_capacity eq) undefined,
            eq_capacity := eq_capacity eq * 2\<rparr> else eq)"
  obtain events i where sh: "shift_up (eq_events eq1) (ev_timestamp e) (eq_count eq1) = (events, i)"
    by fastforce
  have count: "eq_count eq1 = eq_count eq" by (simp add: eq1_def)
  have list1: "take (eq_count eq) (eq_events eq1) = eq_list eq"
    using assms(1) by (auto simp: eq1_def eq_list_def eq_inv_def)
  have room: "eq_count eq < length (eq_events eq1)" "length (eq_events eq1) = eq_capacity eq1"
    "0 < eq_capacity eq1"
    using assms(1) by (auto simp: eq1_def eq_inv_def)
  have eq': "eq' = eq1\<lparr>eq_events := events[i := e], eq_count := eq_count eq + 1\<rparr>"
    using assms(2,3) sh
    by (auto simp: event_queue_push_def eq1_def Let_def split: if_splits prod.splits)
  have srt: "sorted (map ev_timestamp (take (eq_count eq) (eq_events eq1)))"
    using assms(1) by (simp add: list1 eq_inv_def eq_times_def)
  have "take (eq_count eq + 1) (events[i := e]) = insert_event e (eq_list eq)"
    using shift_up_insert [OF room(1) _ refl srt] sh by (simp add: count list1)
  then have lst: "eq_list eq' = insert_event e (eq_list eq)"
    by (simp add: eq' eq_list_def)
  have "length events = length (eq_events eq1)"
    using shift_up_spec [OF room(1)] sh by (simp add: count)
  then have "eq_inv eq'"
    using room assms(1) lst sorted_insert_event [of "eq_list eq" e]
    by (simp add: eq_inv_def eq_times_def eq' count)
  then show ?thesis using lst by simp
qed

lemma event_queue_push_fst:
  "fst (event_queue_push grow eq e) = (if eq_count eq \<ge> eq_capacity eq \<and> \<not> grow then - 1 else 0)"
  by (simp add: event_queue_push_def Let_def split: prod.splits)

lemma event_queue_push_fail:
  "event_queue_push grow eq e = (r, eq') \<Longrightarrow> r \<noteq> 0 \<Longrightarrow> r = - 1 \<and> eq' = eq"
  by (auto simp: event_queue_push_def Let_def split: if_splits prod.splits)

lemma event_queue_pop_list:
  assumes "eq_inv eq"
  shows "event_queue_pop eq = (r, eq') \<Longrightarrow>
    (case eq_list eq of [] \<Rightarrow> r = None \<and> eq' = eq
     | x # xs \<Rightarrow> r = Some x \<and> eq_inv eq' \<and> eq_list eq' = xs)"
proof (cases "eq_count eq")
  case 0
  then show "event_queue_pop eq = (r, eq') \<Longrightarrow> ?thesis"
    by (simp add: event_queue_pop_def eq_list_def)
next
  case (Suc n)
  assume pop: "event_queue_pop eq = (r, eq')"
  have len: "Suc n \<le> length (eq_events eq)" using assms Suc by (simp add: eq_inv_def)
  then obtain x rest where ev: "eq_events eq = x # rest" by (cases "eq_events eq") auto
  have lst: "eq_list eq = x # take n rest" using Suc by (simp add: eq_list_def ev)
  have eq': "r = Some x" "eq' = eq\<lparr>eq_events := bwrite (x # rest) 0 (take n rest), eq_count := n\<rparr>"
    using pop Suc by (auto simp: event_queue_pop_def bread_def ev)
  have "eq_list eq' = take n rest"
    using len by (simp add: eq' eq_list_def bwrite_def ev)
  moreover have "eq_inv eq'"
    using assms len Suc lst calculation by (simp add: eq_inv_def eq_times_def eq' ev)
  ultimately show ?thesis using lst eq' by simp
qed

section \<open>The queue as the scheduler sees it\<close>

text \<open>
  \<open>push\<close> may fail and then changes nothing; otherwise it adds one element. \<open>pop\<close> takes out an
  element that is not later than any other.
\<close>

locale timed_queue =
  fixes push :: "bool \<Rightarrow> 'q \<Rightarrow> 'e \<Rightarrow> int \<times> 'q"
    and pop :: "'q \<Rightarrow> 'e option \<times> 'q"
    and waiting :: "'q \<Rightarrow> 'e list"
    and invar :: "'q \<Rightarrow> bool"
    and time :: "'e \<Rightarrow> 't :: linorder"
  assumes push_fail: "push grow q e = (r, q') \<Longrightarrow> r \<noteq> 0 \<Longrightarrow> q' = q"
    and push_done: "invar q \<Longrightarrow> push grow q e = (0, q') \<Longrightarrow>
      invar q' \<and> mset (waiting q') = add_mset e (mset (waiting q))"
    and pop_empty: "invar q \<Longrightarrow> pop q = (None, q') \<Longrightarrow> q' = q \<and> waiting q = []"
    and pop_min: "invar q \<Longrightarrow> pop q = (Some e, q') \<Longrightarrow>
      invar q' \<and> mset (waiting q) = add_mset e (mset (waiting q')) \<and>
      (\<forall>x \<in> set (waiting q'). time e \<le> time x)"
begin

text \<open>No waiting element is earlier than \<open>t\<close>.\<close>

definition not_before :: "'t \<Rightarrow> 'q \<Rightarrow> bool" where
  "not_before t q \<longleftrightarrow> (\<forall>x \<in> set (waiting q). t \<le> time x)"

lemma push_invar: "invar q \<Longrightarrow> push grow q e = (r, q') \<Longrightarrow> invar q'"
  by (cases "r = 0") (auto dest: push_done push_fail)

lemma push_not_before:
  assumes "invar q" "not_before t q" "push grow q e = (r, q')" "t \<le> time e"
  shows "not_before t q'"
proof (cases "r = 0")
  case True
  then have "set (waiting q') = insert e (set (waiting q))"
    using push_done [of q grow e q'] assms by (metis set_mset_add_mset_insert set_mset_mset)
  then show ?thesis using assms(2,4) by (simp add: not_before_def)
next
  case False
  then show ?thesis using push_fail [OF assms(3)] assms(2) by simp
qed

lemma pop_not_before:
  assumes "invar q" "not_before t q" "pop q = (Some e, q')"
  shows "t \<le> time e" "not_before (time e) q'" "not_before t q'"
proof -
  have set_eq: "set (waiting q) = insert e (set (waiting q'))"
    using pop_min [OF assms(1,3)] by (metis set_mset_add_mset_insert set_mset_mset)
  then show "t \<le> time e" using assms(2) by (simp add: not_before_def)
  show "not_before (time e) q'" using pop_min [OF assms(1,3)] by (simp add: not_before_def)
  show "not_before t q'" using assms(2) set_eq by (simp add: not_before_def)
qed

lemma pop_length:
  "invar q \<Longrightarrow> pop q = (Some e, q') \<Longrightarrow> length (waiting q) = Suc (length (waiting q'))"
  by (metis pop_min size_add_mset size_mset)

lemma push_length:
  "invar q \<Longrightarrow> push grow q e = (0, q') \<Longrightarrow> length (waiting q') = Suc (length (waiting q))"
  by (metis push_done size_add_mset size_mset)

end

interpretation evq: timed_queue event_queue_push event_queue_pop eq_list eq_inv ev_timestamp
proof unfold_locales
  fix grow q e r q'
  assume "event_queue_push grow q e = (r, q')" "r \<noteq> 0"
  then show "q' = q" using event_queue_push_fail by blast
next
  fix grow q e q'
  assume "eq_inv q" "event_queue_push grow q e = (0, q')"
  then show "eq_inv q' \<and> mset (eq_list q') = add_mset e (mset (eq_list q))"
    using event_queue_push_list [of q grow e 0 q'] by (simp add: mset_insert_event)
next
  fix q q' assume "eq_inv q" "event_queue_pop q = (None, q')"
  then show "q' = q \<and> eq_list q = []"
    using event_queue_pop_list [of q None q'] by (simp split: list.splits)
next
  fix q e q' assume inv: "eq_inv q" and pop: "event_queue_pop q = (Some e, q')"
  then have "eq_inv q'" "eq_list q = e # eq_list q'"
    using event_queue_pop_list [of q "Some e" q'] by (auto split: list.splits)
  then show "eq_inv q' \<and> mset (eq_list q) = add_mset e (mset (eq_list q')) \<and>
      (\<forall>x \<in> set (eq_list q'). ev_timestamp e \<le> ev_timestamp x)"
    using inv by (auto simp: eq_inv_def eq_times_def)
qed

lemma event_queue_new_inv: "0 < n \<Longrightarrow> eq_inv (event_queue_new n) \<and> eq_list (event_queue_new n) = []"
  by (simp add: eq_inv_def eq_times_def eq_list_def event_queue_new_def)

lemma event_queue_empty_iff: "event_queue_is_empty eq = 1 \<longleftrightarrow> eq_count eq = 0"
  by (simp add: event_queue_is_empty_def)

section \<open>Properties\<close>

text \<open>
  \<open>event_queue_push\<close> fails, leaving the queue alone, exactly when the array is full and
  cannot grow; otherwise it puts the event behind every waiting event that is not later and in
  front of every later one, and the array stays sorted and within its capacity.
\<close>

theorem event_queue_push_stable:
  assumes "eq_inv eq"
  shows "if eq_count eq = eq_capacity eq \<and> \<not> grow then event_queue_push grow eq e = (- 1, eq)
    else \<exists>eq'. event_queue_push grow eq e = (0, eq') \<and> eq_inv eq' \<and>
      eq_list eq' = filter (\<lambda>x. ev_timestamp x \<le> ev_timestamp e) (eq_list eq) @ e #
                    filter (\<lambda>x. ev_timestamp x > ev_timestamp e) (eq_list eq)"
proof -
  obtain r eq' where push: "event_queue_push grow eq e = (r, eq')" by fastforce
  have full: "eq_count eq \<ge> eq_capacity eq \<longleftrightarrow> eq_count eq = eq_capacity eq"
    using assms by (auto simp: eq_inv_def)
  show ?thesis
  proof (cases "eq_count eq = eq_capacity eq \<and> \<not> grow")
    case True
    then show ?thesis by (simp add: event_queue_push_def)
  next
    case False
    then have "r = 0" using push event_queue_push_fst [of grow eq e] full by auto
    then have ins: "eq_inv eq'" "eq_list eq' = insert_event e (eq_list eq)"
      using event_queue_push_list [OF assms push] by simp_all
    have "insert_event e (eq_list eq) = filter (\<lambda>x. ev_timestamp x \<le> ev_timestamp e) (eq_list eq) @
        e # filter (\<lambda>x. ev_timestamp x > ev_timestamp e) (eq_list eq)"
      using assms by (intro insert_event_split) (simp add: eq_inv_def eq_times_def)
    with ins show ?thesis using False push \<open>r = 0\<close> by auto
  qed
qed

theorem event_queue_push_stable_witness:
  "let e = \<lparr>ev_self = 1, ev_type = EVT_PACKET_SEND, ev_timestamp = 7, ev_src_device = 0, ev_dst_device = 0,
       ev_packet = 0, ev_data = None, ev_handler = CB_NULL, ev_handler_ctx = 0\<rparr>
   in \<exists>eq'. event_queue_push False (event_queue_new 1) e = (0, eq') \<and> eq_inv eq' \<and> eq_list eq' = [e]"
proof -
  have new: "eq_inv (event_queue_new 1)" "eq_list (event_queue_new 1) = []"
    using event_queue_new_inv [of 1] by auto
  show ?thesis
    unfolding Let_def
    using event_queue_push_stable [OF new(1), of False
      "\<lparr>ev_self = 1, ev_type = EVT_PACKET_SEND, ev_timestamp = 7, ev_src_device = 0, ev_dst_device = 0,
       ev_packet = 0, ev_data = None, ev_handler = CB_NULL, ev_handler_ctx = 0\<rparr>"] new(2) by (simp add: event_queue_new_def)
qed

fun push_all :: "EventQueue \<Rightarrow> Event list \<Rightarrow> EventQueue" where
  "push_all eq [] = eq"
| "push_all eq (e # es) = push_all (snd (event_queue_push True eq e)) es"

fun pop_all :: "nat \<Rightarrow> EventQueue \<Rightarrow> Event list" where
  "pop_all 0 eq = []"
| "pop_all (Suc n) eq =
     (case event_queue_pop eq of (None, _) \<Rightarrow> [] | (Some e, eq') \<Rightarrow> e # pop_all n eq')"

lemma push_all_list:
  "eq_inv eq \<Longrightarrow> eq_inv (push_all eq es) \<and>
     eq_list (push_all eq es) = foldl (\<lambda>xs e. insert_event e xs) (eq_list eq) es"
proof (induction es arbitrary: eq)
  case Nil
  then show ?case by simp
next
  case (Cons e es)
  obtain r eq' where push: "event_queue_push True eq e = (r, eq')" by fastforce
  then have "r = 0" using event_queue_push_fst [of True eq e] by simp
  then show ?case using event_queue_push_list [OF Cons.prems push] Cons.IH [of eq'] push by simp
qed

lemma pop_all_list: "eq_inv eq \<Longrightarrow> length (eq_list eq) = n \<Longrightarrow> pop_all n eq = eq_list eq"
proof (induction n arbitrary: eq)
  case 0
  then show ?case by simp
next
  case (Suc n)
  obtain r eq' where pop: "event_queue_pop eq = (r, eq')" by fastforce
  obtain x xs where xs: "eq_list eq = x # xs" using Suc.prems(2) by (cases "eq_list eq") auto
  then show ?case using event_queue_pop_list [OF Suc.prems(1) pop] Suc pop by simp
qed

lemma filter_insert_event:
  assumes "sorted (map ev_timestamp xs)"
  shows "filter (\<lambda>x. k = ev_timestamp x) (insert_event e xs) =
     (if k = ev_timestamp e
      then filter (\<lambda>x. k = ev_timestamp x) xs @ [e] else filter (\<lambda>x. k = ev_timestamp x) xs)"
  using assms
proof (induction xs)
  case Nil
  then show ?case by simp
next
  case (Cons x xs)
  have "filter (\<lambda>y. ev_timestamp e = ev_timestamp y) xs = []" if "ev_timestamp x > ev_timestamp e"
    using that Cons.prems by (fastforce simp: filter_empty_conv)
  then show ?case using Cons by auto
qed

lemma foldl_insert_event:
  assumes "sorted (map ev_timestamp xs)"
  shows "sorted (map ev_timestamp (foldl (\<lambda>xs e. insert_event e xs) xs es)) \<and>
    mset (foldl (\<lambda>xs e. insert_event e xs) xs es) = mset xs + mset es \<and>
    (\<forall>k. filter (\<lambda>x. k = ev_timestamp x) (foldl (\<lambda>xs e. insert_event e xs) xs es) =
         filter (\<lambda>x. k = ev_timestamp x) xs @ filter (\<lambda>x. k = ev_timestamp x) es)"
  using assms
proof (induction es arbitrary: xs)
  case Nil
  then show ?case by simp
next
  case (Cons e es)
  then show ?case
    using Cons.IH [of "insert_event e xs"]
    by (simp add: sorted_insert_event mset_insert_event filter_insert_event)
qed

text \<open>
  C1 The event queue is a stable sort: any events pushed into a new queue of positive capacity,
  the array growing on the way, come out by \<open>event_queue_pop\<close> in order of their timestamps,
  and events with the same timestamp in the order in which they were pushed.
\<close>

theorem event_queue_sorts:
  assumes "0 < capacity"
  shows "pop_all (length es) (push_all (event_queue_new capacity) es) = sort_key ev_timestamp es"
proof -
  let ?q = "push_all (event_queue_new capacity) es"
  let ?xs = "foldl (\<lambda>xs e. insert_event e xs) [] es"
  have new: "eq_inv (event_queue_new capacity)" "eq_list (event_queue_new capacity) = []"
    using event_queue_new_inv [OF assms] by auto
  have q: "eq_inv ?q" "eq_list ?q = ?xs" using push_all_list [OF new(1), of es] new(2) by auto
  have xs: "sorted (map ev_timestamp ?xs)" "mset ?xs = mset es"
    "\<forall>k. filter (\<lambda>x. k = ev_timestamp x) ?xs = filter (\<lambda>x. k = ev_timestamp x) es"
    using foldl_insert_event [of "[]" es] by auto
  then have "sort_key ev_timestamp es = ?xs" by (intro properties_for_sort_key) auto
  moreover have "length ?xs = length es" using xs(2) by (metis size_mset)
  ultimately show ?thesis using pop_all_list [OF q(1)] q(2) by simp
qed

theorem event_queue_sorts_witness:
  "let a = \<lparr>ev_self = 1, ev_type = EVT_PACKET_SEND, ev_timestamp = 7, ev_src_device = 0, ev_dst_device = 0,
       ev_packet = 0, ev_data = None, ev_handler = CB_NULL, ev_handler_ctx = 0\<rparr>;
       b = a\<lparr>ev_self := 2, ev_timestamp := 3\<rparr>;
       c = a\<lparr>ev_self := 3\<rparr>
   in pop_all 3 (push_all (event_queue_new 1) [a, b, c]) = [b, a, c]"
  unfolding Let_def
  by (rule trans [OF event_queue_sorts [of 1 "[x, y, z]" for x y z, simplified length_Cons list.size numeral_3_eq_3 [symmetric]]])
     (simp_all add: sort_key_def)

end
