(* ===== verification/Slot_Table.thy ===== *)
theory Slot_Table
  imports Prelude
begin

text \<open>
  The tables of the program (MAC table, ARP cache, UDP sockets, TCP connections, RIB) are arrays
  of slots with a validity flag and a key. This theory holds what they share: the slot found for
  a key, the invariant that no two valid slots have the same key, and how both change when a slot
  is overwritten, taken or released. The locale \<open>learning_cache\<close> is the contract of the two
  tables that learn addresses, which the switch and the IP output path rely on.
\<close>

section \<open>Slots found by key\<close>

definition slot_of :: "('e \<Rightarrow> bool) \<Rightarrow> ('e \<Rightarrow> 'k) \<Rightarrow> 'k \<Rightarrow> 'e list \<Rightarrow> nat option" where
  "slot_of used key k es = first_index (\<lambda>e. used e \<and> key e = k) es"

definition entry_of :: "('e \<Rightarrow> bool) \<Rightarrow> ('e \<Rightarrow> 'k) \<Rightarrow> 'k \<Rightarrow> 'e list \<Rightarrow> 'e option" where
  "entry_of used key k es = map_option (\<lambda>i. es ! i) (slot_of used key k es)"

definition unique_keys :: "('e \<Rightarrow> bool) \<Rightarrow> ('e \<Rightarrow> 'k) \<Rightarrow> 'e list \<Rightarrow> bool" where
  "unique_keys used key es \<longleftrightarrow>
     (\<forall>i < length es. \<forall>j < length es.
        used (es ! i) \<and> used (es ! j) \<and> key (es ! i) = key (es ! j) \<longrightarrow> i = j)"

lemma slot_of_SomeD:
  assumes "slot_of used key k es = Some i"
  shows "i < length es" "used (es ! i)" "key (es ! i) = k"
  using assms by (auto simp: slot_of_def first_index_Some)

lemma slot_of_None: "slot_of used key k es = None \<longleftrightarrow> (\<forall>e \<in> set es. used e \<longrightarrow> key e \<noteq> k)"
  by (auto simp: slot_of_def first_index_None)

lemma entry_of_None: "entry_of used key k es = None \<longleftrightarrow> slot_of used key k es = None"
  by (simp add: entry_of_def)

lemma slot_of_unique:
  assumes "unique_keys used key es" "i < length es" "used (es ! i)" "key (es ! i) = k"
  shows "slot_of used key k es = Some i"
  using assms unfolding slot_of_def by (intro first_index_unique) (auto simp: unique_keys_def)

lemma entry_of_iff:
  assumes "unique_keys used key es"
  shows "entry_of used key k es = Some e \<longleftrightarrow> e \<in> set es \<and> used e \<and> key e = k"
proof
  assume "entry_of used key k es = Some e"
  then show "e \<in> set es \<and> used e \<and> key e = k"
    by (auto simp: entry_of_def dest: slot_of_SomeD)
next
  assume e: "e \<in> set es \<and> used e \<and> key e = k"
  then obtain i where "i < length es" "es ! i = e" by (auto simp: in_set_conv_nth)
  with e assms show "entry_of used key k es = Some e"
    by (simp add: entry_of_def slot_of_unique)
qed

section \<open>Writing a slot\<close>

text \<open>
  One lemma for the three ways the code writes slot \<open>i\<close>: the old key of the slot is the new one
  or the slot was free, or the slot is released.
\<close>

lemma unique_keys_update:
  assumes "unique_keys used key es" "i < length es"
    and "used e \<Longrightarrow> slot_of used key (key e) es = None \<or> slot_of used key (key e) es = Some i"
  shows "unique_keys used key (es[i := e])"
  unfolding unique_keys_def
proof (intro allI impI)
  fix a b
  assume a: "a < length (es[i := e])" and b: "b < length (es[i := e])"
    and same: "used (es[i := e] ! a) \<and> used (es[i := e] ! b) \<and> key (es[i := e] ! a) = key (es[i := e] ! b)"
  have other: "c = i" if "c < length es" "used e" "used (es ! c)" "key (es ! c) = key e" for c
  proof -
    have "slot_of used key (key e) es = Some c"
      using slot_of_unique [OF assms(1) that(1,3,4)] .
    then show ?thesis using assms(3) [OF that(2)] by auto
  qed
  show "a = b"
  proof (cases "a = i"; cases "b = i")
    assume "a = i" "b \<noteq> i"
    then show ?thesis using other [of b] same a b assms(2) by auto
  next
    assume "a \<noteq> i" "b = i"
    then show ?thesis using other [of a] same a b assms(2) by auto
  next
    assume "a \<noteq> i" "b \<noteq> i"
    then show ?thesis using assms(1) same a b by (auto simp: unique_keys_def)
  qed simp
qed

lemma entry_of_update:
  assumes "unique_keys used key es" "i < length es"
    and "used e \<Longrightarrow> slot_of used key (key e) es = None \<or> slot_of used key (key e) es = Some i"
  shows "entry_of used key k (es[i := e]) =
    (if used e \<and> key e = k then Some e
     else if used (es ! i) \<and> key (es ! i) = k then None
     else entry_of used key k es)"
proof -
  note uk = unique_keys_update [OF assms]
  show ?thesis
  proof (cases "used e \<and> key e = k")
    case True
    then show ?thesis using entry_of_iff [OF uk] assms(2) by (simp add: set_update_memI)
  next
    case False
    have mem: "x \<in> set (es[i := e]) \<longleftrightarrow> x \<in> set es" if "used x" "key x = k"
      "\<not> (used (es ! i) \<and> key (es ! i) = k)" for x
      using that False assms(2)
      by (metis in_set_conv_nth length_list_update nth_list_update_eq nth_list_update_neq)
    show ?thesis
    proof (cases "used (es ! i) \<and> key (es ! i) = k")
      case True
      have no: "\<not> (used (es[i := e] ! j) \<and> key (es[i := e] ! j) = k)" if "j < length es" for j
        using that True False assms(1,2) by (cases "j = i") (auto simp: unique_keys_def)
      have "entry_of used key k (es[i := e]) = None"
        unfolding entry_of_None slot_of_None
        using no by (metis in_set_conv_nth length_list_update)
      with True False show ?thesis by auto
    next
      case free: False
      have "entry_of used key k (es[i := e]) = Some x \<longleftrightarrow> entry_of used key k es = Some x" for x
        using mem [OF _ _ free] by (auto simp: entry_of_iff [OF uk] entry_of_iff [OF assms(1)])
      then have "entry_of used key k (es[i := e]) = entry_of used key k es"
        by (metis option.exhaust)
      with free False show ?thesis by auto
    qed
  qed
qed

text \<open>Clearing the validity of every slot that satisfies a test, as the expiry loops do.\<close>

lemma unique_keys_map:
  assumes "unique_keys used key es"
    and "\<And>e. e \<in> set es \<Longrightarrow> used (f e) \<Longrightarrow> used e \<and> key (f e) = key e"
  shows "unique_keys used key (map f es)"
  using assms by (auto simp: unique_keys_def)

lemma entry_of_map:
  assumes "unique_keys used key es"
    and "\<And>e. e \<in> set es \<Longrightarrow> used (f e) \<Longrightarrow> used e \<and> f e = e"
  shows "entry_of used key k (map f es) =
    (case entry_of used key k es of None \<Rightarrow> None | Some e \<Rightarrow> if used (f e) then Some e else None)"
proof -
  have uk: "unique_keys used key (map f es)"
    using assms by (intro unique_keys_map) (metis)+
  have eq: "entry_of used key k (map f es) = Some x \<longleftrightarrow>
      entry_of used key k es = Some x \<and> used (f x)" for x
    unfolding entry_of_iff [OF uk] entry_of_iff [OF assms(1)]
    using assms(2) by (auto simp: image_iff) (metis)+
  show ?thesis
  proof (cases "entry_of used key k (map f es)")
    case None
    then show ?thesis using eq by (auto split: option.splits)
  next
    case (Some x)
    then show ?thesis using eq [of x] by simp
  qed
qed

section \<open>Tables that learn\<close>

text \<open>
  The contract of a table that maps addresses to what was last learned for them. \<open>room\<close> says
  whether a new address still fits; \<open>fresh now ts\<close> whether an entry written at \<open>ts\<close> survives
  an expiry at \<open>now\<close>.
\<close>

locale learning_cache =
  fixes learn :: "'k \<Rightarrow> 'v \<Rightarrow> u64 \<Rightarrow> 't \<Rightarrow> 't"
    and find :: "'t \<Rightarrow> 'k \<Rightarrow> 'v option"
    and stamp :: "'t \<Rightarrow> 'k \<Rightarrow> u64 option"
    and expire :: "u64 \<Rightarrow> 't \<Rightarrow> 't"
    and fresh :: "u64 \<Rightarrow> u64 \<Rightarrow> bool"
    and room :: "'t \<Rightarrow> bool"
    and invar :: "'t \<Rightarrow> bool"
    and ok_key :: "'k \<Rightarrow> bool"
    and ok_val :: "'v \<Rightarrow> bool"
  assumes invar_learn: "invar t \<Longrightarrow> ok_val v \<Longrightarrow> invar (learn k v now t)"
    and find_learn: "invar t \<Longrightarrow> ok_key k \<Longrightarrow> ok_val v \<Longrightarrow> room t \<or> find t k \<noteq> None \<Longrightarrow>
      find (learn k v now t) = (find t)(k \<mapsto> v)"
    and stamp_learn: "invar t \<Longrightarrow> ok_key k \<Longrightarrow> ok_val v \<Longrightarrow> room t \<or> find t k \<noteq> None \<Longrightarrow>
      stamp (learn k v now t) = (stamp t)(k \<mapsto> now)"
    and learn_full: "invar t \<Longrightarrow> \<not> room t \<Longrightarrow> find t k = None \<Longrightarrow> learn k v now t = t"
    and stamp_find: "invar t \<Longrightarrow> stamp t k = None \<longleftrightarrow> find t k = None"
    and invar_expire: "invar t \<Longrightarrow> invar (expire now t)"
    and find_expire: "invar t \<Longrightarrow> find (expire now t) k =
      (case stamp t k of None \<Rightarrow> None | Some ts \<Rightarrow> if fresh now ts then find t k else None)"
begin

text \<open>An address learned now is found until it goes stale, whatever else is learned meanwhile.\<close>

lemma learned_survives:
  assumes "invar t" "ok_key k" "ok_val v" "room t \<or> find t k \<noteq> None" "fresh later now"
  shows "find (expire later (learn k v now t)) k = Some v"
  using assms by (simp add: find_expire invar_learn stamp_learn find_learn)

lemma learned_goes_stale:
  assumes "invar t" "ok_key k" "ok_val v" "room t \<or> find t k \<noteq> None" "\<not> fresh later now"
  shows "find (expire later (learn k v now t)) k = None"
  using assms by (simp add: find_expire invar_learn stamp_learn)

lemma learn_other:
  assumes "invar t" "ok_key k" "ok_val v" "k' \<noteq> k"
  shows "find (learn k v now t) k' = find t k'"
  using assms by (cases "room t \<or> find t k \<noteq> None") (auto simp: find_learn learn_full)

lemma find_learn_same:
  assumes "invar t" "ok_key k" "ok_val v" "find (learn k v now t) k \<noteq> None"
  shows "find (learn k v now t) k = Some v"
  using assms by (cases "room t \<or> find t k \<noteq> None") (auto simp: find_learn learn_full)

end

end
