(* ===== verification/Mac_Table.thy ===== *)
theory Mac_Table
  imports Slot_Table
begin

text \<open>
  The MAC address table of a switch (\<open>network/mac_table.h\<close>, \<open>network/mac_table.c\<close>): 1024 slots
  with a validity flag, learned by linear search, aged after \<open>MAC_AGE_MS\<close> and flushed per port.
  A returned \<open>MacEntry *\<close> is the index of the slot.
\<close>

abbreviation (input) MAC_TABLE_SIZE :: nat where "MAC_TABLE_SIZE \<equiv> 1024"
abbreviation (input) MAC_AGE_MS :: u64 where "MAC_AGE_MS \<equiv> 300000"

record MacEntry =
  me_mac :: mac
  me_port :: ptr
  me_timestamp :: u64
  me_valid :: int

record MacTable =
  mt_entries :: "MacEntry list"
  mt_count :: int

definition mac_table_zero :: MacTable where
  "mac_table_zero =
     \<lparr>mt_entries = replicate MAC_TABLE_SIZE
        \<lparr>me_mac = replicate 6 0, me_port = NULL, me_timestamp = 0, me_valid = 0\<rparr>,
      mt_count = 0\<rparr>"

definition mac_table_init :: "MacTable option \<Rightarrow> MacTable option" where
  "mac_table_init table =
     (case table of None \<Rightarrow> None | Some t \<Rightarrow> Some (mac_table_zero\<lparr>mt_count := 0\<rparr>))"

definition mac_table_learn ::
  "MacTable option \<Rightarrow> mac option \<Rightarrow> ptr \<Rightarrow> u64 \<Rightarrow> nat option \<times> MacTable option" where
  "mac_table_learn table mac_p port now =
     (case (table, mac_p) of
        (Some t, Some mac) \<Rightarrow>
          if port = NULL then (None, table)
          else
            (case first_index (\<lambda>e. me_valid e \<noteq> 0 \<and> me_mac e = mac) (mt_entries t) of
               Some i \<Rightarrow>
                 let e = mt_entries t ! i;
                     e = e\<lparr>me_port := port, me_timestamp := now\<rparr>
                 in (Some i, Some (t\<lparr>mt_entries := (mt_entries t)[i := e]\<rparr>))
             | None \<Rightarrow>
                 (case first_index (\<lambda>e. me_valid e = 0) (mt_entries t) of
                    Some i \<Rightarrow>
                      let e = mt_entries t ! i;
                          e = e\<lparr>me_mac := mac, me_port := port, me_timestamp := now, me_valid := 1\<rparr>
                      in (Some i, Some (t\<lparr>mt_entries := (mt_entries t)[i := e],
                                         mt_count := mt_count t + 1\<rparr>))
                  | None \<Rightarrow> (None, table)))
      | _ \<Rightarrow> (None, table))"

definition mac_table_lookup :: "MacTable option \<Rightarrow> mac option \<Rightarrow> ptr" where
  "mac_table_lookup table mac_p =
     (case (table, mac_p) of
        (Some t, Some mac) \<Rightarrow>
          (case first_index (\<lambda>e. me_valid e \<noteq> 0 \<and> me_mac e = mac) (mt_entries t) of
             Some i \<Rightarrow> me_port (mt_entries t ! i)
           | None \<Rightarrow> NULL)
      | _ \<Rightarrow> NULL)"

text \<open>The two expiry loops: invalidate the slots that match, one decrement each.\<close>

fun mac_clear_loop :: "(MacEntry \<Rightarrow> bool) \<Rightarrow> MacEntry list \<Rightarrow> int \<Rightarrow> MacEntry list \<times> int" where
  "mac_clear_loop drop_it [] count = ([], count)"
| "mac_clear_loop drop_it (e # es) count =
     (let (e', count') = (if drop_it e then (e\<lparr>me_valid := 0\<rparr>, count - 1) else (e, count));
          (es', count'') = mac_clear_loop drop_it es count'
      in (e' # es', count''))"

definition mac_table_age :: "MacTable option \<Rightarrow> u64 \<Rightarrow> MacTable option" where
  "mac_table_age table now =
     (case table of
        None \<Rightarrow> None
      | Some t \<Rightarrow>
          let (es, n) = mac_clear_loop
                (\<lambda>e. me_valid e \<noteq> 0 \<and> now - me_timestamp e > MAC_AGE_MS) (mt_entries t) (mt_count t)
          in Some (t\<lparr>mt_entries := es, mt_count := n\<rparr>))"

definition mac_table_flush_port :: "MacTable option \<Rightarrow> ptr \<Rightarrow> MacTable option" where
  "mac_table_flush_port table port =
     (case table of
        None \<Rightarrow> None
      | Some t \<Rightarrow>
          if port = NULL then table
          else
            let (es, n) = mac_clear_loop
                  (\<lambda>e. me_valid e \<noteq> 0 \<and> me_port e = port) (mt_entries t) (mt_count t)
            in Some (t\<lparr>mt_entries := es, mt_count := n\<rparr>))"

section \<open>The invariant\<close>

abbreviation mac_used :: "MacEntry \<Rightarrow> bool" where "mac_used e \<equiv> me_valid e \<noteq> 0"

text \<open>No MAC address twice, the counter counts, and a valid entry has a port.\<close>

definition mac_inv :: "MacTable \<Rightarrow> bool" where
  "mac_inv t \<longleftrightarrow>
     length (mt_entries t) = MAC_TABLE_SIZE \<and>
     mt_count t = int (in_use mac_used (mt_entries t)) \<and>
     unique_keys mac_used me_mac (mt_entries t) \<and>
     (\<forall>e \<in> set (mt_entries t). mac_used e \<longrightarrow> me_port e \<noteq> NULL)"

definition mac_room :: "MacTable \<Rightarrow> bool" where
  "mac_room t \<longleftrightarrow> (\<exists>e \<in> set (mt_entries t). \<not> mac_used e)"

definition mac_find :: "MacTable \<Rightarrow> mac \<Rightarrow> MacEntry option" where
  "mac_find t mac = entry_of mac_used me_mac mac (mt_entries t)"

lemma mac_slot: "first_index (\<lambda>e. me_valid e \<noteq> 0 \<and> me_mac e = mac) es = slot_of mac_used me_mac mac es"
  by (simp add: slot_of_def)

lemma mac_table_lookup_find:
  "mac_table_lookup (Some t) (Some mac) =
     (case mac_find t mac of None \<Rightarrow> NULL | Some e \<Rightarrow> me_port e)"
  by (simp add: mac_table_lookup_def mac_find_def entry_of_def mac_slot split: option.split)

lemma mac_zero_inv: "mac_inv mac_table_zero" "mac_find mac_table_zero m = None"
  by (auto simp: mac_inv_def mac_table_zero_def in_use_def unique_keys_def mac_find_def
      entry_of_None slot_of_None)

lemma mac_clear_loop_eq:
  "mac_clear_loop P es n =
     (map (\<lambda>e. if P e then e\<lparr>me_valid := 0\<rparr> else e) es, n - int (length (filter P es)))"
  by (induction P es n rule: mac_clear_loop.induct) (auto simp: Let_def)

text \<open>Clearing slots that are in use keeps the invariant.\<close>

lemma in_use_clear:
  "(\<And>e. P e \<Longrightarrow> mac_used e) \<Longrightarrow>
   in_use mac_used (map (\<lambda>e. if P e then e\<lparr>me_valid := 0\<rparr> else e) es) + length (filter P es)
     = in_use mac_used es"
  by (induction es) auto

lemma mac_clear_inv:
  assumes "mac_inv t" "\<And>e. P e \<Longrightarrow> mac_used e" "mac_clear_loop P (mt_entries t) (mt_count t) = (es, n)"
  shows "mac_inv (t\<lparr>mt_entries := es, mt_count := n\<rparr>)"
proof -
  have es: "es = map (\<lambda>e. if P e then e\<lparr>me_valid := 0\<rparr> else e) (mt_entries t)"
    and n: "n = mt_count t - int (length (filter P (mt_entries t)))"
    using assms(3) by (simp_all add: mac_clear_loop_eq)
  have "unique_keys mac_used me_mac es"
    unfolding es using assms(1) by (intro unique_keys_map) (auto simp: mac_inv_def split: if_splits)
  moreover have "n = int (in_use mac_used es)"
    using assms(1) in_use_clear [of P "mt_entries t", OF assms(2)] by (simp add: mac_inv_def es n)
  ultimately show ?thesis
    using assms(1) by (auto simp: mac_inv_def es)
qed

lemma mac_clear_find:
  assumes "mac_inv t" "mac_clear_loop P (mt_entries t) (mt_count t) = (es, n)"
  shows "mac_find (t\<lparr>mt_entries := es, mt_count := n\<rparr>) m =
    (case mac_find t m of None \<Rightarrow> None | Some e \<Rightarrow> if P e then None else Some e)"
proof -
  have es: "es = map (\<lambda>e. if P e then e\<lparr>me_valid := 0\<rparr> else e) (mt_entries t)"
    using assms(2) by (simp add: mac_clear_loop_eq)
  have uk: "unique_keys mac_used me_mac (mt_entries t)" using assms(1) by (simp add: mac_inv_def)
  have "entry_of mac_used me_mac m es = (case entry_of mac_used me_mac m (mt_entries t) of
      None \<Rightarrow> None | Some e \<Rightarrow> if mac_used (if P e then e\<lparr>me_valid := 0\<rparr> else e) then Some e else None)"
    unfolding es by (rule entry_of_map [OF uk]) (auto split: if_splits)
  moreover have "mac_used e" if "entry_of mac_used me_mac m (mt_entries t) = Some e" for e
    using that uk by (simp add: entry_of_iff)
  ultimately show ?thesis by (auto simp: mac_find_def split: option.split)
qed

lemma mac_clear_nth:
  assumes "mac_inv t" "mac_clear_loop P (mt_entries t) (mt_count t) = (es, n)" "i < 1024"
  shows "es ! i = (if P (mt_entries t ! i) then (mt_entries t ! i)\<lparr>me_valid := 0\<rparr> else mt_entries t ! i)"
  using assms by (auto simp: mac_clear_loop_eq mac_inv_def)

lemma mac_find_iff:
  "mac_inv t \<Longrightarrow> mac_find t m = Some e \<longleftrightarrow> e \<in> set (mt_entries t) \<and> mac_used e \<and> me_mac e = m"
  by (simp add: mac_find_def entry_of_iff mac_inv_def)

section \<open>Learning\<close>

text \<open>What one call of \<open>mac_table_learn\<close> does, by the three outcomes of its two searches.\<close>

lemma mac_table_learn_cases:
  assumes "port \<noteq> NULL" "mac_table_learn (Some t) (Some mac) port now = (r, t')"
  obtains (refresh) i where "slot_of mac_used me_mac mac (mt_entries t) = Some i" "r = Some i"
      "t' = Some (t\<lparr>mt_entries := (mt_entries t)[i := (mt_entries t ! i)
               \<lparr>me_port := port, me_timestamp := now\<rparr>]\<rparr>)"
    | (insert) i where "slot_of mac_used me_mac mac (mt_entries t) = None"
      "i < length (mt_entries t)" "me_valid (mt_entries t ! i) = 0" "r = Some i"
      "t' = Some (t\<lparr>mt_entries := (mt_entries t)[i := (mt_entries t ! i)
               \<lparr>me_mac := mac, me_port := port, me_timestamp := now, me_valid := 1\<rparr>],
             mt_count := mt_count t + 1\<rparr>)"
    | (full) "slot_of mac_used me_mac mac (mt_entries t) = None" "\<not> mac_room t" "r = None" "t' = Some t"
  using assms that
  by (auto simp: mac_table_learn_def mac_slot Let_def first_index_Some first_index_None mac_room_def
      split: option.splits)

lemma mac_learn_inv:
  assumes "mac_inv t" "port \<noteq> NULL" "mac_table_learn (Some t) (Some mac) port now = (r, Some t')"
  shows "mac_inv t'"
  using assms(2,3)
proof (cases rule: mac_table_learn_cases)
  case (refresh i)
  let ?e = "(mt_entries t ! i)\<lparr>me_port := port, me_timestamp := now\<rparr>"
  have i: "i < length (mt_entries t)" "mac_used (mt_entries t ! i)" "me_mac (mt_entries t ! i) = mac"
    using refresh by (auto dest: slot_of_SomeD)
  have "unique_keys mac_used me_mac ((mt_entries t)[i := ?e])"
    using assms(1) i refresh by (intro unique_keys_update) (auto simp: mac_inv_def)
  moreover have "in_use mac_used ((mt_entries t)[i := ?e]) = in_use mac_used (mt_entries t)"
    using i by (intro in_use_update_same) auto
  ultimately show ?thesis
    using assms refresh i by (auto simp: mac_inv_def dest!: set_update_subset_insert [THEN subsetD])
next
  case (insert i)
  let ?e = "(mt_entries t ! i)\<lparr>me_mac := mac, me_port := port, me_timestamp := now, me_valid := 1\<rparr>"
  have "unique_keys mac_used me_mac ((mt_entries t)[i := ?e])"
    using assms(1) insert by (intro unique_keys_update) (auto simp: mac_inv_def)
  moreover have "in_use mac_used ((mt_entries t)[i := ?e]) = Suc (in_use mac_used (mt_entries t))"
    using insert by (intro in_use_update_take) auto
  ultimately show ?thesis
    using assms insert by (auto simp: mac_inv_def dest!: set_update_subset_insert [THEN subsetD])
qed (use assms in auto)

lemma mac_learn_find:
  assumes "mac_inv t" "port \<noteq> NULL" "mac_table_learn (Some t) (Some mac) port now = (Some i, Some t')"
  shows "\<exists>e. mac_find t' = (mac_find t)(mac \<mapsto> e) \<and> me_port e = port \<and> me_timestamp e = now
    \<and> mt_entries t' ! i = e \<and> me_mac e = mac \<and> me_valid e \<noteq> 0"
  using assms(2,3)
proof (cases rule: mac_table_learn_cases)
  case (refresh j)
  let ?e = "(mt_entries t ! j)\<lparr>me_port := port, me_timestamp := now\<rparr>"
  have j: "j < length (mt_entries t)" "mac_used (mt_entries t ! j)" "me_mac (mt_entries t ! j) = mac"
    using refresh by (auto dest: slot_of_SomeD)
  have "entry_of mac_used me_mac m ((mt_entries t)[j := ?e]) =
      (if me_mac ?e = m then Some ?e else entry_of mac_used me_mac m (mt_entries t))" for m
    using assms(1) j refresh by (subst entry_of_update) (auto simp: mac_inv_def)
  then show ?thesis using refresh j by (intro exI [of _ ?e]) (auto simp: mac_find_def fun_eq_iff)
next
  case (insert j)
  let ?e = "(mt_entries t ! j)\<lparr>me_mac := mac, me_port := port, me_timestamp := now, me_valid := 1\<rparr>"
  have "entry_of mac_used me_mac m ((mt_entries t)[j := ?e]) =
      (if mac = m then Some ?e else entry_of mac_used me_mac m (mt_entries t))" for m
    using assms(1) insert by (subst entry_of_update) (auto simp: mac_inv_def)
  then show ?thesis using insert by (intro exI [of _ ?e]) (auto simp: mac_find_def fun_eq_iff)
qed auto

section \<open>The learning contract\<close>

definition mac_learned :: "mac \<Rightarrow> ptr \<Rightarrow> u64 \<Rightarrow> MacTable \<Rightarrow> MacTable" where
  "mac_learned mac port now t = the (snd (mac_table_learn (Some t) (Some mac) port now))"

definition mac_aged :: "u64 \<Rightarrow> MacTable \<Rightarrow> MacTable" where
  "mac_aged now t = the (mac_table_age (Some t) now)"

lemma mac_table_learn_some:
  assumes "port \<noteq> NULL"
  shows "\<exists>r. mac_table_learn (Some t) (Some mac) port now = (r, Some (mac_learned mac port now t)) \<and>
    (r = None \<longleftrightarrow> \<not> mac_room t \<and> mac_find t mac = None)"
proof -
  obtain r t' where l: "mac_table_learn (Some t) (Some mac) port now = (r, t')" by fastforce
  from assms l show ?thesis
  proof (cases rule: mac_table_learn_cases)
    case (insert i)
    then have "mac_room t" by (auto simp: mac_room_def)
    then show ?thesis using l insert by (simp add: mac_learned_def)
  qed (use l in \<open>auto simp: mac_learned_def mac_find_def entry_of_None\<close>)
qed

lemma mac_table_age_eq: "mac_table_age (Some t) now = Some (mac_aged now t)"
  by (simp add: mac_aged_def mac_table_age_def split: prod.split)

lemma mac_aged_spec:
  assumes "mac_inv t"
  shows "mac_inv (mac_aged now t)" "mac_find (mac_aged now t) m =
    (case mac_find t m of None \<Rightarrow> None | Some e \<Rightarrow> if now - me_timestamp e > MAC_AGE_MS then None else Some e)"
proof -
  let ?P = "\<lambda>e. me_valid e \<noteq> 0 \<and> now - me_timestamp e > MAC_AGE_MS"
  obtain es n where loop: "mac_clear_loop ?P (mt_entries t) (mt_count t) = (es, n)" by fastforce
  have aged: "mac_aged now t = t\<lparr>mt_entries := es, mt_count := n\<rparr>"
    using loop by (simp add: mac_aged_def mac_table_age_def)
  show "mac_inv (mac_aged now t)" using mac_clear_inv [OF assms _ loop] aged by simp
  have "mac_used e" if "mac_find t m = Some e" for e
    using that assms by (simp add: mac_find_def entry_of_iff mac_inv_def)
  then show "mac_find (mac_aged now t) m =
    (case mac_find t m of None \<Rightarrow> None | Some e \<Rightarrow> if now - me_timestamp e > MAC_AGE_MS then None else Some e)"
    using mac_clear_find [OF assms loop, of m] aged by (auto split: option.split)
qed

interpretation mac_cache: learning_cache mac_learned
  "\<lambda>t m. map_option me_port (mac_find t m)" "\<lambda>t m. map_option me_timestamp (mac_find t m)"
  mac_aged "\<lambda>now ts. now - ts \<le> 300000" mac_room mac_inv "\<lambda>_. True" "\<lambda>p. p \<noteq> NULL"
proof unfold_locales
  fix t :: MacTable and v k now
  assume t: "mac_inv t" and v: "v \<noteq> (0 :: ptr)"
  obtain r where l: "mac_table_learn (Some t) (Some k) v now = (r, Some (mac_learned k v now t))"
    and r: "r = None \<longleftrightarrow> \<not> mac_room t \<and> mac_find t k = None"
    using mac_table_learn_some [OF v] by blast
  show "mac_inv (mac_learned k v now t)" by (rule mac_learn_inv [OF t v l])
  assume ok: "mac_room t \<or> map_option me_port (mac_find t k) \<noteq> None"
  with r obtain i where "r = Some i" by auto
  with mac_learn_find [OF t v] l obtain e where e: "mac_find (mac_learned k v now t) = (mac_find t)(k \<mapsto> e)"
    "me_port e = v" "me_timestamp e = now" by blast
  show "(\<lambda>m. map_option me_port (mac_find (mac_learned k v now t) m)) =
      (\<lambda>m. map_option me_port (mac_find t m))(k \<mapsto> v)"
    using e by auto
  show "(\<lambda>m. map_option me_timestamp (mac_find (mac_learned k v now t) m)) =
      (\<lambda>m. map_option me_timestamp (mac_find t m))(k \<mapsto> now)"
    using e by auto
next
  fix t :: MacTable and k v now
  assume t: "mac_inv t" and full: "\<not> mac_room t" "map_option me_port (mac_find t k) = None"
  show "mac_learned k v now t = t"
  proof (cases "v = NULL")
    case True
    then show ?thesis by (simp add: mac_learned_def mac_table_learn_def)
  next
    case False
    obtain r t' where l: "mac_table_learn (Some t) (Some k) v now = (r, t')" by fastforce
    from False l show ?thesis
    proof (cases rule: mac_table_learn_cases)
      case (insert i)
      then show ?thesis using full by (auto simp: mac_room_def)
    qed (use full l in \<open>auto simp: mac_learned_def mac_find_def entry_of_def\<close>)
  qed
qed (auto simp: mac_aged_spec not_less split: option.split)

section \<open>Properties\<close>

text \<open>
  C15 \<open>mac_table_learn\<close>, given a table, an address and a port: it returns no entry exactly when
  the address is unknown and all 1024 slots are taken, and then changes nothing; otherwise it
  returns an entry with the port and the time, and from then on \<open>mac_table_lookup\<close> finds the port
  for that address and what it found before for every other one. No address is ever stored twice
  and the counter stays the number of valid entries.
\<close>

theorem mac_table_learn_correct:
  assumes "mac_inv t" "port \<noteq> NULL"
  shows "\<exists>r t'. mac_table_learn (Some t) (Some mac) port now = (r, Some t') \<and> mac_inv t' \<and>
    (case r of
       None \<Rightarrow> t' = t \<and> \<not> mac_room t \<and> mac_table_lookup (Some t) (Some mac) = NULL
     | Some i \<Rightarrow> (mac_room t \<or> mac_table_lookup (Some t) (Some mac) \<noteq> NULL) \<and>
         me_mac (mt_entries t' ! i) = mac \<and> me_port (mt_entries t' ! i) = port \<and>
         me_timestamp (mt_entries t' ! i) = now \<and>
         (\<forall>m. mac_table_lookup (Some t') (Some m) =
              (if m = mac then port else mac_table_lookup (Some t) (Some m))))"
proof -
  obtain r where l: "mac_table_learn (Some t) (Some mac) port now = (r, Some (mac_learned mac port now t))"
    and r: "r = None \<longleftrightarrow> \<not> mac_room t \<and> mac_find t mac = None"
    using mac_table_learn_some [OF assms(2)] by blast
  have inv: "mac_inv (mac_learned mac port now t)" by (rule mac_learn_inv [OF assms l])
  have null: "mac_table_lookup (Some t) (Some mac) = NULL \<longleftrightarrow> mac_find t mac = None"
  proof (cases "mac_find t mac")
    case (Some e)
    then have "e \<in> set (mt_entries t)" "mac_used e"
      using assms(1) by (auto simp: mac_find_def entry_of_iff mac_inv_def)
    then have "me_port e \<noteq> NULL" using assms(1) by (simp add: mac_inv_def)
    then show ?thesis using Some by (simp add: mac_table_lookup_find)
  qed (simp add: mac_table_lookup_find)
  show ?thesis
  proof (cases r)
    case None
    then have "mac_learned mac port now t = t"
      using mac_cache.learn_full [OF assms(1), of mac port now] r by simp
    then show ?thesis using l inv None r null by auto
  next
    case (Some i)
    with mac_learn_find [OF assms] l obtain e where
      "mac_find (mac_learned mac port now t) = (mac_find t)(mac \<mapsto> e)" "me_port e = port"
      "me_timestamp e = now" "mt_entries (mac_learned mac port now t) ! i = e" "me_mac e = mac"
      by blast
    then show ?thesis using l inv Some r null by (auto simp: mac_table_lookup_find)
  qed
qed

theorem mac_table_learn_correct_witness:
  "\<exists>i t'. mac_table_learn (Some mac_table_zero) (Some [2, 0, 0, 0, 0, 1]) 7 5 = (Some i, Some t') \<and>
     mac_table_lookup (Some t') (Some [2, 0, 0, 0, 0, 1]) = 7"
proof -
  have "mac_room mac_table_zero" by (simp add: mac_room_def mac_table_zero_def)
  then show ?thesis
    using mac_table_learn_correct [OF mac_zero_inv(1), of 7 "[2, 0, 0, 0, 0, 1]" 5]
    by (auto split: option.splits)
qed

text \<open>
  C28 Ageing at \<open>now\<close> invalidates the valid entries that are more than \<open>MAC_AGE_MS\<close> old (in wrapping
  64-bit time), and leaves every other slot as it is, its timestamp included: a lookup fails for the
  addresses of those entries and finds what it found before for all others. So an address learned
  at \<open>now\<close>, which needs a free slot or a known address, is found until the table is aged more than
  \<open>MAC_AGE_MS\<close> later, and not after that. Flushing a port likewise removes that port's entries and
  no others. The invariant holds after each.
\<close>

theorem mac_table_expiry:
  assumes "mac_inv t" "port \<noteq> NULL"
  shows "(\<exists>t'. mac_table_age (Some t) now = Some t' \<and> mac_inv t' \<and>
      (\<forall>i < 1024. let e = mt_entries t ! i in mt_entries t' ! i =
        (if me_valid e \<noteq> 0 \<and> now - me_timestamp e > 300000 then e\<lparr>me_valid := 0\<rparr> else e)) \<and>
      (\<forall>m. mac_table_lookup (Some t') (Some m) =
        (if \<exists>e \<in> set (mt_entries t). me_valid e \<noteq> 0 \<and> me_mac e = m \<and> now - me_timestamp e > 300000
         then NULL else mac_table_lookup (Some t) (Some m)))) \<and>
    (mac_room t \<or> mac_table_lookup (Some t) (Some mac) \<noteq> NULL \<longrightarrow>
      (\<exists>r t1 t2. mac_table_learn (Some t) (Some mac) port now = (Some r, Some t1) \<and>
        mac_table_age (Some t1) later = Some t2 \<and> mac_inv t2 \<and>
        mac_table_lookup (Some t2) (Some mac) = (if later - now > 300000 then NULL else port))) \<and>
    (\<exists>t'. mac_table_flush_port (Some t) port = Some t' \<and> mac_inv t' \<and>
      (\<forall>i < 1024. let e = mt_entries t ! i in mt_entries t' ! i =
        (if me_valid e \<noteq> 0 \<and> me_port e = port then e\<lparr>me_valid := 0\<rparr> else e)) \<and>
      (\<forall>m. mac_table_lookup (Some t') (Some m) =
        (if mac_table_lookup (Some t) (Some m) = port then NULL
         else mac_table_lookup (Some t) (Some m))))"
proof (intro conjI impI)
  let ?P = "\<lambda>e. me_valid e \<noteq> 0 \<and> now - me_timestamp e > 300000"
  obtain es n where loop: "mac_clear_loop ?P (mt_entries t) (mt_count t) = (es, n)" by fastforce
  let ?t' = "t\<lparr>mt_entries := es, mt_count := n\<rparr>"
  have "mac_table_age (Some t) now = Some ?t'" using loop by (simp add: mac_table_age_def)
  moreover have "mac_inv ?t'" using mac_clear_inv [OF assms(1) _ loop] by simp
  moreover have "mac_table_lookup (Some ?t') (Some m) =
      (if \<exists>e \<in> set (mt_entries t). me_valid e \<noteq> 0 \<and> me_mac e = m \<and> now - me_timestamp e > 300000
       then NULL else mac_table_lookup (Some t) (Some m))" for m
  proof (cases "mac_find t m")
    case None
    then show ?thesis using mac_clear_find [OF assms(1) loop, of m] by (simp add: mac_table_lookup_find)
  next
    case (Some e)
    have e: "e \<in> set (mt_entries t)" "mac_used e" "me_mac e = m"
      using mac_find_iff [OF assms(1), of m e] Some by simp_all
    have "e' = e" if "e' \<in> set (mt_entries t)" "mac_used e'" "me_mac e' = m" for e'
      using mac_find_iff [OF assms(1), of m e'] that Some by simp
    with e have "(\<exists>e' \<in> set (mt_entries t). me_valid e' \<noteq> 0 \<and> me_mac e' = m \<and>
        now - me_timestamp e' > 300000) \<longleftrightarrow> now - me_timestamp e > 300000" by blast
    then show ?thesis
      using mac_clear_find [OF assms(1) loop, of m] e Some
      by (simp add: mac_table_lookup_find)
  qed
  ultimately show "\<exists>t'. mac_table_age (Some t) now = Some t' \<and> mac_inv t' \<and>
      (\<forall>i < 1024. let e = mt_entries t ! i in mt_entries t' ! i =
        (if me_valid e \<noteq> 0 \<and> now - me_timestamp e > 300000 then e\<lparr>me_valid := 0\<rparr> else e)) \<and>
      (\<forall>m. mac_table_lookup (Some t') (Some m) =
        (if \<exists>e \<in> set (mt_entries t). me_valid e \<noteq> 0 \<and> me_mac e = m \<and> now - me_timestamp e > 300000
         then NULL else mac_table_lookup (Some t) (Some m)))"
    using mac_clear_nth [OF assms(1) loop] by (intro exI [of _ ?t']) simp
next
  let ?t1 = "mac_learned mac port now t" and ?t2 = "mac_aged later (mac_learned mac port now t)"
  assume "mac_room t \<or> mac_table_lookup (Some t) (Some mac) \<noteq> NULL"
  then have room: "mac_room t \<or> map_option me_port (mac_find t mac) \<noteq> None"
    by (auto simp: mac_table_lookup_find)
  then obtain r where l: "mac_table_learn (Some t) (Some mac) port now = (Some r, Some ?t1)"
    using mac_table_learn_some [OF assms(2), of t mac now] by auto
  have "mac_table_lookup (Some ?t2) (Some mac) = (if later - now > 300000 then NULL else port)"
    using mac_cache.learned_goes_stale [OF assms(1) TrueI assms(2) room, of later now]
      mac_cache.learned_survives [OF assms(1) TrueI assms(2) room, of later now]
    by (auto simp: mac_table_lookup_find not_le not_less split: option.split)
  moreover have "mac_inv ?t2"
    using mac_aged_spec(1) mac_learn_inv [OF assms l] by blast
  ultimately show "\<exists>r t1 t2. mac_table_learn (Some t) (Some mac) port now = (Some r, Some t1) \<and>
      mac_table_age (Some t1) later = Some t2 \<and> mac_inv t2 \<and>
      mac_table_lookup (Some t2) (Some mac) = (if later - now > 300000 then NULL else port)"
    using l mac_table_age_eq by blast
next
  let ?P = "\<lambda>e. me_valid e \<noteq> 0 \<and> me_port e = port"
  obtain es n where loop: "mac_clear_loop ?P (mt_entries t) (mt_count t) = (es, n)" by fastforce
  let ?t' = "t\<lparr>mt_entries := es, mt_count := n\<rparr>"
  have "mac_table_flush_port (Some t) port = Some ?t'"
    using loop assms(2) by (simp add: mac_table_flush_port_def)
  moreover have "mac_inv ?t'" using mac_clear_inv [OF assms(1) _ loop] by simp
  moreover have "mac_table_lookup (Some ?t') (Some m) =
      (if mac_table_lookup (Some t) (Some m) = port then NULL else mac_table_lookup (Some t) (Some m))" for m
  proof -
    have used: "mac_used e" if "mac_find t m = Some e" for e
      using that mac_find_iff [OF assms(1), of m e] by simp
    show ?thesis
      using mac_clear_find [OF assms(1) loop, of m] used assms(2)
      by (auto simp: mac_table_lookup_find split: option.splits)
  qed
  ultimately show "\<exists>t'. mac_table_flush_port (Some t) port = Some t' \<and> mac_inv t' \<and>
      (\<forall>i < 1024. let e = mt_entries t ! i in mt_entries t' ! i =
        (if me_valid e \<noteq> 0 \<and> me_port e = port then e\<lparr>me_valid := 0\<rparr> else e)) \<and>
      (\<forall>m. mac_table_lookup (Some t') (Some m) =
        (if mac_table_lookup (Some t) (Some m) = port then NULL
         else mac_table_lookup (Some t) (Some m)))"
    using mac_clear_nth [OF assms(1) loop] by (intro exI [of _ ?t']) simp
qed

theorem mac_table_expiry_witness:
  "\<exists>r t1 t2. mac_table_learn (Some mac_table_zero) (Some [2, 0, 0, 0, 0, 1]) 7 5 = (Some r, Some t1) \<and>
     mac_table_age (Some t1) 300006 = Some t2 \<and>
     mac_table_lookup (Some t2) (Some [2, 0, 0, 0, 0, 1]) = NULL"
proof -
  have "mac_room mac_table_zero" by (simp add: mac_room_def mac_table_zero_def)
  then show ?thesis
    using mac_table_expiry [OF mac_zero_inv(1), of 7 5 "[2, 0, 0, 0, 0, 1]" 300006] by auto
qed

end
