(* ===== verification/Arp_Cache.thy ===== *)
theory Arp_Cache
  imports Slot_Table
begin

text \<open>
  The neighbour cache of a host (\<open>protocols/arp_cache.h\<close>, \<open>protocols/arp_cache.c\<close>): 256 slots
  that map IPv4 addresses to MAC addresses, and 32 slots for packets that wait for an address to
  be resolved. The flush of the waiting packets sends them through IP and is modelled with the
  IP output path.
\<close>

abbreviation (input) ARP_MAX_CACHE_SIZE :: nat where "ARP_MAX_CACHE_SIZE \<equiv> 256"
abbreviation (input) ARP_MAX_PENDING_PACKETS :: nat where "ARP_MAX_PENDING_PACKETS \<equiv> 32"
abbreviation (input) ARP_CACHE_TIMEOUT_MS :: u64 where "ARP_CACHE_TIMEOUT_MS \<equiv> 300000"

record ArpCacheEntry =
  ae_ip_addr :: u32
  ae_mac_addr :: mac
  ae_timestamp :: u64
  ae_valid :: int

record ArpPendingPacket =
  ap_target_ip :: u32
  ap_src_ip :: u32
  ap_dst_ip :: u32
  ap_protocol :: u8
  ap_iface :: ptr
  ap_payload :: ptr
  ap_valid :: int

record ArpCache =
  ac_entries :: "ArpCacheEntry list"
  ac_count :: int
  ac_pending :: "ArpPendingPacket list"
  ac_pending_count :: int

definition arp_cache_zero :: ArpCache where
  "arp_cache_zero =
     \<lparr>ac_entries = replicate ARP_MAX_CACHE_SIZE
        \<lparr>ae_ip_addr = 0, ae_mac_addr = replicate 6 0, ae_timestamp = 0, ae_valid = 0\<rparr>,
      ac_count = 0,
      ac_pending = replicate ARP_MAX_PENDING_PACKETS
        \<lparr>ap_target_ip = 0, ap_src_ip = 0, ap_dst_ip = 0, ap_protocol = 0, ap_iface = NULL,
         ap_payload = NULL, ap_valid = 0\<rparr>,
      ac_pending_count = 0\<rparr>"

definition arp_cache_init :: "ArpCache option \<Rightarrow> ArpCache option" where
  "arp_cache_init cache = (case cache of None \<Rightarrow> None | Some c \<Rightarrow> Some arp_cache_zero)"

definition arp_cache_add :: "ArpCache option \<Rightarrow> u32 \<Rightarrow> mac \<Rightarrow> u64 \<Rightarrow> ArpCache option" where
  "arp_cache_add cache ip_addr mac_addr timestamp =
     (case cache of
        None \<Rightarrow> None
      | Some c \<Rightarrow>
          if ip_addr = 0 then cache
          else
            (case first_index (\<lambda>e. ae_valid e = 1 \<and> ae_ip_addr e = ip_addr) (ac_entries c) of
               Some i \<Rightarrow>
                 let e = ac_entries c ! i;
                     e = e\<lparr>ae_mac_addr := mac_addr, ae_timestamp := timestamp\<rparr>
                 in Some (c\<lparr>ac_entries := (ac_entries c)[i := e]\<rparr>)
             | None \<Rightarrow>
                 (case first_index (\<lambda>e. ae_valid e = 0) (ac_entries c) of
                    Some i \<Rightarrow>
                      let e = ac_entries c ! i;
                          e = e\<lparr>ae_ip_addr := ip_addr, ae_mac_addr := mac_addr,
                                ae_timestamp := timestamp, ae_valid := 1\<rparr>
                      in Some (c\<lparr>ac_entries := (ac_entries c)[i := e], ac_count := ac_count c + 1\<rparr>)
                  | None \<Rightarrow> cache)))"

text \<open>The result is the return value and the contents of the caller's \<open>out_mac\<close> buffer.\<close>

definition arp_cache_lookup :: "ArpCache option \<Rightarrow> u32 \<Rightarrow> mac option \<Rightarrow> int \<times> mac option" where
  "arp_cache_lookup cache ip_addr out_mac =
     (case (cache, out_mac) of
        (Some c, Some buf) \<Rightarrow>
          if ip_addr = 0 then (- 1, out_mac)
          else
            (case first_index (\<lambda>e. ae_valid e = 1 \<and> ae_ip_addr e = ip_addr) (ac_entries c) of
               Some i \<Rightarrow> (0, Some (ae_mac_addr (ac_entries c ! i)))
             | None \<Rightarrow> (- 1, out_mac))
      | _ \<Rightarrow> (- 1, out_mac))"

definition arp_pending_enqueue ::
  "ArpCache option \<Rightarrow> ptr \<Rightarrow> u32 \<Rightarrow> u32 \<Rightarrow> u32 \<Rightarrow> u8 \<Rightarrow> ptr \<Rightarrow> int \<times> ArpCache option" where
  "arp_pending_enqueue cache iface target_ip src_ip dst_ip protocol payload =
     (case cache of
        None \<Rightarrow> (- 1, None)
      | Some c \<Rightarrow>
          if iface = NULL \<or> target_ip = 0 \<or> payload = NULL then (- 1, cache)
          else
            (case first_index (\<lambda>p. ap_valid p = 0) (ac_pending c) of
               Some i \<Rightarrow>
                 let p = (ac_pending c ! i)
                           \<lparr>ap_target_ip := target_ip, ap_src_ip := src_ip, ap_dst_ip := dst_ip,
                            ap_protocol := protocol, ap_iface := iface, ap_payload := payload,
                            ap_valid := 1\<rparr>
                 in (0, Some (c\<lparr>ac_pending := (ac_pending c)[i := p],
                                ac_pending_count := ac_pending_count c + 1\<rparr>))
             | None \<Rightarrow> (- 1, cache)))"

text \<open>
  The part of \<open>arp_pending_flush\<close> that releases a matching slot before the packet is sent.
\<close>

definition arp_pending_release :: "ArpCache \<Rightarrow> nat \<Rightarrow> ArpCache" where
  "arp_pending_release c i =
     (let c = c\<lparr>ac_pending := (ac_pending c)[i := (ac_pending c ! i)
                  \<lparr>ap_valid := 0, ap_payload := NULL, ap_iface := NULL\<rparr>]\<rparr>
      in if ac_pending_count c > 0 then c\<lparr>ac_pending_count := ac_pending_count c - 1\<rparr> else c)"

fun arp_cleanup_loop :: "u64 \<Rightarrow> ArpCacheEntry list \<Rightarrow> int \<Rightarrow> ArpCacheEntry list \<times> int" where
  "arp_cleanup_loop current_time [] count = ([], count)"
| "arp_cleanup_loop current_time (e # es) count =
     (let (e', count') =
            (if ae_valid e = 1 \<and> current_time - ae_timestamp e \<ge> ARP_CACHE_TIMEOUT_MS
             then (e\<lparr>ae_valid := 0\<rparr>, count - 1) else (e, count));
          (es', count'') = arp_cleanup_loop current_time es count'
      in (e' # es', count''))"

definition arp_cache_cleanup :: "ArpCache option \<Rightarrow> u64 \<Rightarrow> ArpCache option" where
  "arp_cache_cleanup cache current_time =
     (case cache of
        None \<Rightarrow> None
      | Some c \<Rightarrow>
          let (es, n) = arp_cleanup_loop current_time (ac_entries c) (ac_count c)
          in Some (c\<lparr>ac_entries := es, ac_count := n\<rparr>))"

section \<open>The invariant\<close>

abbreviation arp_used :: "ArpCacheEntry \<Rightarrow> bool" where "arp_used e \<equiv> ae_valid e = 1"
abbreviation pend_used :: "ArpPendingPacket \<Rightarrow> bool" where "pend_used p \<equiv> ap_valid p \<noteq> 0"

text \<open>
  Flags are 0 or 1, the counters count, no address occurs twice, every cached MAC address has six
  bytes, and a waiting packet has an interface and a payload.
\<close>

definition arp_inv :: "ArpCache \<Rightarrow> bool" where
  "arp_inv c \<longleftrightarrow>
     length (ac_entries c) = ARP_MAX_CACHE_SIZE \<and>
     (\<forall>e \<in> set (ac_entries c). ae_valid e \<in> {0, 1}) \<and>
     ac_count c = int (in_use arp_used (ac_entries c)) \<and>
     unique_keys arp_used ae_ip_addr (ac_entries c) \<and>
     (\<forall>e \<in> set (ac_entries c). arp_used e \<longrightarrow> ae_ip_addr e \<noteq> 0 \<and> length (ae_mac_addr e) = 6)"

text \<open>The same without the length of the addresses, which is the type of the array in C.\<close>

definition arp_core :: "ArpCache \<Rightarrow> bool" where
  "arp_core c \<longleftrightarrow>
     length (ac_entries c) = ARP_MAX_CACHE_SIZE \<and>
     (\<forall>e \<in> set (ac_entries c). ae_valid e \<in> {0, 1}) \<and>
     ac_count c = int (in_use arp_used (ac_entries c)) \<and>
     unique_keys arp_used ae_ip_addr (ac_entries c) \<and>
     (\<forall>e \<in> set (ac_entries c). arp_used e \<longrightarrow> ae_ip_addr e \<noteq> 0)"

lemma arp_inv_core:
  "arp_inv c \<longleftrightarrow> arp_core c \<and> (\<forall>e \<in> set (ac_entries c). arp_used e \<longrightarrow> length (ae_mac_addr e) = 6)"
  by (auto simp: arp_inv_def arp_core_def)

definition pend_inv :: "ArpCache \<Rightarrow> bool" where
  "pend_inv c \<longleftrightarrow>
     length (ac_pending c) = ARP_MAX_PENDING_PACKETS \<and>
     ac_pending_count c = int (in_use pend_used (ac_pending c)) \<and>
     (\<forall>p \<in> set (ac_pending c). pend_used p \<longrightarrow>
        ap_iface p \<noteq> NULL \<and> ap_payload p \<noteq> NULL \<and> ap_target_ip p \<noteq> 0)"

definition arp_room :: "ArpCache \<Rightarrow> bool" where
  "arp_room c \<longleftrightarrow> (\<exists>e \<in> set (ac_entries c). ae_valid e = 0)"

definition arp_find :: "ArpCache \<Rightarrow> u32 \<Rightarrow> ArpCacheEntry option" where
  "arp_find c ip = entry_of arp_used ae_ip_addr ip (ac_entries c)"

lemma arp_slot: "first_index (\<lambda>e. ae_valid e = 1 \<and> ae_ip_addr e = ip) es = slot_of arp_used ae_ip_addr ip es"
  by (simp add: slot_of_def)

lemma arp_zero_inv: "arp_inv arp_cache_zero" "pend_inv arp_cache_zero" "arp_find arp_cache_zero ip = None"
  by (auto simp: arp_inv_def pend_inv_def arp_cache_zero_def in_use_def unique_keys_def arp_find_def
      entry_of_None slot_of_None)

lemma arp_find_0: "arp_inv c \<Longrightarrow> arp_find c 0 = None"
  by (auto simp: arp_find_def entry_of_None slot_of_None arp_inv_def)

lemma arp_cache_lookup_find:
  "arp_inv c \<Longrightarrow> arp_cache_lookup (Some c) ip (Some buf) =
     (case arp_find c ip of None \<Rightarrow> (- 1, Some buf) | Some e \<Rightarrow> (0, Some (ae_mac_addr e)))"
  using arp_find_0 [of c]
  by (auto simp: arp_cache_lookup_def arp_find_def entry_of_def arp_slot split: option.split)

lemma arp_find_SomeD:
  assumes "arp_inv c" "arp_find c ip = Some e"
  shows "ae_ip_addr e = ip" "arp_used e" "length (ae_mac_addr e) = 6" "ip \<noteq> 0"
  using assms by (auto simp: arp_find_def entry_of_iff arp_inv_def)

section \<open>Adding and expiring\<close>

lemma arp_cache_add_cases:
  assumes "ip \<noteq> 0"
  obtains (refresh) i where "slot_of arp_used ae_ip_addr ip (ac_entries c) = Some i"
      "arp_cache_add (Some c) ip mac ts = Some (c\<lparr>ac_entries := (ac_entries c)[i := (ac_entries c ! i)
         \<lparr>ae_mac_addr := mac, ae_timestamp := ts\<rparr>]\<rparr>)"
    | (insert) i where "slot_of arp_used ae_ip_addr ip (ac_entries c) = None"
      "i < length (ac_entries c)" "ae_valid (ac_entries c ! i) = 0"
      "arp_cache_add (Some c) ip mac ts = Some (c\<lparr>ac_entries := (ac_entries c)[i := (ac_entries c ! i)
         \<lparr>ae_ip_addr := ip, ae_mac_addr := mac, ae_timestamp := ts, ae_valid := 1\<rparr>],
         ac_count := ac_count c + 1\<rparr>)"
    | (full) "slot_of arp_used ae_ip_addr ip (ac_entries c) = None" "\<not> arp_room c"
      "arp_cache_add (Some c) ip mac ts = Some c"
proof (cases "slot_of arp_used ae_ip_addr ip (ac_entries c)")
  case (Some i)
  then show ?thesis using refresh assms by (simp add: arp_cache_add_def arp_slot Let_def)
next
  case missing: None
  show ?thesis
  proof (cases "first_index (\<lambda>e. ae_valid e = 0) (ac_entries c)")
    case (Some i)
    then show ?thesis using insert [of i] missing assms first_index_SomeD [OF Some]
      by (simp add: arp_cache_add_def arp_slot Let_def)
  next
    case None
    then have "\<not> arp_room c" by (simp add: first_index_None arp_room_def)
    then show ?thesis using full missing assms None
      by (simp add: arp_cache_add_def arp_slot Let_def)
  qed
qed

definition arp_added :: "u32 \<Rightarrow> mac \<Rightarrow> u64 \<Rightarrow> ArpCache \<Rightarrow> ArpCache" where
  "arp_added ip mac ts c = the (arp_cache_add (Some c) ip mac ts)"

definition arp_cleaned :: "u64 \<Rightarrow> ArpCache \<Rightarrow> ArpCache" where
  "arp_cleaned now c = the (arp_cache_cleanup (Some c) now)"

lemma arp_cache_add_some: "arp_cache_add (Some c) ip mac ts = Some (arp_added ip mac ts c)"
  by (simp add: arp_added_def arp_cache_add_def Let_def split: option.split)

lemma arp_cache_cleanup_some: "arp_cache_cleanup (Some c) now = Some (arp_cleaned now c)"
  by (simp add: arp_cleaned_def arp_cache_cleanup_def split: prod.split)

lemma arp_added_pending [simp]:
  "ac_pending (arp_added ip mac ts c) = ac_pending c"
  "ac_pending_count (arp_added ip mac ts c) = ac_pending_count c"
  by (simp_all add: arp_added_def arp_cache_add_def Let_def split: option.split)

lemma arp_added_0 [simp]: "arp_added 0 mac ts c = c"
  by (simp add: arp_added_def arp_cache_add_def)

lemma arp_added_core:
  assumes "arp_core c"
  shows "arp_core (arp_added ip mac ts c)"
proof (cases "ip = 0")
  case True
  then show ?thesis using assms by simp
next
  case False
  then show ?thesis
  proof (cases rule: arp_cache_add_cases [of ip c mac ts])
    case (refresh i)
    let ?e = "(ac_entries c ! i)\<lparr>ae_mac_addr := mac, ae_timestamp := ts\<rparr>"
    have i: "i < length (ac_entries c)" "arp_used (ac_entries c ! i)" "ae_ip_addr (ac_entries c ! i) = ip"
      using refresh by (auto dest: slot_of_SomeD)
    have "unique_keys arp_used ae_ip_addr ((ac_entries c)[i := ?e])"
      using assms i refresh by (intro unique_keys_update) (auto simp: arp_core_def)
    moreover have "in_use arp_used ((ac_entries c)[i := ?e]) = in_use arp_used (ac_entries c)"
      using i by (intro in_use_update_same) auto
    ultimately show ?thesis
      using assms False refresh i
      by (auto simp: arp_core_def arp_added_def dest!: set_update_subset_insert [THEN subsetD])
  next
    case (insert i)
    let ?e = "(ac_entries c ! i)\<lparr>ae_ip_addr := ip, ae_mac_addr := mac, ae_timestamp := ts, ae_valid := 1\<rparr>"
    have "unique_keys arp_used ae_ip_addr ((ac_entries c)[i := ?e])"
      using assms insert by (intro unique_keys_update) (auto simp: arp_core_def)
    moreover have "in_use arp_used ((ac_entries c)[i := ?e]) = Suc (in_use arp_used (ac_entries c))"
      using insert by (intro in_use_update_take) auto
    ultimately show ?thesis
      using assms False insert
      by (auto simp: arp_core_def arp_added_def dest!: set_update_subset_insert [THEN subsetD])
  qed (use assms in \<open>auto simp: arp_added_def\<close>)
qed

lemma arp_added_inv:
  assumes "arp_inv c" "length mac = 6"
  shows "arp_inv (arp_added ip mac ts c)"
proof (cases "ip = 0")
  case False
  then have "\<forall>e \<in> set (ac_entries (arp_added ip mac ts c)). arp_used e \<longrightarrow> length (ae_mac_addr e) = 6"
    by (cases rule: arp_cache_add_cases [of ip c mac ts])
      (use assms in \<open>auto simp: arp_inv_core arp_added_def dest!: set_update_subset_insert [THEN subsetD]\<close>)
  then show ?thesis using assms arp_added_core by (simp add: arp_inv_core)
qed (use assms in simp)

lemma arp_added_find:
  assumes "arp_inv c" "ip \<noteq> 0" "arp_room c \<or> arp_find c ip \<noteq> None"
  shows "\<exists>e. arp_find (arp_added ip mac ts c) = (arp_find c)(ip \<mapsto> e) \<and> ae_mac_addr e = mac \<and> ae_timestamp e = ts"
  using assms(2)
proof (cases rule: arp_cache_add_cases [of ip c mac ts])
  case (refresh i)
  let ?e = "(ac_entries c ! i)\<lparr>ae_mac_addr := mac, ae_timestamp := ts\<rparr>"
  have i: "i < length (ac_entries c)" "arp_used (ac_entries c ! i)" "ae_ip_addr (ac_entries c ! i) = ip"
    using refresh by (auto dest: slot_of_SomeD)
  have "entry_of arp_used ae_ip_addr a ((ac_entries c)[i := ?e]) =
      (if ip = a then Some ?e else entry_of arp_used ae_ip_addr a (ac_entries c))" for a
    using assms(1) i refresh by (subst entry_of_update) (auto simp: arp_inv_def)
  then show ?thesis
    using refresh by (intro exI [of _ ?e]) (auto simp: arp_find_def arp_added_def fun_eq_iff)
next
  case (insert i)
  let ?e = "(ac_entries c ! i)\<lparr>ae_ip_addr := ip, ae_mac_addr := mac, ae_timestamp := ts, ae_valid := 1\<rparr>"
  have "entry_of arp_used ae_ip_addr a ((ac_entries c)[i := ?e]) =
      (if ip = a then Some ?e else entry_of arp_used ae_ip_addr a (ac_entries c))" for a
    using assms(1) insert by (subst entry_of_update) (auto simp: arp_inv_def)
  then show ?thesis
    using insert by (intro exI [of _ ?e]) (auto simp: arp_find_def arp_added_def fun_eq_iff)
qed (use assms in \<open>auto simp: arp_find_def entry_of_None\<close>)

lemma arp_cleanup_loop_eq:
  "arp_cleanup_loop now es n =
     (map (\<lambda>e. if ae_valid e = 1 \<and> now - ae_timestamp e \<ge> 300000 then e\<lparr>ae_valid := 0\<rparr> else e) es,
      n - int (length (filter (\<lambda>e. ae_valid e = 1 \<and> now - ae_timestamp e \<ge> 300000) es)))"
  by (induction now es n rule: arp_cleanup_loop.induct) (auto simp: Let_def)

lemma in_use_cleanup:
  "in_use arp_used (map (\<lambda>e. if arp_used e \<and> P e then e\<lparr>ae_valid := 0\<rparr> else e) es)
     + length (filter (\<lambda>e. arp_used e \<and> P e) es) = in_use arp_used es"
  by (induction es) auto

lemma arp_cleaned_spec:
  assumes "arp_inv c"
  shows "arp_inv (arp_cleaned now c)"
    and "arp_find (arp_cleaned now c) ip = (case arp_find c ip of None \<Rightarrow> None
      | Some e \<Rightarrow> if now - ae_timestamp e \<ge> 300000 then None else Some e)"
proof -
  let ?P = "\<lambda>e. now - ae_timestamp e \<ge> 300000"
  let ?f = "\<lambda>e. if arp_used e \<and> ?P e then e\<lparr>ae_valid := 0\<rparr> else e"
  have cl: "arp_cleaned now c = c\<lparr>ac_entries := map ?f (ac_entries c),
      ac_count := ac_count c - int (length (filter (\<lambda>e. arp_used e \<and> ?P e) (ac_entries c)))\<rparr>"
    by (simp add: arp_cleaned_def arp_cache_cleanup_def arp_cleanup_loop_eq)
  have uk: "unique_keys arp_used ae_ip_addr (ac_entries c)" using assms by (simp add: arp_inv_def)
  have "unique_keys arp_used ae_ip_addr (map ?f (ac_entries c))"
    using uk by (rule unique_keys_map) (auto split: if_splits)
  then show "arp_inv (arp_cleaned now c)"
    using assms in_use_cleanup [of ?P "ac_entries c"] by (auto simp: arp_inv_def cl)
  have "entry_of arp_used ae_ip_addr ip (map ?f (ac_entries c)) =
      (case entry_of arp_used ae_ip_addr ip (ac_entries c) of None \<Rightarrow> None
       | Some e \<Rightarrow> if arp_used (?f e) then Some e else None)"
    by (rule entry_of_map [OF uk]) (auto split: if_splits)
  moreover have "arp_used e" if "entry_of arp_used ae_ip_addr ip (ac_entries c) = Some e" for e
    using that uk by (simp add: entry_of_iff)
  ultimately show "arp_find (arp_cleaned now c) ip = (case arp_find c ip of None \<Rightarrow> None
      | Some e \<Rightarrow> if now - ae_timestamp e \<ge> 300000 then None else Some e)"
    by (auto simp: arp_find_def cl split: option.split)
qed

lemma arp_cleaned_slots:
  assumes "arp_inv c"
  shows "ac_pending (arp_cleaned now c) = ac_pending c"
    and "ac_pending_count (arp_cleaned now c) = ac_pending_count c"
    and "i < 256 \<Longrightarrow> ac_entries (arp_cleaned now c) ! i =
      (if ae_valid (ac_entries c ! i) = 1 \<and> now - ae_timestamp (ac_entries c ! i) \<ge> 300000
       then (ac_entries c ! i)\<lparr>ae_valid := 0\<rparr> else ac_entries c ! i)"
  using assms by (auto simp: arp_cleaned_def arp_cache_cleanup_def arp_cleanup_loop_eq arp_inv_def)

lemma arp_find_iff:
  "arp_inv c \<Longrightarrow> arp_find c a = Some e \<longleftrightarrow> e \<in> set (ac_entries c) \<and> arp_used e \<and> ae_ip_addr e = a"
  by (simp add: arp_find_def entry_of_iff arp_inv_def)

interpretation arp_neigh: learning_cache arp_added
  "\<lambda>c ip. map_option ae_mac_addr (arp_find c ip)" "\<lambda>c ip. map_option ae_timestamp (arp_find c ip)"
  arp_cleaned "\<lambda>now ts. \<not> now - ts \<ge> 300000" arp_room arp_inv "\<lambda>ip. ip \<noteq> 0" "\<lambda>m. length m = 6"
proof unfold_locales
  fix c :: ArpCache and m :: mac and ip :: u32 and ts :: u64
  assume c: "arp_inv c" and m: "length m = 6"
  show "arp_inv (arp_added ip m ts c)" by (rule arp_added_inv [OF c m])
  assume ip: "ip \<noteq> 0" and ok: "arp_room c \<or> map_option ae_mac_addr (arp_find c ip) \<noteq> None"
  then obtain e where e: "arp_find (arp_added ip m ts c) = (arp_find c)(ip \<mapsto> e)" "ae_mac_addr e = m"
    "ae_timestamp e = ts"
    using arp_added_find [OF c ip, of m ts] by auto
  show "(\<lambda>a. map_option ae_mac_addr (arp_find (arp_added ip m ts c) a)) =
      (\<lambda>a. map_option ae_mac_addr (arp_find c a))(ip \<mapsto> m)" using e by auto
  show "(\<lambda>a. map_option ae_timestamp (arp_find (arp_added ip m ts c) a)) =
      (\<lambda>a. map_option ae_timestamp (arp_find c a))(ip \<mapsto> ts)" using e by auto
next
  fix c :: ArpCache and ip :: u32 and m :: mac and ts :: u64
  assume "arp_inv c" "\<not> arp_room c" "map_option ae_mac_addr (arp_find c ip) = None"
  then show "arp_added ip m ts c = c"
  proof (cases "ip = 0")
    case False
    then show ?thesis
    proof (cases rule: arp_cache_add_cases [of ip c m ts])
      case (insert i)
      then show ?thesis using \<open>\<not> arp_room c\<close> by (auto simp: arp_room_def)
    qed (use \<open>map_option ae_mac_addr (arp_find c ip) = None\<close> in
        \<open>auto simp: arp_added_def arp_find_def entry_of_def\<close>)
  qed simp
qed (auto simp: arp_cleaned_spec split: option.split)

section \<open>Waiting packets\<close>

lemma arp_pending_enqueue_cases:
  assumes "iface \<noteq> NULL" "target \<noteq> 0" "payload \<noteq> NULL"
  obtains (queued) i where "i < length (ac_pending c)" "ap_valid (ac_pending c ! i) = 0"
      "arp_pending_enqueue (Some c) iface target src dst proto payload =
        (0, Some (c\<lparr>ac_pending := (ac_pending c)[i := (ac_pending c ! i)\<lparr>ap_target_ip := target,
            ap_src_ip := src, ap_dst_ip := dst, ap_protocol := proto, ap_iface := iface,
            ap_payload := payload, ap_valid := 1\<rparr>],
          ac_pending_count := ac_pending_count c + 1\<rparr>))"
    | (full) "\<forall>p \<in> set (ac_pending c). ap_valid p \<noteq> 0"
      "arp_pending_enqueue (Some c) iface target src dst proto payload = (- 1, Some c)"
proof (cases "first_index (\<lambda>p. ap_valid p = 0) (ac_pending c)")
  case (Some i)
  then show ?thesis using queued [of i] first_index_SomeD [OF Some] Some assms
    by (simp add: arp_pending_enqueue_def Let_def)
next
  case None
  then have "\<forall>p \<in> set (ac_pending c). ap_valid p \<noteq> 0" by (simp add: first_index_None)
  then show ?thesis using full assms None by (simp add: arp_pending_enqueue_def)
qed

lemma arp_pending_enqueue_keeps:
  assumes "pend_inv c" "arp_pending_enqueue (Some c) iface target src dst proto payload = (r, Some c')"
  shows "pend_inv c' \<and> ac_entries c' = ac_entries c \<and> ac_count c' = ac_count c"
proof (cases "iface = NULL \<or> target = 0 \<or> payload = NULL")
  case True
  then show ?thesis using assms by (auto simp: arp_pending_enqueue_def)
next
  case False
  then have args: "iface \<noteq> NULL" "target \<noteq> 0" "payload \<noteq> NULL" by auto
  then show ?thesis
  proof (cases rule: arp_pending_enqueue_cases [of iface target payload c src dst proto])
    case (queued i)
    let ?p = "(ac_pending c ! i)\<lparr>ap_target_ip := target, ap_src_ip := src, ap_dst_ip := dst,
      ap_protocol := proto, ap_iface := iface, ap_payload := payload, ap_valid := 1\<rparr>"
    have "in_use pend_used ((ac_pending c)[i := ?p]) = Suc (in_use pend_used (ac_pending c))"
      using queued by (intro in_use_update_take) auto
    then show ?thesis
      using assms queued args
      by (auto simp: pend_inv_def dest!: set_update_subset_insert [THEN subsetD])
  qed (use assms in auto)
qed

lemma arp_pending_enqueue_inv:
  "pend_inv c \<Longrightarrow> arp_inv c \<Longrightarrow> arp_pending_enqueue (Some c) iface target src dst proto payload = (r, Some c') \<Longrightarrow>
   pend_inv c' \<and> arp_inv c'"
  using arp_pending_enqueue_keeps by (auto simp: arp_inv_def)

lemma arp_pending_release_inv:
  assumes "pend_inv c" "i < length (ac_pending c)" "pend_used (ac_pending c ! i)"
  shows "pend_inv (arp_pending_release c i)"
    and "ac_pending_count (arp_pending_release c i) = ac_pending_count c - 1"
proof -
  let ?p = "(ac_pending c ! i)\<lparr>ap_valid := 0, ap_payload := NULL, ap_iface := NULL\<rparr>"
  have "Suc (in_use pend_used ((ac_pending c)[i := ?p])) = in_use pend_used (ac_pending c)"
    using assms by (intro in_use_update_release) auto
  moreover have "0 < in_use pend_used (ac_pending c)"
    using assms by (intro in_use_pos)
  ultimately show "pend_inv (arp_pending_release c i)"
    "ac_pending_count (arp_pending_release c i) = ac_pending_count c - 1"
    using assms(1)
    by (auto simp: pend_inv_def arp_pending_release_def Let_def
        dest!: set_update_subset_insert [THEN subsetD])
qed

lemma arp_pending_release_frame [simp]:
  "ac_entries (arp_pending_release c i) = ac_entries c"
  "ac_count (arp_pending_release c i) = ac_count c"
  by (simp_all add: arp_pending_release_def Let_def)

lemma arp_pending_release_pending [simp]:
  "ac_pending (arp_pending_release c i) = (ac_pending c)[i := (ac_pending c ! i)
     \<lparr>ap_valid := 0, ap_payload := NULL, ap_iface := NULL\<rparr>]"
  by (simp add: arp_pending_release_def Let_def)

section \<open>Properties\<close>

text \<open>
  C16 After \<open>arp_cache_add\<close> of a non-zero address that is known or for which a slot is free, a
  lookup gives the new MAC address for it and the old results for all others; when the cache is
  full, an unknown address is dropped and nothing changes. \<open>arp_cache_cleanup\<close> invalidates the valid
  entries that are at least \<open>ARP_CACHE_TIMEOUT_MS\<close> old, and leaves every other slot as it is: a
  lookup fails for the addresses of those entries and gives what it gave before for all others. So
  an address added at \<open>ts\<close> is found until a cleanup that many milliseconds later, and not after it.
  Neither touches the 32 waiting packets or their counter.
\<close>

theorem arp_cache_correct:
  assumes "arp_inv c" "length mac = 6" "ip \<noteq> 0"
  shows "(\<exists>c'. arp_cache_add (Some c) ip mac ts = Some c' \<and> arp_inv c' \<and>
      ac_pending c' = ac_pending c \<and> ac_pending_count c' = ac_pending_count c \<and>
      (if arp_room c \<or> fst (arp_cache_lookup (Some c) ip (Some buf)) = 0
       then (\<forall>a. arp_cache_lookup (Some c') a (Some buf) =
                (if a = ip then (0, Some mac) else arp_cache_lookup (Some c) a (Some buf))) \<and>
         arp_cache_lookup (arp_cache_cleanup (Some c') now) ip (Some buf) =
           (if now - ts \<ge> 300000 then (- 1, Some buf) else (0, Some mac))
       else c' = c)) \<and>
    (\<exists>c'. arp_cache_cleanup (Some c) now = Some c' \<and> arp_inv c' \<and>
      ac_pending c' = ac_pending c \<and> ac_pending_count c' = ac_pending_count c \<and>
      (\<forall>i < 256. let e = ac_entries c ! i in ac_entries c' ! i =
        (if ae_valid e = 1 \<and> now - ae_timestamp e \<ge> 300000 then e\<lparr>ae_valid := 0\<rparr> else e)) \<and>
      (\<forall>a. arp_cache_lookup (Some c') a (Some buf) =
        (if \<exists>e \<in> set (ac_entries c). ae_valid e = 1 \<and> ae_ip_addr e = a \<and> now - ae_timestamp e \<ge> 300000
         then (- 1, Some buf) else arp_cache_lookup (Some c) a (Some buf))))"
proof
  let ?c' = "arp_added ip mac ts c"
  have inv: "arp_inv ?c'" by (rule arp_added_inv [OF assms(1,2)])
  have known: "fst (arp_cache_lookup (Some c) ip (Some buf)) = 0 \<longleftrightarrow> arp_find c ip \<noteq> None"
    using assms(1) by (auto simp: arp_cache_lookup_find split: option.split)
  have "if arp_room c \<or> arp_find c ip \<noteq> None
    then (\<forall>a. arp_cache_lookup (Some ?c') a (Some buf) =
             (if a = ip then (0, Some mac) else arp_cache_lookup (Some c) a (Some buf))) \<and>
      arp_cache_lookup (Some (arp_cleaned now ?c')) ip (Some buf) =
        (if now - ts \<ge> 300000 then (- 1, Some buf) else (0, Some mac))
    else ?c' = c"
  proof (cases "arp_room c \<or> arp_find c ip \<noteq> None")
    case True
    then have learned: "arp_room c \<or> map_option ae_mac_addr (arp_find c ip) \<noteq> None" by auto
    have "arp_cache_lookup (Some (arp_cleaned now ?c')) ip (Some buf) =
        (if now - ts \<ge> 300000 then (- 1, Some buf) else (0, Some mac))"
      using arp_neigh.learned_goes_stale [OF assms(1) assms(3,2) learned, of now ts]
        arp_neigh.learned_survives [OF assms(1) assms(3,2) learned, of now ts]
        arp_cache_lookup_find [OF arp_cleaned_spec(1) [OF inv]]
      by (cases "now - ts \<ge> 300000") auto
    then show ?thesis
      using True arp_added_find [OF assms(1,3) True, of mac ts] assms(1) inv
      by (auto simp: arp_cache_lookup_find)
  next
    case False
    then show ?thesis using arp_neigh.learn_full [OF assms(1), of ip mac ts] by simp
  qed
  then show "\<exists>c'. arp_cache_add (Some c) ip mac ts = Some c' \<and> arp_inv c' \<and>
      ac_pending c' = ac_pending c \<and> ac_pending_count c' = ac_pending_count c \<and>
      (if arp_room c \<or> fst (arp_cache_lookup (Some c) ip (Some buf)) = 0
       then (\<forall>a. arp_cache_lookup (Some c') a (Some buf) =
                (if a = ip then (0, Some mac) else arp_cache_lookup (Some c) a (Some buf))) \<and>
         arp_cache_lookup (arp_cache_cleanup (Some c') now) ip (Some buf) =
           (if now - ts \<ge> 300000 then (- 1, Some buf) else (0, Some mac))
       else c' = c)"
    using inv known by (intro exI [of _ ?c']) (simp add: arp_cache_add_some arp_cache_cleanup_some)
next
  let ?c' = "arp_cleaned now c"
  have inv: "arp_inv ?c'" by (rule arp_cleaned_spec(1) [OF assms(1)])
  have "arp_cache_lookup (Some ?c') a (Some buf) =
      (if \<exists>e \<in> set (ac_entries c). ae_valid e = 1 \<and> ae_ip_addr e = a \<and> now - ae_timestamp e \<ge> 300000
       then (- 1, Some buf) else arp_cache_lookup (Some c) a (Some buf))" for a
  proof (cases "arp_find c a")
    case None
    then show ?thesis
      using arp_cleaned_spec(2) [OF assms(1), of now a] arp_cache_lookup_find [OF assms(1), of a]
        arp_cache_lookup_find [OF inv, of a] by simp
  next
    case (Some e)
    have e: "e \<in> set (ac_entries c)" "arp_used e" "ae_ip_addr e = a"
      using arp_find_iff [OF assms(1), of a e] Some by simp_all
    have "e' = e" if "e' \<in> set (ac_entries c)" "arp_used e'" "ae_ip_addr e' = a" for e'
      using arp_find_iff [OF assms(1), of a e'] that Some by simp
    with e have "(\<exists>e' \<in> set (ac_entries c). ae_valid e' = 1 \<and> ae_ip_addr e' = a \<and>
        now - ae_timestamp e' \<ge> 300000) \<longleftrightarrow> now - ae_timestamp e \<ge> 300000" by blast
    then show ?thesis
      using arp_cleaned_spec(2) [OF assms(1), of now a] Some arp_cache_lookup_find [OF assms(1), of a]
        arp_cache_lookup_find [OF inv, of a] by simp
  qed
  then show "\<exists>c'. arp_cache_cleanup (Some c) now = Some c' \<and> arp_inv c' \<and>
      ac_pending c' = ac_pending c \<and> ac_pending_count c' = ac_pending_count c \<and>
      (\<forall>i < 256. let e = ac_entries c ! i in ac_entries c' ! i =
        (if ae_valid e = 1 \<and> now - ae_timestamp e \<ge> 300000 then e\<lparr>ae_valid := 0\<rparr> else e)) \<and>
      (\<forall>a. arp_cache_lookup (Some c') a (Some buf) =
        (if \<exists>e \<in> set (ac_entries c). ae_valid e = 1 \<and> ae_ip_addr e = a \<and> now - ae_timestamp e \<ge> 300000
         then (- 1, Some buf) else arp_cache_lookup (Some c) a (Some buf)))"
    using inv arp_cleaned_slots [OF assms(1)] by (intro exI [of _ ?c']) (simp add: arp_cache_cleanup_some)
qed

theorem arp_cache_correct_witness:
  "\<exists>c'. arp_cache_add (Some arp_cache_zero) 0x0A000001 [2, 0, 0, 0, 0, 1] 5 = Some c' \<and>
     arp_cache_lookup (Some c') 0x0A000001 (Some []) = (0, Some [2, 0, 0, 0, 0, 1])"
proof -
  have "arp_room arp_cache_zero" by (simp add: arp_room_def arp_cache_zero_def)
  then show ?thesis
    using arp_cache_correct [OF arp_zero_inv(1), where mac = "[2, 0, 0, 0, 0, 1]" and ip = "0x0A000001"
        and ts = 5 and buf = "[]" and now = 0]
    by auto
qed

text \<open>
  C29 A packet is queued for an unresolved address exactly when its arguments are valid and one of
  the 32 slots is free: it then occupies one more slot, with its addresses, protocol, interface and
  payload, and the slots in use keep what they hold; otherwise the call fails and changes nothing.
  Releasing the slot gives the count back.
\<close>

theorem arp_pending_correct:
  assumes "pend_inv c" "arp_inv c"
  shows "\<exists>r c'. arp_pending_enqueue (Some c) iface target src dst proto payload = (r, Some c') \<and>
    pend_inv c' \<and> arp_inv c' \<and>
    (if iface \<noteq> NULL \<and> target \<noteq> 0 \<and> payload \<noteq> NULL \<and> ac_pending_count c < 32
     then r = 0 \<and> ac_pending_count c' = ac_pending_count c + 1 \<and>
       (\<exists>i < 32. ap_valid (ac_pending c ! i) = 0 \<and>
          ac_pending c' ! i = \<lparr>ap_target_ip = target, ap_src_ip = src, ap_dst_ip = dst,
            ap_protocol = proto, ap_iface = iface, ap_payload = payload, ap_valid = 1\<rparr> \<and>
          (\<forall>j. j \<noteq> i \<longrightarrow> ac_pending c' ! j = ac_pending c ! j) \<and>
          pend_inv (arp_pending_release c' i) \<and>
          ac_pending_count (arp_pending_release c' i) = ac_pending_count c)
     else r = - 1 \<and> c' = c)"
proof (cases "iface \<noteq> NULL \<and> target \<noteq> 0 \<and> payload \<noteq> NULL")
  case False
  then show ?thesis using assms by (auto simp: arp_pending_enqueue_def)
next
  case True
  then have args: "iface \<noteq> NULL" "target \<noteq> 0" "payload \<noteq> NULL" by auto
  have len: "length (ac_pending c) = 32" using assms(1) by (simp add: pend_inv_def)
  have count: "ac_pending_count c = int (in_use pend_used (ac_pending c))"
    using assms(1) by (simp add: pend_inv_def)
  from args show ?thesis
  proof (cases rule: arp_pending_enqueue_cases [of iface target payload c src dst proto])
    case (queued i)
    let ?p = "(ac_pending c ! i)\<lparr>ap_target_ip := target, ap_src_ip := src, ap_dst_ip := dst,
            ap_protocol := proto, ap_iface := iface, ap_payload := payload, ap_valid := 1\<rparr>"
    let ?c' = "c\<lparr>ac_pending := (ac_pending c)[i := ?p], ac_pending_count := ac_pending_count c + 1\<rparr>"
    have inv: "pend_inv ?c'" "arp_inv ?c'"
      using arp_pending_enqueue_inv [OF assms queued(3)] by auto
    have "in_use pend_used ((ac_pending c)[i := ?p]) = Suc (in_use pend_used (ac_pending c))"
      using queued by (intro in_use_update_take) auto
    moreover have "in_use pend_used ((ac_pending c)[i := ?p]) \<le> 32"
      using in_use_le [of pend_used "(ac_pending c)[i := ?p]"] len by simp
    ultimately have room: "ac_pending_count c < 32" using count by linarith
    have rel: "pend_inv (arp_pending_release ?c' i)"
      "ac_pending_count (arp_pending_release ?c' i) = ac_pending_count c"
      using arp_pending_release_inv [OF inv(1), of i] queued(1) by simp_all
    have "?p = \<lparr>ap_target_ip = target, ap_src_ip = src, ap_dst_ip = dst,
            ap_protocol = proto, ap_iface = iface, ap_payload = payload, ap_valid = 1\<rparr>" by simp
    then have "i < 32 \<and> ap_valid (ac_pending c ! i) = 0 \<and>
          ac_pending ?c' ! i = \<lparr>ap_target_ip = target, ap_src_ip = src, ap_dst_ip = dst,
            ap_protocol = proto, ap_iface = iface, ap_payload = payload, ap_valid = 1\<rparr> \<and>
          (\<forall>j. j \<noteq> i \<longrightarrow> ac_pending ?c' ! j = ac_pending c ! j)"
      using queued(1,2) len by simp
    with rel have "\<exists>i < 32. ap_valid (ac_pending c ! i) = 0 \<and>
          ac_pending ?c' ! i = \<lparr>ap_target_ip = target, ap_src_ip = src, ap_dst_ip = dst,
            ap_protocol = proto, ap_iface = iface, ap_payload = payload, ap_valid = 1\<rparr> \<and>
          (\<forall>j. j \<noteq> i \<longrightarrow> ac_pending ?c' ! j = ac_pending c ! j) \<and>
          pend_inv (arp_pending_release ?c' i) \<and>
          ac_pending_count (arp_pending_release ?c' i) = ac_pending_count c" by blast
    moreover have "ac_pending_count ?c' = ac_pending_count c + 1" by simp
    ultimately show ?thesis using queued(3) inv room args by auto
  next
    case full
    then have "in_use pend_used (ac_pending c) = 32"
      using len by (simp add: in_use_def filter_id_conv)
    then show ?thesis using full(2) assms count by simp
  qed
qed

theorem arp_pending_correct_witness:
  "fst (arp_pending_enqueue (Some arp_cache_zero) 1 0x0A000001 0x0A000002 0x0A000001 17 9) = 0"
  using arp_pending_correct [OF arp_zero_inv(2,1), where iface = 1 and target = "0x0A000001"
      and src = "0x0A000002" and dst = "0x0A000001" and proto = 17 and payload = 9]
  by (auto simp: arp_cache_zero_def)

end
