(* ===== verification/Route_Table.thy ===== *)
theory Route_Table
  imports Slot_Table
begin

text \<open>
  The routing table (\<open>routing/route_table.h\<close>, \<open>routing/route_table.c\<close>): the RIB holds every
  candidate route, keyed by prefix, length and protocol; the FIB holds for every prefix the
  candidate with the least administrative distance, metric and sequence number, rebuilt after
  every change; the lookup scans the FIB for the longest match. Pointers into the two arrays are
  indices.
\<close>

abbreviation (input) ROUTE_RIB_SIZE :: nat where "ROUTE_RIB_SIZE \<equiv> 256"
abbreviation (input) ROUTE_FIB_SIZE :: nat where "ROUTE_FIB_SIZE \<equiv> 256"

abbreviation (input) ROUTE_PROTO_STATIC :: u8 where "ROUTE_PROTO_STATIC \<equiv> 1"
abbreviation (input) ROUTE_PROTO_DIRECT :: u8 where "ROUTE_PROTO_DIRECT \<equiv> 2"
abbreviation (input) ROUTE_PROTO_RIP :: u8 where "ROUTE_PROTO_RIP \<equiv> 3"
abbreviation (input) ROUTE_PROTO_OSPF :: u8 where "ROUTE_PROTO_OSPF \<equiv> 4"
abbreviation (input) ROUTE_PROTO_BGP :: u8 where "ROUTE_PROTO_BGP \<equiv> 5"
abbreviation (input) ROUTE_PROTO_EIGRP :: u8 where "ROUTE_PROTO_EIGRP \<equiv> 6"
abbreviation (input) ROUTE_PROTO_ISIS :: u8 where "ROUTE_PROTO_ISIS \<equiv> 7"

record RouteRibEntry =
  rr_prefix :: u32
  rr_prefix_len :: u8
  rr_proto :: u8
  rr_valid :: u8
  rr_selected :: u8
  rr_next_hop :: u32
  rr_iface :: ptr
  rr_metric :: u32
  rr_sequence :: u32

record RouteFibEntry =
  rf_prefix :: u32
  rf_prefix_len :: u8
  rf_proto :: u8
  rf_valid :: u8
  rf_next_hop :: u32
  rf_iface :: ptr
  rf_metric :: u32
  rf_rib_index :: int

record RouteTable =
  rt_rib :: "RouteRibEntry list"
  rt_rib_count :: int
  rt_fib :: "RouteFibEntry list"
  rt_fib_count :: int
  rt_next_sequence :: u32

definition route_prefix_mask :: "u8 \<Rightarrow> u32" where
  "route_prefix_mask prefix_len =
     (if prefix_len = 0 then 0
      else if prefix_len \<ge> 32 then 0xFFFFFFFF
      else push_bit (32 - unat prefix_len) 0xFFFFFFFF)"

definition route_admin_distance :: "u8 \<Rightarrow> int" where
  "route_admin_distance proto =
     (if proto = ROUTE_PROTO_DIRECT then 0
      else if proto = ROUTE_PROTO_STATIC then 1
      else if proto = ROUTE_PROTO_BGP then 20
      else if proto = ROUTE_PROTO_EIGRP then 90
      else if proto = ROUTE_PROTO_OSPF then 110
      else if proto = ROUTE_PROTO_ISIS then 115
      else if proto = ROUTE_PROTO_RIP then 120
      else 255)"

definition rib_zero :: RouteRibEntry where
  "rib_zero = \<lparr>rr_prefix = 0, rr_prefix_len = 0, rr_proto = 0, rr_valid = 0, rr_selected = 0,
     rr_next_hop = 0, rr_iface = NULL, rr_metric = 0, rr_sequence = 0\<rparr>"

definition fib_zero :: RouteFibEntry where
  "fib_zero = \<lparr>rf_prefix = 0, rf_prefix_len = 0, rf_proto = 0, rf_valid = 0, rf_next_hop = 0,
     rf_iface = NULL, rf_metric = 0, rf_rib_index = 0\<rparr>"

definition route_table_init :: "RouteTable option \<Rightarrow> RouteTable option" where
  "route_table_init table =
     (case table of
        None \<Rightarrow> None
      | Some t \<Rightarrow> Some \<lparr>rt_rib = replicate ROUTE_RIB_SIZE rib_zero, rt_rib_count = 0,
                       rt_fib = replicate ROUTE_FIB_SIZE fib_zero, rt_fib_count = 0,
                       rt_next_sequence = 1\<rparr>)"

section \<open>Rebuilding the FIB\<close>

text \<open>The three-way comparison that decides whether a candidate replaces the current choice.\<close>

definition route_replaces :: "RouteRibEntry \<Rightarrow> RouteRibEntry \<Rightarrow> bool" where
  "route_replaces rib_entry current =
     (let rib_ad = route_admin_distance (rr_proto rib_entry);
          current_ad = route_admin_distance (rr_proto current)
      in if rib_ad < current_ad then True
         else if rib_ad = current_ad \<and> rr_metric rib_entry < rr_metric current then True
         else if rib_ad = current_ad \<and> rr_metric rib_entry = rr_metric current \<and>
                 rr_sequence rib_entry < rr_sequence current then True
         else False)"

definition fib_install :: "RouteRibEntry \<Rightarrow> nat \<Rightarrow> RouteFibEntry \<Rightarrow> RouteFibEntry" where
  "fib_install rib_entry i fib_entry = fib_entry
     \<lparr>rf_prefix := rr_prefix rib_entry, rf_prefix_len := rr_prefix_len rib_entry,
      rf_proto := rr_proto rib_entry, rf_valid := 1, rf_next_hop := rr_next_hop rib_entry,
      rf_iface := rr_iface rib_entry, rf_metric := rr_metric rib_entry, rf_rib_index := int i\<rparr>"

text \<open>One iteration of the main loop, for RIB slot \<open>i\<close>.\<close>

definition rebuild_step :: "nat \<Rightarrow> RouteTable \<Rightarrow> RouteTable" where
  "rebuild_step i t =
     (let rib_entry = rt_rib t ! i in
      if rr_valid rib_entry = 0 then t
      else
        (case first_index (\<lambda>f. rf_valid f \<noteq> 0 \<and> rf_prefix f = rr_prefix rib_entry \<and>
                               rf_prefix_len f = rr_prefix_len rib_entry) (rt_fib t) of
           Some j \<Rightarrow>
             let c = nat (rf_rib_index (rt_fib t ! j));
                 current = rt_rib t ! c
             in if route_replaces rib_entry current
                then
                  let rib = (rt_rib t)[c := current\<lparr>rr_selected := 0\<rparr>];
                      fib = (rt_fib t)[j := fib_install rib_entry i (rt_fib t ! j)];
                      rib = rib[i := (rib ! i)\<lparr>rr_selected := 1\<rparr>]
                  in t\<lparr>rt_rib := rib, rt_fib := fib\<rparr>
                else t
         | None \<Rightarrow>
             (case first_index (\<lambda>f. rf_valid f = 0) (rt_fib t) of
                Some j \<Rightarrow>
                  t\<lparr>rt_fib := (rt_fib t)[j := fib_install rib_entry i (rt_fib t ! j)],
                    rt_rib := (rt_rib t)[i := rib_entry\<lparr>rr_selected := 1\<rparr>],
                    rt_fib_count := rt_fib_count t + 1\<rparr>
              | None \<Rightarrow> t)))"

fun rebuild_loop :: "nat \<Rightarrow> nat \<Rightarrow> RouteTable \<Rightarrow> RouteTable" where
  "rebuild_loop i 0 t = t"
| "rebuild_loop i (Suc n) t = rebuild_loop (Suc i) n (rebuild_step i t)"

text \<open>The two clearing loops in front of it.\<close>

definition rebuild_clear :: "RouteTable \<Rightarrow> RouteTable" where
  "rebuild_clear t =
     (let t = t\<lparr>rt_fib := map (\<lambda>_. fib_zero) (rt_fib t), rt_fib_count := 0\<rparr>
      in t\<lparr>rt_rib := map (\<lambda>r. if rr_valid r \<noteq> 0 then r\<lparr>rr_selected := 0\<rparr> else r) (rt_rib t)\<rparr>)"

definition route_table_rebuild_fib :: "RouteTable option \<Rightarrow> int \<times> RouteTable option" where
  "route_table_rebuild_fib table =
     (case table of
        None \<Rightarrow> (- 1, None)
      | Some t \<Rightarrow> (0, Some (rebuild_loop 0 ROUTE_RIB_SIZE (rebuild_clear t))))"

section \<open>The operations\<close>

definition route_table_add ::
  "RouteTable option \<Rightarrow> u32 \<Rightarrow> u8 \<Rightarrow> u32 \<Rightarrow> ptr \<Rightarrow> u32 \<Rightarrow> u8 \<Rightarrow> int \<times> RouteTable option" where
  "route_table_add table prefix prefix_len next_hop iface metric proto =
     (case table of
        None \<Rightarrow> (- 1, None)
      | Some t \<Rightarrow>
          if iface = NULL \<or> prefix_len > 32 \<or> proto = 0 then (- 1, table)
          else
            let normalized_prefix = prefix AND route_prefix_mask prefix_len in
            (case first_index (\<lambda>e. rr_valid e \<noteq> 0 \<and> rr_prefix e = normalized_prefix \<and>
                                   rr_prefix_len e = prefix_len \<and> rr_proto e = proto) (rt_rib t) of
               Some i \<Rightarrow>
                 let e = (rt_rib t ! i)
                           \<lparr>rr_next_hop := next_hop, rr_iface := iface, rr_metric := metric\<rparr>;
                     (res, table) = route_table_rebuild_fib (Some (t\<lparr>rt_rib := (rt_rib t)[i := e]\<rparr>))
                 in (if res = 0 then 0 else - 1, table)
             | None \<Rightarrow>
                 (case first_index (\<lambda>e. rr_valid e = 0) (rt_rib t) of
                    Some i \<Rightarrow>
                      let e = (rt_rib t ! i)
                                \<lparr>rr_prefix := normalized_prefix, rr_prefix_len := prefix_len,
                                 rr_proto := proto, rr_valid := 1, rr_selected := 0,
                                 rr_next_hop := next_hop, rr_iface := iface, rr_metric := metric,
                                 rr_sequence := rt_next_sequence t\<rparr>;
                          t = t\<lparr>rt_rib := (rt_rib t)[i := e],
                                rt_next_sequence := rt_next_sequence t + 1,
                                rt_rib_count := rt_rib_count t + 1\<rparr>;
                          (res, table) = route_table_rebuild_fib (Some t)
                      in if res = 0 then (0, table)
                         else
                           (- 1, map_option (\<lambda>t. t\<lparr>rt_rib := (rt_rib t)[i := (rt_rib t ! i)
                                    \<lparr>rr_valid := 0, rr_selected := 0, rr_iface := NULL\<rparr>],
                                  rt_next_sequence := rt_next_sequence t - 1,
                                  rt_rib_count := rt_rib_count t - 1\<rparr>) table)
                  | None \<Rightarrow> (- 1, table))))"

definition rib_release :: "RouteRibEntry \<Rightarrow> RouteRibEntry" where
  "rib_release e = e\<lparr>rr_valid := 0, rr_selected := 0, rr_iface := NULL\<rparr>"

definition route_table_delete ::
  "RouteTable option \<Rightarrow> u32 \<Rightarrow> u8 \<Rightarrow> u8 \<Rightarrow> int \<times> RouteTable option" where
  "route_table_delete table prefix prefix_len proto =
     (case table of
        None \<Rightarrow> (- 1, None)
      | Some t \<Rightarrow>
          if prefix_len > 32 \<or> proto = 0 then (- 1, table)
          else
            let normalized_prefix = prefix AND route_prefix_mask prefix_len in
            (case first_index (\<lambda>e. rr_valid e \<noteq> 0 \<and> rr_prefix e = normalized_prefix \<and>
                                   rr_prefix_len e = prefix_len \<and> rr_proto e = proto) (rt_rib t) of
               Some i \<Rightarrow>
                 let t = t\<lparr>rt_rib := (rt_rib t)[i := rib_release (rt_rib t ! i)]\<rparr>;
                     t = (if rt_rib_count t > 0 then t\<lparr>rt_rib_count := rt_rib_count t - 1\<rparr> else t);
                     (res, table) = route_table_rebuild_fib (Some t)
                 in (if res = 0 then 0 else - 1, table)
             | None \<Rightarrow> (- 1, table)))"

fun flush_loop :: "u8 \<Rightarrow> RouteRibEntry list \<Rightarrow> int \<Rightarrow> int \<Rightarrow> RouteRibEntry list \<times> int \<times> int" where
  "flush_loop proto [] rib_count invalidated = ([], rib_count, invalidated)"
| "flush_loop proto (e # es) rib_count invalidated =
     (let (e', c, k) =
            (if rr_valid e \<noteq> 0 \<and> rr_proto e = proto
             then (rib_release e, if rib_count > 0 then rib_count - 1 else rib_count, invalidated + 1)
             else (e, rib_count, invalidated));
          (es', c', k') = flush_loop proto es c k
      in (e' # es', c', k'))"

definition route_table_flush_proto :: "RouteTable option \<Rightarrow> u8 \<Rightarrow> int \<times> RouteTable option" where
  "route_table_flush_proto table proto =
     (case table of
        None \<Rightarrow> (0, None)
      | Some t \<Rightarrow>
          if proto = 0 then (0, table)
          else
            let (rib, count, invalidated) = flush_loop proto (rt_rib t) (rt_rib_count t) 0;
                (_, table) = route_table_rebuild_fib (Some (t\<lparr>rt_rib := rib, rt_rib_count := count\<rparr>))
            in (invalidated, table))"

text \<open>
  The lookup scan. The code tests the long prefixes and the normal ones in two branches with the
  same body, in one pass over the FIB; the result is the index of the FIB slot.
\<close>

fun route_lookup_loop :: "u32 \<Rightarrow> RouteFibEntry list \<Rightarrow> nat \<Rightarrow> RouteFibEntry list \<Rightarrow> nat option \<Rightarrow> nat option" where
  "route_lookup_loop dst_ip fib i [] best_match = best_match"
| "route_lookup_loop dst_ip fib i (entry # rest) best_match =
     (let better = (case best_match of None \<Rightarrow> True
                    | Some b \<Rightarrow> rf_prefix_len entry > rf_prefix_len (fib ! b));
          matches = dst_ip AND route_prefix_mask (rf_prefix_len entry) = rf_prefix entry;
          best = (if rf_valid entry \<noteq> 0 then
                    if rf_prefix_len entry \<le> 32 then
                      if rf_prefix_len entry > 24 then
                        if matches then if better then Some i else best_match else best_match
                      else if rf_prefix_len entry \<le> 24 then
                        if matches then if better then Some i else best_match else best_match
                      else best_match
                    else best_match
                  else best_match)
      in route_lookup_loop dst_ip fib (Suc i) rest best)"

definition route_table_lookup :: "RouteTable option \<Rightarrow> u32 \<Rightarrow> nat option" where
  "route_table_lookup table dst_ip =
     (case table of None \<Rightarrow> None | Some t \<Rightarrow> route_lookup_loop dst_ip (rt_fib t) 0 (rt_fib t) None)"

end
