(* ===== verification/Udp_Sockets.thy ===== *)
theory Udp_Sockets
  imports Slot_Table
begin

text \<open>
  The socket table of the UDP module (\<open>protocols/udp.h\<close>, \<open>udp_init\<close>, \<open>udp_bind\<close> and
  \<open>udp_unbind\<close> of \<open>protocols/udp.c\<close>). A receive handler is a function of the application: 0 is
  the null pointer. The receive and send paths are in the theory of the UDP protocol.
\<close>

abbreviation (input) UDP_MAX_SOCKETS :: nat where "UDP_MAX_SOCKETS \<equiv> 32"

type_synonym app_fn = nat

record UdpSocket =
  us_port :: u16
  us_valid :: int
  us_recv_handler :: app_fn
  us_ctx :: ptr

record UdpState =
  ud_sockets :: "UdpSocket list"
  ud_count :: int

definition udp_init :: "UdpState option \<Rightarrow> UdpState option" where
  "udp_init state =
     (case state of
        None \<Rightarrow> None
      | Some s \<Rightarrow> Some (s\<lparr>ud_sockets := map (\<lambda>k. k\<lparr>us_valid := 0\<rparr>) (ud_sockets s), ud_count := 0\<rparr>))"

definition udp_bind :: "UdpState option \<Rightarrow> u16 \<Rightarrow> app_fn \<Rightarrow> ptr \<Rightarrow> int \<times> UdpState option" where
  "udp_bind state port recv_handler ctx =
     (case state of
        None \<Rightarrow> (- 1, None)
      | Some s \<Rightarrow>
          if recv_handler = 0 \<or> port = 0 then (- 1, state)
          else
            (case first_index (\<lambda>k. us_valid k \<noteq> 0 \<and> us_port k = port) (ud_sockets s) of
               Some i \<Rightarrow> (- 1, state)
             | None \<Rightarrow>
                 (case first_index (\<lambda>k. us_valid k = 0) (ud_sockets s) of
                    Some i \<Rightarrow>
                      (0, Some (s\<lparr>ud_sockets := (ud_sockets s)[i := (ud_sockets s ! i)
                                    \<lparr>us_valid := 1, us_port := port,
                                     us_recv_handler := recv_handler, us_ctx := ctx\<rparr>],
                                  ud_count := ud_count s + 1\<rparr>))
                  | None \<Rightarrow> (- 1, state))))"

definition udp_unbind :: "UdpState option \<Rightarrow> u16 \<Rightarrow> int \<times> UdpState option" where
  "udp_unbind state port =
     (case state of
        None \<Rightarrow> (- 1, None)
      | Some s \<Rightarrow>
          if port = 0 then (- 1, state)
          else
            (case first_index (\<lambda>k. us_valid k = 1 \<and> us_port k = port) (ud_sockets s) of
               Some i \<Rightarrow>
                 (0, Some (s\<lparr>ud_sockets := (ud_sockets s)[i := (ud_sockets s ! i)
                               \<lparr>us_valid := 0, us_port := 0\<rparr>],
                             ud_count := ud_count s - 1\<rparr>))
             | None \<Rightarrow> (- 1, state)))"

section \<open>The invariant\<close>

abbreviation sock_used :: "UdpSocket \<Rightarrow> bool" where "sock_used k \<equiv> us_valid k = 1"

definition udp_inv :: "UdpState \<Rightarrow> bool" where
  "udp_inv s \<longleftrightarrow>
     length (ud_sockets s) = 32 \<and> unique_keys sock_used us_port (ud_sockets s) \<and>
     (\<forall>k \<in> set (ud_sockets s). us_valid k = 0 \<or> us_valid k = 1) \<and>
     (\<forall>k \<in> set (ud_sockets s). sock_used k \<longrightarrow> us_port k \<noteq> 0 \<and> us_recv_handler k \<noteq> 0) \<and>
     ud_count s = int (in_use sock_used (ud_sockets s))"

text \<open>The abstract content: which handler and context a port is bound to.\<close>

definition bound :: "UdpState \<Rightarrow> u16 \<Rightarrow> (app_fn \<times> ptr) option" where
  "bound s port = map_option (\<lambda>k. (us_recv_handler k, us_ctx k))
     (entry_of sock_used us_port port (ud_sockets s))"

definition udp_room :: "UdpState \<Rightarrow> bool" where
  "udp_room s \<longleftrightarrow> ud_count s < 32"

lemma udp_flag: "udp_inv s \<Longrightarrow> i < 32 \<Longrightarrow> us_valid (ud_sockets s ! i) \<noteq> 0 \<longleftrightarrow> sock_used (ud_sockets s ! i)"
  unfolding udp_inv_def by (metis nth_mem zero_neq_one)

lemma udp_bind_search:
  assumes "udp_inv s"
  shows "first_index (\<lambda>k. us_valid k \<noteq> 0 \<and> us_port k = p) (ud_sockets s) = slot_of sock_used us_port p (ud_sockets s)"
    "first_index (\<lambda>k. us_valid k = 0) (ud_sockets s) = first_index (\<lambda>k. \<not> sock_used k) (ud_sockets s)"
proof -
  have cong: "first_index P xs = first_index Q xs" if "\<And>x. x \<in> set xs \<Longrightarrow> P x = Q x"
    for P Q and xs :: "UdpSocket list"
    using that by (induction xs) auto
  show "first_index (\<lambda>k. us_valid k \<noteq> 0 \<and> us_port k = p) (ud_sockets s) = slot_of sock_used us_port p (ud_sockets s)"
    "first_index (\<lambda>k. us_valid k = 0) (ud_sockets s) = first_index (\<lambda>k. \<not> sock_used k) (ud_sockets s)"
    unfolding slot_of_def using assms by (auto simp: udp_inv_def intro!: cong)
qed

lemma udp_free: "udp_inv s \<Longrightarrow> (\<exists>i. first_index (\<lambda>k. us_valid k = 0) (ud_sockets s) = Some i) \<longleftrightarrow> udp_room s"
proof -
  assume inv: "udp_inv s"
  have "udp_room s \<longleftrightarrow> in_use sock_used (ud_sockets s) < length (ud_sockets s)"
    using inv by (simp add: udp_inv_def udp_room_def)
  also have "\<dots> \<longleftrightarrow> first_index (\<lambda>k. \<not> sock_used k) (ud_sockets s) \<noteq> None"
    by (auto simp: in_use_room first_index_None)
  finally show ?thesis unfolding udp_bind_search(2) [OF inv] by blast
qed

lemma udp_write:
  assumes inv: "udp_inv s" and i: "i < 32"
    and k: "us_valid k = 0 \<or> us_valid k = 1 \<and> us_port k \<noteq> 0 \<and> us_recv_handler k \<noteq> 0"
    and slot: "sock_used k \<Longrightarrow> slot_of sock_used us_port (us_port k) (ud_sockets s) = None
        \<or> slot_of sock_used us_port (us_port k) (ud_sockets s) = Some i"
    and cnt: "c = ud_count s + (if sock_used k then 1 else 0) - (if sock_used (ud_sockets s ! i) then 1 else 0)"
  shows "udp_inv (s\<lparr>ud_sockets := (ud_sockets s)[i := k], ud_count := c\<rparr>)"
proof -
  have len: "length (ud_sockets s) = 32" using inv by (simp add: udp_inv_def)
  have "in_use sock_used ((ud_sockets s)[i := k]) + (if sock_used (ud_sockets s ! i) then 1 else 0)
      = in_use sock_used (ud_sockets s) + (if sock_used k then 1 else 0)"
    using in_use_update_take [of i "ud_sockets s" sock_used k] in_use_update_same [of i "ud_sockets s" sock_used k]
      in_use_update_release [of i "ud_sockets s" sock_used k] i len by auto
  then have "c = int (in_use sock_used ((ud_sockets s)[i := k]))"
    using cnt inv by (auto simp: udp_inv_def split: if_splits)
  moreover have "unique_keys sock_used us_port ((ud_sockets s)[i := k])"
    using inv i len slot by (intro unique_keys_update) (auto simp: udp_inv_def)
  ultimately show ?thesis
    using inv k by (auto simp: udp_inv_def dest!: set_update_subset_insert [THEN subsetD])
qed

lemma bound_write:
  assumes inv: "udp_inv s" and i: "i < 32"
    and slot: "sock_used k \<Longrightarrow> slot_of sock_used us_port (us_port k) (ud_sockets s) = None
        \<or> slot_of sock_used us_port (us_port k) (ud_sockets s) = Some i"
  shows "bound (s\<lparr>ud_sockets := (ud_sockets s)[i := k], ud_count := c\<rparr>) p =
    (if sock_used k \<and> us_port k = p then Some (us_recv_handler k, us_ctx k)
     else if sock_used (ud_sockets s ! i) \<and> us_port (ud_sockets s ! i) = p then None else bound s p)"
proof -
  have "entry_of sock_used us_port p ((ud_sockets s)[i := k]) =
      (if sock_used k \<and> us_port k = p then Some k
       else if sock_used (ud_sockets s ! i) \<and> us_port (ud_sockets s ! i) = p then None
       else entry_of sock_used us_port p (ud_sockets s))"
    using inv i slot by (intro entry_of_update) (auto simp: udp_inv_def)
  then show ?thesis by (simp add: bound_def)
qed

lemma udp_bind_cases:
  assumes inv: "udp_inv s" and ok: "h \<noteq> 0" "port \<noteq> 0"
  obtains
    (fresh) s' where "udp_bind (Some s) port h ctx = (0, Some s')" "udp_inv s'"
      "bound s' = (bound s)(port \<mapsto> (h, ctx))" "bound s port = None" "udp_room s"
  | (taken) "udp_bind (Some s) port h ctx = (- 1, Some s)" "bound s port \<noteq> None"
  | (full) "udp_bind (Some s) port h ctx = (- 1, Some s)" "\<not> udp_room s"
proof (cases "slot_of sock_used us_port port (ud_sockets s)")
  case (Some i)
  then show ?thesis using taken ok
    by (simp add: udp_bind_def udp_bind_search(1) [OF inv] bound_def entry_of_def)
next
  case None
  show ?thesis
  proof (cases "first_index (\<lambda>k. us_valid k = 0) (ud_sockets s)")
    case free: None
    then have "\<not> udp_room s" using udp_free [OF inv] by auto
    moreover have "udp_bind (Some s) port h ctx = (- 1, Some s)"
      using ok None free by (simp add: udp_bind_def udp_bind_search(1) [OF inv])
    ultimately show ?thesis using full by blast
  next
    case free: (Some i)
    note si = first_index_SomeD [OF free]
    let ?k = "(ud_sockets s ! i)\<lparr>us_valid := 1, us_port := port, us_recv_handler := h, us_ctx := ctx\<rparr>"
    have i: "i < 32" using si inv by (simp add: udp_inv_def)
    have "udp_inv (s\<lparr>ud_sockets := (ud_sockets s)[i := ?k], ud_count := ud_count s + 1\<rparr>)"
      using ok None si by (intro udp_write [OF inv i]) auto
    moreover have "bound (s\<lparr>ud_sockets := (ud_sockets s)[i := ?k], ud_count := ud_count s + 1\<rparr>)
        = (bound s)(port \<mapsto> (h, ctx))"
      using bound_write [OF inv i, of ?k] si None by auto
    moreover have "udp_bind (Some s) port h ctx =
        (0, Some (s\<lparr>ud_sockets := (ud_sockets s)[i := ?k], ud_count := ud_count s + 1\<rparr>))"
      using ok None free by (simp add: udp_bind_def udp_bind_search(1) [OF inv])
    moreover have "udp_room s" using udp_free [OF inv] free by auto
    moreover have "bound s port = None" using None by (simp add: bound_def entry_of_def)
    ultimately show ?thesis using fresh by blast
  qed
qed

lemma udp_unbind_cases:
  assumes inv: "udp_inv s" and ok: "port \<noteq> 0"
  obtains
    (released) s' where "udp_unbind (Some s) port = (0, Some s')" "udp_inv s'"
      "bound s' = (bound s)(port := None)" "bound s port \<noteq> None" "udp_room s'"
  | (unbound) "udp_unbind (Some s) port = (- 1, Some s)" "bound s port = None"
proof (cases "slot_of sock_used us_port port (ud_sockets s)")
  case None
  then show ?thesis using unbound ok
    by (simp add: udp_unbind_def slot_of_def [symmetric] bound_def entry_of_def)
next
  case (Some i)
  note si = slot_of_SomeD [OF Some]
  let ?k = "(ud_sockets s ! i)\<lparr>us_valid := 0, us_port := 0\<rparr>"
  let ?s = "s\<lparr>ud_sockets := (ud_sockets s)[i := ?k], ud_count := ud_count s - 1\<rparr>"
  have i: "i < 32" using si inv by (simp add: udp_inv_def)
  have inv': "udp_inv ?s" using si by (intro udp_write [OF inv i]) auto
  moreover have "bound ?s = (bound s)(port := None)"
    using bound_write [OF inv i, of ?k] si by auto
  moreover have "udp_unbind (Some s) port = (0, Some ?s)"
    using ok Some by (simp add: udp_unbind_def slot_of_def [symmetric])
  moreover have "bound s port \<noteq> None" using Some by (simp add: bound_def entry_of_def)
  moreover have "udp_room ?s"
    using inv in_use_le [of sock_used "ud_sockets s"] by (simp add: udp_inv_def udp_room_def)
  ultimately show ?thesis using released by blast
qed

text \<open>The socket the receive loop finds.\<close>

lemma bound_socket:
  assumes "bound s port = Some (h, ctx)"
  obtains i where "first_index (\<lambda>k. us_valid k = 1 \<and> us_port k = port) (ud_sockets s) = Some i"
    "us_recv_handler (ud_sockets s ! i) = h" "us_ctx (ud_sockets s ! i) = ctx" "i < length (ud_sockets s)"
  using assms by (auto simp: bound_def entry_of_def slot_of_def dest: first_index_SomeD)

lemma bound_none:
  "bound s port = None \<longleftrightarrow> first_index (\<lambda>k. us_valid k = 1 \<and> us_port k = port) (ud_sockets s) = None"
  by (simp add: bound_def entry_of_def slot_of_def)

lemma udp_init_inv:
  assumes "length (ud_sockets s) = 32" "udp_init (Some s) = Some s'"
  shows "udp_inv s'" "bound s' port = None"
proof -
  have s': "s' = s\<lparr>ud_sockets := map (\<lambda>k. k\<lparr>us_valid := 0\<rparr>) (ud_sockets s), ud_count := 0\<rparr>"
    using assms by (simp add: udp_init_def)
  have "in_use sock_used (ud_sockets s') = 0" by (simp add: in_use_0 s')
  then show "udp_inv s'" using assms by (auto simp: udp_inv_def s' unique_keys_def)
  show "bound s' port = None" by (auto simp: bound_def entry_of_None slot_of_None s')
qed

section \<open>Properties\<close>

text \<open>
  C19 \<open>udp_bind\<close> succeeds exactly when a handler and a port are given, the port is not bound and
  one of the 32 sockets is free; the port is then bound to that handler and context and no other
  binding changes. \<open>udp_unbind\<close> succeeds exactly for a bound port and removes that binding only,
  so the port can be bound again. A call that fails changes nothing.
\<close>

theorem udp_bind_unbind_correct:
  assumes "udp_inv s"
  shows "(\<exists>s'. udp_bind (Some s) port h ctx =
        (if h \<noteq> 0 \<and> port \<noteq> 0 \<and> bound s port = None \<and> udp_room s then 0 else - 1, Some s') \<and> udp_inv s' \<and>
      (if h \<noteq> 0 \<and> port \<noteq> 0 \<and> bound s port = None \<and> udp_room s
       then bound s' = (bound s)(port \<mapsto> (h, ctx)) else s' = s)) \<and>
    (\<exists>s'. udp_unbind (Some s) port =
        (if port \<noteq> 0 \<and> bound s port \<noteq> None then 0 else - 1, Some s') \<and> udp_inv s' \<and>
      (if port \<noteq> 0 \<and> bound s port \<noteq> None
       then bound s' = (bound s)(port := None) \<and> udp_room s' else s' = s))"
proof (intro conjI)
  show "\<exists>s'. udp_bind (Some s) port h ctx =
        (if h \<noteq> 0 \<and> port \<noteq> 0 \<and> bound s port = None \<and> udp_room s then 0 else - 1, Some s') \<and> udp_inv s' \<and>
      (if h \<noteq> 0 \<and> port \<noteq> 0 \<and> bound s port = None \<and> udp_room s
       then bound s' = (bound s)(port \<mapsto> (h, ctx)) else s' = s)"
  proof (cases "h \<noteq> 0 \<and> port \<noteq> 0")
    case True
    then have ok: "h \<noteq> 0" "port \<noteq> 0" by auto
    show ?thesis by (rule udp_bind_cases [OF assms ok, of ctx]) (use ok assms in auto)
  next
    case False
    then show ?thesis using assms by (auto simp: udp_bind_def)
  qed
  show "\<exists>s'. udp_unbind (Some s) port =
        (if port \<noteq> 0 \<and> bound s port \<noteq> None then 0 else - 1, Some s') \<and> udp_inv s' \<and>
      (if port \<noteq> 0 \<and> bound s port \<noteq> None
       then bound s' = (bound s)(port := None) \<and> udp_room s' else s' = s)"
  proof (cases "port = 0")
    case True
    then show ?thesis using assms by (simp add: udp_unbind_def)
  next
    case False
    show ?thesis by (rule udp_unbind_cases [OF assms False]) (use False assms in auto)
  qed
qed

theorem udp_bind_unbind_correct_witness:
  "\<exists>s'. udp_bind (udp_init (Some \<lparr>ud_sockets = replicate 32 \<lparr>us_port = 9, us_valid = 1, us_recv_handler = 1, us_ctx = 0\<rparr>, ud_count = 7\<rparr>)) 53 4 0 = (0, Some s') \<and>
     bound s' 53 = Some (4, 0)"
proof -
  let ?s = "\<lparr>ud_sockets = replicate 32 \<lparr>us_port = 9, us_valid = 0, us_recv_handler = 1, us_ctx = 0\<rparr>, ud_count = 0\<rparr>"
  have s: "udp_init (Some \<lparr>ud_sockets = replicate 32 \<lparr>us_port = 9, us_valid = 1, us_recv_handler = 1, us_ctx = 0\<rparr>, ud_count = 7\<rparr>) = Some ?s"
    by (simp add: udp_init_def)
  have inv: "udp_inv ?s" "bound ?s 53 = None"
    using udp_init_inv [OF _ s] by simp_all
  have "udp_room ?s" by (simp add: udp_room_def)
  then show ?thesis
    using udp_bind_unbind_correct [OF inv(1), of 53 4 0] inv(2) s by auto
qed

end
