(* ===== verification/Tcp_Table.thy ===== *)
theory Tcp_Table
  imports Slot_Table
begin

text \<open>
  The connection table of the TCP module (\<open>protocols/tcp.h\<close> and the table functions of
  \<open>protocols/tcp.c\<close>): 64 connection blocks, each with a send queue of one segment. The functions
  here only read and write the table; \<open>ack_segments\<close> and \<open>owned_packets\<close> name the packets that
  \<open>tcp_sendq_ack\<close> and \<open>tcp_release_tcb\<close> hand to \<open>packet_free\<close>, which the theory of the TCP
  protocol calls on the simulated heap.
\<close>

abbreviation (input) TCP_MAX_CONNS :: nat where "TCP_MAX_CONNS \<equiv> 64"
abbreviation (input) TCP_MAX_INFLIGHT :: nat where "TCP_MAX_INFLIGHT \<equiv> 1"
abbreviation (input) TCP_DEFAULT_WINDOW :: u16 where "TCP_DEFAULT_WINDOW \<equiv> 65535"
abbreviation (input) TCP_FLAG_FIN :: u8 where "TCP_FLAG_FIN \<equiv> 0x01"
abbreviation (input) TCP_FLAG_SYN :: u8 where "TCP_FLAG_SYN \<equiv> 0x02"
abbreviation (input) TCP_FLAG_RST :: u8 where "TCP_FLAG_RST \<equiv> 0x04"
abbreviation (input) TCP_FLAG_PSH :: u8 where "TCP_FLAG_PSH \<equiv> 0x08"
abbreviation (input) TCP_FLAG_ACK :: u8 where "TCP_FLAG_ACK \<equiv> 0x10"

datatype TcpState =
    TCP_CLOSED | TCP_LISTEN | TCP_SYN_SENT | TCP_SYN_RECEIVED | TCP_ESTABLISHED
  | TCP_FIN_WAIT_1 | TCP_FIN_WAIT_2 | TCP_CLOSE_WAIT | TCP_CLOSING | TCP_LAST_ACK | TCP_TIME_WAIT

record TcpSegment =
  sg_pkt :: ptr
  sg_seq_start :: u32
  sg_seq_end :: u32
  sg_flags :: u8
  sg_sent_ts :: u64
  sg_retransmits :: int
  sg_acked :: int

record TcbSendQueue =
  sq_entries :: "TcpSegment list"
  sq_count :: int

record Tcb =
  tc_local_ip :: u32
  tc_remote_ip :: u32
  tc_local_port :: u16
  tc_remote_port :: u16
  tc_state :: TcpState
  tc_snd_una :: u32
  tc_snd_nxt :: u32
  tc_rcv_nxt :: u32
  tc_rcv_wnd :: u16
  tc_snd_wnd :: u16
  tc_sendq :: TcbSendQueue
  tc_retransmit_ts :: u64
  tc_recv_handler :: nat
  tc_connect_handler :: nat
  tc_handler_ctx :: ptr
  tc_valid :: int

record TcpTable =
  tt_tcbs :: "Tcb list"
  tt_count :: int

text \<open>What \<open>memset\<close> to 0 leaves; the enumerator with value 0 is \<open>TCP_CLOSED\<close>.\<close>

definition seg_zero :: TcpSegment where
  "seg_zero = \<lparr>sg_pkt = NULL, sg_seq_start = 0, sg_seq_end = 0, sg_flags = 0, sg_sent_ts = 0,
     sg_retransmits = 0, sg_acked = 0\<rparr>"

definition tcb_zero :: Tcb where
  "tcb_zero = \<lparr>tc_local_ip = 0, tc_remote_ip = 0, tc_local_port = 0, tc_remote_port = 0,
     tc_state = TCP_CLOSED, tc_snd_una = 0, tc_snd_nxt = 0, tc_rcv_nxt = 0, tc_rcv_wnd = 0,
     tc_snd_wnd = 0, tc_sendq = \<lparr>sq_entries = replicate TCP_MAX_INFLIGHT seg_zero, sq_count = 0\<rparr>,
     tc_retransmit_ts = 0, tc_recv_handler = 0, tc_connect_handler = 0, tc_handler_ctx = NULL,
     tc_valid = 0\<rparr>"

definition tcp_init :: "TcpTable option \<Rightarrow> TcpTable option" where
  "tcp_init table =
     (case table of
        None \<Rightarrow> None
      | Some t \<Rightarrow> Some \<lparr>tt_tcbs = replicate TCP_MAX_CONNS tcb_zero, tt_count = 0\<rparr>)"

definition tcp_alloc_tcb :: "TcpTable option \<Rightarrow> nat option \<times> TcpTable option" where
  "tcp_alloc_tcb table =
     (case table of
        None \<Rightarrow> (None, None)
      | Some t \<Rightarrow>
          (case first_index (\<lambda>c. tc_valid c = 0) (tt_tcbs t) of
             Some i \<Rightarrow>
               let c = tcb_zero;
                   c = c\<lparr>tc_valid := 1\<rparr>
               in (Some i, Some (t\<lparr>tt_tcbs := (tt_tcbs t)[i := c], tt_count := tt_count t + 1\<rparr>))
           | None \<Rightarrow> (None, table)))"

text \<open>The packets a connection block owns, and the block zeroed.\<close>

definition owned_packets :: "Tcb \<Rightarrow> ptr list" where
  "owned_packets c = filter (\<lambda>p. p \<noteq> NULL) (map sg_pkt (sq_entries (tc_sendq c)))"

definition release_slot :: "TcpTable \<Rightarrow> nat \<Rightarrow> TcpTable" where
  "release_slot t i =
     (let t = t\<lparr>tt_tcbs := (tt_tcbs t)[i := tcb_zero]\<rparr>
      in if tt_count t > 0 then t\<lparr>tt_count := tt_count t - 1\<rparr> else t)"

definition tcp_sendq_has_unacked :: "Tcb \<Rightarrow> int" where
  "tcp_sendq_has_unacked c =
     (case first_index (\<lambda>s. sg_pkt s \<noteq> NULL \<and> sg_acked s = 0) (sq_entries (tc_sendq c)) of
        Some i \<Rightarrow> 1 | None \<Rightarrow> 0)"

definition tcp_sendq_track :: "Tcb \<Rightarrow> ptr \<Rightarrow> u32 \<Rightarrow> u32 \<Rightarrow> u8 \<Rightarrow> u64 \<Rightarrow> int \<times> Tcb" where
  "tcp_sendq_track c clone seq_start seq_end flags now =
     (if clone = NULL then (- 1, c)
      else if sq_count (tc_sendq c) \<ge> int TCP_MAX_INFLIGHT then (- 1, c)
      else
        (case first_index (\<lambda>s. sg_pkt s = NULL) (sq_entries (tc_sendq c)) of
           Some i \<Rightarrow>
             let q = tc_sendq c;
                 seg = (sq_entries q ! i)
                         \<lparr>sg_pkt := clone, sg_seq_start := seq_start, sg_seq_end := seq_end,
                          sg_flags := flags, sg_sent_ts := now, sg_retransmits := 0, sg_acked := 0\<rparr>;
                 q = q\<lparr>sq_entries := (sq_entries q)[i := seg], sq_count := sq_count q + 1\<rparr>
             in (0, c\<lparr>tc_sendq := q\<rparr>)
         | None \<Rightarrow> (- 1, c)))"

text \<open>
  The loop of \<open>tcp_sendq_ack\<close>: the packets to free, the entries and the count afterwards. The
  comparison of sequence numbers is the plain unsigned one.
\<close>

fun ack_segments :: "u32 \<Rightarrow> TcpSegment list \<Rightarrow> int \<Rightarrow> ptr list \<times> TcpSegment list \<times> int" where
  "ack_segments ack [] count = ([], [], count)"
| "ack_segments ack (seg # segs) count =
     (if sg_pkt seg \<noteq> NULL \<and> ack \<ge> sg_seq_end seg then
        let (freed, segs', count') = ack_segments ack segs (count - 1)
        in (sg_pkt seg # freed, seg\<lparr>sg_acked := 1, sg_pkt := NULL\<rparr> # segs', count')
      else
        let (freed, segs', count') = ack_segments ack segs count
        in (freed, seg # segs', count'))"

definition sendq_acked :: "Tcb \<Rightarrow> u32 \<Rightarrow> ptr list \<times> Tcb" where
  "sendq_acked c ack =
     (let (freed, segs, n) = ack_segments ack (sq_entries (tc_sendq c)) (sq_count (tc_sendq c))
      in (freed, c\<lparr>tc_sendq := \<lparr>sq_entries = segs, sq_count = n\<rparr>\<rparr>))"

text \<open>The test for a FIN that is still waiting for its acknowledgement.\<close>

definition fin_still_unacked :: "Tcb \<Rightarrow> bool" where
  "fin_still_unacked c \<longleftrightarrow>
     first_index (\<lambda>s. sg_pkt s \<noteq> NULL \<and> sg_flags s AND TCP_FLAG_FIN \<noteq> 0) (sq_entries (tc_sendq c)) \<noteq> None"

definition tcp_find_exact :: "TcpTable option \<Rightarrow> u32 \<Rightarrow> u16 \<Rightarrow> u32 \<Rightarrow> u16 \<Rightarrow> nat option" where
  "tcp_find_exact table local_ip local_port remote_ip remote_port =
     (case table of
        None \<Rightarrow> None
      | Some t \<Rightarrow>
          first_index (\<lambda>c. tc_valid c \<noteq> 0 \<and> tc_state c \<noteq> TCP_LISTEN \<and> tc_local_ip c = local_ip \<and>
                          tc_local_port c = local_port \<and> tc_remote_ip c = remote_ip \<and>
                          tc_remote_port c = remote_port) (tt_tcbs t))"

definition tcp_find_listener :: "TcpTable option \<Rightarrow> u32 \<Rightarrow> u16 \<Rightarrow> nat option" where
  "tcp_find_listener table local_ip local_port =
     (case table of
        None \<Rightarrow> None
      | Some t \<Rightarrow>
          first_index (\<lambda>c. tc_valid c \<noteq> 0 \<and> tc_state c = TCP_LISTEN \<and>
                          (tc_local_ip c = local_ip \<or> tc_local_ip c = 0) \<and>
                          tc_local_port c = local_port) (tt_tcbs t))"

definition tcp_listen ::
  "TcpTable option \<Rightarrow> u32 \<Rightarrow> u16 \<Rightarrow> nat \<Rightarrow> nat \<Rightarrow> ptr \<Rightarrow> nat option \<times> TcpTable option" where
  "tcp_listen table local_ip local_port recv_fn connect_fn ctx =
     (if table = None then (None, table)
      else if local_port = 0 then (None, table)
      else if tcp_find_listener table local_ip local_port \<noteq> None then (None, table)
      else
        (case tcp_alloc_tcb table of
           (Some i, Some t) \<Rightarrow>
             let c = (tt_tcbs t ! i)
                       \<lparr>tc_local_ip := local_ip, tc_local_port := local_port, tc_remote_ip := 0,
                        tc_remote_port := 0, tc_state := TCP_LISTEN, tc_rcv_wnd := TCP_DEFAULT_WINDOW,
                        tc_recv_handler := recv_fn, tc_connect_handler := connect_fn,
                        tc_handler_ctx := ctx\<rparr>
             in (Some i, Some (t\<lparr>tt_tcbs := (tt_tcbs t)[i := c]\<rparr>))
         | (_, t) \<Rightarrow> (None, t)))"

section \<open>Invariants\<close>

abbreviation seg_used :: "TcpSegment \<Rightarrow> bool" where "seg_used s \<equiv> sg_pkt s \<noteq> NULL"

definition sendq_inv :: "Tcb \<Rightarrow> bool" where
  "sendq_inv c \<longleftrightarrow> length (sq_entries (tc_sendq c)) = 1 \<and>
     sq_count (tc_sendq c) = int (in_use seg_used (sq_entries (tc_sendq c)))"

abbreviation tcb_used :: "Tcb \<Rightarrow> bool" where "tcb_used c \<equiv> tc_valid c \<noteq> 0"

definition connected :: "Tcb \<Rightarrow> bool" where
  "connected c \<longleftrightarrow> tcb_used c \<and> tc_state c \<noteq> TCP_LISTEN"

definition listening :: "Tcb \<Rightarrow> bool" where
  "listening c \<longleftrightarrow> tcb_used c \<and> tc_state c = TCP_LISTEN"

definition conn_key :: "Tcb \<Rightarrow> u32 \<times> u16 \<times> u32 \<times> u16" where
  "conn_key c = (tc_local_ip c, tc_local_port c, tc_remote_ip c, tc_remote_port c)"

definition listen_key :: "Tcb \<Rightarrow> u32 \<times> u16" where
  "listen_key c = (tc_local_ip c, tc_local_port c)"

definition tcp_inv :: "TcpTable \<Rightarrow> bool" where
  "tcp_inv t \<longleftrightarrow>
     length (tt_tcbs t) = 64 \<and>
     tt_count t = int (in_use tcb_used (tt_tcbs t)) \<and>
     (\<forall>c \<in> set (tt_tcbs t). (tc_valid c = 0 \<or> tc_valid c = 1) \<and> sendq_inv c) \<and>
     unique_keys connected conn_key (tt_tcbs t) \<and>
     unique_keys listening listen_key (tt_tcbs t)"

lemma tcb_zero_simps [simp]:
  "tc_valid tcb_zero = 0" "sendq_inv tcb_zero" "\<not> connected tcb_zero" "\<not> listening tcb_zero"
  by (simp_all add: tcb_zero_def sendq_inv_def seg_zero_def connected_def listening_def)

lemma sendq_inv_cong: "tc_sendq c = tc_sendq d \<Longrightarrow> sendq_inv c = sendq_inv d"
  by (simp add: sendq_inv_def)

lemma find_exact_slot:
  "tcp_find_exact (Some t) li lp ri rp = slot_of connected conn_key (li, lp, ri, rp) (tt_tcbs t)"
  by (simp add: tcp_find_exact_def slot_of_def connected_def conn_key_def conj_assoc)

lemma tcp_init_inv:
  assumes "tcp_init (Some t) = Some t'"
  shows "tcp_inv t'" "tcp_find_exact (Some t') li lp ri rp = None" "tcp_find_listener (Some t') li lp = None"
proof -
  have t': "t' = \<lparr>tt_tcbs = replicate 64 tcb_zero, tt_count = 0\<rparr>"
    using assms by (simp add: tcp_init_def)
  have "in_use tcb_used (tt_tcbs t') = 0" by (simp add: in_use_0 t')
  then show "tcp_inv t'" by (simp add: tcp_inv_def t' unique_keys_def)
  show "tcp_find_exact (Some t') li lp ri rp = None" "tcp_find_listener (Some t') li lp = None"
    by (auto simp: tcp_find_exact_def tcp_find_listener_def t' first_index_None tcb_zero_def)
qed

text \<open>Writing one block of the table.\<close>

lemma tcp_write:
  assumes inv: "tcp_inv t" and i: "i < 64"
    and c: "tc_valid c = 0 \<or> tc_valid c = 1" "sendq_inv c"
    and conn: "connected c \<Longrightarrow> slot_of connected conn_key (conn_key c) (tt_tcbs t) = None
        \<or> slot_of connected conn_key (conn_key c) (tt_tcbs t) = Some i"
    and lst: "listening c \<Longrightarrow> slot_of listening listen_key (listen_key c) (tt_tcbs t) = None
        \<or> slot_of listening listen_key (listen_key c) (tt_tcbs t) = Some i"
    and cnt: "tt_count t' = tt_count t + (if tcb_used c then 1 else 0)
        - (if tcb_used (tt_tcbs t ! i) then 1 else 0)"
    and tcbs: "tt_tcbs t' = (tt_tcbs t)[i := c]"
  shows "tcp_inv t'"
proof -
  have len: "length (tt_tcbs t) = 64" using inv by (simp add: tcp_inv_def)
  have "in_use tcb_used ((tt_tcbs t)[i := c]) + (if tcb_used (tt_tcbs t ! i) then 1 else 0)
      = in_use tcb_used (tt_tcbs t) + (if tcb_used c then 1 else 0)"
    using in_use_update_take [of i "tt_tcbs t" tcb_used c] in_use_update_same [of i "tt_tcbs t" tcb_used c]
      in_use_update_release [of i "tt_tcbs t" tcb_used c] i len by auto
  then have "tt_count t' = int (in_use tcb_used (tt_tcbs t'))"
    using cnt inv tcbs by (auto simp: tcp_inv_def split: if_splits)
  moreover have "unique_keys connected conn_key (tt_tcbs t')" "unique_keys listening listen_key (tt_tcbs t')"
    unfolding tcbs using inv i len conn lst by (auto intro!: unique_keys_update simp: tcp_inv_def)
  moreover have "\<forall>d \<in> set (tt_tcbs t'). (tc_valid d = 0 \<or> tc_valid d = 1) \<and> sendq_inv d"
    using inv c unfolding tcbs tcp_inv_def by (auto dest!: set_update_subset_insert [THEN subsetD])
  ultimately show ?thesis using len tcbs by (simp add: tcp_inv_def)
qed

lemma tcp_inv_nth:
  assumes "tcp_inv t" "i < 64"
  shows "sendq_inv (tt_tcbs t ! i)" "tc_valid (tt_tcbs t ! i) = 0 \<or> tc_valid (tt_tcbs t ! i) = 1"
    "length (tt_tcbs t) = 64"
  using assms by (auto simp: tcp_inv_def)

lemma release_slot_inv:
  assumes inv: "tcp_inv t" and i: "i < 64" and used: "tcb_used (tt_tcbs t ! i)"
  shows "tcp_inv (release_slot t i)"
proof -
  have "tt_count t > 0"
    using in_use_pos [of i "tt_tcbs t" tcb_used] used i inv by (simp add: tcp_inv_def)
  then show ?thesis
    using used by (intro tcp_write [OF inv i, of tcb_zero]) (auto simp: release_slot_def)
qed

text \<open>Listening: refused when a listener already covers the address, otherwise one more listener.\<close>

lemma tcp_alloc_cases:
  assumes inv: "tcp_inv t"
  obtains
    (slot) i where "tcp_alloc_tcb (Some t) = (Some i, Some (t\<lparr>tt_tcbs := (tt_tcbs t)[i := tcb_zero\<lparr>tc_valid := 1\<rparr>],
        tt_count := tt_count t + 1\<rparr>))" "i < 64" "tc_valid (tt_tcbs t ! i) = 0" "tt_count t < 64"
  | (full) "tcp_alloc_tcb (Some t) = (None, Some t)" "tt_count t = 64"
proof (cases "first_index (\<lambda>c. tc_valid c = 0) (tt_tcbs t)")
  case None
  then have "in_use tcb_used (tt_tcbs t) = length (tt_tcbs t)"
    by (auto simp: in_use_full first_index_None)
  then show ?thesis using full None inv by (simp add: tcp_alloc_tcb_def tcp_inv_def)
next
  case (Some i)
  note si = first_index_SomeD [OF Some]
  then have "in_use tcb_used (tt_tcbs t) < length (tt_tcbs t)"
    by (auto simp: in_use_room intro!: bexI [of _ "tt_tcbs t ! i"])
  then show ?thesis using slot Some si inv by (simp add: tcp_alloc_tcb_def tcp_inv_def)
qed

lemma listener_slot:
  assumes "tcp_find_listener (Some t) li lp = None"
  shows "slot_of listening listen_key (li, lp) (tt_tcbs t) = None"
  using assms by (auto simp: tcp_find_listener_def slot_of_None first_index_None listening_def listen_key_def)

lemma tcp_listen_cases:
  assumes inv: "tcp_inv t" and port: "lp \<noteq> 0"
  obtains
    (listening) i t' where "tcp_listen (Some t) li lp rf cf ctx = (Some i, Some t')" "tcp_inv t'" "i < 64"
      "tcp_find_listener (Some t) li lp = None"
      "tt_tcbs t' ! i = tcb_zero\<lparr>tc_valid := 1, tc_local_ip := li, tc_local_port := lp, tc_state := TCP_LISTEN,
         tc_rcv_wnd := 65535, tc_recv_handler := rf, tc_connect_handler := cf, tc_handler_ctx := ctx\<rparr>"
      "tt_count t' = tt_count t + 1" "\<And>j. j \<noteq> i \<Longrightarrow> tt_tcbs t' ! j = tt_tcbs t ! j"
      "tc_valid (tt_tcbs t ! i) = 0"
  | (covered) "tcp_listen (Some t) li lp rf cf ctx = (None, Some t)" "tcp_find_listener (Some t) li lp \<noteq> None"
  | (full) "tcp_listen (Some t) li lp rf cf ctx = (None, Some t)" "tt_count t = 64"
proof (cases "tcp_find_listener (Some t) li lp")
  case (Some i)
  then show ?thesis using covered port by (simp add: tcp_listen_def)
next
  case None
  show ?thesis
    using inv
  proof (cases rule: tcp_alloc_cases)
    case full
    then show ?thesis using that(3) None port by (simp add: tcp_listen_def)
  next
    case (slot i)
    let ?c = "tcb_zero\<lparr>tc_valid := 1, tc_local_ip := li, tc_local_port := lp, tc_state := TCP_LISTEN,
         tc_rcv_wnd := 65535, tc_recv_handler := rf, tc_connect_handler := cf, tc_handler_ctx := ctx\<rparr>"
    let ?t = "t\<lparr>tt_tcbs := (tt_tcbs t)[i := ?c], tt_count := tt_count t + 1\<rparr>"
    note len = tcp_inv_nth(3) [OF inv slot(2)]
    have res: "tcp_listen (Some t) li lp rf cf ctx = (Some i, Some ?t)"
      using slot None port len by (simp add: tcp_listen_def Let_def tcb_zero_def)
    have "sendq_inv ?c" using tcb_zero_simps(2) by (simp add: sendq_inv_def)
    then have "tcp_inv ?t"
      using slot listener_slot [OF None]
      by (intro tcp_write [OF inv slot(2), of ?c]) (auto simp: connected_def listen_key_def)
    moreover have "tt_tcbs ?t ! i = ?c" "\<And>j. j \<noteq> i \<Longrightarrow> tt_tcbs ?t ! j = tt_tcbs t ! j"
      using slot len by simp_all
    ultimately show ?thesis using that(1) [OF res] slot None by simp
  qed
qed

section \<open>The send queue\<close>

text \<open>At most one segment is in flight; tracking and acknowledging keep the count right.\<close>

lemma sendq_single:
  assumes "sendq_inv c"
  obtains s where "sq_entries (tc_sendq c) = [s]" "sq_count (tc_sendq c) = (if seg_used s then 1 else 0)"
proof -
  obtain s where "sq_entries (tc_sendq c) = [s]"
    using assms by (auto simp: sendq_inv_def length_Suc_conv)
  then show ?thesis using that assms by (simp add: sendq_inv_def)
qed

lemma tcp_sendq_track_cases:
  assumes inv: "sendq_inv c" and clone: "clone \<noteq> 0"
  obtains
    (tracked) s where "tcp_sendq_track c clone a b fl now = (0, c\<lparr>tc_sendq := \<lparr>sq_entries =
        [\<lparr>sg_pkt = clone, sg_seq_start = a, sg_seq_end = b, sg_flags = fl, sg_sent_ts = now,
          sg_retransmits = 0, sg_acked = 0\<rparr>], sq_count = 1\<rparr>\<rparr>)"
      "sq_entries (tc_sendq c) = [s]" "\<not> seg_used s"
  | (busy) s where "tcp_sendq_track c clone a b fl now = (- 1, c)"
      "sq_entries (tc_sendq c) = [s]" "seg_used s"
  using inv
proof (cases rule: sendq_single)
  case (1 s)
  show ?thesis
  proof (cases "seg_used s")
    case True
    then show ?thesis using busy 1 clone by (simp add: tcp_sendq_track_def)
  next
    case False
    then show ?thesis using tracked 1 clone
      by (cases "tc_sendq c") (simp add: tcp_sendq_track_def)
  qed
qed

lemma sendq_acked_inv:
  assumes "sendq_inv c" "sendq_acked c ack = (freed, c')"
  shows "sendq_inv c'"
  using assms(1)
proof (cases rule: sendq_single)
  case (1 s)
  then show ?thesis using assms(2) by (auto simp: sendq_acked_def sendq_inv_def split: if_splits)
qed

lemma sendq_acked_frame:
  assumes "sendq_acked c ack = (freed, c')"
  shows "c' = c\<lparr>tc_sendq := tc_sendq c'\<rparr>"
  using assms by (auto simp: sendq_acked_def Let_def split: prod.splits)

lemma sendq_acked_owned:
  assumes "sendq_inv c" "sendq_acked c ack = (freed, c')"
  shows "owned_packets c = freed @ owned_packets c'"
  using assms(1)
proof (cases rule: sendq_single)
  case (1 s)
  then show ?thesis using assms(2) by (auto simp: sendq_acked_def owned_packets_def split: if_splits)
qed

text \<open>Everything in flight up to the acknowledged number is acknowledged, and nothing else.\<close>

lemma sendq_acked_effect:
  assumes "sendq_inv c" "sendq_acked c ack = (freed, c')"
  shows "tcp_sendq_has_unacked c' = 1 \<longleftrightarrow>
    (\<exists>s \<in> set (sq_entries (tc_sendq c)). seg_used s \<and> sg_acked s = 0 \<and> sg_seq_end s > ack)"
  using assms(1)
proof (cases rule: sendq_single)
  case (1 s)
  then show ?thesis using assms(2) by (auto simp: sendq_acked_def tcp_sendq_has_unacked_def split: if_splits)
qed

section \<open>Properties\<close>

text \<open>
  C18 \<open>tcp_listen\<close> returns a block exactly when the port is not 0, no listener covers the address
  and port, and one of the 64 blocks is free; the block is then a listener with the given handlers
  that \<open>tcp_find_listener\<close> finds, the counter grows by one, and no other block changes.
\<close>

theorem tcp_listen_correct:
  assumes "tcp_inv t"
  shows "\<exists>r t'. tcp_listen (Some t) li lp rf cf ctx = (r, Some t') \<and> tcp_inv t' \<and>
    (r \<noteq> None \<longleftrightarrow> lp \<noteq> 0 \<and> tcp_find_listener (Some t) li lp = None \<and> tt_count t < 64) \<and>
    (case r of
       None \<Rightarrow> t' = t
     | Some i \<Rightarrow> i < 64 \<and> tc_valid (tt_tcbs t ! i) = 0 \<and> tt_count t' = tt_count t + 1 \<and>
         (\<forall>j. j \<noteq> i \<longrightarrow> tt_tcbs t' ! j = tt_tcbs t ! j) \<and>
         tc_state (tt_tcbs t' ! i) = TCP_LISTEN \<and> tc_recv_handler (tt_tcbs t' ! i) = rf \<and>
         tc_connect_handler (tt_tcbs t' ! i) = cf \<and> tc_handler_ctx (tt_tcbs t' ! i) = ctx \<and>
         owned_packets (tt_tcbs t' ! i) = [] \<and> tcp_find_listener (Some t') li lp = Some i)"
proof (cases "lp = 0")
  case True
  then show ?thesis using assms by (simp add: tcp_listen_def)
next
  case False
  have count: "tt_count t \<le> 64"
    using assms in_use_le [of tcb_used "tt_tcbs t"] by (simp add: tcp_inv_def)
  show ?thesis
  proof (rule tcp_listen_cases [OF assms False, of li rf cf ctx])
    fix i t'
    assume l: "tcp_listen (Some t) li lp rf cf ctx = (Some i, Some t')" "tcp_inv t'" "i < 64"
      "tcp_find_listener (Some t) li lp = None"
      "tt_tcbs t' ! i = tcb_zero\<lparr>tc_valid := 1, tc_local_ip := li, tc_local_port := lp, tc_state := TCP_LISTEN,
         tc_rcv_wnd := 65535, tc_recv_handler := rf, tc_connect_handler := cf, tc_handler_ctx := ctx\<rparr>"
      "tt_count t' = tt_count t + 1" "\<And>j. j \<noteq> i \<Longrightarrow> tt_tcbs t' ! j = tt_tcbs t ! j"
      "tc_valid (tt_tcbs t ! i) = 0"
    have len: "length (tt_tcbs t) = 64" "length (tt_tcbs t') = 64"
      using assms l(2) by (simp_all add: tcp_inv_def)
    have room: "tt_count t < 64"
      using l(2,6) in_use_le [of tcb_used "tt_tcbs t'"] len by (simp add: tcp_inv_def)
    have none: "\<not> (tc_valid (tt_tcbs t ! j) \<noteq> 0 \<and> tc_state (tt_tcbs t ! j) = TCP_LISTEN \<and>
        (tc_local_ip (tt_tcbs t ! j) = li \<or> tc_local_ip (tt_tcbs t ! j) = 0) \<and>
        tc_local_port (tt_tcbs t ! j) = lp)" if "j < 64" for j
      using l(4) that len by (auto simp: tcp_find_listener_def first_index_None)
    have "tcp_find_listener (Some t') li lp = Some i"
      unfolding tcp_find_listener_def option.case
    proof (rule first_index_unique)
      fix j
      assume j: "j < length (tt_tcbs t')" "tc_valid (tt_tcbs t' ! j) \<noteq> 0 \<and>
        tc_state (tt_tcbs t' ! j) = TCP_LISTEN \<and>
        (tc_local_ip (tt_tcbs t' ! j) = li \<or> tc_local_ip (tt_tcbs t' ! j) = 0) \<and>
        tc_local_port (tt_tcbs t' ! j) = lp"
      show "j = i"
      proof (rule ccontr)
        assume "j \<noteq> i"
        then show False using none [of j] j len l(7) by simp
      qed
    qed (use l len in simp_all)
    moreover have "owned_packets (tt_tcbs t' ! i) = []"
      using l(5) by (simp add: owned_packets_def tcb_zero_def seg_zero_def)
    ultimately show ?thesis using l False room by auto
  next
    assume "tcp_listen (Some t) li lp rf cf ctx = (None, Some t)" "tcp_find_listener (Some t) li lp \<noteq> None"
    then show ?thesis using assms by auto
  next
    assume "tcp_listen (Some t) li lp rf cf ctx = (None, Some t)" "tt_count t = 64"
    then show ?thesis using assms by auto
  qed
qed

theorem tcp_listen_correct_witness:
  "\<exists>i t'. tcp_listen (Some \<lparr>tt_tcbs = replicate 64 tcb_zero, tt_count = 0\<rparr>) 0 80 1 0 0 = (Some i, Some t') \<and>
     tcp_find_listener (Some t') 0 80 = Some i"
proof -
  let ?t = "\<lparr>tt_tcbs = replicate 64 tcb_zero, tt_count = 0\<rparr>"
  have inv: "tcp_inv ?t" "tcp_find_listener (Some ?t) 0 80 = None"
    using tcp_init_inv [of ?t ?t] by (simp_all add: tcp_init_def)
  then show ?thesis
    using tcp_listen_correct [OF inv(1), of 0 80 1 0 0] by (auto split: option.splits)
qed

end
