(* ===== verification/World.thy ===== *)
theory World
  imports Packet Event_Queue Mac_Table Arp_Cache Route_Table Udp_Sockets Tcp_Table
begin

text \<open>
  The state of the running program: one heap per structure type, the allocator, and the
  allocation and release of packets and events (\<open>packet_create\<close>, \<open>packet_free\<close>,
  \<open>packet_clone\<close> of \<open>network/packet.c\<close>, \<open>event_create\<close>, \<open>event_free\<close> of \<open>engine/event.c\<close>).

  A heap is a total function from addresses; \<open>w_live\<close> holds the addresses of the blocks that are
  allocated and not freed. \<open>malloc\<close> takes the next unused address, or fails when the oracle
  \<open>w_oom\<close> says so; freeing a block that is not live sets \<open>w_bad_free\<close>. Memory that is not yet
  written reads as \<open>w_junk\<close>. \<open>realloc\<close> of the event array and of the arrays of the topology
  grows the block in place or fails; no other pointer to those arrays exists, so that moving the
  block could not be observed.
\<close>

section \<open>Structures\<close>

text \<open>Function pointers: the functions of the program that are stored, or one of the application.\<close>

datatype RxHandler = RX_NULL | RX_ip_rx_shim | RX_switch_rx_shim | RX_app nat

datatype IpProtocolHandler = PH_NULL | PH_icmp_receive | PH_udp_receive | PH_tcp_receive | PH_app nat

datatype InterfaceState = IFACE_OK | IFACE_ERR_DISABLED

record Interface =
  if_name :: string
  if_mac :: mac
  if_ip_addr :: u32
  if_prefix_len :: u8
  if_mtu :: u16
  if_up :: int
  if_link :: ptr
  if_device :: ptr
  if_tx_bytes :: u64
  if_rx_bytes :: u64
  if_rx_handler :: RxHandler
  if_handler_ctx :: ptr
  if_arp_cache :: ptr
  if_rx_dropped :: u64
  if_rx_errors :: u64
  if_tx_errors :: u64
  if_state :: InterfaceState
  if_last_rx_time :: u64
  if_last_tx_time :: u64
  if_last_error_time :: u64

text \<open>\<open>loss_rate\<close> is a float that the program stores and never reads: its 32 bits.\<close>

record Link =
  ln_end_a :: ptr
  ln_end_b :: ptr
  ln_bandwidth_mbps :: u32
  ln_delay_ms :: u32
  ln_loss_rate :: u32
  ln_up :: int

text \<open>An array that a structure points to is kept with the address of its block.\<close>

record Device =
  dv_name :: string
  dv_interfaces_p :: ptr
  dv_interfaces :: "ptr list"
  dv_iface_count :: nat
  dv_iface_max :: int

record Topology =
  tp_devices_p :: ptr
  tp_devices :: "ptr list"
  tp_dev_count :: nat
  tp_dev_cap :: nat
  tp_links_p :: ptr
  tp_links :: "ptr list"
  tp_link_count :: nat
  tp_link_cap :: nat

text \<open>The queue structure of a scheduler, the address it has and the address of its array.\<close>

record Scheduler =
  sc_eq_p :: ptr
  sc_eq_events_p :: ptr
  sc_eq :: EventQueue
  sc_now :: u64
  sc_running :: int
  sc_handlers :: "EventType \<Rightarrow> EventCallback \<times> ptr"

record Simulator =
  sm_topo :: ptr
  sm_sched :: ptr
  sm_end_time :: u64

record IpStack =
  is_sim :: ptr
  is_protocols :: "u8 \<Rightarrow> IpProtocolHandler \<times> ptr"

record UdpContext =
  uc_sim :: ptr
  uc_state :: ptr

record TcpContext =
  xc_sim :: ptr
  xc_table :: ptr

text \<open>The \<open>base\<close> device of a switch or a host is at the same address, in the heap of devices.\<close>

record Switch =
  sw_mac_tbl :: MacTable
  sw_port_count :: nat
  sw_sim :: ptr

record Host =
  ho_sim :: ptr
  ho_arp_cache :: ptr
  ho_ip_stack :: ptr
  ho_udp_state :: ptr
  ho_udp_context :: ptr
  ho_tcp_table :: ptr
  ho_tcp_context :: ptr
  ho_gateway_ip :: u32

text \<open>The state in three layers: the allocator, the network objects, the protocol objects.\<close>

record memory =
  w_brk :: ptr
  w_live :: "ptr set"
  w_bad_free :: bool
  w_mallocs :: nat
  w_oom :: "nat \<Rightarrow> bool"
  w_junk :: "ptr \<Rightarrow> nat \<Rightarrow> u8"
  w_junk_ptr :: "ptr \<Rightarrow> nat \<Rightarrow> ptr"
  w_next_id :: u32

record net_state = memory +
  w_pkt :: "ptr \<Rightarrow> Packet"
  w_iface :: "ptr \<Rightarrow> Interface"
  w_link :: "ptr \<Rightarrow> Link"
  w_dev :: "ptr \<Rightarrow> Device"
  w_topo :: "ptr \<Rightarrow> Topology"
  w_sched :: "ptr \<Rightarrow> Scheduler"
  w_sim :: "ptr \<Rightarrow> Simulator"

record world = net_state +
  w_arp :: "ptr \<Rightarrow> ArpCache"
  w_ips :: "ptr \<Rightarrow> IpStack"
  w_udp :: "ptr \<Rightarrow> UdpState"
  w_udpctx :: "ptr \<Rightarrow> UdpContext"
  w_tcp :: "ptr \<Rightarrow> TcpTable"
  w_tcpctx :: "ptr \<Rightarrow> TcpContext"
  w_switch :: "ptr \<Rightarrow> Switch"
  w_host :: "ptr \<Rightarrow> Host"

text \<open>Writing one object: \<open>f\<close> is applied to the structure at address \<open>p\<close>.\<close>

definition upd_pkt :: "ptr \<Rightarrow> (Packet \<Rightarrow> Packet) \<Rightarrow> world \<Rightarrow> world" where
  "upd_pkt p f w = w\<lparr>w_pkt := (w_pkt w)(p := f (w_pkt w p))\<rparr>"

definition upd_iface :: "ptr \<Rightarrow> (Interface \<Rightarrow> Interface) \<Rightarrow> world \<Rightarrow> world" where
  "upd_iface p f w = w\<lparr>w_iface := (w_iface w)(p := f (w_iface w p))\<rparr>"

definition upd_link :: "ptr \<Rightarrow> (Link \<Rightarrow> Link) \<Rightarrow> world \<Rightarrow> world" where
  "upd_link p f w = w\<lparr>w_link := (w_link w)(p := f (w_link w p))\<rparr>"

definition upd_dev :: "ptr \<Rightarrow> (Device \<Rightarrow> Device) \<Rightarrow> world \<Rightarrow> world" where
  "upd_dev p f w = w\<lparr>w_dev := (w_dev w)(p := f (w_dev w p))\<rparr>"

definition upd_topo :: "ptr \<Rightarrow> (Topology \<Rightarrow> Topology) \<Rightarrow> world \<Rightarrow> world" where
  "upd_topo p f w = w\<lparr>w_topo := (w_topo w)(p := f (w_topo w p))\<rparr>"

definition upd_sched :: "ptr \<Rightarrow> (Scheduler \<Rightarrow> Scheduler) \<Rightarrow> world \<Rightarrow> world" where
  "upd_sched p f w = w\<lparr>w_sched := (w_sched w)(p := f (w_sched w p))\<rparr>"

definition upd_sim :: "ptr \<Rightarrow> (Simulator \<Rightarrow> Simulator) \<Rightarrow> world \<Rightarrow> world" where
  "upd_sim p f w = w\<lparr>w_sim := (w_sim w)(p := f (w_sim w p))\<rparr>"

definition upd_ips :: "ptr \<Rightarrow> (IpStack \<Rightarrow> IpStack) \<Rightarrow> world \<Rightarrow> world" where
  "upd_ips p f w = w\<lparr>w_ips := (w_ips w)(p := f (w_ips w p))\<rparr>"

definition upd_tcp :: "ptr \<Rightarrow> (TcpTable \<Rightarrow> TcpTable) \<Rightarrow> world \<Rightarrow> world" where
  "upd_tcp p f w = w\<lparr>w_tcp := (w_tcp w)(p := f (w_tcp w p))\<rparr>"

definition upd_switch :: "ptr \<Rightarrow> (Switch \<Rightarrow> Switch) \<Rightarrow> world \<Rightarrow> world" where
  "upd_switch p f w = w\<lparr>w_switch := (w_switch w)(p := f (w_switch w p))\<rparr>"

definition upd_host :: "ptr \<Rightarrow> (Host \<Rightarrow> Host) \<Rightarrow> world \<Rightarrow> world" where
  "upd_host p f w = w\<lparr>w_host := (w_host w)(p := f (w_host w p))\<rparr>"

text \<open>The tables whose operations test their own pointer: read as an option, written back.\<close>

definition set_arp :: "ptr \<Rightarrow> ArpCache option \<Rightarrow> world \<Rightarrow> world" where
  "set_arp p c w = w\<lparr>w_arp := store (w_arp w) p c\<rparr>"

definition set_udp :: "ptr \<Rightarrow> UdpState option \<Rightarrow> world \<Rightarrow> world" where
  "set_udp p s w = w\<lparr>w_udp := store (w_udp w) p s\<rparr>"

definition set_tcp :: "ptr \<Rightarrow> TcpTable option \<Rightarrow> world \<Rightarrow> world" where
  "set_tcp p t w = w\<lparr>w_tcp := store (w_tcp w) p t\<rparr>"

lemmas upd_defs = upd_pkt_def upd_iface_def upd_link_def upd_dev_def upd_topo_def upd_sched_def
  upd_sim_def upd_ips_def upd_tcp_def upd_switch_def upd_host_def set_arp_def set_udp_def set_tcp_def

declare upd_defs [world_defs]

section \<open>The allocator\<close>

definition malloc :: "world \<Rightarrow> ptr \<times> world" where
  "malloc w =
     (let n = w_mallocs w; w' = w\<lparr>w_mallocs := Suc n\<rparr>
      in if w_oom w n then (NULL, w')
         else (w_brk w, w'\<lparr>w_brk := Suc (w_brk w), w_live := insert (w_brk w) (w_live w)\<rparr>))"

definition free_block :: "ptr \<Rightarrow> world \<Rightarrow> world" where
  "free_block p w =
     (if p = NULL then w
      else if p \<in> w_live w then w\<lparr>w_live := w_live w - {p}\<rparr>
      else w\<lparr>w_bad_free := True\<rparr>)"

text \<open>\<open>realloc\<close> to a larger size, in place: whether it succeeded.\<close>

definition realloc :: "world \<Rightarrow> bool \<times> world" where
  "realloc w = (\<not> w_oom w (w_mallocs w), w\<lparr>w_mallocs := Suc (w_mallocs w)\<rparr>)"

text \<open>Addresses in use are below the break and not null.\<close>

definition mem_ok :: "world \<Rightarrow> bool" where
  "mem_ok w \<longleftrightarrow> 0 < w_brk w \<and> (\<forall>p \<in> w_live w. 0 < p \<and> p < w_brk w)"

lemma mem_okD: "mem_ok w \<Longrightarrow> p \<in> w_live w \<Longrightarrow> 0 < p \<and> p < w_brk w"
  by (simp add: mem_ok_def)

lemma mem_ok_brk: "mem_ok w \<Longrightarrow> 0 < w_brk w \<and> w_brk w \<notin> w_live w"
  by (auto simp: mem_ok_def)

lemma malloc_cases:
  obtains (oom) "malloc w = (0, w\<lparr>w_mallocs := Suc (w_mallocs w)\<rparr>)" "w_oom w (w_mallocs w)"
  | (ok) "malloc w = (w_brk w, w\<lparr>w_mallocs := Suc (w_mallocs w), w_brk := Suc (w_brk w),
            w_live := insert (w_brk w) (w_live w)\<rparr>)" "\<not> w_oom w (w_mallocs w)"
  by (cases "w_oom w (w_mallocs w)") (simp_all add: malloc_def Let_def)

section \<open>Packets on the heap\<close>

definition packet_create :: "nat \<Rightarrow> world \<Rightarrow> ptr \<times> world" where
  "packet_create capacity w =
     (let (p, w) = malloc w in
      if p = NULL then (NULL, w)
      else
        let (head, w) = malloc w in
        if head = NULL then (NULL, free_block p w)
        else
          let w = upd_pkt p (\<lambda>_. packet_fresh head (w_junk w head) capacity (w_next_id w)) w;
              w = w\<lparr>w_next_id := w_next_id w + 1\<rparr>
          in (p, w))"

definition packet_free :: "ptr \<Rightarrow> world \<Rightarrow> world" where
  "packet_free p w = (if p = NULL then w else free_block p (free_block (pk_head (w_pkt w p)) w))"

text \<open>\<open>packet_prepend\<close> and \<open>packet_strip\<close> on a packet of the heap.\<close>

definition pkt_prepend :: "ptr \<Rightarrow> u8 list \<Rightarrow> nat \<Rightarrow> world \<Rightarrow> int \<times> world" where
  "pkt_prepend p header n w =
     (let (r, pk) = packet_prepend (w_pkt w p) header n in (r, upd_pkt p (\<lambda>_. pk) w))"

definition pkt_strip :: "ptr \<Rightarrow> nat \<Rightarrow> world \<Rightarrow> int \<times> world" where
  "pkt_strip p n w = (let (r, pk) = packet_strip (w_pkt w p) n in (r, upd_pkt p (\<lambda>_. pk) w))"

text \<open>\<open>memcpy (p->data + off, bs, length bs)\<close>.\<close>

definition pkt_write :: "nat \<Rightarrow> u8 list \<Rightarrow> Packet \<Rightarrow> Packet" where
  "pkt_write off bs pk = pk\<lparr>pk_buf := bwrite (pk_buf pk) (pk_data pk + off) bs\<rparr>"

definition packet_clone :: "ptr \<Rightarrow> world \<Rightarrow> ptr \<times> world" where
  "packet_clone p w =
     (let (clone, w) = packet_create (pk_len (w_pkt w p)) w in
      if clone = NULL then (NULL, w)
      else
        let w = upd_pkt clone (pkt_write 0 (bread (pk_buf (w_pkt w p)) (pk_data (w_pkt w p)) (pk_len (w_pkt w p)))) w;
            w = upd_pkt clone (\<lambda>k. k\<lparr>pk_len := pk_len (w_pkt w p)\<rparr>) w;
            w = upd_pkt clone (\<lambda>k. k\<lparr>pk_layer := pk_layer (w_pkt w p)\<rparr>) w
        in (clone, w))"

section \<open>Events on the heap\<close>

text \<open>An event is never changed after its creation, so a pointer to it is the event with its address.\<close>

definition event_create_callback ::
  "EventType \<Rightarrow> u64 \<Rightarrow> ptr \<Rightarrow> ptr \<Rightarrow> ptr \<Rightarrow> tcb_ptr \<Rightarrow> EventCallback \<Rightarrow> ptr \<Rightarrow> world \<Rightarrow> Event option \<times> world" where
  "event_create_callback type timestamp src dst packet data handler handler_ctx w =
     (let (p, w) = malloc w in
      if p = NULL then (None, w)
      else (Some \<lparr>ev_self = p, ev_type = type, ev_timestamp = timestamp, ev_src_device = src,
                  ev_dst_device = dst, ev_packet = packet, ev_data = data, ev_handler = handler,
                  ev_handler_ctx = handler_ctx\<rparr>, w))"

definition event_create ::
  "EventType \<Rightarrow> u64 \<Rightarrow> ptr \<Rightarrow> ptr \<Rightarrow> ptr \<Rightarrow> tcb_ptr \<Rightarrow> world \<Rightarrow> Event option \<times> world" where
  "event_create type timestamp src dst packet data w =
     event_create_callback type timestamp src dst packet data CB_NULL NULL w"

definition event_free :: "Event option \<Rightarrow> world \<Rightarrow> world" where
  "event_free e w = (case e of None \<Rightarrow> w | Some e \<Rightarrow> free_block (ev_self e) w)"

section \<open>Reading after writing\<close>

text \<open>An update of one heap changes that heap at that address and nothing else.\<close>

lemma upd_pkt_simps [simp]:
  "w_pkt (upd_pkt p f w) = (w_pkt w)(p := f (w_pkt w p))" "w_brk (upd_pkt p f w) = w_brk w"
  "w_live (upd_pkt p f w) = w_live w" "w_bad_free (upd_pkt p f w) = w_bad_free w"
  "w_mallocs (upd_pkt p f w) = w_mallocs w" "w_oom (upd_pkt p f w) = w_oom w"
  "w_junk (upd_pkt p f w) = w_junk w" "w_junk_ptr (upd_pkt p f w) = w_junk_ptr w"
  "w_next_id (upd_pkt p f w) = w_next_id w" "w_iface (upd_pkt p f w) = w_iface w"
  "w_link (upd_pkt p f w) = w_link w" "w_dev (upd_pkt p f w) = w_dev w"
  "w_topo (upd_pkt p f w) = w_topo w" "w_sched (upd_pkt p f w) = w_sched w"
  "w_sim (upd_pkt p f w) = w_sim w" "w_arp (upd_pkt p f w) = w_arp w"
  "w_ips (upd_pkt p f w) = w_ips w" "w_udp (upd_pkt p f w) = w_udp w"
  "w_udpctx (upd_pkt p f w) = w_udpctx w" "w_tcp (upd_pkt p f w) = w_tcp w"
  "w_tcpctx (upd_pkt p f w) = w_tcpctx w" "w_switch (upd_pkt p f w) = w_switch w"
  "w_host (upd_pkt p f w) = w_host w"
  by (simp_all add: upd_pkt_def)

lemma upd_iface_simps [simp]:
  "w_iface (upd_iface p f w) = (w_iface w)(p := f (w_iface w p))"
  "w_brk (upd_iface p f w) = w_brk w" "w_live (upd_iface p f w) = w_live w"
  "w_bad_free (upd_iface p f w) = w_bad_free w" "w_mallocs (upd_iface p f w) = w_mallocs w"
  "w_oom (upd_iface p f w) = w_oom w" "w_junk (upd_iface p f w) = w_junk w"
  "w_junk_ptr (upd_iface p f w) = w_junk_ptr w" "w_next_id (upd_iface p f w) = w_next_id w"
  "w_pkt (upd_iface p f w) = w_pkt w" "w_link (upd_iface p f w) = w_link w"
  "w_dev (upd_iface p f w) = w_dev w" "w_topo (upd_iface p f w) = w_topo w"
  "w_sched (upd_iface p f w) = w_sched w" "w_sim (upd_iface p f w) = w_sim w"
  "w_arp (upd_iface p f w) = w_arp w" "w_ips (upd_iface p f w) = w_ips w"
  "w_udp (upd_iface p f w) = w_udp w" "w_udpctx (upd_iface p f w) = w_udpctx w"
  "w_tcp (upd_iface p f w) = w_tcp w" "w_tcpctx (upd_iface p f w) = w_tcpctx w"
  "w_switch (upd_iface p f w) = w_switch w" "w_host (upd_iface p f w) = w_host w"
  by (simp_all add: upd_iface_def)

lemma upd_link_simps [simp]:
  "w_link (upd_link p f w) = (w_link w)(p := f (w_link w p))" "w_brk (upd_link p f w) = w_brk w"
  "w_live (upd_link p f w) = w_live w" "w_bad_free (upd_link p f w) = w_bad_free w"
  "w_mallocs (upd_link p f w) = w_mallocs w" "w_oom (upd_link p f w) = w_oom w"
  "w_junk (upd_link p f w) = w_junk w" "w_junk_ptr (upd_link p f w) = w_junk_ptr w"
  "w_next_id (upd_link p f w) = w_next_id w" "w_pkt (upd_link p f w) = w_pkt w"
  "w_iface (upd_link p f w) = w_iface w" "w_dev (upd_link p f w) = w_dev w"
  "w_topo (upd_link p f w) = w_topo w" "w_sched (upd_link p f w) = w_sched w"
  "w_sim (upd_link p f w) = w_sim w" "w_arp (upd_link p f w) = w_arp w"
  "w_ips (upd_link p f w) = w_ips w" "w_udp (upd_link p f w) = w_udp w"
  "w_udpctx (upd_link p f w) = w_udpctx w" "w_tcp (upd_link p f w) = w_tcp w"
  "w_tcpctx (upd_link p f w) = w_tcpctx w" "w_switch (upd_link p f w) = w_switch w"
  "w_host (upd_link p f w) = w_host w"
  by (simp_all add: upd_link_def)

lemma upd_dev_simps [simp]:
  "w_dev (upd_dev p f w) = (w_dev w)(p := f (w_dev w p))" "w_brk (upd_dev p f w) = w_brk w"
  "w_live (upd_dev p f w) = w_live w" "w_bad_free (upd_dev p f w) = w_bad_free w"
  "w_mallocs (upd_dev p f w) = w_mallocs w" "w_oom (upd_dev p f w) = w_oom w"
  "w_junk (upd_dev p f w) = w_junk w" "w_junk_ptr (upd_dev p f w) = w_junk_ptr w"
  "w_next_id (upd_dev p f w) = w_next_id w" "w_pkt (upd_dev p f w) = w_pkt w"
  "w_iface (upd_dev p f w) = w_iface w" "w_link (upd_dev p f w) = w_link w"
  "w_topo (upd_dev p f w) = w_topo w" "w_sched (upd_dev p f w) = w_sched w"
  "w_sim (upd_dev p f w) = w_sim w" "w_arp (upd_dev p f w) = w_arp w"
  "w_ips (upd_dev p f w) = w_ips w" "w_udp (upd_dev p f w) = w_udp w"
  "w_udpctx (upd_dev p f w) = w_udpctx w" "w_tcp (upd_dev p f w) = w_tcp w"
  "w_tcpctx (upd_dev p f w) = w_tcpctx w" "w_switch (upd_dev p f w) = w_switch w"
  "w_host (upd_dev p f w) = w_host w"
  by (simp_all add: upd_dev_def)

lemma upd_topo_simps [simp]:
  "w_topo (upd_topo p f w) = (w_topo w)(p := f (w_topo w p))" "w_brk (upd_topo p f w) = w_brk w"
  "w_live (upd_topo p f w) = w_live w" "w_bad_free (upd_topo p f w) = w_bad_free w"
  "w_mallocs (upd_topo p f w) = w_mallocs w" "w_oom (upd_topo p f w) = w_oom w"
  "w_junk (upd_topo p f w) = w_junk w" "w_junk_ptr (upd_topo p f w) = w_junk_ptr w"
  "w_next_id (upd_topo p f w) = w_next_id w" "w_pkt (upd_topo p f w) = w_pkt w"
  "w_iface (upd_topo p f w) = w_iface w" "w_link (upd_topo p f w) = w_link w"
  "w_dev (upd_topo p f w) = w_dev w" "w_sched (upd_topo p f w) = w_sched w"
  "w_sim (upd_topo p f w) = w_sim w" "w_arp (upd_topo p f w) = w_arp w"
  "w_ips (upd_topo p f w) = w_ips w" "w_udp (upd_topo p f w) = w_udp w"
  "w_udpctx (upd_topo p f w) = w_udpctx w" "w_tcp (upd_topo p f w) = w_tcp w"
  "w_tcpctx (upd_topo p f w) = w_tcpctx w" "w_switch (upd_topo p f w) = w_switch w"
  "w_host (upd_topo p f w) = w_host w"
  by (simp_all add: upd_topo_def)

lemma upd_sched_simps [simp]:
  "w_sched (upd_sched p f w) = (w_sched w)(p := f (w_sched w p))"
  "w_brk (upd_sched p f w) = w_brk w" "w_live (upd_sched p f w) = w_live w"
  "w_bad_free (upd_sched p f w) = w_bad_free w" "w_mallocs (upd_sched p f w) = w_mallocs w"
  "w_oom (upd_sched p f w) = w_oom w" "w_junk (upd_sched p f w) = w_junk w"
  "w_junk_ptr (upd_sched p f w) = w_junk_ptr w" "w_next_id (upd_sched p f w) = w_next_id w"
  "w_pkt (upd_sched p f w) = w_pkt w" "w_iface (upd_sched p f w) = w_iface w"
  "w_link (upd_sched p f w) = w_link w" "w_dev (upd_sched p f w) = w_dev w"
  "w_topo (upd_sched p f w) = w_topo w" "w_sim (upd_sched p f w) = w_sim w"
  "w_arp (upd_sched p f w) = w_arp w" "w_ips (upd_sched p f w) = w_ips w"
  "w_udp (upd_sched p f w) = w_udp w" "w_udpctx (upd_sched p f w) = w_udpctx w"
  "w_tcp (upd_sched p f w) = w_tcp w" "w_tcpctx (upd_sched p f w) = w_tcpctx w"
  "w_switch (upd_sched p f w) = w_switch w" "w_host (upd_sched p f w) = w_host w"
  by (simp_all add: upd_sched_def)

lemma upd_sim_simps [simp]:
  "w_sim (upd_sim p f w) = (w_sim w)(p := f (w_sim w p))" "w_brk (upd_sim p f w) = w_brk w"
  "w_live (upd_sim p f w) = w_live w" "w_bad_free (upd_sim p f w) = w_bad_free w"
  "w_mallocs (upd_sim p f w) = w_mallocs w" "w_oom (upd_sim p f w) = w_oom w"
  "w_junk (upd_sim p f w) = w_junk w" "w_junk_ptr (upd_sim p f w) = w_junk_ptr w"
  "w_next_id (upd_sim p f w) = w_next_id w" "w_pkt (upd_sim p f w) = w_pkt w"
  "w_iface (upd_sim p f w) = w_iface w" "w_link (upd_sim p f w) = w_link w"
  "w_dev (upd_sim p f w) = w_dev w" "w_topo (upd_sim p f w) = w_topo w"
  "w_sched (upd_sim p f w) = w_sched w" "w_arp (upd_sim p f w) = w_arp w"
  "w_ips (upd_sim p f w) = w_ips w" "w_udp (upd_sim p f w) = w_udp w"
  "w_udpctx (upd_sim p f w) = w_udpctx w" "w_tcp (upd_sim p f w) = w_tcp w"
  "w_tcpctx (upd_sim p f w) = w_tcpctx w" "w_switch (upd_sim p f w) = w_switch w"
  "w_host (upd_sim p f w) = w_host w"
  by (simp_all add: upd_sim_def)

lemma upd_ips_simps [simp]:
  "w_ips (upd_ips p f w) = (w_ips w)(p := f (w_ips w p))" "w_brk (upd_ips p f w) = w_brk w"
  "w_live (upd_ips p f w) = w_live w" "w_bad_free (upd_ips p f w) = w_bad_free w"
  "w_mallocs (upd_ips p f w) = w_mallocs w" "w_oom (upd_ips p f w) = w_oom w"
  "w_junk (upd_ips p f w) = w_junk w" "w_junk_ptr (upd_ips p f w) = w_junk_ptr w"
  "w_next_id (upd_ips p f w) = w_next_id w" "w_pkt (upd_ips p f w) = w_pkt w"
  "w_iface (upd_ips p f w) = w_iface w" "w_link (upd_ips p f w) = w_link w"
  "w_dev (upd_ips p f w) = w_dev w" "w_topo (upd_ips p f w) = w_topo w"
  "w_sched (upd_ips p f w) = w_sched w" "w_sim (upd_ips p f w) = w_sim w"
  "w_arp (upd_ips p f w) = w_arp w" "w_udp (upd_ips p f w) = w_udp w"
  "w_udpctx (upd_ips p f w) = w_udpctx w" "w_tcp (upd_ips p f w) = w_tcp w"
  "w_tcpctx (upd_ips p f w) = w_tcpctx w" "w_switch (upd_ips p f w) = w_switch w"
  "w_host (upd_ips p f w) = w_host w"
  by (simp_all add: upd_ips_def)

lemma upd_tcp_simps [simp]:
  "w_tcp (upd_tcp p f w) = (w_tcp w)(p := f (w_tcp w p))" "w_brk (upd_tcp p f w) = w_brk w"
  "w_live (upd_tcp p f w) = w_live w" "w_bad_free (upd_tcp p f w) = w_bad_free w"
  "w_mallocs (upd_tcp p f w) = w_mallocs w" "w_oom (upd_tcp p f w) = w_oom w"
  "w_junk (upd_tcp p f w) = w_junk w" "w_junk_ptr (upd_tcp p f w) = w_junk_ptr w"
  "w_next_id (upd_tcp p f w) = w_next_id w" "w_pkt (upd_tcp p f w) = w_pkt w"
  "w_iface (upd_tcp p f w) = w_iface w" "w_link (upd_tcp p f w) = w_link w"
  "w_dev (upd_tcp p f w) = w_dev w" "w_topo (upd_tcp p f w) = w_topo w"
  "w_sched (upd_tcp p f w) = w_sched w" "w_sim (upd_tcp p f w) = w_sim w"
  "w_arp (upd_tcp p f w) = w_arp w" "w_ips (upd_tcp p f w) = w_ips w"
  "w_udp (upd_tcp p f w) = w_udp w" "w_udpctx (upd_tcp p f w) = w_udpctx w"
  "w_tcpctx (upd_tcp p f w) = w_tcpctx w" "w_switch (upd_tcp p f w) = w_switch w"
  "w_host (upd_tcp p f w) = w_host w"
  by (simp_all add: upd_tcp_def)

lemma upd_switch_simps [simp]:
  "w_switch (upd_switch p f w) = (w_switch w)(p := f (w_switch w p))"
  "w_brk (upd_switch p f w) = w_brk w" "w_live (upd_switch p f w) = w_live w"
  "w_bad_free (upd_switch p f w) = w_bad_free w" "w_mallocs (upd_switch p f w) = w_mallocs w"
  "w_oom (upd_switch p f w) = w_oom w" "w_junk (upd_switch p f w) = w_junk w"
  "w_junk_ptr (upd_switch p f w) = w_junk_ptr w" "w_next_id (upd_switch p f w) = w_next_id w"
  "w_pkt (upd_switch p f w) = w_pkt w" "w_iface (upd_switch p f w) = w_iface w"
  "w_link (upd_switch p f w) = w_link w" "w_dev (upd_switch p f w) = w_dev w"
  "w_topo (upd_switch p f w) = w_topo w" "w_sched (upd_switch p f w) = w_sched w"
  "w_sim (upd_switch p f w) = w_sim w" "w_arp (upd_switch p f w) = w_arp w"
  "w_ips (upd_switch p f w) = w_ips w" "w_udp (upd_switch p f w) = w_udp w"
  "w_udpctx (upd_switch p f w) = w_udpctx w" "w_tcp (upd_switch p f w) = w_tcp w"
  "w_tcpctx (upd_switch p f w) = w_tcpctx w" "w_host (upd_switch p f w) = w_host w"
  by (simp_all add: upd_switch_def)

lemma upd_host_simps [simp]:
  "w_host (upd_host p f w) = (w_host w)(p := f (w_host w p))" "w_brk (upd_host p f w) = w_brk w"
  "w_live (upd_host p f w) = w_live w" "w_bad_free (upd_host p f w) = w_bad_free w"
  "w_mallocs (upd_host p f w) = w_mallocs w" "w_oom (upd_host p f w) = w_oom w"
  "w_junk (upd_host p f w) = w_junk w" "w_junk_ptr (upd_host p f w) = w_junk_ptr w"
  "w_next_id (upd_host p f w) = w_next_id w" "w_pkt (upd_host p f w) = w_pkt w"
  "w_iface (upd_host p f w) = w_iface w" "w_link (upd_host p f w) = w_link w"
  "w_dev (upd_host p f w) = w_dev w" "w_topo (upd_host p f w) = w_topo w"
  "w_sched (upd_host p f w) = w_sched w" "w_sim (upd_host p f w) = w_sim w"
  "w_arp (upd_host p f w) = w_arp w" "w_ips (upd_host p f w) = w_ips w"
  "w_udp (upd_host p f w) = w_udp w" "w_udpctx (upd_host p f w) = w_udpctx w"
  "w_tcp (upd_host p f w) = w_tcp w" "w_tcpctx (upd_host p f w) = w_tcpctx w"
  "w_switch (upd_host p f w) = w_switch w"
  by (simp_all add: upd_host_def)

lemma set_arp_simps [simp]:
  "w_arp (set_arp p x w) = store (w_arp w) p x" "w_brk (set_arp p x w) = w_brk w"
  "w_live (set_arp p x w) = w_live w" "w_bad_free (set_arp p x w) = w_bad_free w"
  "w_mallocs (set_arp p x w) = w_mallocs w" "w_oom (set_arp p x w) = w_oom w"
  "w_junk (set_arp p x w) = w_junk w" "w_junk_ptr (set_arp p x w) = w_junk_ptr w"
  "w_next_id (set_arp p x w) = w_next_id w" "w_pkt (set_arp p x w) = w_pkt w"
  "w_iface (set_arp p x w) = w_iface w" "w_link (set_arp p x w) = w_link w"
  "w_dev (set_arp p x w) = w_dev w" "w_topo (set_arp p x w) = w_topo w"
  "w_sched (set_arp p x w) = w_sched w" "w_sim (set_arp p x w) = w_sim w"
  "w_ips (set_arp p x w) = w_ips w" "w_udp (set_arp p x w) = w_udp w"
  "w_udpctx (set_arp p x w) = w_udpctx w" "w_tcp (set_arp p x w) = w_tcp w"
  "w_tcpctx (set_arp p x w) = w_tcpctx w" "w_switch (set_arp p x w) = w_switch w"
  "w_host (set_arp p x w) = w_host w"
  by (simp_all add: set_arp_def)

lemma set_udp_simps [simp]:
  "w_udp (set_udp p x w) = store (w_udp w) p x" "w_brk (set_udp p x w) = w_brk w"
  "w_live (set_udp p x w) = w_live w" "w_bad_free (set_udp p x w) = w_bad_free w"
  "w_mallocs (set_udp p x w) = w_mallocs w" "w_oom (set_udp p x w) = w_oom w"
  "w_junk (set_udp p x w) = w_junk w" "w_junk_ptr (set_udp p x w) = w_junk_ptr w"
  "w_next_id (set_udp p x w) = w_next_id w" "w_pkt (set_udp p x w) = w_pkt w"
  "w_iface (set_udp p x w) = w_iface w" "w_link (set_udp p x w) = w_link w"
  "w_dev (set_udp p x w) = w_dev w" "w_topo (set_udp p x w) = w_topo w"
  "w_sched (set_udp p x w) = w_sched w" "w_sim (set_udp p x w) = w_sim w"
  "w_arp (set_udp p x w) = w_arp w" "w_ips (set_udp p x w) = w_ips w"
  "w_udpctx (set_udp p x w) = w_udpctx w" "w_tcp (set_udp p x w) = w_tcp w"
  "w_tcpctx (set_udp p x w) = w_tcpctx w" "w_switch (set_udp p x w) = w_switch w"
  "w_host (set_udp p x w) = w_host w"
  by (simp_all add: set_udp_def)

lemma set_tcp_simps [simp]:
  "w_tcp (set_tcp p x w) = store (w_tcp w) p x" "w_brk (set_tcp p x w) = w_brk w"
  "w_live (set_tcp p x w) = w_live w" "w_bad_free (set_tcp p x w) = w_bad_free w"
  "w_mallocs (set_tcp p x w) = w_mallocs w" "w_oom (set_tcp p x w) = w_oom w"
  "w_junk (set_tcp p x w) = w_junk w" "w_junk_ptr (set_tcp p x w) = w_junk_ptr w"
  "w_next_id (set_tcp p x w) = w_next_id w" "w_pkt (set_tcp p x w) = w_pkt w"
  "w_iface (set_tcp p x w) = w_iface w" "w_link (set_tcp p x w) = w_link w"
  "w_dev (set_tcp p x w) = w_dev w" "w_topo (set_tcp p x w) = w_topo w"
  "w_sched (set_tcp p x w) = w_sched w" "w_sim (set_tcp p x w) = w_sim w"
  "w_arp (set_tcp p x w) = w_arp w" "w_ips (set_tcp p x w) = w_ips w"
  "w_udp (set_tcp p x w) = w_udp w" "w_udpctx (set_tcp p x w) = w_udpctx w"
  "w_tcpctx (set_tcp p x w) = w_tcpctx w" "w_switch (set_tcp p x w) = w_switch w"
  "w_host (set_tcp p x w) = w_host w"
  by (simp_all add: set_tcp_def)

text \<open>The allocator touches no object.\<close>

lemma free_block_simps [simp]:
  "w_brk (free_block p w) = w_brk w" "w_mallocs (free_block p w) = w_mallocs w"
  "w_oom (free_block p w) = w_oom w" "w_junk (free_block p w) = w_junk w"
  "w_junk_ptr (free_block p w) = w_junk_ptr w" "w_next_id (free_block p w) = w_next_id w"
  "w_pkt (free_block p w) = w_pkt w" "w_iface (free_block p w) = w_iface w"
  "w_link (free_block p w) = w_link w" "w_dev (free_block p w) = w_dev w"
  "w_topo (free_block p w) = w_topo w" "w_sched (free_block p w) = w_sched w"
  "w_sim (free_block p w) = w_sim w" "w_arp (free_block p w) = w_arp w"
  "w_ips (free_block p w) = w_ips w" "w_udp (free_block p w) = w_udp w"
  "w_udpctx (free_block p w) = w_udpctx w" "w_tcp (free_block p w) = w_tcp w"
  "w_tcpctx (free_block p w) = w_tcpctx w" "w_switch (free_block p w) = w_switch w"
  "w_host (free_block p w) = w_host w"
  by (simp_all add: free_block_def)

lemma malloc_simps [simp]:
  "w_bad_free (snd (malloc w)) = w_bad_free w" "w_oom (snd (malloc w)) = w_oom w"
  "w_junk (snd (malloc w)) = w_junk w" "w_junk_ptr (snd (malloc w)) = w_junk_ptr w"
  "w_next_id (snd (malloc w)) = w_next_id w" "w_pkt (snd (malloc w)) = w_pkt w"
  "w_iface (snd (malloc w)) = w_iface w" "w_link (snd (malloc w)) = w_link w"
  "w_dev (snd (malloc w)) = w_dev w" "w_topo (snd (malloc w)) = w_topo w"
  "w_sched (snd (malloc w)) = w_sched w" "w_sim (snd (malloc w)) = w_sim w"
  "w_arp (snd (malloc w)) = w_arp w" "w_ips (snd (malloc w)) = w_ips w"
  "w_udp (snd (malloc w)) = w_udp w" "w_udpctx (snd (malloc w)) = w_udpctx w"
  "w_tcp (snd (malloc w)) = w_tcp w" "w_tcpctx (snd (malloc w)) = w_tcpctx w"
  "w_switch (snd (malloc w)) = w_switch w" "w_host (snd (malloc w)) = w_host w"
  by (simp_all add: malloc_def Let_def)

lemma realloc_simps [simp]:
  "w_brk (snd (realloc w)) = w_brk w" "w_live (snd (realloc w)) = w_live w"
  "w_bad_free (snd (realloc w)) = w_bad_free w" "w_oom (snd (realloc w)) = w_oom w"
  "w_junk (snd (realloc w)) = w_junk w" "w_junk_ptr (snd (realloc w)) = w_junk_ptr w"
  "w_next_id (snd (realloc w)) = w_next_id w" "w_pkt (snd (realloc w)) = w_pkt w"
  "w_iface (snd (realloc w)) = w_iface w" "w_link (snd (realloc w)) = w_link w"
  "w_dev (snd (realloc w)) = w_dev w" "w_topo (snd (realloc w)) = w_topo w"
  "w_sched (snd (realloc w)) = w_sched w" "w_sim (snd (realloc w)) = w_sim w"
  "w_arp (snd (realloc w)) = w_arp w" "w_ips (snd (realloc w)) = w_ips w"
  "w_udp (snd (realloc w)) = w_udp w" "w_udpctx (snd (realloc w)) = w_udpctx w"
  "w_tcp (snd (realloc w)) = w_tcp w" "w_tcpctx (snd (realloc w)) = w_tcpctx w"
  "w_switch (snd (realloc w)) = w_switch w" "w_host (snd (realloc w)) = w_host w"
  by (simp_all add: realloc_def)

lemma packet_free_simps [simp]:
  "w_brk (packet_free p w) = w_brk w" "w_mallocs (packet_free p w) = w_mallocs w"
  "w_oom (packet_free p w) = w_oom w" "w_junk (packet_free p w) = w_junk w"
  "w_junk_ptr (packet_free p w) = w_junk_ptr w" "w_next_id (packet_free p w) = w_next_id w"
  "w_pkt (packet_free p w) = w_pkt w" "w_iface (packet_free p w) = w_iface w"
  "w_link (packet_free p w) = w_link w" "w_dev (packet_free p w) = w_dev w"
  "w_topo (packet_free p w) = w_topo w" "w_sched (packet_free p w) = w_sched w"
  "w_sim (packet_free p w) = w_sim w" "w_arp (packet_free p w) = w_arp w"
  "w_ips (packet_free p w) = w_ips w" "w_udp (packet_free p w) = w_udp w"
  "w_udpctx (packet_free p w) = w_udpctx w" "w_tcp (packet_free p w) = w_tcp w"
  "w_tcpctx (packet_free p w) = w_tcpctx w" "w_switch (packet_free p w) = w_switch w"
  "w_host (packet_free p w) = w_host w"
  by (simp_all add: packet_free_def)

lemma event_free_simps [simp]:
  "w_brk (event_free e w) = w_brk w" "w_mallocs (event_free e w) = w_mallocs w"
  "w_oom (event_free e w) = w_oom w" "w_junk (event_free e w) = w_junk w"
  "w_junk_ptr (event_free e w) = w_junk_ptr w" "w_next_id (event_free e w) = w_next_id w"
  "w_pkt (event_free e w) = w_pkt w" "w_iface (event_free e w) = w_iface w"
  "w_link (event_free e w) = w_link w" "w_dev (event_free e w) = w_dev w"
  "w_topo (event_free e w) = w_topo w" "w_sched (event_free e w) = w_sched w"
  "w_sim (event_free e w) = w_sim w" "w_arp (event_free e w) = w_arp w"
  "w_ips (event_free e w) = w_ips w" "w_udp (event_free e w) = w_udp w"
  "w_udpctx (event_free e w) = w_udpctx w" "w_tcp (event_free e w) = w_tcp w"
  "w_tcpctx (event_free e w) = w_tcpctx w" "w_switch (event_free e w) = w_switch w"
  "w_host (event_free e w) = w_host w"
  by (simp_all add: event_free_def split: option.split)

end
