(* ===== verification/Net_Ops.thy ===== *)
theory Net_Ops
  imports World
begin

text \<open>
  The network objects: interfaces (\<open>network/interface.c\<close>), links without their transmit function
  (\<open>network/link.c\<close>), devices (\<open>network/device.c\<close>) and topologies (\<open>network/topology.c\<close>). A
  name is a C string; the copy into the fixed array keeps the first 15 or 31 characters.
\<close>

section \<open>Interfaces\<close>

definition interface_create :: "string \<Rightarrow> mac \<Rightarrow> u32 \<Rightarrow> u8 \<Rightarrow> u16 \<Rightarrow> world \<Rightarrow> ptr \<times> world" where
  "interface_create name mac ip_addr prefix_len mtu w =
     (let (iface, w) = malloc w in
      if iface = NULL then (NULL, w)
      else (iface, upd_iface iface (\<lambda>_.
        \<lparr>if_name = take 15 name, if_mac = mac, if_ip_addr = ip_addr, if_prefix_len = prefix_len,
         if_mtu = mtu, if_up = 0, if_link = NULL, if_device = NULL, if_tx_bytes = 0,
         if_rx_bytes = 0, if_rx_handler = RX_NULL, if_handler_ctx = NULL, if_arp_cache = NULL,
         if_rx_dropped = 0, if_rx_errors = 0, if_tx_errors = 0, if_state = IFACE_OK,
         if_last_rx_time = 0, if_last_tx_time = 0, if_last_error_time = 0\<rparr>) w))"

definition interface_free :: "ptr \<Rightarrow> world \<Rightarrow> world" where
  "interface_free iface w = (if iface \<noteq> NULL then free_block iface w else w)"

definition interface_set_up :: "ptr \<Rightarrow> int \<Rightarrow> world \<Rightarrow> world" where
  "interface_set_up iface up w =
     (if iface \<noteq> NULL then upd_iface iface (\<lambda>i. i\<lparr>if_up := up\<rparr>) w else w)"

definition interface_is_up :: "ptr \<Rightarrow> world \<Rightarrow> int" where
  "interface_is_up iface w =
     (if iface \<noteq> NULL then (if if_up (w_iface w iface) \<noteq> 0 then 1 else 0) else 0)"

definition interface_set_link :: "ptr \<Rightarrow> ptr \<Rightarrow> world \<Rightarrow> world" where
  "interface_set_link iface link w =
     (if iface \<noteq> NULL then upd_iface iface (\<lambda>i. i\<lparr>if_link := link\<rparr>) w else w)"

definition interface_get_link :: "ptr \<Rightarrow> world \<Rightarrow> ptr" where
  "interface_get_link iface w = (if iface \<noteq> NULL then if_link (w_iface w iface) else NULL)"

definition interface_get_mac :: "ptr \<Rightarrow> world \<Rightarrow> mac" where
  "interface_get_mac iface w = if_mac (w_iface w iface)"

definition interface_get_ip :: "ptr \<Rightarrow> world \<Rightarrow> u32" where
  "interface_get_ip iface w = if_ip_addr (w_iface w iface)"

definition interface_add_tx_bytes :: "ptr \<Rightarrow> u64 \<Rightarrow> world \<Rightarrow> world" where
  "interface_add_tx_bytes iface n w =
     (if iface \<noteq> NULL then upd_iface iface (\<lambda>i. i\<lparr>if_tx_bytes := if_tx_bytes i + n\<rparr>) w else w)"

definition interface_add_rx_bytes :: "ptr \<Rightarrow> u64 \<Rightarrow> world \<Rightarrow> world" where
  "interface_add_rx_bytes iface n w =
     (if iface \<noteq> NULL then upd_iface iface (\<lambda>i. i\<lparr>if_rx_bytes := if_rx_bytes i + n\<rparr>) w else w)"

definition interface_set_rx_handler :: "ptr \<Rightarrow> RxHandler \<Rightarrow> ptr \<Rightarrow> world \<Rightarrow> world" where
  "interface_set_rx_handler iface fn ctx w =
     (if iface \<noteq> NULL
      then upd_iface iface (\<lambda>i. i\<lparr>if_rx_handler := fn, if_handler_ctx := ctx\<rparr>) w else w)"

definition interface_set_arp_cache :: "ptr \<Rightarrow> ptr \<Rightarrow> world \<Rightarrow> world" where
  "interface_set_arp_cache iface cache w =
     (if iface \<noteq> NULL then upd_iface iface (\<lambda>i. i\<lparr>if_arp_cache := cache\<rparr>) w else w)"

section \<open>Links\<close>

definition link_create :: "ptr \<Rightarrow> ptr \<Rightarrow> u32 \<Rightarrow> u32 \<Rightarrow> u32 \<Rightarrow> world \<Rightarrow> ptr \<times> world" where
  "link_create end_a end_b bw delay loss_rate w =
     (if end_a = NULL \<or> end_b = NULL \<or> bw = 0 then (NULL, w)
      else
        let (link, w) = malloc w in
        if link = NULL then (NULL, w)
        else (link, upd_link link (\<lambda>_.
          \<lparr>ln_end_a = end_a, ln_end_b = end_b, ln_bandwidth_mbps = bw, ln_delay_ms = delay,
           ln_loss_rate = loss_rate, ln_up = 1\<rparr>) w))"

definition link_free :: "ptr \<Rightarrow> world \<Rightarrow> world" where
  "link_free link w = (if link \<noteq> NULL then free_block link w else w)"

definition link_set_up :: "ptr \<Rightarrow> int \<Rightarrow> world \<Rightarrow> world" where
  "link_set_up link up w = (if link \<noteq> NULL then upd_link link (\<lambda>l. l\<lparr>ln_up := up\<rparr>) w else w)"

definition link_is_up :: "ptr \<Rightarrow> world \<Rightarrow> int" where
  "link_is_up link w =
     (if link \<noteq> NULL then (if ln_up (w_link w link) \<noteq> 0 then 1 else 0) else 0)"

definition link_get_other_interface :: "ptr \<Rightarrow> ptr \<Rightarrow> world \<Rightarrow> ptr" where
  "link_get_other_interface link src w =
     (if link = NULL \<or> src = NULL then NULL
      else if src = ln_end_a (w_link w link) then ln_end_b (w_link w link)
      else if src = ln_end_b (w_link w link) then ln_end_a (w_link w link)
      else NULL)"

section \<open>Devices\<close>

text \<open>The pointer array is not initialised by \<open>device_create\<close>.\<close>

definition device_create :: "string option \<Rightarrow> int \<Rightarrow> world \<Rightarrow> ptr \<times> world" where
  "device_create name iface_max w =
     (case name of
        None \<Rightarrow> (NULL, w)
      | Some nm \<Rightarrow>
          if iface_max \<le> 0 then (NULL, w)
          else
            let (dev, w) = malloc w in
            if dev = NULL then (NULL, w)
            else
              let (arr, w) = malloc w in
              if arr = NULL then (NULL, free_block dev w)
              else (dev, upd_dev dev (\<lambda>_.
                \<lparr>dv_name = take 31 nm, dv_interfaces_p = arr,
                 dv_interfaces = map (w_junk_ptr w arr) [0..<nat iface_max],
                 dv_iface_count = 0, dv_iface_max = iface_max\<rparr>) w))"

fun free_interfaces :: "ptr list \<Rightarrow> world \<Rightarrow> world" where
  "free_interfaces [] w = w"
| "free_interfaces (i # is) w = free_interfaces is (interface_free i w)"

text \<open>The interfaces a device has.\<close>

definition device_ports :: "Device \<Rightarrow> ptr list" where
  "device_ports d = take (dv_iface_count d) (dv_interfaces d)"

definition device_free :: "ptr \<Rightarrow> world \<Rightarrow> world" where
  "device_free dev w =
     (if dev = NULL then w
      else
        let w = free_interfaces (device_ports (w_dev w dev)) w;
            w = free_block (dv_interfaces_p (w_dev w dev)) w
        in free_block dev w)"

definition device_add_interface :: "ptr \<Rightarrow> ptr \<Rightarrow> world \<Rightarrow> int \<times> world" where
  "device_add_interface dev iface w =
     (if dev = NULL \<or> iface = NULL \<or> int (dv_iface_count (w_dev w dev)) \<ge> dv_iface_max (w_dev w dev)
      then (- 1, w)
      else if first_index (\<lambda>i. if_name (w_iface w i) = if_name (w_iface w iface))
                (device_ports (w_dev w dev)) \<noteq> None then (- 1, w)
      else
        let w = upd_iface iface (\<lambda>i. i\<lparr>if_device := dev\<rparr>) w;
            w = upd_dev dev (\<lambda>d. d\<lparr>dv_interfaces := (dv_interfaces d)[dv_iface_count d := iface],
                                  dv_iface_count := dv_iface_count d + 1\<rparr>) w
        in (0, w))"

definition device_get_interface_by_name :: "ptr \<Rightarrow> string option \<Rightarrow> world \<Rightarrow> ptr" where
  "device_get_interface_by_name dev iface_name w =
     (case iface_name of
        None \<Rightarrow> NULL
      | Some nm \<Rightarrow>
          if dev = NULL then NULL
          else
            (case first_index (\<lambda>i. if_name (w_iface w i) = nm) (device_ports (w_dev w dev)) of
               Some k \<Rightarrow> dv_interfaces (w_dev w dev) ! k
             | None \<Rightarrow> NULL))"

definition device_get_interface_by_ip :: "ptr \<Rightarrow> u32 \<Rightarrow> world \<Rightarrow> ptr" where
  "device_get_interface_by_ip dev ip_addr w =
     (if dev = NULL then NULL
      else
        (case first_index (\<lambda>i. if_ip_addr (w_iface w i) = ip_addr) (device_ports (w_dev w dev)) of
           Some k \<Rightarrow> dv_interfaces (w_dev w dev) ! k
         | None \<Rightarrow> NULL))"

definition device_receive_packet :: "ptr \<Rightarrow> ptr \<Rightarrow> ptr \<Rightarrow> int" where
  "device_receive_packet dev in_iface pkt =
     (if dev = NULL \<or> in_iface = NULL \<or> pkt = NULL then - 1 else 0)"

definition device_send_packet :: "ptr \<Rightarrow> ptr \<Rightarrow> ptr \<Rightarrow> int" where
  "device_send_packet dev out_iface pkt =
     (if dev = NULL \<or> out_iface = NULL \<or> pkt = NULL then - 1 else 0)"

section \<open>Topologies\<close>

definition topology_create :: "world \<Rightarrow> ptr \<times> world" where
  "topology_create w =
     (let (topo, w) = malloc w in
      if topo = NULL then (NULL, w)
      else
        let (devices, w) = malloc w;
            (links, w) = malloc w;
            w = upd_topo topo (\<lambda>_.
              \<lparr>tp_devices_p = devices, tp_devices = map (w_junk_ptr w devices) [0..<8],
               tp_dev_count = 0, tp_dev_cap = 8, tp_links_p = links,
               tp_links = map (w_junk_ptr w links) [0..<8], tp_link_count = 0, tp_link_cap = 8\<rparr>) w
        in if devices = NULL \<or> links = NULL
           then (NULL, free_block topo (free_block links (free_block devices w)))
           else (topo, w))"

definition topo_devices :: "Topology \<Rightarrow> ptr list" where
  "topo_devices t = take (tp_dev_count t) (tp_devices t)"

definition topo_links :: "Topology \<Rightarrow> ptr list" where
  "topo_links t = take (tp_link_count t) (tp_links t)"

fun free_devices :: "ptr list \<Rightarrow> world \<Rightarrow> world" where
  "free_devices [] w = w"
| "free_devices (d # ds) w = free_devices ds (device_free d w)"

fun free_links :: "ptr list \<Rightarrow> world \<Rightarrow> world" where
  "free_links [] w = w"
| "free_links (l # ls) w = free_links ls (link_free l w)"

definition topology_free :: "ptr \<Rightarrow> world \<Rightarrow> world" where
  "topology_free topo w =
     (if topo = NULL then w
      else
        let t = w_topo w topo;
            w = free_devices (topo_devices t) w;
            w = free_links (topo_links t) w;
            w = free_block (tp_devices_p t) w;
            w = free_block (tp_links_p t) w
        in free_block topo w)"

definition topology_add_device :: "ptr \<Rightarrow> ptr \<Rightarrow> world \<Rightarrow> int \<times> world" where
  "topology_add_device topo dev w =
     (if topo = NULL \<or> dev = NULL then (- 1, w)
      else
        let t = w_topo w topo;
            full = (tp_dev_count t = tp_dev_cap t);
            (ok, w) = (if full then realloc w else (True, w))
        in if \<not> ok then (- 1, w)
           else
             let t = (if full
                      then t\<lparr>tp_devices := tp_devices t @ map (w_junk_ptr w (tp_devices_p t)) [tp_dev_cap t..<tp_dev_cap t * 2],
                             tp_dev_cap := tp_dev_cap t * 2\<rparr>
                      else t);
                 t = t\<lparr>tp_devices := (tp_devices t)[tp_dev_count t := dev], tp_dev_count := tp_dev_count t + 1\<rparr>
             in (0, upd_topo topo (\<lambda>_. t) w))"

definition topology_add_link :: "ptr \<Rightarrow> ptr \<Rightarrow> world \<Rightarrow> int \<times> world" where
  "topology_add_link topo link w =
     (if topo = NULL \<or> link = NULL then (- 1, w)
      else
        let t = w_topo w topo;
            full = (tp_link_count t = tp_link_cap t);
            (ok, w) = (if full then realloc w else (True, w))
        in if \<not> ok then (- 1, w)
           else
             let t = (if full
                      then t\<lparr>tp_links := tp_links t @ map (w_junk_ptr w (tp_links_p t)) [tp_link_cap t..<tp_link_cap t * 2],
                             tp_link_cap := tp_link_cap t * 2\<rparr>
                      else t);
                 t = t\<lparr>tp_links := (tp_links t)[tp_link_count t := link], tp_link_count := tp_link_count t + 1\<rparr>
             in (0, upd_topo topo (\<lambda>_. t) w))"

definition topology_find_device_by_name :: "ptr \<Rightarrow> string option \<Rightarrow> world \<Rightarrow> ptr" where
  "topology_find_device_by_name topo name w =
     (case name of
        None \<Rightarrow> NULL
      | Some nm \<Rightarrow>
          if topo = NULL then NULL
          else
            (case first_index (\<lambda>d. dv_name (w_dev w d) = nm) (topo_devices (w_topo w topo)) of
               Some k \<Rightarrow> tp_devices (w_topo w topo) ! k
             | None \<Rightarrow> NULL))"

definition topology_find_device_by_ip :: "ptr \<Rightarrow> u32 \<Rightarrow> world \<Rightarrow> ptr" where
  "topology_find_device_by_ip topo ip_addr w =
     (if topo = NULL then NULL
      else
        (case first_index (\<lambda>d. first_index (\<lambda>i. if_ip_addr (w_iface w i) = ip_addr)
                                 (device_ports (w_dev w d)) \<noteq> None) (topo_devices (w_topo w topo)) of
           Some k \<Rightarrow> tp_devices (w_topo w topo) ! k
         | None \<Rightarrow> NULL))"

definition topology_get_link_between :: "ptr \<Rightarrow> ptr \<Rightarrow> ptr \<Rightarrow> world \<Rightarrow> ptr" where
  "topology_get_link_between topo iface_a iface_b w =
     (if topo = NULL \<or> iface_a = NULL \<or> iface_b = NULL then NULL
      else
        (case first_index (\<lambda>l. ln_end_a (w_link w l) = iface_a \<and> ln_end_b (w_link w l) = iface_b \<or>
                               ln_end_a (w_link w l) = iface_b \<and> ln_end_b (w_link w l) = iface_a)
                (topo_links (w_topo w topo)) of
           Some k \<Rightarrow> tp_links (w_topo w topo) ! k
         | None \<Rightarrow> NULL))"

definition topology_device_count :: "ptr \<Rightarrow> world \<Rightarrow> nat" where
  "topology_device_count topo w = (if topo = NULL then 0 else tp_dev_count (w_topo w topo))"

definition topology_link_count :: "ptr \<Rightarrow> world \<Rightarrow> nat" where
  "topology_link_count topo w = (if topo = NULL then 0 else tp_link_count (w_topo w topo))"

end
