(* ===== verification/Sched_Ops.thy ===== *)
theory Sched_Ops
  imports World
begin

text \<open>
  The scheduler without its dispatch loop (\<open>engine/scheduler.c\<close>) and the allocation of its queue
  (\<open>event_queue_create\<close>, \<open>event_queue_free\<close> of \<open>engine/event.c\<close>), and the accessors of the
  simulator (\<open>engine/simulator.c\<close>). The dispatch needs every handler of the program and comes last.
\<close>

section \<open>The event queue on the heap\<close>

text \<open>The address of the queue structure, the address of its array, and the queue.\<close>

definition event_queue_create :: "nat \<Rightarrow> world \<Rightarrow> (ptr \<times> ptr \<times> EventQueue) option \<times> world" where
  "event_queue_create capacity w =
     (let (eq, w) = malloc w in
      if eq = NULL then (None, w)
      else
        let (events, w) = malloc w in
        if events = NULL then (None, free_block eq w)
        else (Some (eq, events, event_queue_new capacity), w))"

definition event_queue_free :: "ptr \<Rightarrow> ptr \<Rightarrow> world \<Rightarrow> world" where
  "event_queue_free eq events w =
     (if eq \<noteq> NULL then free_block eq (free_block events w) else w)"

section \<open>The scheduler\<close>

definition scheduler_create :: "nat \<Rightarrow> world \<Rightarrow> ptr \<times> world" where
  "scheduler_create capacity w =
     (if capacity = 0 then (NULL, w)
      else
        let (s, w) = malloc w in
        if s = NULL then (NULL, w)
        else
          (case event_queue_create capacity w of
             (None, w) \<Rightarrow> (NULL, free_block s w)
           | (Some (eq, events, q), w) \<Rightarrow>
               (s, upd_sched s (\<lambda>_. \<lparr>sc_eq_p = eq, sc_eq_events_p = events, sc_eq = q, sc_now = 0,
                     sc_running = 0, sc_handlers = (\<lambda>_. (CB_NULL, NULL))\<rparr>) w)))"

text \<open>\<open>while ((e = event_queue_pop(s->eq)) != NULL) event_free(e);\<close>\<close>

fun drain_events :: "nat \<Rightarrow> EventQueue \<Rightarrow> world \<Rightarrow> EventQueue \<times> world" where
  "drain_events 0 eq w = (eq, w)"
| "drain_events (Suc n) eq w =
     (case event_queue_pop eq of
        (None, eq) \<Rightarrow> (eq, w)
      | (Some e, eq) \<Rightarrow> drain_events n eq (event_free (Some e) w))"

definition scheduler_free :: "ptr \<Rightarrow> world \<Rightarrow> world" where
  "scheduler_free s w =
     (if s = NULL then w
      else
        let (eq, w) = drain_events (Suc (eq_count (sc_eq (w_sched w s)))) (sc_eq (w_sched w s)) w;
            w = upd_sched s (\<lambda>k. k\<lparr>sc_eq := eq\<rparr>) w;
            w = event_queue_free (sc_eq_p (w_sched w s)) (sc_eq_events_p (w_sched w s)) w
        in free_block s w)"

definition scheduler_register :: "ptr \<Rightarrow> EventType \<Rightarrow> EventCallback \<Rightarrow> ptr \<Rightarrow> world \<Rightarrow> world" where
  "scheduler_register s type fn ctx w =
     (if s = NULL \<or> \<not> evt_in_range type then w
      else upd_sched s (\<lambda>k. k\<lparr>sc_handlers := (sc_handlers k)(type := (fn, ctx))\<rparr>) w)"

definition scheduler_schedule :: "ptr \<Rightarrow> Event option \<Rightarrow> world \<Rightarrow> int \<times> world" where
  "scheduler_schedule s e w =
     (case e of
        None \<Rightarrow> (- 1, w)
      | Some ev \<Rightarrow>
          if s = NULL then (- 1, w)
          else
            let q = sc_eq (w_sched w s);
                (grow, w) = (if eq_count q \<ge> eq_capacity q then realloc w else (True, w));
                (r, q) = event_queue_push grow q ev
            in (r, upd_sched s (\<lambda>k. k\<lparr>sc_eq := q\<rparr>) w))"

definition scheduler_stop :: "ptr \<Rightarrow> world \<Rightarrow> world" where
  "scheduler_stop s w = (if s \<noteq> NULL then upd_sched s (\<lambda>k. k\<lparr>sc_running := 0\<rparr>) w else w)"

definition scheduler_now :: "ptr \<Rightarrow> world \<Rightarrow> u64" where
  "scheduler_now s w = (if s = NULL then 0 else sc_now (w_sched w s))"

section \<open>Accessors of the simulator\<close>

definition simulator_now :: "ptr \<Rightarrow> world \<Rightarrow> u64" where
  "simulator_now sim w = (if sim = NULL then 0 else sc_now (w_sched w (sm_sched (w_sim w sim))))"

definition simulator_stop :: "ptr \<Rightarrow> world \<Rightarrow> world" where
  "simulator_stop sim w = (if sim = NULL then w else scheduler_stop (sm_sched (w_sim w sim)) w)"

definition simulator_set_end_time :: "ptr \<Rightarrow> u64 \<Rightarrow> world \<Rightarrow> world" where
  "simulator_set_end_time sim end_us w =
     (if sim = NULL then w else upd_sim sim (\<lambda>s. s\<lparr>sm_end_time := end_us\<rparr>) w)"

definition simulator_create :: "ptr \<Rightarrow> ptr \<Rightarrow> world \<Rightarrow> ptr \<times> world" where
  "simulator_create topo sched w =
     (if topo = NULL \<or> sched = NULL then (NULL, w)
      else
        let (sim, w) = malloc w in
        if sim = NULL then (NULL, w)
        else (sim, upd_sim sim (\<lambda>_. \<lparr>sm_topo = topo, sm_sched = sched, sm_end_time = 0\<rparr>) w))"

definition simulator_register_handler ::
  "ptr \<Rightarrow> EventType \<Rightarrow> EventCallback \<Rightarrow> ptr \<Rightarrow> world \<Rightarrow> world" where
  "simulator_register_handler sim type fn ctx w =
     (if sim = NULL \<or> fn = CB_NULL \<or> \<not> evt_in_range type then w
      else scheduler_register (sm_sched (w_sim w sim)) type fn ctx w)"

definition simulator_inject_packet :: "ptr \<Rightarrow> ptr \<Rightarrow> ptr \<Rightarrow> ptr \<Rightarrow> u64 \<Rightarrow> world \<Rightarrow> int \<times> world" where
  "simulator_inject_packet sim src dst pkt delay_us w =
     (if sim = NULL \<or> src = NULL \<or> dst = NULL \<or> pkt = NULL then (- 1, w)
      else
        (case event_create EVT_PACKET_SEND (sc_now (w_sched w (sm_sched (w_sim w sim))) + delay_us)
                src dst pkt None w of
           (None, w) \<Rightarrow> (- 1, w)
         | (Some e, w) \<Rightarrow> scheduler_schedule (sm_sched (w_sim w sim)) (Some e) w))"

end
