(* ===== verification/Ethernet.thy ===== *)
theory Ethernet
  imports Net_Ops Sched_Ops
begin

text \<open>
  The link layer: \<open>link_transmit\<close> (\<open>network/link.c\<close>), \<open>ethernet_send\<close> and \<open>ethernet_receive\<close>
  (\<open>protocols/ethernet.c\<close>). A transmission clones the frame and schedules the receive event of
  the other end of the link.
\<close>

abbreviation (input) ETH_HDR_LEN :: nat where "ETH_HDR_LEN \<equiv> 14"
abbreviation (input) ETHERTYPE_IPV4 :: u16 where "ETHERTYPE_IPV4 \<equiv> 0x0800"
abbreviation (input) ETHERTYPE_ARP :: u16 where "ETHERTYPE_ARP \<equiv> 0x0806"

definition ETH_BROADCAST :: mac where
  "ETH_BROADCAST = [0xFF, 0xFF, 0xFF, 0xFF, 0xFF, 0xFF]"

definition mac_equal :: "mac \<Rightarrow> mac \<Rightarrow> bool" where
  "mac_equal a b \<longleftrightarrow> a = b"

definition link_transmit ::
  "ptr \<Rightarrow> ptr \<Rightarrow> ptr \<Rightarrow> ptr \<Rightarrow> u64 \<Rightarrow> EventCallback \<Rightarrow> ptr \<Rightarrow> world \<Rightarrow> int \<times> world" where
  "link_transmit link pkt src sched now rx_handler rx_ctx w =
     (if link = NULL \<or> pkt = NULL \<or> src = NULL \<or> sched = NULL then (- 1, w)
      else if ln_up (w_link w link) = 0 then (- 1, w)
      else
        let dst = link_get_other_interface link src w in
        if dst = NULL \<or> interface_is_up dst w = 0 then (- 1, w)
        else
          let (pkt_clone, w) = packet_clone pkt w in
          if pkt_clone = NULL then (- 1, w)
          else
            let (e, w) = event_create_callback EVT_PACKET_RECEIVE
                  (now + ucast (ln_delay_ms (w_link w link))) src dst pkt_clone None rx_handler rx_ctx w
            in if e = None then (- 1, packet_free pkt_clone w)
               else
                 let (scheduled, w) = scheduler_schedule sched e w;
                     w = (if scheduled \<noteq> 0 then event_free e (packet_free pkt_clone w) else w)
                 in (if scheduled = 0 then 1 else - 1, w))"

definition eth_tx_error :: "ptr \<Rightarrow> ptr \<Rightarrow> world \<Rightarrow> world" where
  "eth_tx_error sim iface w = upd_iface iface (\<lambda>i. i\<lparr>if_tx_errors := if_tx_errors i + 1,
     if_last_error_time := simulator_now sim w\<rparr>) w"

definition ethernet_send :: "ptr \<Rightarrow> ptr \<Rightarrow> mac option \<Rightarrow> u16 \<Rightarrow> ptr \<Rightarrow> world \<Rightarrow> int \<times> world" where
  "ethernet_send sim iface dst_mac ethertype payload w =
     (case dst_mac of
        None \<Rightarrow> (- 1, w)
      | Some dst \<Rightarrow>
          if sim = NULL \<or> iface = NULL \<or> payload = NULL then (- 1, w)
          else if if_state (w_iface w iface) = IFACE_ERR_DISABLED then (- 1, w)
          else
            let (eth_hdr, w) = malloc w
            in if eth_hdr = NULL then (- 1, eth_tx_error sim iface w)
               else
                 let hdr = \<lparr>eth_dst_mac = dst, eth_src_mac = if_mac (w_iface w iface),
                            eth_ethertype = ns_htons ethertype\<rparr>;
                     (r, w) = pkt_prepend payload (eth_bytes hdr) ETH_HDR_LEN w
                 in if r = - 1 then (- 1, eth_tx_error sim iface (free_block eth_hdr w))
                    else
                      let w = free_block eth_hdr w;
                          w = upd_iface iface (\<lambda>i. i\<lparr>if_tx_bytes := if_tx_bytes i + of_nat (pk_len (w_pkt w payload))\<rparr>) w;
                          w = upd_iface iface (\<lambda>i. i\<lparr>if_last_tx_time := simulator_now sim w\<rparr>) w;
                          w = upd_pkt payload (\<lambda>k. k\<lparr>pk_layer := 2\<rparr>) w
                      in link_transmit (if_link (w_iface w iface)) payload iface (sm_sched (w_sim w sim))
                           (simulator_now sim w) CB_ethernet_receive_event sim w)"

text \<open>The result: return value, the ethertype written through \<open>out_ethertype\<close>, the state.\<close>

definition ethernet_receive :: "ptr \<Rightarrow> ptr \<Rightarrow> u16 option \<Rightarrow> world \<Rightarrow> int \<times> u16 option \<times> world" where
  "ethernet_receive iface frame out_ethertype w =
     (if iface = NULL \<or> frame = NULL \<or> out_ethertype = None \<or> pk_len (w_pkt w frame) < ETH_HDR_LEN
      then (- 1, out_ethertype, w)
      else if if_state (w_iface w iface) = IFACE_ERR_DISABLED then (- 1, out_ethertype, w)
      else
        let eth_hdr = eth_at (pk_rest (w_pkt w frame)) in
        if \<not> mac_equal (eth_dst_mac eth_hdr) (if_mac (w_iface w iface)) \<and>
           \<not> mac_equal (eth_dst_mac eth_hdr) ETH_BROADCAST then (1, out_ethertype, w)
        else
          let out = Some (ns_ntohs (eth_ethertype eth_hdr));
              (r, w) = pkt_strip frame ETH_HDR_LEN w
          in if r = - 1 then (- 1, out, w)
             else
               let w = upd_iface iface (\<lambda>i. i\<lparr>if_rx_bytes := if_rx_bytes i + of_nat (pk_len (w_pkt w frame))\<rparr>) w;
                   w = upd_pkt frame (\<lambda>k. k\<lparr>pk_layer := 3\<rparr>) w
               in (0, out, w))"

end
