(* ===== verification/Ip_Output.thy ===== *)
theory Ip_Output
  imports Ethernet
begin

text \<open>
  The send path of the network layer: ARP requests and replies (\<open>protocols/arp.c\<close>), \<open>ip_send\<close>
  and \<open>ip_output\<close> with the packets that wait for an address (\<open>protocols/ip.c\<close>,
  \<open>arp_pending_flush\<close> of \<open>protocols/arp_cache.c\<close>), and the two ARP event handlers.
\<close>

abbreviation (input) IP_HDR_LEN :: nat where "IP_HDR_LEN \<equiv> 20"
abbreviation (input) IPPROTO_ICMP :: u8 where "IPPROTO_ICMP \<equiv> 1"
abbreviation (input) IPPROTO_TCP :: u8 where "IPPROTO_TCP \<equiv> 6"
abbreviation (input) IPPROTO_UDP :: u8 where "IPPROTO_UDP \<equiv> 17"
abbreviation (input) ARP_OPCODE_REQUEST :: u16 where "ARP_OPCODE_REQUEST \<equiv> 1"
abbreviation (input) ARP_OPCODE_REPLY :: u16 where "ARP_OPCODE_REPLY \<equiv> 2"
abbreviation (input) ARP_LEN :: nat where "ARP_LEN \<equiv> 28"

section \<open>ARP messages\<close>

definition arp_send_request :: "ptr \<Rightarrow> ptr \<Rightarrow> u32 \<Rightarrow> world \<Rightarrow> int \<times> world" where
  "arp_send_request sim iface target_ip w =
     (if sim = NULL \<or> iface = NULL \<or> target_ip = 0 then (- 1, w)
      else
        let (pkt, w) = packet_create ARP_LEN w;
            (arp_pkt, w) = malloc w
        in if pkt = NULL \<or> arp_pkt = NULL then (- 1, free_block arp_pkt (packet_free pkt w))
           else
             let i = w_iface w iface;
                 hdr = \<lparr>arp_hardware_type = ns_htons 1, arp_protocol_type = ns_htons 0x0800,
                        arp_hardware_addr_len = 6, arp_protocol_addr_len = 4,
                        arp_opcode = ns_htons ARP_OPCODE_REQUEST,
                        arp_sender_hardware_addr = if_mac i, arp_sender_protocol_addr = if_ip_addr i,
                        arp_target_hardware_addr = replicate 6 0, arp_target_protocol_addr = target_ip\<rparr>;
                 (_, w) = pkt_prepend pkt (arp_bytes hdr) ARP_LEN w;
                 w = free_block arp_pkt w;
                 (res, w) = ethernet_send sim iface (Some ETH_BROADCAST) ETHERTYPE_ARP pkt w
             in (if res \<ge> 0 then 0 else - 1, w))"

definition arp_send_reply :: "ptr \<Rightarrow> ptr \<Rightarrow> ptr \<Rightarrow> world \<Rightarrow> int \<times> world" where
  "arp_send_reply sim iface req_pkt w =
     (if sim = NULL \<or> iface = NULL \<or> req_pkt = NULL then (- 1, w)
      else if pk_head (w_pkt w req_pkt) + pk_data (w_pkt w req_pkt) = NULL \<or>
              pk_len (w_pkt w req_pkt) < ARP_LEN then (- 1, w)
      else
        let req = arp_at (pk_rest (w_pkt w req_pkt));
            dst_mac = arp_sender_hardware_addr req;
            dst_ip = arp_sender_protocol_addr req;
            (reply_pkt, w) = packet_create ARP_LEN w;
            (arp_pkt, w) = malloc w
        in if reply_pkt = NULL \<or> arp_pkt = NULL then (- 1, free_block arp_pkt (packet_free reply_pkt w))
           else
             let i = w_iface w iface;
                 hdr = \<lparr>arp_hardware_type = ns_htons 1, arp_protocol_type = ns_htons 0x0800,
                        arp_hardware_addr_len = 6, arp_protocol_addr_len = 4,
                        arp_opcode = ns_htons ARP_OPCODE_REPLY,
                        arp_sender_hardware_addr = if_mac i, arp_sender_protocol_addr = if_ip_addr i,
                        arp_target_hardware_addr = dst_mac, arp_target_protocol_addr = dst_ip\<rparr>;
                 (_, w) = pkt_prepend reply_pkt (arp_bytes hdr) ARP_LEN w;
                 w = free_block arp_pkt w;
                 (res, w) = ethernet_send sim iface (Some dst_mac) ETHERTYPE_ARP reply_pkt w
             in (if res \<ge> 0 then 0 else - 1, w))"

section \<open>Sending an IPv4 packet\<close>

text \<open>The header \<open>ip_send\<close> builds; the checksum is computed with its own field zero.\<close>

definition ip_send_header :: "u32 \<Rightarrow> u32 \<Rightarrow> u8 \<Rightarrow> nat \<Rightarrow> IpHeader" where
  "ip_send_header src_ip dst_ip protocol payload_len =
     (let ip_hdr = \<lparr>ip_version_ihl = push_bit 4 4 OR 5, ip_dscp_ecn = 0,
                    ip_total_length = ns_htons (of_nat (IP_HDR_LEN + payload_len)),
                    ip_identification = 0, ip_flags_fragment_offset = 0, ip_ttl = 64,
                    ip_protocol = protocol, ip_header_checksum = 0,
                    ip_src_ip = ns_htonl src_ip, ip_dst_ip = ns_htonl dst_ip\<rparr>
      in ip_hdr\<lparr>ip_header_checksum := ip_checksum (Some (ip_bytes ip_hdr))\<rparr>)"

definition ip_send :: "ptr \<Rightarrow> ptr \<Rightarrow> mac option \<Rightarrow> u32 \<Rightarrow> u32 \<Rightarrow> u8 \<Rightarrow> ptr \<Rightarrow> world \<Rightarrow> int \<times> world" where
  "ip_send sim iface dst_mac src_ip dst_ip protocol payload w =
     (if sim = NULL \<or> iface = NULL \<or> dst_mac = None \<or> payload = NULL then (- 1, w)
      else
        let ip_hdr = ip_send_header src_ip dst_ip protocol (pk_len (w_pkt w payload));
            (r, w) = pkt_prepend payload (ip_bytes ip_hdr) IP_HDR_LEN w
        in if r = - 1 then (- 1, w)
           else
             let w = upd_pkt payload (\<lambda>k. k\<lparr>pk_layer := 3\<rparr>) w;
                 w = upd_iface iface (\<lambda>i. i\<lparr>if_tx_bytes := if_tx_bytes i + of_nat (pk_len (w_pkt w payload))\<rparr>) w;
                 w = upd_iface iface (\<lambda>i. i\<lparr>if_last_tx_time := simulator_now sim w\<rparr>) w
             in ethernet_send sim iface dst_mac ETHERTYPE_IPV4 payload w)"

section \<open>Packets waiting for an address\<close>

fun pending_flush_loop :: "ptr \<Rightarrow> ptr \<Rightarrow> u32 \<Rightarrow> mac \<Rightarrow> nat \<Rightarrow> nat \<Rightarrow> int \<Rightarrow> world \<Rightarrow> int \<times> world" where
  "pending_flush_loop sim cache target_ip mac_addr i 0 sent w = (sent, w)"
| "pending_flush_loop sim cache target_ip mac_addr i (Suc n) sent w =
     (let pending = ac_pending (w_arp w cache) ! i in
      if ap_valid pending = 0 \<or> ap_target_ip pending \<noteq> target_ip
      then pending_flush_loop sim cache target_ip mac_addr (Suc i) n sent w
      else
        let w = set_arp cache (Some (arp_pending_release (w_arp w cache) i)) w;
            ready = ap_iface pending \<noteq> NULL \<and> ap_payload pending \<noteq> NULL;
            (res, w) = (if ready
                        then ip_send sim (ap_iface pending) (Some mac_addr) (ap_src_ip pending)
                               (ap_dst_ip pending) (ap_protocol pending) (ap_payload pending) w
                        else (- 1, w))
        in if res \<ge> 0
           then pending_flush_loop sim cache target_ip mac_addr (Suc i) n (sent + 1) w
           else pending_flush_loop sim cache target_ip mac_addr (Suc i) n sent
                  (packet_free (ap_payload pending) w))"

definition arp_pending_flush :: "ptr \<Rightarrow> ptr \<Rightarrow> u32 \<Rightarrow> mac option \<Rightarrow> world \<Rightarrow> int \<times> world" where
  "arp_pending_flush sim cache target_ip mac_addr w =
     (case mac_addr of
        None \<Rightarrow> (0, w)
      | Some m \<Rightarrow>
          if sim = NULL \<or> cache = NULL \<or> target_ip = 0 then (0, w)
          else pending_flush_loop sim cache target_ip m 0 ARP_MAX_PENDING_PACKETS 0 w)"

section \<open>The output path\<close>

definition ip_prefix_mask :: "u8 \<Rightarrow> u32" where
  "ip_prefix_mask prefix_len =
     (if prefix_len = 0 then 0
      else if prefix_len \<ge> 32 then 0xFFFFFFFF
      else push_bit (32 - unat prefix_len) 0xFFFFFFFF)"

definition ip_same_subnet :: "u32 \<Rightarrow> u32 \<Rightarrow> u8 \<Rightarrow> bool" where
  "ip_same_subnet a_host b_host prefix_len =
     (let mask = ip_prefix_mask prefix_len in a_host AND mask = b_host AND mask)"

definition ip_find_source_iface :: "ptr \<Rightarrow> u32 \<Rightarrow> world \<Rightarrow> ptr" where
  "ip_find_source_iface sim src_ip w =
     (if sim = NULL \<or> sm_topo (w_sim w sim) = NULL then NULL
      else
        let src_net = ns_htonl src_ip;
            devs = filter (\<lambda>d. d \<noteq> NULL) (topo_devices (w_topo w (sm_topo (w_sim w sim))));
            ifaces = concat (map (\<lambda>d. device_ports (w_dev w d)) devs)
        in (case first_index (\<lambda>i. i \<noteq> NULL \<and> if_ip_addr (w_iface w i) = src_net) ifaces of
              Some k \<Rightarrow> ifaces ! k
            | None \<Rightarrow> NULL))"

definition ip_output :: "ptr \<Rightarrow> u32 \<Rightarrow> u32 \<Rightarrow> u8 \<Rightarrow> ptr \<Rightarrow> world \<Rightarrow> int \<times> world" where
  "ip_output sim src_ip dst_ip protocol payload w =
     (if sim = NULL \<or> payload = NULL then (- 1, w)
      else
        let iface = ip_find_source_iface sim src_ip w in
        if iface = NULL \<or> interface_is_up iface w = 0 \<or> if_arp_cache (w_iface w iface) = NULL
        then (- 1, w)
        else
          let iface_ip = ns_ntohl (if_ip_addr (w_iface w iface));
              cache = if_arp_cache (w_iface w iface)
          in if \<not> ip_same_subnet iface_ip dst_ip (if_prefix_len (w_iface w iface)) then (- 1, w)
             else
               let (found, dst_mac) = arp_cache_lookup (deref (w_arp w) cache) dst_ip (Some (replicate 6 0))
               in if found \<noteq> 0 then
                    let (r, w) = arp_send_request sim iface (ns_htonl dst_ip) w in
                    if r \<noteq> 0 then (- 1, w)
                    else
                      let (q, c) = arp_pending_enqueue (deref (w_arp w) cache) iface dst_ip src_ip
                                     dst_ip protocol payload;
                          w = set_arp cache c w
                      in (if q \<noteq> 0 then - 1 else 0, w)
                  else ip_send sim iface dst_mac src_ip dst_ip protocol payload w)"

definition ip_is_local :: "ptr \<Rightarrow> u32 \<Rightarrow> world \<Rightarrow> int" where
  "ip_is_local dev dst_ip w =
     (if dev = NULL then 0
      else (case first_index (\<lambda>i. if_ip_addr (w_iface w i) = dst_ip) (device_ports (w_dev w dev)) of
              Some k \<Rightarrow> 1 | None \<Rightarrow> 0))"

section \<open>The ARP event handlers\<close>

definition arp_request_handler :: "Event \<Rightarrow> ptr \<Rightarrow> world \<Rightarrow> world" where
  "arp_request_handler e ctx w =
     (let sim = ctx; iface = ev_dst_device e; pkt = ev_packet e in
      if iface = NULL \<or> pkt = NULL then w
      else
        let arp_pkt = arp_at (pk_rest (w_pkt w pkt)) in
        if ns_ntohs (arp_opcode arp_pkt) \<noteq> ARP_OPCODE_REQUEST then w
        else if ns_ntohl (arp_target_protocol_addr arp_pkt) \<noteq> ns_ntohl (if_ip_addr (w_iface w iface)) then w
        else
          let (result, w) = arp_send_reply sim iface pkt w;
              cache = if_arp_cache (w_iface w iface);
              w = (if cache \<noteq> NULL then
                     let sender_ip = ns_ntohl (arp_sender_protocol_addr arp_pkt);
                         w = set_arp cache (arp_cache_add (deref (w_arp w) cache) sender_ip
                               (arp_sender_hardware_addr arp_pkt) (ev_timestamp e)) w
                     in snd (arp_pending_flush sim cache sender_ip (Some (arp_sender_hardware_addr arp_pkt)) w)
                   else w)
          in if result = 0 then upd_iface iface (\<lambda>i. i\<lparr>if_last_tx_time := ev_timestamp e\<rparr>) w
             else upd_iface iface (\<lambda>i. i\<lparr>if_tx_errors := if_tx_errors i + 1,
                                        if_last_error_time := ev_timestamp e\<rparr>) w)"

definition arp_reply_handler :: "Event \<Rightarrow> ptr \<Rightarrow> world \<Rightarrow> world" where
  "arp_reply_handler e ctx w =
     (let sim = ctx; iface = ev_dst_device e; pkt = ev_packet e in
      if iface = NULL \<or> pkt = NULL then w
      else
        let arp_pkt = arp_at (pk_rest (w_pkt w pkt)) in
        if ns_ntohs (arp_opcode arp_pkt) \<noteq> ARP_OPCODE_REPLY then w
        else
          let cache = if_arp_cache (w_iface w iface);
              w = (if cache \<noteq> NULL then
                     let sender_ip = ns_ntohl (arp_sender_protocol_addr arp_pkt);
                         w = set_arp cache (arp_cache_add (deref (w_arp w) cache) sender_ip
                               (arp_sender_hardware_addr arp_pkt) (ev_timestamp e)) w
                     in snd (arp_pending_flush sim cache sender_ip (Some (arp_sender_hardware_addr arp_pkt)) w)
                   else w)
          in upd_iface iface (\<lambda>i. i\<lparr>if_last_rx_time := ev_timestamp e\<rparr>) w)"

definition arp_init :: "ptr \<Rightarrow> world \<Rightarrow> world" where
  "arp_init sim w =
     (if sim = NULL then w
      else
        let w = scheduler_register (sm_sched (w_sim w sim)) EVT_ARP_REQUEST CB_arp_request_handler sim w
        in scheduler_register (sm_sched (w_sim w sim)) EVT_ARP_REPLY CB_arp_reply_handler sim w)"

section \<open>IP stacks\<close>

definition ip_stack_init :: "ptr \<Rightarrow> ptr \<Rightarrow> world \<Rightarrow> world" where
  "ip_stack_init stack sim w =
     (if stack = NULL then w
      else upd_ips stack (\<lambda>_. \<lparr>is_sim = sim, is_protocols = (\<lambda>_. (PH_NULL, NULL))\<rparr>) w)"

definition ip_stack_bind_interface :: "ptr \<Rightarrow> ptr \<Rightarrow> world \<Rightarrow> int \<times> world" where
  "ip_stack_bind_interface stack iface w =
     (if stack = NULL \<or> iface = NULL then (- 1, w)
      else (0, interface_set_rx_handler iface RX_ip_rx_shim stack w))"

definition ip_stack_register_protocol ::
  "ptr \<Rightarrow> u8 \<Rightarrow> IpProtocolHandler \<Rightarrow> ptr \<Rightarrow> world \<Rightarrow> int \<times> world" where
  "ip_stack_register_protocol stack protocol handler ctx w =
     (if stack = NULL \<or> handler = PH_NULL then (- 1, w)
      else (0, upd_ips stack (\<lambda>s. s\<lparr>is_protocols := (is_protocols s)(protocol := (handler, ctx))\<rparr>) w))"

definition ip_stack_unregister_protocol :: "ptr \<Rightarrow> u8 \<Rightarrow> world \<Rightarrow> int \<times> world" where
  "ip_stack_unregister_protocol stack protocol w =
     (if stack = NULL then (- 1, w)
      else (0, upd_ips stack (\<lambda>s. s\<lparr>is_protocols := (is_protocols s)(protocol := (PH_NULL, NULL))\<rparr>) w))"

fun bind_interfaces :: "ptr \<Rightarrow> ptr list \<Rightarrow> world \<Rightarrow> world" where
  "bind_interfaces stack [] w = w"
| "bind_interfaces stack (i # is) w = bind_interfaces stack is (snd (ip_stack_bind_interface stack i w))"

fun bind_devices :: "ptr \<Rightarrow> ptr list \<Rightarrow> world \<Rightarrow> world" where
  "bind_devices stack [] w = w"
| "bind_devices stack (d # ds) w =
     bind_devices stack ds (bind_interfaces stack (device_ports (w_dev w d)) w)"

definition ip_init :: "ptr \<Rightarrow> ptr \<Rightarrow> world \<Rightarrow> world" where
  "ip_init sim stack w =
     (if sim = NULL \<or> sm_topo (w_sim w sim) = NULL \<or> stack = NULL then w
      else
        let w = ip_stack_init stack sim w
        in bind_devices stack (topo_devices (w_topo w (sm_topo (w_sim w sim)))) w)"

end
