(* ===== verification/Icmp.thy ===== *)
theory Icmp
  imports Ip_Output
begin

text \<open>
  ICMP (\<open>protocols/icmp.h\<close>, \<open>protocols/icmp.c\<close>): echo requests and replies, and the error
  messages that quote the packet that caused them. The IP header of a received packet is still in
  its buffer, in front of the data pointer.
\<close>

abbreviation (input) ICMP_ECHO_REPLY :: u8 where "ICMP_ECHO_REPLY \<equiv> 0"
abbreviation (input) ICMP_DEST_UNREACH :: u8 where "ICMP_DEST_UNREACH \<equiv> 3"
abbreviation (input) ICMP_ECHO_REQUEST :: u8 where "ICMP_ECHO_REQUEST \<equiv> 8"
abbreviation (input) ICMP_TIME_EXCEEDED :: u8 where "ICMP_TIME_EXCEEDED \<equiv> 11"
abbreviation (input) ICMP_CODE_NET_UNREACH :: u8 where "ICMP_CODE_NET_UNREACH \<equiv> 0"
abbreviation (input) ICMP_CODE_HOST_UNREACH :: u8 where "ICMP_CODE_HOST_UNREACH \<equiv> 1"
abbreviation (input) ICMP_CODE_PROTO_UNREACH :: u8 where "ICMP_CODE_PROTO_UNREACH \<equiv> 2"
abbreviation (input) ICMP_CODE_PORT_UNREACH :: u8 where "ICMP_CODE_PORT_UNREACH \<equiv> 3"
abbreviation (input) ICMP_CODE_FRAG_NEEDED :: u8 where "ICMP_CODE_FRAG_NEEDED \<equiv> 4"
abbreviation (input) ICMP_CODE_TTL_EXCEEDED :: u8 where "ICMP_CODE_TTL_EXCEEDED \<equiv> 0"
abbreviation (input) ICMP_HDR_LEN :: nat where "ICMP_HDR_LEN \<equiv> 8"

section \<open>Counters and packet tests\<close>

definition rx_error :: "ptr \<Rightarrow> world \<Rightarrow> world" where
  "rx_error iface w = upd_iface iface (\<lambda>i. i\<lparr>if_rx_errors := if_rx_errors i + 1\<rparr>) w"

definition rx_drop :: "ptr \<Rightarrow> world \<Rightarrow> world" where
  "rx_drop iface w = upd_iface iface (\<lambda>i. i\<lparr>if_rx_dropped := if_rx_dropped i + 1\<rparr>) w"

definition tx_error :: "ptr \<Rightarrow> world \<Rightarrow> world" where
  "tx_error iface w = upd_iface iface (\<lambda>i. i\<lparr>if_tx_errors := if_tx_errors i + 1\<rparr>) w"

text \<open>\<open>!pkt->head || !pkt->data\<close>, and the offset of the end of the buffer.\<close>

definition null_buffer :: "Packet \<Rightarrow> bool" where
  "null_buffer pk \<longleftrightarrow> pk_head pk = NULL \<or> pk_head pk + pk_data pk = NULL"

definition pk_end :: "Packet \<Rightarrow> nat" where
  "pk_end pk = PKT_HEADROOM + pk_capacity pk"

section \<open>Error messages\<close>

text \<open>
  The message written into the fresh packet \<open>k\<close>: header, quoted IP header and payload of
  \<open>orig\<close>, checksum.
\<close>

definition icmp_error_fill :: "Packet \<Rightarrow> u8 \<Rightarrow> u8 \<Rightarrow> u16 \<Rightarrow> nat \<Rightarrow> Packet \<Rightarrow> Packet" where
  "icmp_error_fill orig type code next_hop_mtu payload_quote_len k =
     (let k = k\<lparr>pk_len := ICMP_HDR_LEN + (IP_HDR_LEN + payload_quote_len), pk_layer := 4\<rparr>;
          icmp_hdr = \<lparr>icmp_type = type, icmp_code = code, icmp_hdr_checksum = 0, icmp_id = 0,
                      icmp_seq = (if code = ICMP_CODE_FRAG_NEEDED then ns_htons next_hop_mtu else 0)\<rparr>;
          k = pkt_write 0 (icmp_bytes icmp_hdr) k;
          k = pkt_write ICMP_HDR_LEN (pk_before orig IP_HDR_LEN) k;
          k = pkt_write (ICMP_HDR_LEN + IP_HDR_LEN) (bread (pk_buf orig) (pk_data orig) payload_quote_len) k
      in pkt_write 2 (le16 (icmp_checksum (Some (pk_rest k)) (pk_len k))) k)"

definition icmp_send_error :: "ptr \<Rightarrow> ptr \<Rightarrow> ptr \<Rightarrow> u8 \<Rightarrow> u8 \<Rightarrow> u16 \<Rightarrow> world \<Rightarrow> int \<times> world" where
  "icmp_send_error sim iface orig_pkt type code next_hop_mtu w =
     (if sim = NULL \<or> iface = NULL \<or> orig_pkt = NULL then (- 1, w)
      else
        let orig = w_pkt w orig_pkt in
        if null_buffer orig then (- 1, tx_error iface w)
        else if pk_data orig < IP_HDR_LEN then (- 1, tx_error iface w)
        else if pk_data orig \<ge> pk_end orig \<or> pk_len orig > pk_end orig - pk_data orig
        then (- 1, tx_error iface w)
        else
          let orig_ip = ip_at (pk_before orig IP_HDR_LEN);
              orig_icmp = icmp_at (pk_rest orig)
          in if ip_protocol orig_ip = IPPROTO_ICMP \<and> pk_len orig < ICMP_HDR_LEN then (0, w)
             else if ip_protocol orig_ip = IPPROTO_ICMP \<and>
                     (icmp_type orig_icmp = ICMP_DEST_UNREACH \<or> icmp_type orig_icmp = ICMP_TIME_EXCEEDED)
             then (0, w)
             else
               let payload_quote_len = (if pk_len orig < 8 then pk_len orig else 8);
                   quote_len = IP_HDR_LEN + payload_quote_len;
                   error_len = ICMP_HDR_LEN + quote_len;
                   (err_pkt, w) = packet_create error_len w
               in if err_pkt = NULL then (- 1, tx_error iface w)
                  else
                    let w = upd_pkt err_pkt (icmp_error_fill orig type code next_hop_mtu payload_quote_len) w;
                        src_ip = ns_ntohl (if_ip_addr (w_iface w iface));
                        dst_ip = ns_ntohl (ip_src_ip orig_ip);
                        (res, w) = ip_output sim src_ip dst_ip IPPROTO_ICMP err_pkt w
                    in if res = - 1 then (- 1, packet_free err_pkt (tx_error iface w)) else (res, w))"

definition icmp_send_time_exceeded :: "ptr \<Rightarrow> ptr \<Rightarrow> ptr \<Rightarrow> world \<Rightarrow> int \<times> world" where
  "icmp_send_time_exceeded sim iface orig_pkt w =
     icmp_send_error sim iface orig_pkt ICMP_TIME_EXCEEDED ICMP_CODE_TTL_EXCEEDED 0 w"

definition icmp_send_unreach_net :: "ptr \<Rightarrow> ptr \<Rightarrow> ptr \<Rightarrow> world \<Rightarrow> int \<times> world" where
  "icmp_send_unreach_net sim iface orig_pkt w =
     icmp_send_error sim iface orig_pkt ICMP_DEST_UNREACH ICMP_CODE_NET_UNREACH 0 w"

definition icmp_send_unreach_host :: "ptr \<Rightarrow> ptr \<Rightarrow> ptr \<Rightarrow> world \<Rightarrow> int \<times> world" where
  "icmp_send_unreach_host sim iface orig_pkt w =
     icmp_send_error sim iface orig_pkt ICMP_DEST_UNREACH ICMP_CODE_HOST_UNREACH 0 w"

definition icmp_send_unreach_proto :: "ptr \<Rightarrow> ptr \<Rightarrow> ptr \<Rightarrow> world \<Rightarrow> int \<times> world" where
  "icmp_send_unreach_proto sim iface orig_pkt w =
     icmp_send_error sim iface orig_pkt ICMP_DEST_UNREACH ICMP_CODE_PROTO_UNREACH 0 w"

definition icmp_send_unreach_port :: "ptr \<Rightarrow> ptr \<Rightarrow> ptr \<Rightarrow> world \<Rightarrow> int \<times> world" where
  "icmp_send_unreach_port sim iface orig_pkt w =
     icmp_send_error sim iface orig_pkt ICMP_DEST_UNREACH ICMP_CODE_PORT_UNREACH 0 w"

definition icmp_send_frag_needed :: "ptr \<Rightarrow> ptr \<Rightarrow> ptr \<Rightarrow> u16 \<Rightarrow> world \<Rightarrow> int \<times> world" where
  "icmp_send_frag_needed sim iface orig_pkt next_hop_mtu w =
     icmp_send_error sim iface orig_pkt ICMP_DEST_UNREACH ICMP_CODE_FRAG_NEEDED next_hop_mtu w"

section \<open>Echo\<close>

text \<open>The payload pointer is an option: \<open>None\<close> is the null pointer.\<close>

definition icmp_request_fill :: "u16 \<Rightarrow> u16 \<Rightarrow> u8 list option \<Rightarrow> nat \<Rightarrow> Packet \<Rightarrow> Packet" where
  "icmp_request_fill id' seq payload payload_len k =
     (let icmp_hdr = \<lparr>icmp_type = ICMP_ECHO_REQUEST, icmp_code = 0, icmp_hdr_checksum = 0,
                      icmp_id = ns_htons id', icmp_seq = ns_htons seq\<rparr>;
          k = pkt_write 0 (icmp_bytes icmp_hdr) k;
          k = k\<lparr>pk_len := ICMP_HDR_LEN + payload_len, pk_layer := 4\<rparr>;
          k = (if payload_len > 0 then pkt_write ICMP_HDR_LEN (take payload_len (the payload)) k else k)
      in pkt_write 2 (le16 (icmp_checksum (Some (pk_rest k)) (pk_len k))) k)"

definition icmp_send_echo_request ::
  "ptr \<Rightarrow> u32 \<Rightarrow> u32 \<Rightarrow> u16 \<Rightarrow> u16 \<Rightarrow> u8 list option \<Rightarrow> nat \<Rightarrow> world \<Rightarrow> int \<times> world" where
  "icmp_send_echo_request sim src_ip dst_ip id' seq payload payload_len w =
     (if sim = NULL then (- 1, w)
      else if payload_len > 0 \<and> payload = None then (- 1, w)
      else
        let (pkt, w) = packet_create (ICMP_HDR_LEN + payload_len) w in
        if pkt = NULL then (- 1, w)
        else
          let w = upd_pkt pkt (icmp_request_fill id' seq payload payload_len) w;
              (res, w) = ip_output sim src_ip dst_ip IPPROTO_ICMP pkt w
          in if res = - 1 then (res, packet_free pkt w) else (res, w))"

text \<open>The reply is the request with type 0 and a new checksum.\<close>

definition icmp_reply_fill :: "Packet \<Rightarrow> Packet \<Rightarrow> Packet" where
  "icmp_reply_fill req k =
     (let k = k\<lparr>pk_len := pk_len req, pk_layer := 4\<rparr>;
          k = pkt_write 0 (bread (pk_buf req) (pk_data req) (pk_len req)) k;
          k = pkt_write 0 [ICMP_ECHO_REPLY] k;
          k = pkt_write 2 (le16 0) k
      in pkt_write 2 (le16 (icmp_checksum (Some (pk_rest k)) (pk_len k))) k)"

definition icmp_send_echo_reply :: "ptr \<Rightarrow> ptr \<Rightarrow> ptr \<Rightarrow> world \<Rightarrow> int \<times> world" where
  "icmp_send_echo_reply sim iface req_pkt w =
     (if sim = NULL \<or> iface = NULL \<or> req_pkt = NULL then (- 1, w)
      else
        let req = w_pkt w req_pkt;
            reject = (- 1, packet_free req_pkt (tx_error iface w))
        in if pk_len req < ICMP_HDR_LEN then reject
           else if null_buffer req then reject
           else if pk_data req < IP_HDR_LEN then reject
           else if pk_data req \<ge> pk_end req then reject
           else if pk_len req > pk_end req - pk_data req then reject
           else
             let req_icmp = icmp_at (pk_rest req) in
             if icmp_type req_icmp \<noteq> ICMP_ECHO_REQUEST \<or> icmp_code req_icmp \<noteq> 0 then reject
             else
               let req_ip = ip_at (pk_before req IP_HDR_LEN);
                   (reply_pkt, w) = packet_create (pk_len req) w
               in if reply_pkt = NULL then (- 1, packet_free req_pkt (tx_error iface w))
                  else
                    let w = upd_pkt reply_pkt (icmp_reply_fill req) w;
                        src_ip = ns_ntohl (ip_dst_ip req_ip);
                        dst_ip = ns_ntohl (ip_src_ip req_ip);
                        (res, w) = ip_output sim src_ip dst_ip IPPROTO_ICMP reply_pkt w
                    in if res = - 1
                       then (- 1, packet_free req_pkt (packet_free reply_pkt (tx_error iface w)))
                       else (res, packet_free req_pkt w))"

lemma icmp_fill_head [simp]:
  "pk_head (icmp_error_fill orig ty code mtu n k) = pk_head k"
  "pk_head (icmp_request_fill i s pl n k) = pk_head k" "pk_head (icmp_reply_fill req k) = pk_head k"
  by (simp_all add: icmp_error_fill_def icmp_request_fill_def icmp_reply_fill_def pkt_write_def Let_def)

section \<open>Receiving\<close>

definition icmp_receive :: "ptr \<Rightarrow> ptr \<Rightarrow> ptr \<Rightarrow> world \<Rightarrow> int \<times> world" where
  "icmp_receive iface pkt ctx w =
     (let sim = ctx in
      if iface = NULL then (- 1, w)
      else if pkt = NULL then (- 1, rx_error iface w)
      else
        let pk = w_pkt w pkt;
            malformed = (- 1, packet_free pkt (rx_error iface w));
            dropped = (- 1, packet_free pkt (rx_drop iface w));
            consumed = (0, packet_free pkt w)
        in if pk_len pk < ICMP_HDR_LEN then malformed
           else if null_buffer pk then malformed
           else if pk_data pk < IP_HDR_LEN \<or> pk_data pk \<ge> pk_end pk then malformed
           else if pk_len pk > pk_end pk - pk_data pk then malformed
           else if icmp_checksum (Some (pk_rest pk)) (pk_len pk) \<noteq> 0 then malformed
           else
             let icmp_hdr = icmp_at (pk_rest pk);
                 type = icmp_type icmp_hdr;
                 code = icmp_code icmp_hdr
             in if type = ICMP_ECHO_REQUEST then
                  if code = 0 then icmp_send_echo_reply sim iface pkt w else dropped
                else if type = ICMP_ECHO_REPLY then
                  if code = 0 then consumed else dropped
                else if type = ICMP_DEST_UNREACH then
                  if code = 0 \<or> code = 1 \<or> code = 2 \<or> code = 3 \<or> code = 4 then consumed else dropped
                else if type = ICMP_TIME_EXCEEDED then
                  if code = 0 then consumed else dropped
                else dropped)"

end
