(* ===== verification/Udp.thy ===== *)
theory Udp
  imports Icmp
begin

text \<open>
  Sending and receiving UDP datagrams (\<open>udp_send\<close>, \<open>udp_receive\<close> of \<open>protocols/udp.c\<close>). The
  receive handlers of the application are parameters: \<open>recv n\<close> is application function \<open>n\<close>.
\<close>

abbreviation (input) UDP_HDR_LEN :: nat where "UDP_HDR_LEN \<equiv> 8"
abbreviation (input) UINT16_MAX :: nat where "UINT16_MAX \<equiv> 65535"

type_synonym udp_recv_fns = "nat \<Rightarrow> u32 \<Rightarrow> u16 \<Rightarrow> ptr \<Rightarrow> ptr \<Rightarrow> world \<Rightarrow> world"

definition udp_fill :: "u16 \<Rightarrow> u16 \<Rightarrow> u8 list option \<Rightarrow> nat \<Rightarrow> Packet \<Rightarrow> Packet" where
  "udp_fill src_port dst_port payload payload_len k =
     (let hdr = \<lparr>udp_src_port = ns_htons src_port, udp_dst_port = ns_htons dst_port,
                 udp_length = ns_htons (of_nat (UDP_HDR_LEN + payload_len)), udp_hdr_checksum = 0\<rparr>;
          k = pkt_write 0 (udp_bytes hdr) k;
          k = (if payload_len > 0 then pkt_write UDP_HDR_LEN (take payload_len (the payload)) k else k)
      in k\<lparr>pk_len := UDP_HDR_LEN + payload_len, pk_layer := 4\<rparr>)"

definition udp_send ::
  "ptr \<Rightarrow> u32 \<Rightarrow> u32 \<Rightarrow> u16 \<Rightarrow> u16 \<Rightarrow> u8 list option \<Rightarrow> nat \<Rightarrow> world \<Rightarrow> int \<times> world" where
  "udp_send sim src_ip dst_ip src_port dst_port payload payload_len w =
     (if sim = NULL \<or> dst_port = 0 \<or> (payload_len > 0 \<and> payload = None) then (- 1, w)
      else if payload_len > UINT16_MAX - UDP_HDR_LEN then (- 1, w)
      else
        let (pkt, w) = packet_create (UDP_HDR_LEN + payload_len) w in
        if pkt = NULL then (- 1, w)
        else
          let w = upd_pkt pkt (udp_fill src_port dst_port payload payload_len) w;
              (res, w) = ip_output sim src_ip dst_ip IPPROTO_UDP pkt w
          in if res = - 1 then (- 1, packet_free pkt w) else (0, w))"

lemma udp_fill_head [simp]: "pk_head (udp_fill sp dp pl n k) = pk_head k"
  by (simp add: udp_fill_def pkt_write_def Let_def)

definition udp_receive :: "udp_recv_fns \<Rightarrow> ptr \<Rightarrow> ptr \<Rightarrow> ptr \<Rightarrow> world \<Rightarrow> int \<times> world" where
  "udp_receive recv iface pkt ctx w =
     (if iface = NULL then (- 1, w)
      else if pkt = NULL then (- 1, rx_error iface w)
      else
        let malformed = (- 1, rx_error iface (packet_free pkt w)) in
        if ctx = NULL then malformed
        else
          let udp_ctx = w_udpctx w ctx; pk = w_pkt w pkt in
          if uc_state udp_ctx = NULL then malformed
          else if pk_len pk < UDP_HDR_LEN then malformed
          else if null_buffer pk then malformed
          else if pk_data pk < IP_HDR_LEN \<or> pk_data pk \<ge> pk_end pk \<or>
                  pk_len pk > pk_end pk - pk_data pk then malformed
          else
            let ip_hdr = ip_at (pk_before pk IP_HDR_LEN) in
            if ip_protocol ip_hdr \<noteq> IPPROTO_UDP then malformed
            else
              let udp_hdr = udp_at (pk_rest pk);
                  src_port = ns_ntohs (udp_src_port udp_hdr);
                  dst_port = ns_ntohs (udp_dst_port udp_hdr);
                  udp_len = ns_ntohs (udp_length udp_hdr);
                  src_ip = ns_ntohl (ip_src_ip ip_hdr)
              in if unat udp_len < UDP_HDR_LEN then malformed
                 else if unat udp_len > pk_len pk then malformed
                 else
                   (case first_index (\<lambda>k. us_valid k = 1 \<and> us_port k = dst_port)
                           (ud_sockets (w_udp w (uc_state udp_ctx))) of
                      Some i \<Rightarrow>
                        let (r, w) = pkt_strip pkt UDP_HDR_LEN w in
                        if r < 0 then (- 1, rx_error iface (packet_free pkt w))
                        else
                          let w = upd_pkt pkt (\<lambda>k. k\<lparr>pk_layer := 5\<rparr>) w;
                              sock = ud_sockets (w_udp w (uc_state udp_ctx)) ! i
                          in (0, recv (us_recv_handler sock) src_ip src_port pkt (us_ctx sock) w)
                    | None \<Rightarrow>
                        if uc_sim udp_ctx \<noteq> NULL
                        then icmp_send_unreach_port (uc_sim udp_ctx) iface pkt w
                        else (- 1, rx_drop iface (packet_free pkt w))))"

end
