(* ===== verification/Tcp.thy ===== *)
theory Tcp
  imports Icmp
begin

text \<open>
  The TCP protocol (\<open>protocols/tcp.c\<close>): segments, retransmission and TIME_WAIT timers, active
  open, close, send, and the handler of received segments with one definition per state of the
  connection. A connection block is addressed by its table and slot; the receive and connect
  handlers of the application are parameters.
\<close>

abbreviation (input) TCP_HDR_LEN :: nat where "TCP_HDR_LEN \<equiv> 20"
abbreviation (input) TCP_MSS :: nat where "TCP_MSS \<equiv> 1460"
abbreviation (input) TCP_RETRANSMIT_US :: u64 where "TCP_RETRANSMIT_US \<equiv> 1000000"
abbreviation (input) TCP_TIME_WAIT_US :: u64 where "TCP_TIME_WAIT_US \<equiv> 2 * 1000000"

type_synonym tcb_ref = "ptr \<times> nat"
type_synonym tcp_recv_fns = "nat \<Rightarrow> tcb_ref \<Rightarrow> ptr \<Rightarrow> ptr \<Rightarrow> world \<Rightarrow> world"
type_synonym tcp_connect_fns = "nat \<Rightarrow> tcb_ref \<Rightarrow> ptr \<Rightarrow> world \<Rightarrow> world"

definition tcb_of :: "world \<Rightarrow> tcb_ref \<Rightarrow> Tcb" where
  "tcb_of w c = tt_tcbs (w_tcp w (fst c)) ! snd c"

definition upd_tcb :: "tcb_ref \<Rightarrow> (Tcb \<Rightarrow> Tcb) \<Rightarrow> world \<Rightarrow> world" where
  "upd_tcb c f w = upd_tcp (fst c) (\<lambda>t. t\<lparr>tt_tcbs := (tt_tcbs t)[snd c := f (tt_tcbs t ! snd c)]\<rparr>) w"

section \<open>The table functions that free packets\<close>

fun free_packets :: "ptr list \<Rightarrow> world \<Rightarrow> world" where
  "free_packets [] w = w"
| "free_packets (p # ps) w = free_packets ps (packet_free p w)"

definition tcp_release_tcb :: "ptr \<Rightarrow> tcb_ptr \<Rightarrow> world \<Rightarrow> world" where
  "tcp_release_tcb table tcb w =
     (case tcb of
        None \<Rightarrow> w
      | Some c \<Rightarrow>
          if table = NULL then w
          else
            let w = free_packets (owned_packets (tcb_of w c)) w;
                w = upd_tcb c (\<lambda>_. tcb_zero) w
            in upd_tcp table (\<lambda>t. if tt_count t > 0 then t\<lparr>tt_count := tt_count t - 1\<rparr> else t) w)"

definition tcp_sendq_ack :: "tcb_ptr \<Rightarrow> u32 \<Rightarrow> world \<Rightarrow> world" where
  "tcp_sendq_ack tcb ack w =
     (case tcb of
        None \<Rightarrow> w
      | Some c \<Rightarrow>
          let (freed, c') = sendq_acked (tcb_of w c) ack
          in upd_tcb c (\<lambda>_. c') (free_packets freed w))"

section \<open>Segments and timers\<close>

definition tcp_fill ::
  "u16 \<Rightarrow> u16 \<Rightarrow> u32 \<Rightarrow> u32 \<Rightarrow> u8 \<Rightarrow> u8 list option \<Rightarrow> nat \<Rightarrow> Packet \<Rightarrow> Packet" where
  "tcp_fill src_port dst_port seq ack flags payload payload_len k =
     (let tcp_hdr = \<lparr>tcp_src_port = ns_htons src_port, tcp_dst_port = ns_htons dst_port,
                     tcp_seq_num = ns_htonl seq, tcp_ack_num = ns_htonl ack,
                     tcp_data_off_flags = ns_htons (push_bit 12 5 OR ucast flags),
                     tcp_window = ns_htons TCP_DEFAULT_WINDOW, tcp_hdr_checksum = 0,
                     tcp_urgent_ptr = 0\<rparr>;
          k = pkt_write 0 (tcp_bytes tcp_hdr) k;
          k = (if payload_len > 0 then pkt_write TCP_HDR_LEN (take payload_len (the payload)) k else k)
      in k\<lparr>pk_len := TCP_HDR_LEN + payload_len, pk_layer := 4\<rparr>)"

lemma tcp_fill_head [simp]: "pk_head (tcp_fill sp dp sq ak fl pl n k) = pk_head k"
  by (simp add: tcp_fill_def pkt_write_def Let_def)

text \<open>
  Return value, the clone stored through \<open>sent_clone\<close> (null when the caller passes no pointer,
  \<open>want_clone\<close> false) and the state.
\<close>

definition tcp_send_segment ::
  "ptr \<Rightarrow> u32 \<Rightarrow> u32 \<Rightarrow> u16 \<Rightarrow> u16 \<Rightarrow> u32 \<Rightarrow> u32 \<Rightarrow> u8 \<Rightarrow> u8 list option \<Rightarrow> nat \<Rightarrow> bool \<Rightarrow>
   world \<Rightarrow> int \<times> ptr \<times> world" where
  "tcp_send_segment sim src_ip dst_ip src_port dst_port seq ack flags payload payload_len want_clone w =
     (if sim = NULL then (- 1, NULL, w)
      else if payload_len > TCP_MSS then (- 1, NULL, w)
      else if payload_len > 0 \<and> payload = None then (- 1, NULL, w)
      else
        let (pkt, w) = packet_create (TCP_HDR_LEN + payload_len) w in
        if pkt = NULL then (- 1, NULL, w)
        else
          let w = upd_pkt pkt (tcp_fill src_port dst_port seq ack flags payload payload_len) w;
              (track_clone, w) = (if want_clone then packet_clone pkt w else (NULL, w))
          in if want_clone \<and> track_clone = NULL then (- 1, NULL, packet_free pkt w)
             else
               let (res, w) = ip_output sim src_ip dst_ip IPPROTO_TCP pkt w
               in if res = - 1 then (- 1, NULL, packet_free track_clone (packet_free pkt w))
                  else (0, track_clone, w))"

definition tcp_schedule_retransmit :: "ptr \<Rightarrow> ptr \<Rightarrow> tcb_ptr \<Rightarrow> world \<Rightarrow> world" where
  "tcp_schedule_retransmit sim tcp_ctx tcb w =
     (if sim = NULL \<or> sm_sched (w_sim w sim) = NULL \<or> tcb = None then w
      else
        let sched = sm_sched (w_sim w sim);
            now = scheduler_now sched w + TCP_RETRANSMIT_US;
            (e, w) = (if tcp_ctx \<noteq> NULL
                      then event_create_callback EVT_TCP_RETRANSMIT now NULL NULL NULL tcb
                             CB_tcp_retransmit_handler tcp_ctx w
                      else event_create EVT_TCP_RETRANSMIT now NULL NULL NULL tcb w)
        in if e = None then w
           else
             let (res, w) = scheduler_schedule sched e w
             in if res = - 1 then event_free e w
                else upd_tcb (the tcb) (\<lambda>c. c\<lparr>tc_retransmit_ts := now\<rparr>) w)"

definition tcp_time_wait_handler :: "Event \<Rightarrow> ptr \<Rightarrow> world \<Rightarrow> world" where
  "tcp_time_wait_handler e ctx w =
     (if ctx = NULL then w
      else
        (case ev_data e of
           None \<Rightarrow> w
         | Some c \<Rightarrow>
             if tc_valid (tcb_of w c) \<noteq> 1 then w
             else if tc_state (tcb_of w c) \<noteq> TCP_TIME_WAIT then w
             else tcp_release_tcb ctx (Some c) w))"

text \<open>The release of a connection in TIME_WAIT is scheduled for twice the retransmission time.\<close>

definition schedule_time_wait :: "ptr \<Rightarrow> tcb_ref \<Rightarrow> world \<Rightarrow> world" where
  "schedule_time_wait tcp_ctx c w =
     (let sched = sm_sched (w_sim w (xc_sim (w_tcpctx w tcp_ctx))) in
      if sched = NULL then w
      else
        let now = scheduler_now sched w;
            (e, w) = event_create_callback EVT_TIMER_EXPIRED (now + TCP_TIME_WAIT_US) NULL NULL NULL
                       (Some c) CB_tcp_time_wait_handler (xc_table (w_tcpctx w tcp_ctx)) w
        in if e = None then w
           else
             let (res, w) = scheduler_schedule sched e w
             in if res = - 1 then event_free e w else w)"

section \<open>Active open\<close>

definition tcp_connect ::
  "ptr \<Rightarrow> ptr \<Rightarrow> u32 \<Rightarrow> u32 \<Rightarrow> u16 \<Rightarrow> u16 \<Rightarrow> nat \<Rightarrow> nat \<Rightarrow> ptr \<Rightarrow> world \<Rightarrow> tcb_ptr \<times> world" where
  "tcp_connect sim table local_ip remote_ip local_port remote_port recv_fn connect_fn ctx w =
     (if sim = NULL \<or> table = NULL then (None, w)
      else if local_ip = 0 \<or> remote_ip = 0 \<or> local_port = 0 \<or> remote_port = 0 then (None, w)
      else if tcp_find_exact (Some (w_tcp w table)) local_ip local_port remote_ip remote_port \<noteq> None
      then (None, w)
      else
        (case tcp_alloc_tcb (Some (w_tcp w table)) of
           (None, t) \<Rightarrow> (None, set_tcp table t w)
         | (Some i, t) \<Rightarrow>
             let c = (table, i);
                 w = set_tcp table t w;
                 w = upd_tcb c (\<lambda>b. b\<lparr>tc_local_ip := local_ip, tc_local_port := local_port,
                       tc_remote_ip := remote_ip, tc_remote_port := remote_port,
                       tc_state := TCP_SYN_SENT, tc_snd_una := 0, tc_snd_nxt := 1, tc_rcv_nxt := 0,
                       tc_snd_wnd := TCP_DEFAULT_WINDOW, tc_rcv_wnd := TCP_DEFAULT_WINDOW,
                       tc_recv_handler := recv_fn, tc_connect_handler := connect_fn,
                       tc_handler_ctx := ctx\<rparr>) w;
                 (res, syn_clone, w) = tcp_send_segment sim local_ip remote_ip local_port remote_port
                       0 0 TCP_FLAG_SYN None 0 True w
             in if res = - 1 then (None, tcp_release_tcb table (Some c) w)
                else
                  let sched = sm_sched (w_sim w sim);
                      now = (if sched \<noteq> NULL then scheduler_now sched w else 0);
                      (tracked, b) = tcp_sendq_track (tcb_of w c) syn_clone 0 1 TCP_FLAG_SYN now;
                      w = upd_tcb c (\<lambda>_. b) w
                  in if tracked = - 1
                     then (None, tcp_release_tcb table (Some c) (packet_free syn_clone w))
                     else (Some c, if sched \<noteq> NULL then tcp_schedule_retransmit sim NULL (Some c) w else w)))"

section \<open>Receiving\<close>

definition tcp_malformed :: "ptr \<Rightarrow> ptr \<Rightarrow> world \<Rightarrow> int \<times> world" where
  "tcp_malformed iface pkt w = (- 1, rx_error iface (packet_free pkt w))"

definition tcp_drop :: "ptr \<Rightarrow> ptr \<Rightarrow> world \<Rightarrow> int \<times> world" where
  "tcp_drop iface pkt w = (- 1, rx_drop iface (packet_free pkt w))"

definition tcp_consume :: "ptr \<Rightarrow> world \<Rightarrow> int \<times> world" where
  "tcp_consume pkt w = (0, packet_free pkt w)"

text \<open>A pure acknowledgement of what the connection has received.\<close>

definition tcp_send_ack :: "ptr \<Rightarrow> tcb_ref \<Rightarrow> world \<Rightarrow> int \<times> world" where
  "tcp_send_ack sim c w =
     (let b = tcb_of w c;
          (res, _, w) = tcp_send_segment sim (tc_local_ip b) (tc_remote_ip b) (tc_local_port b)
             (tc_remote_port b) (tc_snd_nxt b) (tc_rcv_nxt b) TCP_FLAG_ACK None 0 False w
      in (res, w))"

definition flag_set :: "u8 \<Rightarrow> u8 \<Rightarrow> bool" where
  "flag_set flags f \<longleftrightarrow> flags AND f \<noteq> 0"

subsection \<open>LISTEN: a SYN opens a child connection\<close>

definition tcp_on_listen ::
  "ptr \<Rightarrow> ptr \<Rightarrow> ptr \<Rightarrow> nat \<Rightarrow> u32 \<Rightarrow> u16 \<Rightarrow> u32 \<Rightarrow> u16 \<Rightarrow> u32 \<Rightarrow> world \<Rightarrow> int \<times> world" where
  "tcp_on_listen iface pkt tcp_ctx listener dst_ip dst_port src_ip src_port seq_num w =
     (let table = xc_table (w_tcpctx w tcp_ctx); sim = xc_sim (w_tcpctx w tcp_ctx) in
      case tcp_alloc_tcb (Some (w_tcp w table)) of
        (None, t) \<Rightarrow> tcp_drop iface pkt (set_tcp table t w)
      | (Some i, t) \<Rightarrow>
          let child = (table, i);
              w = set_tcp table t w;
              l = tcb_of w (table, listener);
              w = upd_tcb child (\<lambda>b. b\<lparr>tc_local_ip := dst_ip, tc_local_port := dst_port,
                    tc_remote_ip := src_ip, tc_remote_port := src_port,
                    tc_state := TCP_SYN_RECEIVED, tc_snd_una := 0, tc_snd_nxt := 1,
                    tc_rcv_nxt := seq_num + 1, tc_snd_wnd := TCP_DEFAULT_WINDOW,
                    tc_rcv_wnd := TCP_DEFAULT_WINDOW, tc_recv_handler := tc_recv_handler l,
                    tc_connect_handler := tc_connect_handler l, tc_handler_ctx := tc_handler_ctx l\<rparr>) w;
              sched = sm_sched (w_sim w sim);
              now = (if sched \<noteq> NULL then scheduler_now sched w else 0);
              b = tcb_of w child;
              (res, syn_ack_clone, w) = tcp_send_segment sim (tc_local_ip b) (tc_remote_ip b)
                    (tc_local_port b) (tc_remote_port b) 0 (tc_rcv_nxt b)
                    (TCP_FLAG_SYN OR TCP_FLAG_ACK) None 0 True w
          in if res = - 1
             then tcp_malformed iface pkt (tcp_release_tcb table (Some child) w)
             else
               let (tracked, b) = tcp_sendq_track (tcb_of w child) syn_ack_clone 0 1
                      (TCP_FLAG_SYN OR TCP_FLAG_ACK) now;
                   w = upd_tcb child (\<lambda>_. b) w
               in if tracked = - 1
                  then tcp_malformed iface pkt
                         (tcp_release_tcb table (Some child) (packet_free syn_ack_clone w))
                  else tcp_consume pkt w)"

subsection \<open>The states of the handshake\<close>

definition tcp_on_syn_sent ::
  "tcp_connect_fns \<Rightarrow> ptr \<Rightarrow> ptr \<Rightarrow> ptr \<Rightarrow> tcb_ref \<Rightarrow> u32 \<Rightarrow> u32 \<Rightarrow> u8 \<Rightarrow> world \<Rightarrow> int \<times> world" where
  "tcp_on_syn_sent conn iface pkt tcp_ctx c seq_num ack_num flags w =
     (if flag_set flags TCP_FLAG_SYN \<and> flag_set flags TCP_FLAG_ACK \<and> ack_num = tc_snd_nxt (tcb_of w c)
      then
        let w = upd_tcb c (\<lambda>b. b\<lparr>tc_rcv_nxt := seq_num + 1, tc_snd_una := ack_num\<rparr>) w;
            w = tcp_sendq_ack (Some c) ack_num w;
            w = upd_tcb c (\<lambda>b. b\<lparr>tc_state := TCP_ESTABLISHED\<rparr>) w;
            (res, w) = tcp_send_ack (xc_sim (w_tcpctx w tcp_ctx)) c w
        in if res = - 1 then tcp_malformed iface pkt w
           else
             let b = tcb_of w c;
                 w = (if tc_connect_handler b \<noteq> 0
                      then conn (tc_connect_handler b) c (tc_handler_ctx b) w else w)
             in tcp_consume pkt w
      else tcp_drop iface pkt w)"

definition tcp_on_syn_received ::
  "tcp_connect_fns \<Rightarrow> ptr \<Rightarrow> ptr \<Rightarrow> tcb_ref \<Rightarrow> u32 \<Rightarrow> u8 \<Rightarrow> world \<Rightarrow> int \<times> world" where
  "tcp_on_syn_received conn iface pkt c ack_num flags w =
     (if flag_set flags TCP_FLAG_ACK \<and> ack_num = tc_snd_nxt (tcb_of w c)
      then
        let w = upd_tcb c (\<lambda>b. b\<lparr>tc_snd_una := ack_num\<rparr>) w;
            w = tcp_sendq_ack (Some c) ack_num w;
            w = upd_tcb c (\<lambda>b. b\<lparr>tc_state := TCP_ESTABLISHED\<rparr>) w;
            b = tcb_of w c;
            w = (if tc_connect_handler b \<noteq> 0
                 then conn (tc_connect_handler b) c (tc_handler_ctx b) w else w)
        in tcp_consume pkt w
      else tcp_drop iface pkt w)"

subsection \<open>ESTABLISHED: acknowledgements, data and FIN\<close>

definition established_ack :: "tcb_ref \<Rightarrow> u32 \<Rightarrow> u8 \<Rightarrow> world \<Rightarrow> world" where
  "established_ack c ack_num flags w =
     (if flag_set flags TCP_FLAG_ACK then
        if ack_num > tc_snd_una (tcb_of w c) \<and> ack_num \<le> tc_snd_nxt (tcb_of w c)
        then upd_tcb c (\<lambda>b. b\<lparr>tc_snd_una := ack_num\<rparr>) (tcp_sendq_ack (Some c) ack_num w)
        else w
      else w)"

definition established_data ::
  "tcp_recv_fns \<Rightarrow> ptr \<Rightarrow> ptr \<Rightarrow> ptr \<Rightarrow> tcb_ref \<Rightarrow> u32 \<Rightarrow> nat \<Rightarrow> world \<Rightarrow> int \<times> world" where
  "established_data recv iface pkt sim c seq_num payload_len w =
     (if seq_num = tc_rcv_nxt (tcb_of w c)
      then
        let w = upd_tcb c (\<lambda>b. b\<lparr>tc_rcv_nxt := tc_rcv_nxt b + of_nat payload_len\<rparr>) w;
            (res, w) = tcp_send_ack sim c w
        in if res = - 1 then tcp_malformed iface pkt w
           else
             let (r, w) = pkt_strip pkt TCP_HDR_LEN w
             in if r = - 1 then tcp_malformed iface pkt w
                else
                  let w = upd_pkt pkt (\<lambda>k. k\<lparr>pk_layer := 5\<rparr>) w;
                      b = tcb_of w c
                  in if tc_recv_handler b \<noteq> 0
                     then (0, recv (tc_recv_handler b) c pkt (tc_handler_ctx b) w)
                     else tcp_consume pkt w
      else
        let (res, w) = tcp_send_ack sim c w
        in if res = - 1 then tcp_malformed iface pkt w else tcp_consume pkt w)"

definition tcp_on_established ::
  "tcp_recv_fns \<Rightarrow> ptr \<Rightarrow> ptr \<Rightarrow> ptr \<Rightarrow> tcb_ref \<Rightarrow> u32 \<Rightarrow> u32 \<Rightarrow> u8 \<Rightarrow> nat \<Rightarrow> world \<Rightarrow> int \<times> world" where
  "tcp_on_established recv iface pkt tcp_ctx c seq_num ack_num flags payload_len w =
     (let sim = xc_sim (w_tcpctx w tcp_ctx);
          w = established_ack c ack_num flags w
      in if payload_len > 0 then established_data recv iface pkt sim c seq_num payload_len w
         else if flag_set flags TCP_FLAG_FIN \<and> seq_num = tc_rcv_nxt (tcb_of w c)
         then
           let w = upd_tcb c (\<lambda>b. b\<lparr>tc_rcv_nxt := seq_num + 1\<rparr>) w;
               (res, w) = tcp_send_ack sim c w
           in if res = - 1 then tcp_malformed iface pkt w
              else tcp_consume pkt (upd_tcb c (\<lambda>b. b\<lparr>tc_state := TCP_CLOSE_WAIT\<rparr>) w)
         else if \<not> flag_set flags TCP_FLAG_FIN then tcp_consume pkt w
         else tcp_drop iface pkt w)"

subsection \<open>The states of the close\<close>

definition tcp_on_fin_wait_1 ::
  "ptr \<Rightarrow> ptr \<Rightarrow> tcb_ref \<Rightarrow> u32 \<Rightarrow> u8 \<Rightarrow> world \<Rightarrow> int \<times> world" where
  "tcp_on_fin_wait_1 iface pkt c ack_num flags w =
     (if flag_set flags TCP_FLAG_ACK \<and> ack_num > tc_snd_una (tcb_of w c)
      then
        let w = upd_tcb c (\<lambda>b. b\<lparr>tc_snd_una := ack_num\<rparr>) w;
            w = tcp_sendq_ack (Some c) ack_num w;
            w = (if \<not> fin_still_unacked (tcb_of w c)
                 then upd_tcb c (\<lambda>b. b\<lparr>tc_state := TCP_FIN_WAIT_2\<rparr>) w else w)
        in tcp_consume pkt w
      else tcp_drop iface pkt w)"

definition tcp_on_fin_wait_2 ::
  "ptr \<Rightarrow> ptr \<Rightarrow> ptr \<Rightarrow> tcb_ref \<Rightarrow> u32 \<Rightarrow> u8 \<Rightarrow> world \<Rightarrow> int \<times> world" where
  "tcp_on_fin_wait_2 iface pkt tcp_ctx c seq_num flags w =
     (if flag_set flags TCP_FLAG_FIN \<and> seq_num = tc_rcv_nxt (tcb_of w c)
      then
        let w = upd_tcb c (\<lambda>b. b\<lparr>tc_rcv_nxt := seq_num + 1\<rparr>) w;
            (res, w) = tcp_send_ack (xc_sim (w_tcpctx w tcp_ctx)) c w
        in if res = - 1 then tcp_malformed iface pkt w
           else
             let w = upd_tcb c (\<lambda>b. b\<lparr>tc_state := TCP_TIME_WAIT\<rparr>) w;
                 w = schedule_time_wait tcp_ctx c w
             in tcp_consume pkt w
      else tcp_consume pkt w)"

definition tcp_on_closing :: "ptr \<Rightarrow> ptr \<Rightarrow> ptr \<Rightarrow> tcb_ref \<Rightarrow> u32 \<Rightarrow> world \<Rightarrow> int \<times> world" where
  "tcp_on_closing iface pkt tcp_ctx c ack_num w =
     (if ack_num > tc_snd_una (tcb_of w c)
      then
        let w = upd_tcb c (\<lambda>b. b\<lparr>tc_snd_una := ack_num\<rparr>) w;
            w = tcp_sendq_ack (Some c) ack_num w
        in if \<not> fin_still_unacked (tcb_of w c)
           then
             let w = upd_tcb c (\<lambda>b. b\<lparr>tc_state := TCP_TIME_WAIT\<rparr>) w;
                 w = schedule_time_wait tcp_ctx c w
             in tcp_consume pkt w
           else tcp_consume pkt w
      else tcp_drop iface pkt w)"

definition tcp_on_last_ack ::
  "ptr \<Rightarrow> ptr \<Rightarrow> ptr \<Rightarrow> tcb_ref \<Rightarrow> u32 \<Rightarrow> u8 \<Rightarrow> world \<Rightarrow> int \<times> world" where
  "tcp_on_last_ack iface pkt tcp_ctx c ack_num flags w =
     (if flag_set flags TCP_FLAG_ACK \<and> ack_num > tc_snd_una (tcb_of w c)
      then
        let w = upd_tcb c (\<lambda>b. b\<lparr>tc_snd_una := ack_num\<rparr>) w;
            w = tcp_sendq_ack (Some c) ack_num w
        in if \<not> fin_still_unacked (tcb_of w c)
           then tcp_consume pkt (tcp_release_tcb (xc_table (w_tcpctx w tcp_ctx)) (Some c) w)
           else tcp_consume pkt w
      else tcp_drop iface pkt w)"

subsection \<open>The whole handler\<close>

text \<open>The dispatch on the state of an existing connection.\<close>

definition tcp_dispatch ::
  "tcp_recv_fns \<Rightarrow> tcp_connect_fns \<Rightarrow> ptr \<Rightarrow> ptr \<Rightarrow> ptr \<Rightarrow> tcb_ref \<Rightarrow> u32 \<Rightarrow> u32 \<Rightarrow> u8 \<Rightarrow> nat \<Rightarrow>
   world \<Rightarrow> int \<times> world" where
  "tcp_dispatch recv conn iface pkt tcp_ctx c seq_num ack_num flags payload_len w =
     (case tc_state (tcb_of w c) of
        TCP_SYN_SENT \<Rightarrow> tcp_on_syn_sent conn iface pkt tcp_ctx c seq_num ack_num flags w
      | TCP_SYN_RECEIVED \<Rightarrow> tcp_on_syn_received conn iface pkt c ack_num flags w
      | TCP_ESTABLISHED \<Rightarrow>
          tcp_on_established recv iface pkt tcp_ctx c seq_num ack_num flags payload_len w
      | TCP_FIN_WAIT_1 \<Rightarrow> tcp_on_fin_wait_1 iface pkt c ack_num flags w
      | TCP_FIN_WAIT_2 \<Rightarrow> tcp_on_fin_wait_2 iface pkt tcp_ctx c seq_num flags w
      | TCP_CLOSING \<Rightarrow> tcp_on_closing iface pkt tcp_ctx c ack_num w
      | TCP_LAST_ACK \<Rightarrow> tcp_on_last_ack iface pkt tcp_ctx c ack_num flags w
      | TCP_TIME_WAIT \<Rightarrow> tcp_consume pkt w
      | _ \<Rightarrow> tcp_drop iface pkt w)"

definition tcp_receive ::
  "tcp_recv_fns \<Rightarrow> tcp_connect_fns \<Rightarrow> ptr \<Rightarrow> ptr \<Rightarrow> ptr \<Rightarrow> world \<Rightarrow> int \<times> world" where
  "tcp_receive recv conn iface pkt ctx w =
     (if iface = NULL then (- 1, w)
      else if pkt = NULL then (- 1, rx_error iface w)
      else if ctx = NULL then tcp_malformed iface pkt w
      else
        let tcp_ctx = w_tcpctx w ctx; pk = w_pkt w pkt in
        if xc_sim tcp_ctx = NULL \<or> xc_table tcp_ctx = NULL then tcp_malformed iface pkt w
        else if pk_len pk < TCP_HDR_LEN then tcp_malformed iface pkt w
        else if null_buffer pk then tcp_malformed iface pkt w
        else if pk_data pk < IP_HDR_LEN then tcp_malformed iface pkt w
        else if pk_data pk + pk_len pk > pk_end pk then tcp_malformed iface pkt w
        else
          let ip_hdr = ip_at (pk_before pk IP_HDR_LEN);
              src_ip = ns_ntohl (ip_src_ip ip_hdr);
              dst_ip = ns_ntohl (ip_dst_ip ip_hdr)
          in if ip_protocol ip_hdr \<noteq> IPPROTO_TCP then tcp_malformed iface pkt w
             else
               let tcp_hdr = tcp_at (pk_rest pk);
                   src_port = ns_ntohs (tcp_src_port tcp_hdr);
                   dst_port = ns_ntohs (tcp_dst_port tcp_hdr);
                   seq_num = ns_ntohl (tcp_seq_num tcp_hdr);
                   ack_num = ns_ntohl (tcp_ack_num tcp_hdr);
                   data_off = ns_ntohs (tcp_data_off_flags tcp_hdr);
                   hdr_words = drop_bit 12 data_off;
                   flags = (ucast (data_off AND 0x3F) :: u8)
               in if hdr_words \<noteq> 5 then tcp_malformed iface pkt w
                  else
                    let payload_len = pk_len pk - TCP_HDR_LEN;
                        table = xc_table tcp_ctx;
                        tcb = tcp_find_exact (Some (w_tcp w table)) dst_ip dst_port src_ip src_port;
                        listener = (if tcb = None \<and> flags = TCP_FLAG_SYN
                                    then tcp_find_listener (Some (w_tcp w table)) dst_ip dst_port
                                    else None)
                    in (case listener of
                          Some l \<Rightarrow> tcp_on_listen iface pkt ctx l dst_ip dst_port src_ip src_port seq_num w
                        | None \<Rightarrow>
                            (case tcb of
                               None \<Rightarrow> tcp_drop iface pkt w
                             | Some i \<Rightarrow> tcp_dispatch recv conn iface pkt ctx (table, i)
                                           seq_num ack_num flags payload_len w)))"

section \<open>Sending, closing, retransmitting\<close>

definition tcp_send :: "ptr \<Rightarrow> tcb_ptr \<Rightarrow> u8 list option \<Rightarrow> nat \<Rightarrow> world \<Rightarrow> int \<times> world" where
  "tcp_send sim tcb data len w =
     (case tcb of
        None \<Rightarrow> (- 1, w)
      | Some c \<Rightarrow>
          if sim = NULL then (- 1, w)
          else if tc_valid (tcb_of w c) \<noteq> 1 then (- 1, w)
          else if tc_state (tcb_of w c) \<noteq> TCP_ESTABLISHED then (- 1, w)
          else if len > 0 \<and> data = None then (- 1, w)
          else if len = 0 then (0, w)
          else
            let send_len = (if len > TCP_MSS then TCP_MSS else len) in
            if tcp_sendq_has_unacked (tcb_of w c) \<noteq> 0 then (- 1, w)
            else
              let b = tcb_of w c;
                  old_snd_nxt = tc_snd_nxt b;
                  (res, track_clone, w) = tcp_send_segment sim (tc_local_ip b) (tc_remote_ip b)
                     (tc_local_port b) (tc_remote_port b) old_snd_nxt (tc_rcv_nxt b)
                     (TCP_FLAG_ACK OR TCP_FLAG_PSH) data send_len True w
              in if res = - 1 then (- 1, packet_free track_clone w)
                 else
                   let sched = sm_sched (w_sim w sim);
                       now = (if sched \<noteq> NULL then scheduler_now sched w else 0);
                       (tracked, b) = tcp_sendq_track (tcb_of w c) track_clone old_snd_nxt
                          (old_snd_nxt + of_nat send_len) (TCP_FLAG_ACK OR TCP_FLAG_PSH) now;
                       w = upd_tcb c (\<lambda>_. b) w
                   in if tracked = - 1 then (- 1, packet_free track_clone w)
                      else
                        let w = upd_tcb c (\<lambda>b. b\<lparr>tc_snd_nxt := tc_snd_nxt b + of_nat send_len\<rparr>) w
                        in (0, if sched \<noteq> NULL then tcp_schedule_retransmit sim NULL (Some c) w else w))"

definition tcp_close :: "ptr \<Rightarrow> tcb_ptr \<Rightarrow> world \<Rightarrow> int \<times> world" where
  "tcp_close sim tcb w =
     (case tcb of
        None \<Rightarrow> (- 1, w)
      | Some c \<Rightarrow>
          if sim = NULL then (- 1, w)
          else if tc_valid (tcb_of w c) \<noteq> 1 then (- 1, w)
          else if tc_state (tcb_of w c) \<noteq> TCP_ESTABLISHED \<and> tc_state (tcb_of w c) \<noteq> TCP_CLOSE_WAIT
          then (- 1, w)
          else if tcp_sendq_has_unacked (tcb_of w c) \<noteq> 0 then (- 1, w)
          else
            let b = tcb_of w c;
                old_state = tc_state b;
                (res, track_clone, w) = tcp_send_segment sim (tc_local_ip b) (tc_remote_ip b)
                   (tc_local_port b) (tc_remote_port b) (tc_snd_nxt b) (tc_rcv_nxt b)
                   (TCP_FLAG_FIN OR TCP_FLAG_ACK) None 0 True w
            in if res = - 1 then (- 1, packet_free track_clone w)
               else
                 let sched = sm_sched (w_sim w sim);
                     now = (if sched \<noteq> NULL then scheduler_now sched w else 0);
                     (tracked, b) = tcp_sendq_track (tcb_of w c) track_clone (tc_snd_nxt (tcb_of w c))
                        (tc_snd_nxt (tcb_of w c) + 1) (TCP_FLAG_FIN OR TCP_FLAG_ACK) now;
                     w = upd_tcb c (\<lambda>_. b) w
                 in if tracked = - 1 then (- 1, packet_free track_clone w)
                    else
                      let w = upd_tcb c (\<lambda>b. b\<lparr>tc_snd_nxt := tc_snd_nxt b + 1\<rparr>) w;
                          w = (if old_state = TCP_ESTABLISHED
                               then upd_tcb c (\<lambda>b. b\<lparr>tc_state := TCP_FIN_WAIT_1\<rparr>) w
                               else if old_state = TCP_CLOSE_WAIT
                               then upd_tcb c (\<lambda>b. b\<lparr>tc_state := TCP_LAST_ACK\<rparr>) w
                               else w)
                      in (0, if sched \<noteq> NULL then tcp_schedule_retransmit sim NULL (Some c) w else w))"

definition seg_of :: "world \<Rightarrow> tcb_ref \<Rightarrow> nat \<Rightarrow> TcpSegment" where
  "seg_of w c i = sq_entries (tc_sendq (tcb_of w c)) ! i"

definition upd_seg :: "tcb_ref \<Rightarrow> nat \<Rightarrow> (TcpSegment \<Rightarrow> TcpSegment) \<Rightarrow> world \<Rightarrow> world" where
  "upd_seg c i f w = upd_tcb c (\<lambda>b. b\<lparr>tc_sendq := (tc_sendq b)
     \<lparr>sq_entries := (sq_entries (tc_sendq b))[i := f (sq_entries (tc_sendq b) ! i)]\<rparr>\<rparr>) w"

fun retransmit_loop :: "ptr \<Rightarrow> tcb_ref \<Rightarrow> nat \<Rightarrow> nat \<Rightarrow> world \<Rightarrow> world" where
  "retransmit_loop tcp_ctx c i 0 w = w"
| "retransmit_loop tcp_ctx c i (Suc n) w =
     (if sg_pkt (seg_of w c i) \<noteq> NULL \<and> sg_acked (seg_of w c i) = 0
      then
        let sim = xc_sim (w_tcpctx w tcp_ctx);
            (clone, w) = packet_clone (sg_pkt (seg_of w c i)) w
        in if clone = NULL then retransmit_loop tcp_ctx c (Suc i) n w
           else
             let b = tcb_of w c;
                 (res, w) = ip_output sim (tc_local_ip b) (tc_remote_ip b) IPPROTO_TCP clone w
             in if res = - 1 then packet_free clone w
                else
                  let w = upd_seg c i (\<lambda>s. s\<lparr>sg_retransmits := sg_retransmits s + 1\<rparr>) w;
                      sched = sm_sched (w_sim w sim);
                      w = (if sched \<noteq> NULL
                           then tcp_schedule_retransmit sim tcp_ctx (Some c)
                                  (upd_seg c i (\<lambda>s. s\<lparr>sg_sent_ts := scheduler_now sched w\<rparr>) w)
                           else w)
                  in retransmit_loop tcp_ctx c (Suc i) n w
      else retransmit_loop tcp_ctx c (Suc i) n w)"

definition tcp_retransmit_handler :: "Event \<Rightarrow> ptr \<Rightarrow> world \<Rightarrow> world" where
  "tcp_retransmit_handler e ctx w =
     (if ctx = NULL \<or> xc_sim (w_tcpctx w ctx) = NULL \<or> xc_table (w_tcpctx w ctx) = NULL then w
      else
        (case ev_data e of
           None \<Rightarrow> w
         | Some c \<Rightarrow>
             if tc_valid (tcb_of w c) \<noteq> 1 then w
             else retransmit_loop ctx c 0 TCP_MAX_INFLIGHT w))"

end
