(* ===== verification/Ip_Input.thy ===== *)
theory Ip_Input
  imports Udp Tcp
begin

text \<open>
  The receive path of the network layer (\<open>ip_receive\<close> of \<open>protocols/ip.c\<close>): verify the header,
  strip it, and call the protocol handler registered in the stack. The functions of the
  application that the program can call back are the fields of \<open>app\<close>; every definition that may
  reach one takes it as an argument.
\<close>

record app =
  app_event :: "nat \<Rightarrow> Event \<Rightarrow> ptr \<Rightarrow> world \<Rightarrow> world"
  app_rx :: "nat \<Rightarrow> ptr \<Rightarrow> ptr \<Rightarrow> u16 \<Rightarrow> ptr \<Rightarrow> world \<Rightarrow> world"
  app_proto :: "nat \<Rightarrow> ptr \<Rightarrow> ptr \<Rightarrow> ptr \<Rightarrow> world \<Rightarrow> int \<times> world"
  app_udp_recv :: udp_recv_fns
  app_tcp_recv :: tcp_recv_fns
  app_tcp_connect :: tcp_connect_fns

text \<open>The call through a protocol handler pointer.\<close>

definition call_protocol :: "app \<Rightarrow> IpProtocolHandler \<Rightarrow> ptr \<Rightarrow> ptr \<Rightarrow> ptr \<Rightarrow> world \<Rightarrow> int \<times> world" where
  "call_protocol A handler iface pkt ctx w =
     (case handler of
        PH_NULL \<Rightarrow> (0, w)
      | PH_icmp_receive \<Rightarrow> icmp_receive iface pkt ctx w
      | PH_udp_receive \<Rightarrow> udp_receive (app_udp_recv A) iface pkt ctx w
      | PH_tcp_receive \<Rightarrow> tcp_receive (app_tcp_recv A) (app_tcp_connect A) iface pkt ctx w
      | PH_app n \<Rightarrow> app_proto A n iface pkt ctx w)"

text \<open>The header checks, in their order: the counter each failure increments.\<close>

datatype ip_verdict = IP_OK | IP_BAD_VERSION | IP_TTL_EXPIRED | IP_BAD_CHECKSUM

definition ip_check :: "u8 list \<Rightarrow> ip_verdict" where
  "ip_check data =
     (let ip_hdr = ip_at data in
      if drop_bit 4 (ip_version_ihl ip_hdr) \<noteq> 4 then IP_BAD_VERSION
      else if ip_ttl ip_hdr = 0 then IP_TTL_EXPIRED
      else if ip_checksum (Some data) \<noteq> 0 then IP_BAD_CHECKSUM
      else IP_OK)"

definition ip_receive :: "app \<Rightarrow> ptr \<Rightarrow> ptr \<Rightarrow> u16 \<Rightarrow> ptr \<Rightarrow> world \<Rightarrow> int \<times> world" where
  "ip_receive A iface frame ethertype ctx w =
     (if iface = NULL \<or> frame = NULL \<or> pk_len (w_pkt w frame) < IP_HDR_LEN then (- 1, w)
      else
        let data = pk_rest (w_pkt w frame) in
        (case ip_check data of
           IP_BAD_VERSION \<Rightarrow> (- 1, packet_free frame (rx_error iface w))
         | IP_TTL_EXPIRED \<Rightarrow> (- 1, packet_free frame (rx_drop iface w))
         | IP_BAD_CHECKSUM \<Rightarrow> (- 1, packet_free frame (rx_error iface w))
         | IP_OK \<Rightarrow>
             let protocol = ip_protocol (ip_at data);
                 w = upd_iface iface (\<lambda>i. i\<lparr>if_rx_bytes := if_rx_bytes i + of_nat (pk_len (w_pkt w frame))\<rparr>) w;
                 stack = ctx;
                 sim = (if stack \<noteq> NULL then is_sim (w_ips w stack) else NULL);
                 w = upd_iface iface (\<lambda>i. i\<lparr>if_last_rx_time :=
                       (if sim \<noteq> NULL then simulator_now sim w else 0)\<rparr>) w;
                 w = upd_pkt frame (\<lambda>k. k\<lparr>pk_data := pk_data k + IP_HDR_LEN,
                                         pk_len := pk_len k - IP_HDR_LEN, pk_layer := 4\<rparr>) w
             in if stack = NULL then (0, w)
                else
                  let (handler, hctx) = is_protocols (w_ips w stack) protocol
                  in if handler \<noteq> PH_NULL then call_protocol A handler iface frame hctx w else (0, w)))"

text \<open>The function stored as an interface's receive handler drops the result.\<close>

definition ip_rx_shim :: "app \<Rightarrow> ptr \<Rightarrow> ptr \<Rightarrow> u16 \<Rightarrow> ptr \<Rightarrow> world \<Rightarrow> world" where
  "ip_rx_shim A iface pkt ethertype ctx w = snd (ip_receive A iface pkt ethertype ctx w)"

end
