(* ===== verification/Host_Ops.thy ===== *)
theory Host_Ops
  imports Ip_Input
begin

text \<open>
  Hosts (\<open>network/host.h\<close>, \<open>network/host.c\<close>): a device with its own neighbour cache, IP stack,
  UDP and TCP tables, wired together by \<open>host_create\<close>, which releases everything it allocated
  when a step fails.
\<close>

abbreviation (input) HOST_MAX_PORTS :: nat where "HOST_MAX_PORTS \<equiv> 8"

definition host_free :: "ptr \<Rightarrow> world \<Rightarrow> world" where
  "host_free host w =
     (if host = NULL then w
      else
        let h = w_host w host; d = w_dev w host;
            w = (if dv_interfaces_p d \<noteq> NULL
                 then free_block (dv_interfaces_p d) (free_interfaces (device_ports d) w) else w);
            w = free_block (ho_arp_cache h) w;
            w = free_block (ho_ip_stack h) w;
            w = free_block (ho_udp_state h) w;
            w = free_block (ho_tcp_table h) w;
            w = free_block (ho_udp_context h) w;
            w = free_block (ho_tcp_context h) w
        in free_block host w)"

text \<open>
  One allocation of \<open>host_create\<close>: store the address in the host; on failure free the host.
  The initialisers of fresh tables that the code does not clear first see what the memory held.
\<close>

definition host_alloc ::
  "ptr \<Rightarrow> (ptr \<Rightarrow> Host \<Rightarrow> Host) \<Rightarrow> (ptr \<Rightarrow> world \<Rightarrow> world) \<Rightarrow> (world \<Rightarrow> ptr \<times> world) \<Rightarrow> world \<Rightarrow> ptr \<times> world" where
  "host_alloc host put init rest w =
     (let (p, w) = malloc w;
          w = upd_host host (put p) w
      in if p = NULL then (NULL, host_free host w) else rest (init p w))"

definition host_register ::
  "ptr \<Rightarrow> u8 \<Rightarrow> IpProtocolHandler \<Rightarrow> (Host \<Rightarrow> ptr) \<Rightarrow> (world \<Rightarrow> ptr \<times> world) \<Rightarrow> world \<Rightarrow> ptr \<times> world" where
  "host_register host protocol handler ctx rest w =
     (let (r, w) = ip_stack_register_protocol (ho_ip_stack (w_host w host)) protocol handler
                     (ctx (w_host w host)) w
      in if r \<noteq> 0 then (NULL, host_free host w) else rest w)"

definition host_create :: "string option \<Rightarrow> ptr \<Rightarrow> u32 \<Rightarrow> world \<Rightarrow> ptr \<times> world" where
  "host_create name sim gateway_ip w =
     (case name of
        None \<Rightarrow> (NULL, w)
      | Some nm \<Rightarrow>
          if sim = NULL then (NULL, w)
          else
            let (host, w) = malloc w in
            if host = NULL then (NULL, w)
            else
              let w = upd_host host (\<lambda>_. \<lparr>ho_sim = sim, ho_arp_cache = NULL, ho_ip_stack = NULL,
                        ho_udp_state = NULL, ho_udp_context = NULL, ho_tcp_table = NULL,
                        ho_tcp_context = NULL, ho_gateway_ip = 0\<rparr>) w;
                  (arr, w) = malloc w;
                  w = upd_dev host (\<lambda>_. \<lparr>dv_name = take 31 nm, dv_interfaces_p = arr,
                        dv_interfaces = map (w_junk_ptr w arr) [0..<HOST_MAX_PORTS],
                        dv_iface_count = 0, dv_iface_max = int HOST_MAX_PORTS\<rparr>) w
              in if arr = NULL then (NULL, host_free host w)
                 else
                   host_alloc host (\<lambda>p h. h\<lparr>ho_arp_cache := p\<rparr>)
                     (\<lambda>p w. set_arp p (arp_cache_init (deref (w_arp w) p)) w)
                   (host_alloc host (\<lambda>p h. h\<lparr>ho_ip_stack := p\<rparr>) (\<lambda>p. ip_stack_init p sim)
                   (host_alloc host (\<lambda>p h. h\<lparr>ho_udp_state := p\<rparr>)
                     (\<lambda>p w. set_udp p (udp_init (deref (w_udp w) p)) w)
                   (host_alloc host (\<lambda>p h. h\<lparr>ho_tcp_table := p\<rparr>)
                     (\<lambda>p w. set_tcp p (tcp_init (deref (w_tcp w) p)) w)
                   (host_alloc host (\<lambda>p h. h\<lparr>ho_udp_context := p\<rparr>)
                     (\<lambda>p w. w\<lparr>w_udpctx := (w_udpctx w)(p := \<lparr>uc_sim = sim, uc_state = ho_udp_state (w_host w host)\<rparr>)\<rparr>)
                   (host_alloc host (\<lambda>p h. h\<lparr>ho_tcp_context := p\<rparr>)
                     (\<lambda>p w. w\<lparr>w_tcpctx := (w_tcpctx w)(p := \<lparr>xc_sim = sim, xc_table = ho_tcp_table (w_host w host)\<rparr>)\<rparr>)
                   (host_register host IPPROTO_ICMP PH_icmp_receive (\<lambda>_. sim)
                   (host_register host IPPROTO_UDP PH_udp_receive ho_udp_context
                   (host_register host IPPROTO_TCP PH_tcp_receive ho_tcp_context
                   (\<lambda>w. (host, upd_host host (\<lambda>h. h\<lparr>ho_gateway_ip := gateway_ip\<rparr>) w)))))))))) w)"

definition host_add_interface :: "ptr \<Rightarrow> ptr \<Rightarrow> world \<Rightarrow> int \<times> world" where
  "host_add_interface host iface w =
     (if host = NULL \<or> iface = NULL \<or> ho_ip_stack (w_host w host) = NULL \<or>
         ho_arp_cache (w_host w host) = NULL then (- 1, w)
      else if int (dv_iface_count (w_dev w host)) \<ge> dv_iface_max (w_dev w host) then (- 1, w)
      else
        let (r, w) = device_add_interface host iface w in
        if r \<noteq> 0 then (- 1, w)
        else
          let w = interface_set_arp_cache iface (ho_arp_cache (w_host w host)) w;
              (_, w) = ip_stack_bind_interface (ho_ip_stack (w_host w host)) iface w
          in (0, w))"

definition host_receive :: "app \<Rightarrow> ptr \<Rightarrow> ptr \<Rightarrow> ptr \<Rightarrow> u16 \<Rightarrow> world \<Rightarrow> int \<times> world" where
  "host_receive A host iface pkt ethertype w =
     (if host = NULL \<or> iface = NULL \<or> pkt = NULL \<or> ho_ip_stack (w_host w host) = NULL then (- 1, w)
      else if ethertype \<noteq> ETHERTYPE_IPV4 then (- 1, packet_free pkt w)
      else ip_receive A iface pkt ethertype (ho_ip_stack (w_host w host)) w)"

definition host_send_ip :: "ptr \<Rightarrow> u32 \<Rightarrow> u32 \<Rightarrow> u8 \<Rightarrow> ptr \<Rightarrow> world \<Rightarrow> int \<times> world" where
  "host_send_ip host src_ip dst_ip protocol payload w =
     (if host = NULL \<or> ho_sim (w_host w host) = NULL then (- 1, w)
      else if payload = NULL then (- 1, w)
      else if src_ip = 0 \<or> dst_ip = 0 then (- 1, w)
      else ip_output (ho_sim (w_host w host)) src_ip dst_ip protocol payload w)"

end
