(* ===== verification/Switch_Ops.thy ===== *)
theory Switch_Ops
  imports Ethernet
begin

text \<open>
  The learning switch (\<open>network/switch.h\<close>, \<open>network/switch.c\<close>): learn the source address, flood
  broadcasts and unknown destinations to the other ports, forward known ones, and age the MAC
  table with an event that schedules itself again.
\<close>

abbreviation (input) SW_MAX_PORTS :: nat where "SW_MAX_PORTS \<equiv> 48"
abbreviation (input) SW_AGE_INTERVAL :: u64 where "SW_AGE_INTERVAL \<equiv> 30000"

definition set_mac_tbl :: "ptr \<Rightarrow> MacTable option \<Rightarrow> world \<Rightarrow> world" where
  "set_mac_tbl sw t w = (case t of None \<Rightarrow> w | Some t \<Rightarrow> upd_switch sw (\<lambda>s. s\<lparr>sw_mac_tbl := t\<rparr>) w)"

definition mac_age_handler :: "Event \<Rightarrow> ptr \<Rightarrow> world \<Rightarrow> world" where
  "mac_age_handler e ctx w =
     (let sw = ctx; sim = sw_sim (w_switch w sw); sched = sm_sched (w_sim w sim) in
      if sw = NULL \<or> sim = NULL \<or> sched = NULL then w
      else
        let w = set_mac_tbl sw (mac_table_age (Some (sw_mac_tbl (w_switch w sw))) (sc_now (w_sched w sched))) w;
            (next, w) = event_create_callback EVT_MAC_AGE (sc_now (w_sched w sched) + SW_AGE_INTERVAL)
                          NULL NULL NULL None CB_mac_age_handler sw w
        in if next = None then w
           else
             let (r, w) = scheduler_schedule sched next w
             in if r \<noteq> 0 then event_free next w else w)"

definition switch_create :: "string option \<Rightarrow> ptr \<Rightarrow> world \<Rightarrow> ptr \<times> world" where
  "switch_create name sim w =
     (if name = None \<or> sim = NULL then (NULL, w)
      else
        let (sw, w) = malloc w in
        if sw = NULL then (NULL, w)
        else
          let (dev, w) = device_create name (int SW_MAX_PORTS) w in
          if dev = NULL then (NULL, free_block sw w)
          else
            let w = upd_dev sw (\<lambda>_. w_dev w dev) w;
                w = free_block dev w;
                w = upd_switch sw (\<lambda>_. \<lparr>sw_mac_tbl = mac_table_zero, sw_port_count = 0, sw_sim = sim\<rparr>) w;
                w = set_mac_tbl sw (mac_table_init (Some (sw_mac_tbl (w_switch w sw)))) w;
                sched = sm_sched (w_sim w sim);
                (age_event, w) = event_create_callback EVT_MAC_AGE (sc_now (w_sched w sched) + SW_AGE_INTERVAL)
                                   NULL NULL NULL None CB_mac_age_handler sw w;
                (r, w) = (if age_event = None then (- 1, w) else scheduler_schedule sched age_event w)
            in if r \<noteq> 0 then (NULL, device_free sw (event_free age_event w))
               else (sw, w))"

definition switch_free :: "ptr \<Rightarrow> world \<Rightarrow> world" where
  "switch_free sw w = (if sw = NULL then w else device_free sw w)"

definition switch_add_port :: "ptr \<Rightarrow> ptr \<Rightarrow> world \<Rightarrow> int \<times> world" where
  "switch_add_port sw iface w =
     (if sw = NULL \<or> iface = NULL \<or> sw_port_count (w_switch w sw) \<ge> SW_MAX_PORTS then (- 1, w)
      else
        let (res, w) = device_add_interface sw iface w in
        if res = 0 then
          let w = interface_set_rx_handler iface RX_switch_rx_shim sw w;
              w = interface_set_up iface 1 w;
              w = upd_switch sw (\<lambda>s. s\<lparr>sw_port_count := dv_iface_count (w_dev w sw)\<rparr>) w
          in (res, w)
        else (res, w))"

text \<open>The flooding loop; it stops when a clone cannot be allocated.\<close>

fun flood_loop :: "ptr \<Rightarrow> ptr \<Rightarrow> ptr \<Rightarrow> mac \<Rightarrow> u16 \<Rightarrow> ptr list \<Rightarrow> world \<Rightarrow> world" where
  "flood_loop sw in_port frame dst_mac ethertype [] w = w"
| "flood_loop sw in_port frame dst_mac ethertype (out_port # ports) w =
     (if out_port \<noteq> in_port \<and> interface_is_up out_port w \<noteq> 0 \<and> if_link (w_iface w out_port) \<noteq> NULL
      then
        let (pkt_clone, w) = packet_clone frame w in
        if pkt_clone \<noteq> NULL
        then
          let (_, w) = ethernet_send (sw_sim (w_switch w sw)) out_port (Some dst_mac) ethertype pkt_clone w
          in flood_loop sw in_port frame dst_mac ethertype ports w
        else upd_iface in_port (\<lambda>i. i\<lparr>if_rx_errors := if_rx_errors i + 1\<rparr>) w
      else flood_loop sw in_port frame dst_mac ethertype ports w)"

definition switch_receive :: "ptr \<Rightarrow> ptr \<Rightarrow> ptr \<Rightarrow> u16 \<Rightarrow> world \<Rightarrow> world" where
  "switch_receive sw in_port frame ethertype w =
     (if sw = NULL \<or> in_port = NULL \<or> frame = NULL then w
      else if interface_is_up in_port w = 0 then packet_free frame w
      else if pk_data (w_pkt w frame) < ETH_HDR_LEN
      then upd_iface in_port (\<lambda>i. i\<lparr>if_rx_errors := if_rx_errors i + 1\<rparr>) (packet_free frame w)
      else
        let eth_hdr = eth_at (pk_before (w_pkt w frame) ETH_HDR_LEN);
            src_mac = eth_src_mac eth_hdr;
            dst_mac = eth_dst_mac eth_hdr;
            (entry, t) = mac_table_learn (Some (sw_mac_tbl (w_switch w sw))) (Some src_mac) in_port
                           (simulator_now (sw_sim (w_switch w sw)) w);
            w = set_mac_tbl sw t w
        in if entry = None
           then packet_free frame (upd_iface in_port (\<lambda>i. i\<lparr>if_rx_dropped := if_rx_dropped i + 1\<rparr>) w)
           else
             let egress = mac_table_lookup (Some (sw_mac_tbl (w_switch w sw))) (Some dst_mac)
             in if dst_mac = ETH_BROADCAST \<or> egress = NULL
                then
                  let ports = take (sw_port_count (w_switch w sw)) (dv_interfaces (w_dev w sw));
                      w = flood_loop sw in_port frame dst_mac ethertype ports w
                  in packet_free frame w
                else if egress \<noteq> NULL \<and> egress \<noteq> in_port \<and> interface_is_up egress w \<noteq> 0
                then snd (ethernet_send (sw_sim (w_switch w sw)) egress (Some dst_mac) ethertype frame w)
                else packet_free frame (upd_iface in_port (\<lambda>i. i\<lparr>if_rx_dropped := if_rx_dropped i + 1\<rparr>) w))"

definition switch_rx_shim :: "ptr \<Rightarrow> ptr \<Rightarrow> u16 \<Rightarrow> ptr \<Rightarrow> world \<Rightarrow> world" where
  "switch_rx_shim iface pkt ethertype ctx w =
     (if ctx = NULL \<or> iface = NULL \<or> pkt = NULL then w else switch_receive ctx iface pkt ethertype w)"

definition switch_port_down :: "ptr \<Rightarrow> ptr \<Rightarrow> world \<Rightarrow> world" where
  "switch_port_down sw port w =
     (if sw = NULL \<or> port = NULL then w
      else
        let w = interface_set_up port 0 w
        in set_mac_tbl sw (mac_table_flush_port (Some (sw_mac_tbl (w_switch w sw))) port) w)"

definition switch_get_port_by_name :: "ptr \<Rightarrow> string option \<Rightarrow> world \<Rightarrow> ptr" where
  "switch_get_port_by_name sw name w =
     (if sw = NULL \<or> name = None then NULL else device_get_interface_by_name sw name w)"

end
