(* ===== verification/Engine.thy ===== *)
theory Engine
  imports Host_Ops Switch_Ops
begin

text \<open>
  The dispatch of events: the receive event of an interface (\<open>ethernet_receive_event\<close> of
  \<open>protocols/ethernet.c\<close>), the call of an event's handler or of the fallback handler, and the run
  loops of the scheduler and the simulator (\<open>engine/scheduler.c\<close>, \<open>engine/simulator.c\<close>). A run
  that may never end is a partial function: \<open>None\<close> when it does not return.
\<close>

section \<open>Dispatch\<close>

definition call_rx_handler :: "app \<Rightarrow> RxHandler \<Rightarrow> ptr \<Rightarrow> ptr \<Rightarrow> u16 \<Rightarrow> ptr \<Rightarrow> world \<Rightarrow> world" where
  "call_rx_handler A h iface frame ethertype ctx w =
     (case h of
        RX_NULL \<Rightarrow> w
      | RX_ip_rx_shim \<Rightarrow> ip_rx_shim A iface frame ethertype ctx w
      | RX_switch_rx_shim \<Rightarrow> switch_rx_shim iface frame ethertype ctx w
      | RX_app n \<Rightarrow> app_rx A n iface frame ethertype ctx w)"

definition ethernet_receive_event :: "app \<Rightarrow> Event \<Rightarrow> ptr \<Rightarrow> world \<Rightarrow> world" where
  "ethernet_receive_event A e ctx w =
     (let iface = ev_dst_device e; frame = ev_packet e in
      if iface = NULL \<or> frame = NULL then w
      else
        let (result, ethertype, w) = ethernet_receive iface frame (Some 0) w in
        if result = 0 then
          let w = upd_iface iface (\<lambda>i. i\<lparr>if_last_rx_time := ev_timestamp e\<rparr>) w;
              i = w_iface w iface
          in if if_rx_handler i \<noteq> RX_NULL
             then call_rx_handler A (if_rx_handler i) iface frame (the ethertype) (if_handler_ctx i) w
             else w
        else if result = 1 then upd_iface iface (\<lambda>i. i\<lparr>if_rx_dropped := if_rx_dropped i + 1\<rparr>) w
        else upd_iface iface (\<lambda>i. i\<lparr>if_rx_errors := if_rx_errors i + 1,
                                  if_last_error_time := ev_timestamp e\<rparr>) w)"

definition call_event :: "app \<Rightarrow> EventCallback \<Rightarrow> Event \<Rightarrow> ptr \<Rightarrow> world \<Rightarrow> world" where
  "call_event A h e ctx w =
     (case h of
        CB_NULL \<Rightarrow> w
      | CB_ethernet_receive_event \<Rightarrow> ethernet_receive_event A e ctx w
      | CB_arp_request_handler \<Rightarrow> arp_request_handler e ctx w
      | CB_arp_reply_handler \<Rightarrow> arp_reply_handler e ctx w
      | CB_mac_age_handler \<Rightarrow> mac_age_handler e ctx w
      | CB_tcp_retransmit_handler \<Rightarrow> tcp_retransmit_handler e ctx w
      | CB_tcp_time_wait_handler \<Rightarrow> tcp_time_wait_handler e ctx w
      | CB_app n \<Rightarrow> app_event A n e ctx w)"

section \<open>The scheduler's loop\<close>

definition scheduler_step :: "app \<Rightarrow> ptr \<Rightarrow> world \<Rightarrow> int \<times> world" where
  "scheduler_step A s w =
     (case event_queue_pop (sc_eq (w_sched w s)) of
        (None, q) \<Rightarrow> (0, upd_sched s (\<lambda>k. k\<lparr>sc_eq := q\<rparr>) w)
      | (Some e, q) \<Rightarrow>
          let w = upd_sched s (\<lambda>k. k\<lparr>sc_eq := q\<rparr>) w;
              w = (if ev_timestamp e > sc_now (w_sched w s)
                   then upd_sched s (\<lambda>k. k\<lparr>sc_now := ev_timestamp e\<rparr>) w else w);
              w = (if ev_handler e \<noteq> CB_NULL then call_event A (ev_handler e) e (ev_handler_ctx e) w
                   else if evt_in_range (ev_type e)
                   then
                     let (fn, hctx) = sc_handlers (w_sched w s) (ev_type e)
                     in if fn \<noteq> CB_NULL then call_event A fn e hctx w else w
                   else w)
          in (1, event_free (Some e) w))"

partial_function (option) scheduler_loop :: "app \<Rightarrow> ptr \<Rightarrow> world \<Rightarrow> world option" where
  "scheduler_loop A s w =
     (let (r, w') = scheduler_step A s w
      in if r = 1 \<and> sc_running (w_sched w' s) = 1 then scheduler_loop A s w' else Some w')"

definition scheduler_run :: "app \<Rightarrow> ptr \<Rightarrow> world \<Rightarrow> (int \<times> world) option" where
  "scheduler_run A s w =
     map_option (\<lambda>w. (0, upd_sched s (\<lambda>k. k\<lparr>sc_running := 0\<rparr>) w))
       (scheduler_loop A s (upd_sched s (\<lambda>k. k\<lparr>sc_running := 1\<rparr>) w))"

section \<open>The simulator's loop\<close>

text \<open>One iteration: a step, and the two tests that clear the running flag.\<close>

definition sim_iter :: "app \<Rightarrow> ptr \<Rightarrow> world \<Rightarrow> world" where
  "sim_iter A sim w =
     (let (step_state, w) = scheduler_step A (sm_sched (w_sim w sim)) w;
          w = (if step_state = 0
               then upd_sched (sm_sched (w_sim w sim)) (\<lambda>k. k\<lparr>sc_running := 0\<rparr>) w else w)
      in if sm_end_time (w_sim w sim) > 0 \<and>
            sc_now (w_sched w (sm_sched (w_sim w sim))) \<ge> sm_end_time (w_sim w sim)
         then upd_sched (sm_sched (w_sim w sim)) (\<lambda>k. k\<lparr>sc_running := 0\<rparr>) w else w)"

partial_function (option) sim_loop :: "app \<Rightarrow> ptr \<Rightarrow> world \<Rightarrow> world option" where
  "sim_loop A sim w =
     (if sc_running (w_sched w (sm_sched (w_sim w sim))) = 1
      then sim_loop A sim (sim_iter A sim w) else Some w)"

definition simulator_run :: "app \<Rightarrow> ptr \<Rightarrow> world \<Rightarrow> (int \<times> world) option" where
  "simulator_run A sim w =
     map_option (\<lambda>w. (0, w))
       (sim_loop A sim (upd_sched (sm_sched (w_sim w sim)) (\<lambda>k. k\<lparr>sc_running := 1\<rparr>) w))"

definition simulator_step :: "app \<Rightarrow> ptr \<Rightarrow> world \<Rightarrow> int \<times> world" where
  "simulator_step A sim w =
     (if sim = NULL then (- 1, w) else scheduler_step A (sm_sched (w_sim w sim)) w)"

definition simulator_free :: "ptr \<Rightarrow> world \<Rightarrow> world" where
  "simulator_free sim w =
     (if sim = NULL then w
      else
        let w = scheduler_free (sm_sched (w_sim w sim)) w;
            w = topology_free (sm_topo (w_sim w sim)) w
        in free_block sim w)"

end
