(* ===== verification/Ownership.thy ===== *)
theory Ownership
  imports Engine
begin

text \<open>
  Who owns a packet. A packet on the heap is two blocks, the structure and its buffer. The send
  path never frees a block that was allocated before the call: on failure the caller still owns
  its packet. The receive handlers consume theirs: exactly its two blocks are freed, once.
\<close>

section \<open>Owned packets\<close>

definition owned :: "world \<Rightarrow> ptr \<Rightarrow> bool" where
  "owned w p \<longleftrightarrow> p \<in> w_live w \<and> pk_head (w_pkt w p) \<in> w_live w \<and> pk_head (w_pkt w p) \<noteq> p"

text \<open>Nothing allocated before is freed, freed twice or loses its buffer.\<close>

definition keeps :: "world \<Rightarrow> world \<Rightarrow> bool" where
  "keeps w w' \<longleftrightarrow>
     mem_ok w' \<and> w_live w \<subseteq> w_live w' \<and> w_bad_free w' = w_bad_free w \<and> w_brk w \<le> w_brk w' \<and>
     (\<forall>q. q < w_brk w \<longrightarrow> pk_head (w_pkt w' q) = pk_head (w_pkt w q))"

text \<open>A packet that the call allocated.\<close>

definition fresh_packet :: "world \<Rightarrow> ptr \<Rightarrow> world \<Rightarrow> bool" where
  "fresh_packet w p w' \<longleftrightarrow> p \<notin> w_live w \<and> pk_head (w_pkt w' p) \<notin> w_live w \<and> owned w' p"

text \<open>Exactly the packet and its buffer are freed.\<close>

definition consumes :: "ptr \<Rightarrow> world \<Rightarrow> world \<Rightarrow> bool" where
  "consumes p w w' \<longleftrightarrow>
     mem_ok w' \<and> p \<notin> w_live w' \<and> pk_head (w_pkt w p) \<notin> w_live w' \<and>
     w_live w - {p, pk_head (w_pkt w p)} \<subseteq> w_live w' \<and> w_bad_free w' = w_bad_free w"

lemma keeps_refl: "mem_ok w \<Longrightarrow> keeps w w"
  by (simp add: keeps_def)

lemma keeps_trans: "keeps w w1 \<Longrightarrow> keeps w1 w2 \<Longrightarrow> keeps w w2"
  by (auto simp: keeps_def)

lemma keeps_mem: "keeps w w' \<Longrightarrow> mem_ok w'"
  by (simp add: keeps_def)

lemma keeps_upd [intro]:
  "keeps w x \<Longrightarrow> keeps w (upd_iface p f x)"
  "keeps w x \<Longrightarrow> keeps w (upd_sched p f1 x)"
  "keeps w x \<Longrightarrow> keeps w (set_arp p c x)"
  "keeps w x \<Longrightarrow> keeps w (upd_tcp p f2 x)"
  "keeps w x \<Longrightarrow> keeps w (set_tcp p t x)"
  by (simp_all add: keeps_def mem_ok_def)

lemma keeps_upd_pkt [intro]:
  "keeps w x \<Longrightarrow> p \<noteq> 0 \<Longrightarrow> pk_head (f (w_pkt x p)) = pk_head (w_pkt x p) \<Longrightarrow> keeps w (upd_pkt p f x)"
  by (simp add: keeps_def mem_ok_def)

lemma keeps_counters [intro]:
  "keeps w x \<Longrightarrow> keeps w (rx_error i x)" "keeps w x \<Longrightarrow> keeps w (rx_drop i x)"
  "keeps w x \<Longrightarrow> keeps w (tx_error i x)" "keeps w x \<Longrightarrow> keeps w (eth_tx_error s i x)"
  by (auto simp: rx_error_def rx_drop_def tx_error_def eth_tx_error_def)

lemma owned_keeps:
  assumes "mem_ok w" "owned w p" "keeps w w'"
  shows "owned w' p" "pk_head (w_pkt w' p) = pk_head (w_pkt w p)"
proof -
  have "p < w_brk w" using mem_okD [OF assms(1)] assms(2) by (simp add: owned_def)
  then show "pk_head (w_pkt w' p) = pk_head (w_pkt w p)" using assms(3) by (simp add: keeps_def)
  then show "owned w' p" using assms(2,3) by (auto simp: owned_def keeps_def)
qed

lemma packet_free_owned:
  assumes "mem_ok w" "owned w p"
  shows "packet_free p w = w\<lparr>w_live := w_live w - {p, pk_head (w_pkt w p)}\<rparr>"
  using assms mem_okD [OF assms(1), of p] mem_okD [OF assms(1), of "pk_head (w_pkt w p)"]
  by (auto simp: packet_free_def free_block_def owned_def Diff_insert2 [symmetric] insert_commute
      intro!: arg_cong [where f = "\<lambda>s. w\<lparr>w_live := s\<rparr>"])

lemma consumes_free:
  assumes "mem_ok w" "owned w p" "keeps w w'"
  shows "consumes p w (packet_free p w')"
proof -
  note ow = owned_keeps [OF assms]
  have eq: "packet_free p w' = w'\<lparr>w_live := w_live w' - {p, pk_head (w_pkt w p)}\<rparr>"
    using packet_free_owned [OF keeps_mem [OF assms(3)] ow(1)] ow(2) by simp
  show ?thesis
    using assms(3) unfolding consumes_def eq by (auto simp: keeps_def mem_ok_def)
qed

lemma consumes_then [intro]:
  "consumes p w x \<Longrightarrow> consumes p w (rx_error i x)" "consumes p w x \<Longrightarrow> consumes p w (rx_drop i x)"
  "consumes p w x \<Longrightarrow> consumes p w (tx_error i x)"
  by (simp_all add: consumes_def rx_error_def rx_drop_def tx_error_def mem_ok_def)

text \<open>Freeing what the call itself allocated is no loss to the caller.\<close>

lemma keeps_free_fresh:
  assumes "keeps w x" "p \<in> w_live x" "p \<notin> w_live w"
  shows "keeps w (free_block p x)"
  using assms mem_okD [OF keeps_mem [OF assms(1)] assms(2)]
  by (auto simp: free_block_def keeps_def mem_ok_def)

lemma keeps_packet_free_fresh:
  assumes "keeps w x" "fresh_packet w p x"
  shows "keeps w (packet_free p x)"
proof -
  have eq: "packet_free p x = x\<lparr>w_live := w_live x - {p, pk_head (w_pkt x p)}\<rparr>"
    using packet_free_owned [OF keeps_mem [OF assms(1)]] assms(2) by (simp add: fresh_packet_def)
  show ?thesis
    using assms unfolding eq by (auto simp: keeps_def fresh_packet_def mem_ok_def)
qed

lemma fresh_packet_keeps:
  assumes "keeps w x" "fresh_packet w p x" "keeps x y"
  shows "fresh_packet w p y"
  using owned_keeps [OF keeps_mem [OF assms(1)] _ assms(3), of p] assms(2) by (simp add: fresh_packet_def)

section \<open>Allocation\<close>

lemma malloc_mem:
  assumes "mem_ok w" "malloc w = (p, w')"
  shows "keeps w w'" "p \<noteq> 0 \<Longrightarrow> p \<notin> w_live w" "p \<noteq> 0 \<Longrightarrow> p \<in> w_live w'" "w_pkt w' = w_pkt w"
    "p \<noteq> 0 \<Longrightarrow> p = w_brk w \<and> w_live w' = insert p (w_live w) \<and> w_brk w' = Suc (w_brk w)"
    "p = 0 \<Longrightarrow> w_live w' = w_live w \<and> w_brk w' = w_brk w" "w_junk w' = w_junk w" "w_next_id w' = w_next_id w"
  using assms mem_ok_brk [OF assms(1)]
  by (auto simp: malloc_def Let_def keeps_def mem_ok_def less_Suc_eq split: if_splits)

lemma packet_create_mem:
  assumes "mem_ok w" "packet_create n w = (p, w')"
  shows "keeps w w'" "p \<noteq> 0 \<Longrightarrow> fresh_packet w p w'"
proof -
  obtain a w1 where m1: "malloc w = (a, w1)" by fastforce
  note mm1 = malloc_mem [OF assms(1) m1]
  obtain h w2 where m2: "malloc w1 = (h, w2)" by fastforce
  note mm2 = malloc_mem [OF keeps_mem [OF mm1(1)] m2]
  note k2 = keeps_trans [OF mm1(1) mm2(1)]
  have "keeps w w' \<and> (p \<noteq> 0 \<longrightarrow> fresh_packet w p w')"
  proof (cases "a = 0 \<or> h = 0")
    case True
    have "keeps w (free_block a w2)" if "a \<noteq> 0"
      using that mm1 mm2(1) by (intro keeps_free_fresh [OF k2]) (auto simp: keeps_def)
    then show ?thesis
      using True assms(2) m1 m2 mm1(1) by (auto simp: packet_create_def Let_def split: if_splits)
  next
    case False
    then have ah: "a = w_brk w" "h = Suc a" "w_live w2 = insert h (insert a (w_live w))"
      "w_brk w2 = Suc h" using mm1 mm2 by auto
    have w': "w' = (upd_pkt a (\<lambda>_. packet_fresh h (w_junk w2 h) n (w_next_id w2)) w2)\<lparr>w_next_id := w_next_id w2 + 1\<rparr>" "p = a"
      using False assms(2) m1 m2 by (auto simp: packet_create_def Let_def)
    have "fresh_packet w p w'"
      using ah w' mem_ok_brk [OF assms(1)] mem_okD [OF assms(1)]
      by (auto simp: fresh_packet_def owned_def packet_fresh_def dest: Suc_lessD)
    moreover have "keeps w w'"
      using k2 ah w' by (auto simp: keeps_def mem_ok_def)
    ultimately show ?thesis by simp
  qed
  then show "keeps w w'" "p \<noteq> 0 \<Longrightarrow> fresh_packet w p w'" by auto
qed

lemma keeps_write_fresh:
  assumes "keeps w x" "fresh_packet w p x" "\<And>k. pk_head (f k) = pk_head k"
  shows "keeps w (upd_pkt p f x)" "fresh_packet w p (upd_pkt p f x)" "keeps x (upd_pkt p f x)"
  using assms keeps_mem [OF assms(1)] by (auto simp: keeps_def fresh_packet_def owned_def mem_ok_def)

lemma pkt_write_head [simp]: "pk_head (pkt_write off bs k) = pk_head k"
  by (simp add: pkt_write_def)

lemma packet_clone_update:
  assumes "packet_clone q w = (p, w')" "packet_create (pk_len (w_pkt w q)) w = (a, w1)" "a \<noteq> 0"
  shows "p = a \<and> (\<exists>f. w' = upd_pkt a f w1 \<and> (\<forall>k. pk_head (f k) = pk_head k))"
proof -
  have upd2: "upd_pkt a f (upd_pkt a g x) = upd_pkt a (\<lambda>k. f (g k)) x" for f g and x :: world
    by (simp add: upd_pkt_def)
  show ?thesis
    using assms(1) unfolding packet_clone_def Let_def
    by (simp only: assms(2,3) prod.case if_False upd2 prod.inject, elim conjE, hypsubst)
       (rule conjI, rule refl, rule exI, rule conjI, rule refl, simp)
qed

lemma packet_clone_mem:
  assumes "mem_ok w" "packet_clone q w = (p, w')"
  shows "keeps w w'" "p \<noteq> 0 \<Longrightarrow> fresh_packet w p w'"
proof -
  obtain a w1 where c: "packet_create (pk_len (w_pkt w q)) w = (a, w1)" by fastforce
  note cm = packet_create_mem [OF assms(1) c]
  show "keeps w w'" "p \<noteq> 0 \<Longrightarrow> fresh_packet w p w'"
  proof -
    show "keeps w w'"
    proof (cases "a = 0")
      case True
      then show ?thesis using assms(2) c cm by (simp add: packet_clone_def)
    next
      case False
      then show ?thesis using packet_clone_update [OF assms(2) c False] keeps_write_fresh(1) cm by metis
    qed
    assume p: "p \<noteq> 0"
    have a: "a \<noteq> 0"
    proof
      assume "a = 0"
      then show False using assms(2) c p by (simp add: packet_clone_def)
    qed
    then show "fresh_packet w p w'"
      using packet_clone_update [OF assms(2) c a] keeps_write_fresh(2) cm by metis
  qed
qed

lemma event_create_mem:
  assumes "mem_ok w" "event_create_callback ty ts src dst pk d h c w = (e, w')"
  shows "keeps w w'" "e = Some ev \<Longrightarrow> ev_self ev \<in> w_live w' \<and> ev_self ev \<notin> w_live w"
proof -
  obtain p w1 where m: "malloc w = (p, w1)" by fastforce
  note mm = malloc_mem [OF assms(1) m]
  have w': "w' = w1" "e = Some ev \<Longrightarrow> p \<noteq> 0 \<and> ev_self ev = p"
    using assms(2) m by (auto simp: event_create_callback_def Let_def split: if_splits)
  show "keeps w w'" using w'(1) mm(1) by simp
  show "e = Some ev \<Longrightarrow> ev_self ev \<in> w_live w' \<and> ev_self ev \<notin> w_live w"
    using w' mm(2,3) by simp
qed

lemma schedule_mem:
  assumes "mem_ok w" "scheduler_schedule s e w = (r, w')"
  shows "keeps w w'"
proof -
  have "keeps w (snd (scheduler_schedule s e w))"
    using assms(1) by (auto simp: scheduler_schedule_def Let_def split_def realloc_def keeps_def mem_ok_def
        split: option.split)
  then show ?thesis using assms(2) by simp
qed

section \<open>The send path\<close>

lemma link_transmit_keeps:
  assumes "mem_ok w" "link_transmit link pkt src sched now h c w = (r, w')"
  shows "keeps w w'"
proof -
  obtain cl w1 where c1: "packet_clone pkt w = (cl, w1)" by fastforce
  note cm = packet_clone_mem [OF assms(1) c1]
  obtain e w2 where c2: "event_create_callback EVT_PACKET_RECEIVE (now + ucast (ln_delay_ms (w_link w1 link))) src
      (link_get_other_interface link src w) cl None h c w1 = (e, w2)" by fastforce
  note em = event_create_mem [OF keeps_mem [OF cm(1)] c2]
  obtain r3 w3 where c3: "scheduler_schedule sched e w2 = (r3, w3)" by fastforce
  note sm = schedule_mem [OF keeps_mem [OF em(1)] c3]
  note k2 = keeps_trans [OF cm(1) em(1)]
  note k3 = keeps_trans [OF k2 sm]
  have fresh2: "fresh_packet w cl w2" "fresh_packet w cl w3" if "cl \<noteq> 0"
    using that cm fresh_packet_keeps [OF cm(1) cm(2) em(1)] fresh_packet_keeps [OF cm(1) cm(2) keeps_trans [OF em(1) sm]]
    by auto
  have undo: "keeps w (event_free e (packet_free cl w3))" if ncl: "cl \<noteq> 0" and some: "e \<noteq> None"
  proof -
    obtain ev where ev: "e = Some ev" using some by blast
    have "ev_self ev \<in> w_live w3" "ev_self ev \<notin> w_live w1"
      using em(2) [OF ev] sm by (auto simp: keeps_def)
    moreover have "cl \<in> w_live w1" "pk_head (w_pkt w1 cl) \<in> w_live w1"
      using cm(2) [OF ncl] by (auto simp: fresh_packet_def owned_def)
    moreover have "pk_head (w_pkt w3 cl) = pk_head (w_pkt w1 cl)"
      using owned_keeps(2) [OF keeps_mem [OF cm(1)] _ keeps_trans [OF em(1) sm]] cm(2) [OF ncl]
      by (simp add: fresh_packet_def)
    moreover have "packet_free cl w3 = w3\<lparr>w_live := w_live w3 - {cl, pk_head (w_pkt w3 cl)}\<rparr>"
      using packet_free_owned [OF keeps_mem [OF k3]] fresh2(2) [OF ncl] by (simp add: fresh_packet_def)
    moreover have "w_live w \<subseteq> w_live w1" using cm(1) by (simp add: keeps_def)
    ultimately have "ev_self ev \<in> w_live (packet_free cl w3)" "ev_self ev \<notin> w_live w" by auto
    then show ?thesis
      using keeps_free_fresh [OF keeps_packet_free_fresh [OF k3 fresh2(2) [OF ncl]]] ev
      by (simp add: event_free_def)
  qed
  show ?thesis
    using assms(2) c1 c2 c3 keeps_refl [OF assms(1)] cm(1) k2 k3 fresh2 undo keeps_packet_free_fresh
    unfolding link_transmit_def by (auto simp: Let_def split: if_splits)
qed

lemma keeps_prepend:
  assumes "mem_ok w" "p \<noteq> 0" "pkt_prepend p h n w = (r, w')"
  shows "keeps w w'" "w_live w' = w_live w"
proof -
  have "pk_head (snd (packet_prepend (w_pkt w p) h n)) = pk_head (w_pkt w p)" by simp
  then show "keeps w w'" "w_live w' = w_live w"
    using assms keeps_upd_pkt [OF keeps_refl [OF assms(1)] assms(2), of "\<lambda>_. snd (packet_prepend (w_pkt w p) h n)"]
    by (auto simp: pkt_prepend_def split_def Let_def)
qed

lemma ethernet_send_keeps:
  assumes "mem_ok w" "ethernet_send sim iface dst et payload w = (r, w')"
  shows "keeps w w'"
proof (cases "dst = None \<or> sim = 0 \<or> iface = 0 \<or> payload = 0 \<or> if_state (w_iface w iface) = IFACE_ERR_DISABLED")
  case True
  then show ?thesis using assms keeps_refl by (auto simp: ethernet_send_def split: option.splits if_splits)
next
  case False
  then obtain d where d: "dst = Some d" by auto
  have nz: "sim \<noteq> 0" "iface \<noteq> 0" "payload \<noteq> 0" "if_state (w_iface w iface) \<noteq> IFACE_ERR_DISABLED"
    using False by auto
  obtain h w1 where m: "malloc w = (h, w1)" by fastforce
  note mm = malloc_mem [OF assms(1) m]
  define hdr where "hdr = eth_bytes \<lparr>eth_dst_mac = d, eth_src_mac = if_mac (w_iface w1 iface), eth_ethertype = ns_htons et\<rparr>"
  obtain r2 w2 where pp: "pkt_prepend payload hdr 14 w1 = (r2, w2)" by fastforce
  note pm = keeps_prepend [OF keeps_mem [OF mm(1)] _ pp]
  show ?thesis
  proof (cases "h = 0")
    case True
    then show ?thesis
      using assms(2) False d m mm(1) by (auto simp: ethernet_send_def)
  next
    case h: False
    have k3: "keeps w (free_block h w2)"
      using h mm pm False by (intro keeps_free_fresh keeps_trans [OF mm(1) pm(1)]) auto
    show ?thesis
    proof (cases "r2 = - 1")
      case True
      then show ?thesis
        using assms(2) False d m h pp k3 by (auto simp: ethernet_send_def hdr_def)
    next
      case ok: False
      define w4 where "w4 = upd_pkt payload (\<lambda>k. k\<lparr>pk_layer := 2\<rparr>)
        (upd_iface iface (\<lambda>i. i\<lparr>if_last_tx_time := simulator_now sim (upd_iface iface (\<lambda>i. i\<lparr>if_tx_bytes := if_tx_bytes i
           + of_nat (pk_len (w_pkt (free_block h w2) payload))\<rparr>) (free_block h w2))\<rparr>)
        (upd_iface iface (\<lambda>i. i\<lparr>if_tx_bytes := if_tx_bytes i + of_nat (pk_len (w_pkt (free_block h w2) payload))\<rparr>) (free_block h w2)))"
      have k4: "keeps w w4" unfolding w4_def using k3 False by (intro keeps_upd_pkt keeps_upd) auto
      have "link_transmit (if_link (w_iface w4 iface)) payload iface (sm_sched (w_sim w4 sim))
          (simulator_now sim w4) CB_ethernet_receive_event sim w4 = (r, w')"
        using assms(2) unfolding ethernet_send_def w4_def Let_def d
        by (simp only: option.case prod.case if_False simp_thms nz m h pp [unfolded hdr_def] ok)
      then show ?thesis using keeps_trans [OF k4] link_transmit_keeps [OF keeps_mem [OF k4]] by blast
    qed
  qed
qed

lemma arp_send_request_keeps:
  assumes "mem_ok w" "arp_send_request sim iface target w = (r, w')"
  shows "keeps w w'"
proof (cases "sim = 0 \<or> iface = 0 \<or> target = 0")
  case True
  then show ?thesis using assms keeps_refl by (auto simp: arp_send_request_def)
next
  case False
  obtain p w1 where c: "packet_create 28 w = (p, w1)" by fastforce
  note cm = packet_create_mem [OF assms(1) c]
  obtain a w2 where m: "malloc w1 = (a, w2)" by fastforce
  note mm = malloc_mem [OF keeps_mem [OF cm(1)] m]
  note k2 = keeps_trans [OF cm(1) mm(1)]
  have anew: "a \<notin> w_live w" if "a \<noteq> 0" using that mm cm(1) by (auto simp: keeps_def)
  show ?thesis
  proof (cases "p = 0 \<or> a = 0")
    case True
    have kp: "keeps w (packet_free p w2)"
    proof (cases "p = 0")
      case True
      then show ?thesis using k2 by (simp add: packet_free_def)
    next
      case False
      then show ?thesis by (intro keeps_packet_free_fresh [OF k2] fresh_packet_keeps [OF cm(1) cm(2) mm(1)])
    qed
    have "keeps w (free_block a (packet_free p w2))"
    proof (cases "a = 0")
      case True
      then show ?thesis using kp by (simp add: free_block_def)
    next
      case a: False
      then have "p = 0" using True by simp
      then show ?thesis using keeps_free_fresh [OF k2] mm(3) a anew by (simp add: packet_free_def)
    qed
    then show ?thesis using assms(2) False True c m by (auto simp: arp_send_request_def)
  next
    case ok: False
    define hdr where "hdr = arp_bytes \<lparr>arp_hardware_type = ns_htons 1, arp_protocol_type = ns_htons 0x0800,
      arp_hardware_addr_len = 6, arp_protocol_addr_len = 4, arp_opcode = ns_htons 1,
      arp_sender_hardware_addr = if_mac (w_iface w2 iface), arp_sender_protocol_addr = if_ip_addr (w_iface w2 iface),
      arp_target_hardware_addr = replicate 6 0, arp_target_protocol_addr = target\<rparr>"
    obtain r3 w3 where pp: "pkt_prepend p hdr 28 w2 = (r3, w3)" by fastforce
    note pm = keeps_prepend [OF keeps_mem [OF mm(1)] _ pp]
    have k4: "keeps w (free_block a w3)"
      using ok mm(3) pm anew by (intro keeps_free_fresh keeps_trans [OF k2 pm(1)]) auto
    obtain r4 w4 where es: "ethernet_send sim iface (Some ETH_BROADCAST) 0x0806 p (free_block a w3) = (r4, w4)"
      by fastforce
    have "w' = w4"
      using assms(2) False ok c m pp es by (auto simp: arp_send_request_def hdr_def Let_def split_def)
    then show ?thesis using keeps_trans [OF k4 ethernet_send_keeps [OF keeps_mem [OF k4] es]] by simp
  qed
qed

lemma ip_send_keeps:
  assumes "mem_ok w" "ip_send sim iface dst a b pr payload w = (r, w')"
  shows "keeps w w'"
proof (cases "sim = 0 \<or> iface = 0 \<or> dst = None \<or> payload = 0")
  case True
  then show ?thesis using assms keeps_refl by (auto simp: ip_send_def)
next
  case False
  obtain r1 w1 where pp: "pkt_prepend payload (ip_bytes (ip_send_header a b pr (pk_len (w_pkt w payload)))) 20 w = (r1, w1)"
    by fastforce
  have k1: "keeps w w1" using keeps_prepend [OF assms(1) _ pp] False by simp
  have send: "keeps w v'" if "keeps w v" "ethernet_send sim iface dst 0x0800 payload v = (q, v')" for v v' q
    using keeps_trans [OF that(1) ethernet_send_keeps [OF keeps_mem [OF that(1)] that(2)]] .
  show ?thesis
  proof (cases "r1 = - 1")
    case True
    then show ?thesis using assms(2) False pp k1 by (auto simp: ip_send_def)
  next
    case ok: False
    show ?thesis
      using assms(2) False pp ok k1 unfolding ip_send_def Let_def
      by (simp only: prod.case if_False simp_thms) (elim send [rotated], intro keeps_upd keeps_upd_pkt; simp)
  qed
qed

lemma ip_output_keeps:
  assumes "mem_ok w" "ip_output sim a b pr payload w = (r, w')"
  shows "keeps w w'"
proof -
  have send: "keeps w (snd (ip_send sim i d a b pr payload w))" for i d
    using ip_send_keeps [OF assms(1)] by (metis prod.collapse)
  have req: "keeps w (snd (arp_send_request sim i t w))" for i t
    using arp_send_request_keeps [OF assms(1)] by (metis prod.collapse)
  have "keeps w (snd (ip_output sim a b pr payload w))"
    using keeps_refl [OF assms(1)] send req keeps_upd(3) [OF req]
    by (simp add: ip_output_def Let_def split_def)
  then show ?thesis using assms(2) by simp
qed

section \<open>Building a packet and sending it\<close>

definition building :: "world \<Rightarrow> ptr \<Rightarrow> world \<Rightarrow> bool" where
  "building w p x \<longleftrightarrow> keeps w x \<and> fresh_packet w p x"

lemma building_update: "building w p x \<Longrightarrow> (\<And>k. pk_head (f k) = pk_head k) \<Longrightarrow> building w p (upd_pkt p f x)"
  unfolding building_def using keeps_write_fresh by blast

lemma building_later: "building w p x \<Longrightarrow> keeps x y \<Longrightarrow> building w p y"
  unfolding building_def using keeps_trans fresh_packet_keeps by blast

lemma building_output: "building w p x \<Longrightarrow> building w p (snd (ip_output sim a b pr q x))"
  by (rule building_later, assumption, rule ip_output_keeps [of x, OF _ prod.collapse [symmetric]])
     (auto simp: building_def dest: keeps_mem)

lemma building_tx_error: "building w p x \<Longrightarrow> building w p (tx_error i x)"
  using building_later [of w p x "tx_error i x"] keeps_counters(3) [OF keeps_refl, of x i] keeps_mem
  by (auto simp: building_def)

lemma building_keeps: "building w p x \<Longrightarrow> keeps w x"
  by (simp add: building_def)

lemma building_discard: "building w p x \<Longrightarrow> keeps w (packet_free p x)"
  unfolding building_def using keeps_packet_free_fresh by blast

lemma building_create: "mem_ok w \<Longrightarrow> packet_create n w = (p, x) \<Longrightarrow> p \<noteq> 0 \<Longrightarrow> building w p x"
  unfolding building_def using packet_create_mem by blast

lemmas building_steps = building_update building_output building_tx_error

lemma icmp_echo_reply_consumes:
  assumes ok: "mem_ok w" "owned w req" and nz: "sim \<noteq> 0" "iface \<noteq> 0"
  shows "consumes req w (snd (icmp_send_echo_reply sim iface req w))"
proof -
  have req: "req \<noteq> 0" using mem_okD [OF ok(1)] ok(2) by (auto simp: owned_def)
  have reject: "consumes req w (packet_free req (tx_error iface w))"
    using consumes_free [OF ok] keeps_counters(3) [OF keeps_refl [OF ok(1)]] by blast
  obtain p x where c: "packet_create (pk_len (w_pkt w req)) w = (p, x)" by fastforce
  have fail: "consumes req w (packet_free req (tx_error iface x))"
    using consumes_free [OF ok] keeps_counters(3) [OF packet_create_mem(1) [OF ok(1) c]] by blast
  have sent: "consumes req w (packet_free req (packet_free p (tx_error iface y)))"
    "consumes req w (packet_free req y)" if "building w p y" for y
    by (rule consumes_free [OF ok building_discard [OF building_tx_error [OF that]]])
       (rule consumes_free [OF ok building_keeps [OF that]])
  show ?thesis
  proof (cases "p = 0")
    case True
    then show ?thesis
      using nz req reject fail c by (simp add: icmp_send_echo_reply_def Let_def)
  next
    case False
    note b = building_create [OF ok(1) c False]
    have out: "building w p (snd (ip_output sim a d 1 p (upd_pkt p (icmp_reply_fill (w_pkt w req)) x)))" for a d
      by (intro building_steps b) simp
    show ?thesis
      using nz req False unfolding icmp_send_echo_reply_def Let_def c
      by (simp add: split_def reject sent [OF out])
  qed
qed

lemma icmp_receive_consumes_aux:
  assumes ok: "mem_ok w" "owned w pkt" and nz: "sim \<noteq> 0" "iface \<noteq> 0"
  shows "consumes pkt w (snd (icmp_receive iface pkt sim w))"
proof -
  have p: "pkt \<noteq> 0" using mem_okD [OF ok(1)] ok(2) by (auto simp: owned_def)
  have free: "consumes pkt w (packet_free pkt (rx_error iface w))" "consumes pkt w (packet_free pkt (rx_drop iface w))"
    "consumes pkt w (packet_free pkt w)"
    using consumes_free [OF ok] keeps_counters(1,2) [OF keeps_refl [OF ok(1)]] keeps_refl [OF ok(1)] by blast+
  show ?thesis
    unfolding icmp_receive_def Let_def
    using p nz free icmp_echo_reply_consumes [OF ok nz] by simp
qed

lemma icmp_send_error_keeps:
  assumes ok: "mem_ok w"
  shows "keeps w (snd (icmp_send_error sim iface orig ty code mtu w))"
proof -
  have refl: "keeps w w" "keeps w (tx_error iface w)"
    using keeps_refl [OF ok] keeps_counters(3) [OF keeps_refl [OF ok]] by blast+
  define n where "n = (if pk_len (w_pkt w orig) < 8 then pk_len (w_pkt w orig) else 8)"
  obtain p x where c: "packet_create (8 + (20 + n)) w = (p, x)" by fastforce
  have fail: "keeps w (tx_error iface x)"
    using keeps_counters(3) [OF packet_create_mem(1) [OF ok c]] by blast
  have sent: "keeps w y" "keeps w (packet_free p (tx_error iface y))" if "building w p y" for y
    by (rule building_keeps [OF that]) (rule building_discard [OF building_tx_error [OF that]])
  show ?thesis
  proof (cases "p = 0")
    case True
    then show ?thesis
      using refl fail c unfolding icmp_send_error_def Let_def n_def [symmetric] by simp
  next
    case False
    note b = building_create [OF ok c False]
    have out: "building w p (snd (ip_output sim a d 1 p (upd_pkt p (icmp_error_fill (w_pkt w orig) ty code mtu n) x)))" for a d
      by (intro building_steps b) simp
    show ?thesis
      using refl False c unfolding icmp_send_error_def Let_def n_def [symmetric]
      by (simp add: split_def sent [OF out])
  qed
qed

end
