(* ===== verification/Buffers.thy ===== *)
theory Buffers
  imports Engine
begin

text \<open>
  The program writes packets within their buffers. \<open>bwrite\<close> lengthens a buffer when it is used
  beyond the end, so that \<open>packet_ok\<close>, with its buffer of the size that was allocated, fails after a
  write out of bounds: the lemmas here are about each place that writes into a packet.
\<close>

text \<open>A packet as \<open>packet_create\<close> leaves it.\<close>

definition fresh_pkt :: "nat \<Rightarrow> Packet \<Rightarrow> bool" where
  "fresh_pkt n k \<longleftrightarrow> pk_data k = PKT_HEADROOM \<and> pk_capacity k = n \<and> length (pk_buf k) = PKT_HEADROOM + n \<and> pk_len k = 0"

lemma fresh_pkt_fresh [simp]: "fresh_pkt n (packet_fresh h fill n i)"
  by (simp add: fresh_pkt_def packet_fresh_def)

lemma packet_create_fresh:
  "packet_create n w = (p, w') \<Longrightarrow> p = NULL \<or> fresh_pkt n (w_pkt w' p)"
  by (auto simp: packet_create_def Let_def split: prod.splits if_splits)

lemma packet_create_other: "packet_create n w = (p, w') \<Longrightarrow> q \<noteq> p \<Longrightarrow> w_pkt w' q = w_pkt w q"
  by (auto simp: packet_create_def Let_def split_def split: if_splits)

text \<open>A write of as many bytes as fit keeps the buffer and the window.\<close>

lemma pkt_write_fits:
  assumes "pk_data k + off + length bs \<le> length (pk_buf k)"
  shows "length (pk_buf (pkt_write off bs k)) = length (pk_buf k)" "pk_data (pkt_write off bs k) = pk_data k"
    "pk_len (pkt_write off bs k) = pk_len k" "pk_capacity (pkt_write off bs k) = pk_capacity k"
  using assms by (simp_all add: pkt_write_def)

lemma length_bread_le: "length (bread buf off n) \<le> n"
  by (simp add: bread_def)

lemma udp_fill_fits: "fresh_pkt (8 + n) k \<Longrightarrow> packet_ok (udp_fill sp dp pl n k)"
  by (auto simp: udp_fill_def fresh_pkt_def packet_ok_def Let_def pkt_write_fits udp.length_bytes)

lemma tcp_fill_fits: "fresh_pkt (20 + n) k \<Longrightarrow> packet_ok (tcp_fill sp dp sq ak fl pl n k)"
  by (auto simp: tcp_fill_def fresh_pkt_def packet_ok_def Let_def pkt_write_fits tcp.length_bytes)

lemma icmp_request_fits: "fresh_pkt (8 + n) k \<Longrightarrow> packet_ok (icmp_request_fill i sq pl n k)"
  by (auto simp: icmp_request_fill_def fresh_pkt_def packet_ok_def Let_def pkt_write_fits icmp.length_bytes)

lemma icmp_reply_fits: "fresh_pkt (pk_len req) k \<Longrightarrow> 8 \<le> pk_len req \<Longrightarrow> packet_ok (icmp_reply_fill req k)"
  using length_bread_le [of "pk_buf req" "pk_data req" "pk_len req"]
  by (auto simp: icmp_reply_fill_def fresh_pkt_def packet_ok_def Let_def pkt_write_fits)

lemma icmp_error_fits: "fresh_pkt (8 + (20 + q)) k \<Longrightarrow> packet_ok (icmp_error_fill orig ty c m q k)"
  using length_bread_le [of "pk_buf orig" "pk_data orig - 20" 20] length_bread_le [of "pk_buf orig" "pk_data orig" q]
  by (auto simp: icmp_error_fill_def fresh_pkt_def packet_ok_def Let_def pkt_write_fits icmp.length_bytes pk_before_def)

lemma packet_prepend_fits: "packet_ok k \<Longrightarrow> packet_ok (snd (packet_prepend k h n))"
  by (auto simp: packet_prepend_def packet_ok_def Let_def)

lemma packet_strip_fits: "packet_ok k \<Longrightarrow> packet_ok (snd (packet_strip k n))"
  by (auto simp: packet_strip_def packet_ok_def Let_def)

lemma packet_clone_fits:
  assumes "packet_clone p w = (c, w')" "c \<noteq> NULL"
  obtains w1 f where "packet_create (pk_len (w_pkt w p)) w = (c, w1)" "w' = upd_pkt c f w1"
    "packet_ok (f (w_pkt w1 c))"
proof -
  let ?n = "pk_len (w_pkt w p)"
  obtain a w1 where cr: "packet_create ?n w = (a, w1)" by fastforce
  have upd2: "upd_pkt c f (upd_pkt c g x) = upd_pkt c (\<lambda>k. f (g k)) x" for f g and x :: world
    by (simp add: upd_pkt_def)
  have a: "a = c" "c \<noteq> 0" using assms cr by (auto simp: packet_clone_def Let_def split: if_splits)
  let ?q = "w_pkt w1 p"
  let ?k = "pkt_write 0 (bread (pk_buf ?q) (pk_data ?q) (pk_len ?q)) (w_pkt w1 c)"
  let ?len = "if p = c then pk_len ?k else pk_len ?q"
  have fr: "fresh_pkt ?n (w_pkt w1 c)" using packet_create_fresh [OF cr] a by simp
  have src: "pk_len ?q \<le> ?n"
  proof (cases "p = c")
    case False
    then show ?thesis using packet_create_other [OF cr, of p] a by simp
  qed (use fr in \<open>simp add: fresh_pkt_def\<close>)
  have w': "w' = upd_pkt c (\<lambda>k. ?k\<lparr>pk_len := ?len, pk_layer := (if p = c then pk_layer ?k else pk_layer ?q)\<rparr>) w1"
    using assms(1) a cr by (auto simp: packet_clone_def Let_def upd_pkt_def)
  have "packet_ok (?k\<lparr>pk_len := ?len, pk_layer := (if p = c then pk_layer ?k else pk_layer ?q)\<rparr>)"
    using fr src length_bread_le [of "pk_buf ?q" "pk_data ?q" "pk_len ?q"]
    by (simp add: fresh_pkt_def packet_ok_def pkt_write_fits)
  then show ?thesis using that [OF _ w'] cr a by simp
qed

end
