(* ===== verification/Frame.thy ===== *)
theory Frame
  imports Buffers
begin

text \<open>
  What processing an event never touches. The locale \<open>world_relation\<close> states what a reflexive and
  transitive relation between states must allow: the elementary writes of the program (counters
  and timestamps of interfaces, packets, the allocator, the neighbour caches, connection tables,
  MAC tables) and scheduling an event less than \<open>2 ^ 32\<close> microseconds ahead. Every handler of the
  program then stays within the relation. Its part \<open>net_relation\<close> does without writes to the
  connection tables, and still covers the IP, ICMP and ARP code. The locales are interpreted for the
  wiring of the network, which no event changes, for the clock and the event queue, which gives
  causality, and for the connection tables, which the code below TCP leaves alone.
\<close>

section \<open>The interface\<close>

lemma unat_ucast_u32: "unat (ucast (d :: u32) :: u64) = unat d"
proof -
  have "unat d < 2 ^ 64" using unat_u32 [of d] by simp
  then show ?thesis by (simp add: unsigned_ucast_eq unsigned_take_bit_eq take_bit_nat_eq_self)
qed

lemma ucast_u32_less: "(ucast (d :: u32) :: u64) < 4294967296"
  using unat_u32 [of d] by (simp add: word_less_nat_alt unat_ucast_u32)

text \<open>The fields of an interface that event processing leaves alone.\<close>

definition if_static :: "Interface \<Rightarrow> string \<times> mac \<times> u32 \<times> u8 \<times> u16 \<times> int \<times> ptr \<times> ptr \<times> RxHandler \<times> ptr \<times> ptr \<times> InterfaceState" where
  "if_static i = (if_name i, if_mac i, if_ip_addr i, if_prefix_len i, if_mtu i, if_up i, if_link i,
     if_device i, if_rx_handler i, if_handler_ctx i, if_arp_cache i, if_state i)"

text \<open>The application's callbacks stay within a relation.\<close>

definition app_within :: "(world \<Rightarrow> world \<Rightarrow> bool) \<Rightarrow> app \<Rightarrow> bool" where
  "app_within R A \<longleftrightarrow>
     (\<forall>n e c w. R w (app_event A n e c w)) \<and> (\<forall>n i p t c w. R w (app_rx A n i p t c w)) \<and>
     (\<forall>n i p c w. R w (snd (app_proto A n i p c w))) \<and>
     (\<forall>n ip port p c w. R w (app_udp_recv A n ip port p c w)) \<and>
     (\<forall>n b p c w. R w (app_tcp_recv A n b p c w)) \<and> (\<forall>n b c w. R w (app_tcp_connect A n b c w))"

text \<open>
  An event lies ahead of the clock: less than \<open>2 ^ 32\<close> microseconds, and not at the present moment
  unless some link has no delay.
\<close>

definition zero_delay :: "world \<Rightarrow> bool" where
  "zero_delay w \<longleftrightarrow> (\<exists>l. ln_delay_ms (w_link w l) = 0)"

definition ahead :: "world \<Rightarrow> u64 \<Rightarrow> u64 \<Rightarrow> bool" where
  "ahead w now t \<longleftrightarrow> t - now < 4294967296 \<and> (t = now \<longrightarrow> zero_delay w)"

lemma ahead_delay: "ahead w now (now + ucast (ln_delay_ms (w_link w l)))"
proof -
  have "ucast (ln_delay_ms (w_link w l)) = (0 :: u64) \<Longrightarrow> ln_delay_ms (w_link w l) = 0"
    by (metis unat_ucast_u32 unat_0 unat_eq_zero)
  then show ?thesis by (auto simp: ahead_def ucast_u32_less zero_delay_def)
qed

lemma ahead_const: "0 < d \<Longrightarrow> d < 4294967296 \<Longrightarrow> ahead w now (now + d)"
  by (auto simp: ahead_def)

text \<open>A neighbour cache with its queue of waiting packets is in order.\<close>

definition arp_ok :: "ArpCache \<Rightarrow> bool" where
  "arp_ok c \<longleftrightarrow> arp_core c \<and> pend_inv c"

lemma arp_ok_add: "arp_cache_add (deref h p) ip m ts = Some b \<Longrightarrow> arp_ok (h p) \<Longrightarrow> arp_ok b"
  using arp_added_core [of "h p" ip m ts] arp_added_pending [of ip m ts "h p"]
  by (cases "p = 0") (auto simp: arp_ok_def pend_inv_def arp_added_def arp_cache_add_def deref_def)

lemma arp_ok_enqueue:
  "arp_pending_enqueue (deref h p) i t s d pr pk = (q, Some b) \<Longrightarrow> arp_ok (h p) \<Longrightarrow> arp_ok b"
  using arp_pending_enqueue_keeps [of "h p" i t s d pr pk q b]
  by (cases "p = 0") (auto simp: arp_ok_def arp_core_def arp_pending_enqueue_def)

lemma arp_ok_release: "ap_valid (ac_pending c ! i) \<noteq> 0 \<Longrightarrow> i < 32 \<Longrightarrow> arp_ok c \<Longrightarrow> arp_ok (arp_pending_release c i)"
  using arp_pending_release_inv(1) [of c i] by (auto simp: arp_ok_def arp_core_def pend_inv_def)

lemma mac_ok_learn:
  "mac_table_learn (Some t) (Some m) p now = (r, Some t') \<Longrightarrow> p \<noteq> NULL \<Longrightarrow> mac_inv t \<Longrightarrow> mac_inv t'"
  by (rule mac_learn_inv)

lemma mac_ok_age: "mac_table_age (Some t) now = Some t' \<Longrightarrow> mac_inv t \<Longrightarrow> mac_inv t'"
  using mac_aged_spec(1) [of t now] by (simp add: mac_table_age_eq)

locale net_relation =
  fixes R :: "world \<Rightarrow> world \<Rightarrow> bool"
  assumes R_refl: "R w w"
    and R_trans: "R w w1 \<Longrightarrow> R w1 w2 \<Longrightarrow> R w w2"
    and R_clock: "R w w' \<Longrightarrow> sc_now (w_sched w' s) = sc_now (w_sched w s) \<and> w_sim w' = w_sim w \<and> w_tcpctx w' = w_tcpctx w \<and>
          ln_delay_ms (w_link w' l) = ln_delay_ms (w_link w l)"
    and R_pkt: "(packet_ok (w_pkt w p) \<Longrightarrow> packet_ok (g (w_pkt w p))) \<Longrightarrow> R w (upd_pkt p g w)"
    and R_iface: "(\<And>i. if_static (f i) = if_static i) \<Longrightarrow> R w (upd_iface p f w)"
    and R_malloc: "R w (snd (malloc w))"
    and R_free: "R w (free_block p w)"
    and R_next_id: "R w (w\<lparr>w_next_id := n\<rparr>)"
    and R_arp: "(\<And>b. c = Some b \<Longrightarrow> arp_ok (w_arp w p) \<Longrightarrow> arp_ok b) \<Longrightarrow> R w (set_arp p c w)"
    and R_mac: "(mac_inv (sw_mac_tbl (w_switch w p)) \<Longrightarrow> mac_inv t) \<Longrightarrow>
          R w (upd_switch p (\<lambda>s. s\<lparr>sw_mac_tbl := t\<rparr>) w)"
    and R_schedule: "ahead w (sc_now (w_sched w s)) (ev_timestamp e) \<Longrightarrow>
          R w (snd (scheduler_schedule s (Some e) w))"
begin

text \<open>Postconditions propagate through the control structures of the definitions.\<close>

lemma let_state: "R w t \<Longrightarrow> (\<And>x. R w x \<Longrightarrow> Q (f x)) \<Longrightarrow> Q (Let t f)"
  by (simp add: Let_def)

lemma let_value: "(\<And>x. x = t \<Longrightarrow> Q (f x)) \<Longrightarrow> Q (Let t f)"
  by (simp add: Let_def)

lemma case_state: "R w (snd t) \<Longrightarrow> (\<And>a x. R w x \<Longrightarrow> Q (f a x)) \<Longrightarrow> Q (case t of (a, x) \<Rightarrow> f a x)"
  by (cases t) simp

lemma case_state3:
  "R w (snd (snd t)) \<Longrightarrow> (\<And>a b x. R w x \<Longrightarrow> Q (f a b x)) \<Longrightarrow> Q (case t of (a, b, x) \<Rightarrow> f a b x)"
  by (cases t) simp

lemma case_value: "(\<And>a b. t = (a, b) \<Longrightarrow> Q (f a b)) \<Longrightarrow> Q (case t of (a, b) \<Rightarrow> f a b)"
  by (cases t) simp

lemma if_state: "(c \<Longrightarrow> Q x) \<Longrightarrow> (\<not> c \<Longrightarrow> Q y) \<Longrightarrow> Q (if c then x else y)"
  by simp

lemma opt_state: "(t = None \<Longrightarrow> Q x) \<Longrightarrow> (\<And>a. t = Some a \<Longrightarrow> Q (f a)) \<Longrightarrow>
    Q (case t of None \<Rightarrow> x | Some a \<Rightarrow> f a)"
  by (cases t) simp_all

lemma let_case: "R w (snd t) \<Longrightarrow> (\<And>a x. R w x \<Longrightarrow> Q (f a x)) \<Longrightarrow> Q (let (a, x) = t in f a x)"
  by (cases t) simp

lemma let_case3:
  "R w (snd (snd t)) \<Longrightarrow> (\<And>a b x. R w x \<Longrightarrow> Q (f a b x)) \<Longrightarrow> Q (let (a, b, x) = t in f a b x)"
  by (cases t) simp

lemma let_pair: "(\<And>a b. t = (a, b) \<Longrightarrow> Q (f a b)) \<Longrightarrow> Q (let (a, b) = t in f a b)"
  by (cases t) simp

lemmas flow1 =
  let_case3 [where w = w and Q = "R w" for w]
  let_case [where w = w and Q = "R w" for w]
  let_pair [where Q = "R w" for w]
  let_state [where w = w and Q = "R w" for w]
  case_state3 [where w = w and Q = "R w" for w]
  case_state [where w = w and Q = "R w" for w]
  let_value [where Q = "R w" for w]
  case_value [where Q = "R w" for w]
  if_state [where Q = "R w" for w]
  opt_state [where Q = "R w" for w]

lemmas flow2 =
  let_case3 [where w = w and Q = "\<lambda>r. R w (snd r)" for w]
  let_case [where w = w and Q = "\<lambda>r. R w (snd r)" for w]
  let_pair [where Q = "\<lambda>r. R w (snd r)" for w]
  let_state [where w = w and Q = "\<lambda>r. R w (snd r)" for w]
  case_state3 [where w = w and Q = "\<lambda>r. R w (snd r)" for w]
  case_state [where w = w and Q = "\<lambda>r. R w (snd r)" for w]
  let_value [where Q = "\<lambda>r. R w (snd r)" for w]
  case_value [where Q = "\<lambda>r. R w (snd r)" for w]
  if_state [where Q = "\<lambda>r. R w (snd r)" for w]
  opt_state [where Q = "\<lambda>r. R w (snd r)" for w]

lemmas flow3 =
  let_case3 [where w = w and Q = "\<lambda>r. R w (snd (snd r))" for w]
  let_case [where w = w and Q = "\<lambda>r. R w (snd (snd r))" for w]
  let_pair [where Q = "\<lambda>r. R w (snd (snd r))" for w]
  let_state [where w = w and Q = "\<lambda>r. R w (snd (snd r))" for w]
  case_state3 [where w = w and Q = "\<lambda>r. R w (snd (snd r))" for w]
  case_state [where w = w and Q = "\<lambda>r. R w (snd (snd r))" for w]
  let_value [where Q = "\<lambda>r. R w (snd (snd r))" for w]
  case_value [where Q = "\<lambda>r. R w (snd (snd r))" for w]
  if_state [where Q = "\<lambda>r. R w (snd (snd r))" for w]
  opt_state [where Q = "\<lambda>r. R w (snd (snd r))" for w]

lemma pair_state: "R w x \<Longrightarrow> R w (snd (a, x))" "R w x \<Longrightarrow> R w (snd (snd (a, b, x)))"
  by simp_all

lemmas flow = flow1 flow2 flow3 pair_state

text \<open>The elementary steps, behind whatever came before.\<close>

lemma step:
  "R w x \<Longrightarrow> R w (snd (malloc x))"
  "R w x \<Longrightarrow> R w (free_block p x)"
  "R w x \<Longrightarrow> R w (x\<lparr>w_next_id := n\<rparr>)"
  using R_trans R_malloc R_free R_next_id by metis+

text \<open>Packets are written within their buffers.\<close>

lemma step_pkt: "R w x \<Longrightarrow> (packet_ok (w_pkt x p) \<Longrightarrow> packet_ok (f (w_pkt x p))) \<Longrightarrow> R w (upd_pkt p f x)"
  using R_trans R_pkt by metis

lemma step_layer: "R w x \<Longrightarrow> R w (upd_pkt p (\<lambda>k. k\<lparr>pk_layer := n\<rparr>) x)"
  by (rule step_pkt) (simp_all add: packet_ok_def)

lemma step_fill:
  "p = NULL \<or> fresh_pkt m (w_pkt x p) \<Longrightarrow> p \<noteq> NULL \<Longrightarrow> m = 8 + n \<Longrightarrow> R w x \<Longrightarrow> R w (upd_pkt p (udp_fill sp dp pl n) x)"
  "p = NULL \<or> fresh_pkt m (w_pkt x p) \<Longrightarrow> p \<noteq> NULL \<Longrightarrow> m = 20 + n \<Longrightarrow> R w x \<Longrightarrow>
     R w (upd_pkt p (tcp_fill sp dp sq ak fl pl n) x)"
  "p = NULL \<or> fresh_pkt m (w_pkt x p) \<Longrightarrow> p \<noteq> NULL \<Longrightarrow> m = 8 + n \<Longrightarrow> R w x \<Longrightarrow> R w (upd_pkt p (icmp_request_fill i sq' pl n) x)"
  "p = NULL \<or> fresh_pkt m (w_pkt x p) \<Longrightarrow> p \<noteq> NULL \<Longrightarrow> m = pk_len req \<and> 8 \<le> pk_len req \<Longrightarrow> R w x \<Longrightarrow>
     R w (upd_pkt p (icmp_reply_fill req) x)"
  "p = NULL \<or> fresh_pkt m (w_pkt x p) \<Longrightarrow> p \<noteq> NULL \<Longrightarrow> m = 8 + (20 + n) \<Longrightarrow> R w x \<Longrightarrow>
     R w (upd_pkt p (icmp_error_fill orig ty c mtu n) x)"
  by (metis step_pkt udp_fill_fits, metis step_pkt tcp_fill_fits, metis step_pkt icmp_request_fits,
      metis step_pkt icmp_reply_fits, metis step_pkt icmp_error_fits)

lemma step_iface: "R w x \<Longrightarrow> (\<And>i. if_static (f i) = if_static i) \<Longrightarrow> R w (upd_iface p f x)"
  using R_trans R_iface by metis

lemma step_stats:
  "R w x \<Longrightarrow> R w (upd_iface p (\<lambda>i. i\<lparr>if_tx_bytes := a i\<rparr>) x)"
  "R w x \<Longrightarrow> R w (upd_iface p (\<lambda>i. i\<lparr>if_rx_bytes := a i\<rparr>) x)"
  "R w x \<Longrightarrow> R w (upd_iface p (\<lambda>i. i\<lparr>if_last_tx_time := a i\<rparr>) x)"
  "R w x \<Longrightarrow> R w (upd_iface p (\<lambda>i. i\<lparr>if_last_rx_time := a i\<rparr>) x)"
  "R w x \<Longrightarrow> R w (upd_iface p (\<lambda>i. i\<lparr>if_tx_errors := a i\<rparr>) x)"
  "R w x \<Longrightarrow> R w (upd_iface p (\<lambda>i. i\<lparr>if_rx_errors := a i\<rparr>) x)"
  "R w x \<Longrightarrow> R w (upd_iface p (\<lambda>i. i\<lparr>if_rx_dropped := a i\<rparr>) x)"
  "R w x \<Longrightarrow> R w (upd_iface p (\<lambda>i. i\<lparr>if_tx_errors := a i, if_last_error_time := b i\<rparr>) x)"
  "R w x \<Longrightarrow> R w (upd_iface p (\<lambda>i. i\<lparr>if_rx_errors := a i, if_last_error_time := b i\<rparr>) x)"
  by (rule step_iface; simp add: if_static_def)+

text \<open>The tables are written by their own operations only.\<close>

lemma step_arp:
  "R w x \<Longrightarrow> R w (set_arp p (arp_cache_add (deref (w_arp x) p) ip m ts) x)"
  "arp_pending_enqueue (deref (w_arp x) p) i t sr d pr pk = (q, c) \<Longrightarrow> R w x \<Longrightarrow> R w (set_arp p c x)"
  "ap_valid (ac_pending (w_arp x p) ! k) \<noteq> 0 \<Longrightarrow> k < 32 \<Longrightarrow> R w x \<Longrightarrow>
     R w (set_arp p (Some (arp_pending_release (w_arp x p) k)) x)"
  by (rule R_trans [OF _ R_arp]; auto dest: arp_ok_add arp_ok_enqueue arp_ok_release)+

lemma step_mac:
  assumes "R w x" "\<And>b. t = Some b \<Longrightarrow> mac_inv (sw_mac_tbl (w_switch x p)) \<Longrightarrow> mac_inv b"
  shows "R w (set_mac_tbl p t x)"
  using R_trans [OF assms(1) R_mac] assms by (cases t) (auto simp: set_mac_tbl_def)

lemma step_mac_table:
  "mac_table_learn (Some (sw_mac_tbl (w_switch x p))) (Some m) port now = (r, t) \<Longrightarrow> port \<noteq> NULL \<Longrightarrow> R w x \<Longrightarrow>
     R w (set_mac_tbl p t x)"
  "R w x \<Longrightarrow> R w (set_mac_tbl p (mac_table_age (Some (sw_mac_tbl (w_switch x p))) now) x)"
  by (rule step_mac; auto dest: mac_ok_learn mac_ok_age)+

lemma step_packet_free: "R w x \<Longrightarrow> R w (packet_free p x)"
  unfolding packet_free_def by (rule flow step | assumption)+

lemma step_event_free: "R w x \<Longrightarrow> R w (event_free e x)"
  unfolding event_free_def by (rule flow step | assumption)+

lemmas step_base = step step_layer step_fill step_stats step_arp step_mac_table step_packet_free step_event_free

lemma step_packet_create: "R w x \<Longrightarrow> R w (snd (packet_create n x))"
proof -
  have fresh: "R w (upd_pkt p (\<lambda>_. packet_fresh h fill n i) y)" if "R w y" for p h fill i y
    by (rule step_pkt [OF that]) simp
  assume x: "R w x"
  show ?thesis unfolding packet_create_def by (rule flow step_base fresh x | assumption)+
qed

lemma let_packet:
  assumes "R w x" "\<And>p y. R w y \<Longrightarrow> p = NULL \<or> fresh_pkt n (w_pkt y p) \<Longrightarrow> Q (f p y)"
  shows "Q (let (p, y) = packet_create n x in f p y)"
  using step_packet_create [OF assms(1), of n] assms(2) packet_create_fresh
  by (cases "packet_create n x") (metis (mono_tags) Let_def case_prod_conv snd_conv)

lemma step_packet_clone: "R w x \<Longrightarrow> R w (snd (packet_clone p x))"
proof -
  assume x: "R w x"
  obtain c y where cl: "packet_clone p x = (c, y)" by fastforce
  show ?thesis
  proof (cases "c = NULL")
    case True
    have "snd (packet_clone p x) = snd (packet_create (pk_len (w_pkt x p)) x)"
      using cl True by (auto simp: packet_clone_def Let_def split: prod.splits if_splits)
    then show ?thesis using step_packet_create [OF x] by simp
  next
    case False
    from packet_clone_fits [OF cl False] obtain y1 f where
      "packet_create (pk_len (w_pkt x p)) x = (c, y1)" "y = upd_pkt c f y1" "packet_ok (f (w_pkt y1 c))" by blast
    then show ?thesis using cl step_packet_create [OF x, of "pk_len (w_pkt x p)"] by (simp add: step_pkt)
  qed
qed

lemma step_prepend: "R w x \<Longrightarrow> R w (snd (pkt_prepend p h n x))"
  by (simp add: pkt_prepend_def split_def Let_def step_pkt packet_prepend_fits)

lemma step_strip: "R w x \<Longrightarrow> R w (snd (pkt_strip p n x))"
  by (simp add: pkt_strip_def split_def Let_def step_pkt packet_strip_fits)

lemmas flow_packet = let_packet [where w = w and Q = "R w" for w]
  let_packet [where w = w and Q = "\<lambda>r. R w (snd r)" for w]
  let_packet [where w = w and Q = "\<lambda>r. R w (snd (snd r))" for w]

lemma step_event: "R w x \<Longrightarrow> R w (snd (event_create_callback ty ts src dst pk d h c x))"
  unfolding event_create_callback_def by (rule flow step_base | assumption)+

lemma step_event_create: "R w x \<Longrightarrow> R w (snd (event_create ty ts src dst pk d x))"
  unfolding event_create_def by (rule step_event)

lemmas step_alloc = step_packet_create step_packet_clone step_prepend step_strip step_event step_event_create

section \<open>Scheduling\<close>

lemma step_schedule:
  assumes "R w x" "\<And>ev. e = Some ev \<Longrightarrow> s \<noteq> 0 \<Longrightarrow> ahead x (sc_now (w_sched x s)) (ev_timestamp ev)"
  shows "R w (snd (scheduler_schedule s e x))"
proof (cases "e = None \<or> s = 0")
  case True
  then have "snd (scheduler_schedule s e x) = x"
    by (auto simp: scheduler_schedule_def split: option.split)
  then show ?thesis using assms by simp
next
  case False
  then show ?thesis using R_trans [OF assms(1) R_schedule] assms(2) by auto
qed

lemma let_event:
  "R w x \<Longrightarrow> (\<And>e y. R w y \<Longrightarrow> (\<And>ev. e = Some ev \<Longrightarrow> ev_timestamp ev = ts) \<Longrightarrow> Q (f e y)) \<Longrightarrow>
   Q (let (e, y) = event_create_callback ty ts src dst pk d h c x in f e y)"
proof -
  assume Rx: "R w x" and Q: "\<And>e y. R w y \<Longrightarrow> (\<And>ev. e = Some ev \<Longrightarrow> ev_timestamp ev = ts) \<Longrightarrow> Q (f e y)"
  obtain e y where ec: "event_create_callback ty ts src dst pk d h c x = (e, y)" by fastforce
  then have "ev_timestamp ev = ts" if "e = Some ev" for ev
    using that by (auto simp: event_create_callback_def Let_def split: prod.splits if_splits)
  moreover have "R w y" using step_event [OF Rx, of ty ts src dst pk d h c] ec by simp
  ultimately show ?thesis using Q [of y e] ec by simp
qed

lemmas flow_event = let_event [where w = w and Q = "R w" for w]
  let_event [where w = w and Q = "\<lambda>r. R w (snd r)" for w]

lemma clock: "R w x \<Longrightarrow> sc_now (w_sched x s) = sc_now (w_sched w s)" "R w x \<Longrightarrow> w_sim x = w_sim w"
  "R w x \<Longrightarrow> w_tcpctx x = w_tcpctx w" "R w x \<Longrightarrow> ln_delay_ms (w_link x l) = ln_delay_ms (w_link w l)"
  using R_clock by blast+

lemma ahead_clock: "R w x \<Longrightarrow> ahead x now t = ahead w now t"
  using clock(4) by (simp add: ahead_def zero_delay_def)

lemma step_link_transmit:
  assumes "R w x" "sched \<noteq> 0 \<Longrightarrow> now = sc_now (w_sched w sched)"
  shows "R w (snd (link_transmit link pkt src sched now h c x))"
  unfolding link_transmit_def
  by (rule flow_event flow step_base step_alloc step_schedule assms(1) | assumption
      | fastforce simp: clock ahead_clock assms(2) ahead_delay)+

lemma step_ethernet_send:
  assumes "R w x"
  shows "R w (snd (ethernet_send sim iface dst et payload x))"
  unfolding ethernet_send_def eth_tx_error_def
  by (rule flow step_base step_alloc step_link_transmit assms | assumption
      | fastforce simp: clock simulator_now_def)+

lemmas step_net = step_link_transmit step_ethernet_send

lemma step_ip_send:
  assumes "R w x"
  shows "R w (snd (ip_send sim iface dst a b pr payload x))"
  unfolding ip_send_def
  by (rule flow step_base step_alloc step_ethernet_send assms | assumption)+

lemma step_arp_request:
  assumes "R w x"
  shows "R w (snd (arp_send_request sim iface target x))"
  unfolding arp_send_request_def
  by (rule flow step_base step_alloc step_ethernet_send assms | assumption)+

lemma step_arp_reply:
  assumes "R w x"
  shows "R w (snd (arp_send_reply sim iface pkt x))"
  unfolding arp_send_reply_def
  by (rule flow step_base step_alloc step_ethernet_send assms | assumption)+

lemma step_ip_output:
  assumes "R w x"
  shows "R w (snd (ip_output sim a b pr payload x))"
  unfolding ip_output_def
  by (rule flow step_base step_arp_request step_ip_send assms | assumption)+

lemma step_flush_loop:
  "i + n \<le> 32 \<Longrightarrow> R w x \<Longrightarrow> R w (snd (pending_flush_loop sim cache target m i n sent x))"
proof (induction n arbitrary: i sent x)
  case 0
  then show ?case by simp
next
  case (Suc n)
  show ?case
    unfolding pending_flush_loop.simps
    by (rule flow step_base step_ip_send Suc.IH Suc.prems(2) | assumption | use Suc.prems(1) in fastforce)+
qed

lemma step_flush: "R w x \<Longrightarrow> R w (snd (arp_pending_flush sim cache target m x))"
  unfolding arp_pending_flush_def by (rule flow step_flush_loop | assumption | simp)+

lemmas step_ip = step_ip_send step_arp_request step_arp_reply step_ip_output step_flush

lemma step_arp_request_handler: "R w x \<Longrightarrow> R w (arp_request_handler e c x)"
  unfolding arp_request_handler_def by (rule flow step_base step_ip | assumption)+

lemma step_arp_reply_handler: "R w x \<Longrightarrow> R w (arp_reply_handler e c x)"
  unfolding arp_reply_handler_def by (rule flow step_base step_ip | assumption)+

section \<open>ICMP, UDP and TCP\<close>

lemma step_counters:
  "R w x \<Longrightarrow> R w (rx_error i x)" "R w x \<Longrightarrow> R w (rx_drop i x)" "R w x \<Longrightarrow> R w (tx_error i x)"
  by (simp_all add: rx_error_def rx_drop_def tx_error_def step_stats)

lemma step_icmp_send_error: "R w x \<Longrightarrow> R w (snd (icmp_send_error sim i pk ty code mtu x))"
  unfolding icmp_send_error_def
  by (rule flow_packet flow step_base step_alloc step_counters step_ip | assumption | simp)+

lemma step_icmp_errors:
  "R w x \<Longrightarrow> R w (snd (icmp_send_unreach_port sim i pk x))"
  "R w x \<Longrightarrow> R w (snd (icmp_send_unreach_net sim i pk x))"
  "R w x \<Longrightarrow> R w (snd (icmp_send_unreach_host sim i pk x))"
  "R w x \<Longrightarrow> R w (snd (icmp_send_unreach_proto sim i pk x))"
  "R w x \<Longrightarrow> R w (snd (icmp_send_time_exceeded sim i pk x))"
  "R w x \<Longrightarrow> R w (snd (icmp_send_frag_needed sim i pk mtu x))"
  by (simp_all add: icmp_send_unreach_port_def icmp_send_unreach_net_def icmp_send_unreach_host_def
      icmp_send_unreach_proto_def icmp_send_time_exceeded_def icmp_send_frag_needed_def step_icmp_send_error)

lemma step_echo_request: "R w x \<Longrightarrow> R w (snd (icmp_send_echo_request sim a b i' sq pl n x))"
  unfolding icmp_send_echo_request_def
  by (rule flow_packet flow step_base step_alloc step_counters step_ip | assumption | simp)+

lemma step_echo_reply: "R w x \<Longrightarrow> R w (snd (icmp_send_echo_reply sim i pk x))"
  unfolding icmp_send_echo_reply_def
  by (rule flow_packet flow step_base step_alloc step_counters step_ip | assumption | simp)+

lemma step_icmp_receive: "R w x \<Longrightarrow> R w (snd (icmp_receive i pk ctx x))"
  unfolding icmp_receive_def
  by (rule flow step_base step_counters step_echo_reply | assumption | simp only:)+

lemma step_udp_send: "R w x \<Longrightarrow> R w (snd (udp_send sim a b sp dp pl n x))"
  unfolding udp_send_def
  by (rule flow_packet flow step_base step_alloc step_ip | assumption | simp)+

lemma step_free_packets: "R w x \<Longrightarrow> R w (free_packets ps x)"
  by (induction ps arbitrary: x) (simp_all add: step_packet_free)

lemma step_send_segment:
  "R w x \<Longrightarrow> R w (snd (snd (tcp_send_segment sim a b sp dp sq ak fl pl n wc x)))"
  unfolding tcp_send_segment_def
  by (rule flow_packet flow step_base step_alloc step_ip | assumption | simp)+

lemma step_send_ack: "R w x \<Longrightarrow> R w (snd (tcp_send_ack sim c x))"
  unfolding tcp_send_ack_def by (rule flow step_send_segment | assumption)+

lemma step_verdicts:
  "R w x \<Longrightarrow> R w (snd (tcp_malformed i pk x))" "R w x \<Longrightarrow> R w (snd (tcp_drop i pk x))"
  "R w x \<Longrightarrow> R w (snd (tcp_consume pk x))"
  by (simp_all add: tcp_malformed_def tcp_drop_def tcp_consume_def step_counters step_packet_free)

lemma step_schedule_time_wait: "R w x \<Longrightarrow> R w (schedule_time_wait ctx c x)"
  unfolding schedule_time_wait_def
  by (rule flow_event flow step_base step_schedule | assumption
      | fastforce simp: clock ahead_clock scheduler_now_def ahead_const)+

end

section \<open>With the connection tables\<close>

locale world_relation = net_relation +
  assumes R_tcp: "R w (upd_tcp p f w)"
begin

lemma step_tcp: "R w x \<Longrightarrow> R w (upd_tcp p f x)"
  using R_trans R_tcp by metis

lemma step_set_tcp: "R w x \<Longrightarrow> R w (set_tcp p t x)"
  using step_tcp [of w x p "\<lambda>_. the t"] by (cases t) (auto simp: set_tcp_def upd_tcp_def)

lemmas step_world = step_base step_tcp step_set_tcp

lemma step_upd_tcb: "R w x \<Longrightarrow> R w (upd_tcb c f x)"
  unfolding upd_tcb_def by (rule step_tcp)

lemma step_release: "R w x \<Longrightarrow> R w (tcp_release_tcb table tcb x)"
  unfolding tcp_release_tcb_def
  by (rule flow step_world step_free_packets step_upd_tcb | assumption)+

lemma step_sendq_ack: "R w x \<Longrightarrow> R w (tcp_sendq_ack tcb ack x)"
  unfolding tcp_sendq_ack_def
  by (rule flow step_world step_free_packets step_upd_tcb | assumption)+

lemmas step_tcb = step_upd_tcb step_release step_sendq_ack

lemma step_schedule_retransmit: "R w x \<Longrightarrow> R w (tcp_schedule_retransmit sim ctx tcb x)"
proof (cases "ctx = 0")
  case True
  assume "R w x"
  then show ?thesis
    unfolding tcp_schedule_retransmit_def True event_create_def
    by (simp only: if_False simp_thms refl)
       (rule flow_event flow step_world step_tcb step_schedule | assumption
        | fastforce simp: clock ahead_clock scheduler_now_def ahead_const)+
next
  case False
  assume "R w x"
  then show ?thesis
    unfolding tcp_schedule_retransmit_def
    by (simp only: False if_True simp_thms refl not_False_eq_True)
       (rule flow_event flow step_world step_tcb step_schedule | assumption
        | fastforce simp: clock ahead_clock scheduler_now_def ahead_const)+
qed

lemmas step_timers = step_schedule_retransmit step_schedule_time_wait

lemma step_time_wait_handler: "R w x \<Longrightarrow> R w (tcp_time_wait_handler e c x)"
  unfolding tcp_time_wait_handler_def by (rule flow step_tcb | assumption)+

lemma step_connect: "R w x \<Longrightarrow> R w (snd (tcp_connect sim table a b sp dp rf cf ctx x))"
  unfolding tcp_connect_def
  by (rule flow step_world step_tcb step_timers step_send_segment | assumption)+

lemma step_on_listen: "R w x \<Longrightarrow> R w (snd (tcp_on_listen i pk ctx l dip dp sip sp sq x))"
  unfolding tcp_on_listen_def
  by (rule flow step_world step_tcb step_verdicts step_send_segment | assumption)+

lemma step_tcp_send: "R w x \<Longrightarrow> R w (snd (tcp_send sim tcb d n x))"
  unfolding tcp_send_def
  by (rule flow step_world step_tcb step_timers step_send_segment | assumption)+

lemma step_tcp_close: "R w x \<Longrightarrow> R w (snd (tcp_close sim tcb x))"
  unfolding tcp_close_def
  by (rule flow step_world step_tcb step_timers step_send_segment | assumption)+

lemma step_retransmit_loop: "R w x \<Longrightarrow> R w (retransmit_loop ctx c i n x)"
proof (induction n arbitrary: i x)
  case 0
  then show ?case by simp
next
  case (Suc n)
  show ?case
    unfolding retransmit_loop.simps upd_seg_def
    by (rule flow step_world step_alloc step_tcb step_timers step_ip Suc | assumption)+
qed

lemma step_retransmit_handler: "R w x \<Longrightarrow> R w (tcp_retransmit_handler e c x)"
  unfolding tcp_retransmit_handler_def by (rule flow step_retransmit_loop | assumption)+

section \<open>Handlers that call the application\<close>

lemma step_app:
  assumes "app_within R A" "R w x"
  shows "R w (app_event A n e c x)" "R w (app_rx A n i p et c x)" "R w (snd (app_proto A n i p c x))"
    "R w (app_udp_recv A n ip port p c x)" "R w (app_tcp_recv A n b p c x)" "R w (app_tcp_connect A n b c x)"
  using assms R_trans unfolding app_within_def by metis+

lemma step_udp_receive:
  assumes A: "app_within R A"
  shows "R w x \<Longrightarrow> R w (snd (udp_receive (app_udp_recv A) i pk ctx x))"
  unfolding udp_receive_def
  by (rule flow step_world step_alloc step_counters step_icmp_errors step_app [OF A] | assumption | simp only:)+

lemma step_handshake:
  assumes A: "app_within R A"
  shows "R w x \<Longrightarrow> R w (snd (tcp_on_syn_sent (app_tcp_connect A) i pk ctx c sq ak fl x))"
    and "R w x \<Longrightarrow> R w (snd (tcp_on_syn_received (app_tcp_connect A) i pk c ak fl x))"
  unfolding tcp_on_syn_sent_def tcp_on_syn_received_def
  by (rule flow step_world step_tcb step_verdicts step_send_ack step_app [OF A] | assumption)+

lemma step_on_established:
  assumes A: "app_within R A"
  shows "R w x \<Longrightarrow> R w (snd (tcp_on_established (app_tcp_recv A) i pk ctx c sq ak fl n x))"
  unfolding tcp_on_established_def established_ack_def established_data_def
  by (rule flow step_world step_alloc step_tcb step_verdicts step_send_ack step_app [OF A] | assumption)+

lemma step_closing:
  "R w x \<Longrightarrow> R w (snd (tcp_on_fin_wait_1 i pk c ak fl x))"
  "R w x \<Longrightarrow> R w (snd (tcp_on_fin_wait_2 i pk ctx c sq fl x))"
  "R w x \<Longrightarrow> R w (snd (tcp_on_closing i pk ctx c ak x))"
  "R w x \<Longrightarrow> R w (snd (tcp_on_last_ack i pk ctx c ak fl x))"
  unfolding tcp_on_fin_wait_1_def tcp_on_fin_wait_2_def tcp_on_closing_def tcp_on_last_ack_def
  by (rule flow step_world step_tcb step_timers step_verdicts step_send_ack | assumption)+

lemma step_dispatch:
  assumes A: "app_within R A" and x: "R w x"
  shows "R w (snd (tcp_dispatch (app_tcp_recv A) (app_tcp_connect A) i pk ctx c sq ak fl n x))"
  unfolding tcp_dispatch_def
  by (cases "tc_state (tcb_of x c)")
     (simp_all add: step_handshake [OF A x] step_on_established [OF A x] step_closing [OF x] step_verdicts [OF x])

lemma step_tcp_receive:
  assumes A: "app_within R A"
  shows "R w x \<Longrightarrow> R w (snd (tcp_receive (app_tcp_recv A) (app_tcp_connect A) i pk ctx x))"
  unfolding tcp_receive_def
  by (rule flow step_world step_counters step_verdicts step_on_listen step_dispatch [OF A] | assumption)+

lemma step_call_protocol:
  assumes A: "app_within R A" and x: "R w x"
  shows "R w (snd (call_protocol A h i pk ctx x))"
  unfolding call_protocol_def
  by (cases h) (simp_all add: x step_icmp_receive [OF x] step_udp_receive [OF A x] step_tcp_receive [OF A x]
      step_app [OF A x])

lemma verdict_state:
  "(v = IP_OK \<Longrightarrow> Q a) \<Longrightarrow> (v = IP_BAD_VERSION \<Longrightarrow> Q b) \<Longrightarrow> (v = IP_TTL_EXPIRED \<Longrightarrow> Q c) \<Longrightarrow>
   (v = IP_BAD_CHECKSUM \<Longrightarrow> Q d) \<Longrightarrow>
   Q (case v of IP_OK \<Rightarrow> a | IP_BAD_VERSION \<Rightarrow> b | IP_TTL_EXPIRED \<Rightarrow> c | IP_BAD_CHECKSUM \<Rightarrow> d)"
  by (cases v) simp_all

lemma step_ip_strip:
  assumes "\<not> pk_len (w_pkt x p) < 20" "R w x"
  shows "R w (upd_pkt p (\<lambda>k. k\<lparr>pk_data := pk_data k + 20, pk_len := pk_len k - 20, pk_layer := 4\<rparr>)
    (upd_iface i (\<lambda>i. i\<lparr>if_last_rx_time := a i\<rparr>) (upd_iface i (\<lambda>i. i\<lparr>if_rx_bytes := b i\<rparr>) x)))"
  by (rule step_pkt, (rule step_stats assms)+) (use assms(1) in \<open>auto simp: packet_ok_def\<close>)

lemma step_ip_receive:
  assumes A: "app_within R A" and x: "R w x"
  shows "R w (snd (ip_receive A i pk et ctx x))"
proof (cases "i = NULL \<or> pk = NULL \<or> pk_len (w_pkt x pk) < 20")
  case True
  then show ?thesis using x by (auto simp: ip_receive_def)
next
  case False
  then have len: "\<not> pk_len (w_pkt x pk) < 20" by simp
  show ?thesis
    using False by (cases "ip_check (pk_rest (w_pkt x pk))")
      (auto simp: ip_receive_def Let_def split_def
        intro!: x step_packet_free step_counters step_ip_strip [OF len] step_call_protocol [OF A])
qed

lemma step_flood: "R w x \<Longrightarrow> R w (flood_loop sw ip fr dm et ports x)"
proof (induction ports arbitrary: x)
  case Nil
  then show ?case by simp
next
  case (Cons p ports)
  show ?case
    unfolding flood_loop.simps
    by (rule flow step_world step_alloc step_ethernet_send Cons | assumption)+
qed

lemma step_switch_receive: "R w x \<Longrightarrow> R w (switch_receive sw i fr et x)"
  unfolding switch_receive_def
  by (rule flow step_world step_flood step_ethernet_send | assumption | simp only: de_Morgan_disj not_False_eq_True)+

lemma step_call_rx:
  assumes A: "app_within R A" and x: "R w x"
  shows "R w (call_rx_handler A h i fr et ctx x)"
  unfolding call_rx_handler_def ip_rx_shim_def switch_rx_shim_def
  by (cases h) (simp_all add: x step_ip_receive [OF A x] step_switch_receive [OF x] step_app [OF A x])

lemma step_ethernet_receive:
  assumes x: "R w x"
  shows "R w (snd (snd (ethernet_receive i fr out x)))"
  unfolding ethernet_receive_def
  by (rule flow step_world step_alloc x | assumption)+

lemma step_receive_event:
  assumes A: "app_within R A" and x: "R w x"
  shows "R w (ethernet_receive_event A e ctx x)"
  unfolding ethernet_receive_event_def
  by (rule flow step_world step_ethernet_receive step_call_rx [OF A] x | assumption)+

lemma step_age_handler:
  assumes x: "R w x"
  shows "R w (mac_age_handler e ctx x)"
  unfolding mac_age_handler_def
  by (rule flow_event flow step_world step_schedule x | assumption | fastforce simp: clock ahead_clock ahead_const)+

lemma step_call_event:
  assumes A: "app_within R A" and x: "R w x"
  shows "R w (call_event A h e ctx x)"
  unfolding call_event_def
  by (cases h) (simp_all add: x step_receive_event [OF A x] step_arp_request_handler [OF x]
      step_arp_reply_handler [OF x] step_age_handler [OF x] step_retransmit_handler [OF x]
      step_time_wait_handler [OF x] step_app [OF A x])

end

end
