(* ===== verification/Causality.thy ===== *)
theory Causality
  imports Frame
begin

text \<open>
  Two instances of the frame. Processing events leaves the wiring of the network alone: devices,
  links, topologies, stacks, sockets and the configuration of the interfaces (and the oracle of the
  allocator). And no handler moves the clock or schedules an event in the past, so that the times at
  which events are dispatched never decrease.
\<close>

section \<open>The wiring is fixed\<close>

definition same_wiring :: "world \<Rightarrow> world \<Rightarrow> bool" where
  "same_wiring w w' \<longleftrightarrow>
     w_link w' = w_link w \<and> w_dev w' = w_dev w \<and> w_topo w' = w_topo w \<and> w_sim w' = w_sim w \<and>
     w_ips w' = w_ips w \<and> w_udp w' = w_udp w \<and> w_udpctx w' = w_udpctx w \<and>
     w_tcpctx w' = w_tcpctx w \<and> w_host w' = w_host w \<and> w_oom w' = w_oom w \<and>
     (\<forall>p. if_static (w_iface w' p) = if_static (w_iface w p)) \<and>
     (\<forall>p. sw_port_count (w_switch w' p) = sw_port_count (w_switch w p) \<and>
          sw_sim (w_switch w' p) = sw_sim (w_switch w p))"

definition fixed_wiring :: "world \<Rightarrow> world \<Rightarrow> bool" where
  "fixed_wiring w w' \<longleftrightarrow> same_wiring w w' \<and> (\<forall>s. sc_now (w_sched w' s) = sc_now (w_sched w s))"

lemma event_create_simps [simp]:
  "w_sched (snd (event_create_callback ty ts a b p d h c w)) = w_sched w"
  by (simp add: event_create_callback_def Let_def split_def)

lemma scheduler_schedule_simps [simp]:
  "sc_now (w_sched (snd (scheduler_schedule s e w)) t) = sc_now (w_sched w t)"
  "w_link (snd (scheduler_schedule s e w)) = w_link w" "w_dev (snd (scheduler_schedule s e w)) = w_dev w"
  "w_topo (snd (scheduler_schedule s e w)) = w_topo w" "w_sim (snd (scheduler_schedule s e w)) = w_sim w"
  "w_ips (snd (scheduler_schedule s e w)) = w_ips w" "w_udp (snd (scheduler_schedule s e w)) = w_udp w"
  "w_udpctx (snd (scheduler_schedule s e w)) = w_udpctx w" "w_tcpctx (snd (scheduler_schedule s e w)) = w_tcpctx w"
  "w_host (snd (scheduler_schedule s e w)) = w_host w" "w_iface (snd (scheduler_schedule s e w)) = w_iface w"
  "w_switch (snd (scheduler_schedule s e w)) = w_switch w" "w_pkt (snd (scheduler_schedule s e w)) = w_pkt w"
  "w_tcp (snd (scheduler_schedule s e w)) = w_tcp w" "w_arp (snd (scheduler_schedule s e w)) = w_arp w"
  "w_live (snd (scheduler_schedule s e w)) = w_live w" "w_brk (snd (scheduler_schedule s e w)) = w_brk w"
  "w_bad_free (snd (scheduler_schedule s e w)) = w_bad_free w" "w_oom (snd (scheduler_schedule s e w)) = w_oom w"
  by (simp_all add: scheduler_schedule_def Let_def split_def realloc_def split: option.split)

interpretation wiring: world_relation fixed_wiring
proof unfold_locales
  fix w w1 w2
  assume "fixed_wiring w w1" "fixed_wiring w1 w2"
  then show "fixed_wiring w w2" by (simp add: fixed_wiring_def same_wiring_def)
qed (auto simp: fixed_wiring_def same_wiring_def)

lemma scheduler_step_wiring:
  assumes "app_within fixed_wiring A"
  shows "same_wiring w (snd (scheduler_step A s w))"
proof (cases "event_queue_pop (sc_eq (w_sched w s))")
  case (Pair r q)
  have trans: "same_wiring w0 w2" if "same_wiring w0 w1" "fixed_wiring w1 w2" for w0 w1 w2
    using that by (simp add: fixed_wiring_def same_wiring_def)
  have call: "same_wiring w0 (call_event A h e c w1)" if "same_wiring w0 w1" for w0 w1 h e c
    by (rule trans [OF that wiring.step_call_event [OF assms wiring.R_refl]])
  have upd: "same_wiring w0 (upd_sched s f w1)" if "same_wiring w0 w1" for w0 w1 f
    using that by (simp add: same_wiring_def)
  have free: "same_wiring w0 (event_free e w1)" if "same_wiring w0 w1" for w0 w1 e
    using that by (simp add: same_wiring_def)
  have refl: "same_wiring w w" by (simp add: same_wiring_def)
  show ?thesis
    unfolding scheduler_step_def Pair
    by (cases r) (auto simp: Let_def split_def intro!: call upd free refl)
qed

section \<open>Causality\<close>

text \<open>
  How a scheduler may change while an event is handled: the clock stands still, and the events in
  the queue are old ones or lie less than \<open>2 ^ 32\<close> microseconds ahead.
\<close>

definition sched_extends :: "world \<Rightarrow> Scheduler \<Rightarrow> Scheduler \<Rightarrow> bool" where
  "sched_extends w s s' \<longleftrightarrow>
     sc_now s' = sc_now s \<and>
     (eq_inv (sc_eq s) \<longrightarrow> eq_inv (sc_eq s') \<and>
        (\<exists>new. mset (eq_list (sc_eq s')) = mset (eq_list (sc_eq s)) + new \<and>
           (\<forall>e \<in># new. ahead w (sc_now s) (ev_timestamp e))))"

definition only_future :: "world \<Rightarrow> world \<Rightarrow> bool" where
  "only_future w w' \<longleftrightarrow>
     (\<forall>s. sched_extends w (w_sched w s) (w_sched w' s)) \<and> w_sim w' = w_sim w \<and> w_tcpctx w' = w_tcpctx w \<and>
     (\<forall>l. ln_delay_ms (w_link w' l) = ln_delay_ms (w_link w l))"

lemma ahead_cong: "(\<forall>l. ln_delay_ms (w_link w' l) = ln_delay_ms (w_link w l)) \<Longrightarrow> ahead w' now t = ahead w now t"
  by (simp add: ahead_def zero_delay_def)

lemma sched_extends_refl: "sched_extends w s s"
  by (simp add: sched_extends_def)

lemma sched_extends_trans: "sched_extends w s t \<Longrightarrow> sched_extends w t u \<Longrightarrow> sched_extends w s u"
  unfolding sched_extends_def by (metis (no_types, lifting) add.assoc union_iff)

lemma push_extends:
  assumes "ahead w (sc_now k) (ev_timestamp e)"
  shows "sched_extends w k (k\<lparr>sc_eq := snd (event_queue_push grow (sc_eq k) e)\<rparr>)"
proof -
  obtain r q where push: "event_queue_push grow (sc_eq k) e = (r, q)" by fastforce
  show ?thesis
  proof (cases "r = 0")
    case True
    then show ?thesis
      using event_queue_push_list [OF _ push True] assms push
      by (auto simp: sched_extends_def mset_insert_event intro!: exI [of _ "{#e#}"])
  next
    case False
    then have "q = sc_eq k" using event_queue_push_fail [OF push] by simp
    then show ?thesis using push by (simp add: sched_extends_def)
  qed
qed

interpretation future: world_relation only_future
proof unfold_locales
  fix w w1 w2
  assume 1: "only_future w w1" and 2: "only_future w1 w2"
  have "sched_extends w s t" if "sched_extends w1 s t" for s t
  proof -
    have "ahead w1 now t = ahead w now t" for now t
      using 1 by (intro ahead_cong) (simp add: only_future_def)
    then show ?thesis using that by (simp add: sched_extends_def)
  qed
  then show "only_future w w2"
    using 1 2 unfolding only_future_def by (metis sched_extends_trans)
next
  fix w :: world and e :: Event and s
  assume "ahead w (sc_now (w_sched w s)) (ev_timestamp e)"
  from push_extends [OF this]
  show "only_future w (snd (scheduler_schedule s (Some e) w))"
    by (auto simp: only_future_def scheduler_schedule_def Let_def split_def sched_extends_refl realloc_def)
qed (auto simp: only_future_def sched_extends_refl, simp add: sched_extends_def)

definition causal :: "Scheduler \<Rightarrow> bool" where
  "causal s \<longleftrightarrow> eq_inv (sc_eq s) \<and> (\<forall>e \<in> set (eq_list (sc_eq s)). sc_now s \<le> ev_timestamp e)"

abbreviation (input) TIME_LIMIT :: u64 where "TIME_LIMIT \<equiv> 18446744069414584320"

lemma future_not_before:
  assumes "t - now < (4294967296 :: u64)" "now < TIME_LIMIT"
  shows "now \<le> t"
proof -
  have "unat now + unat (t - now) < 2 ^ 64"
    using assms by (simp add: word_less_nat_alt)
  then have "unat t = unat now + unat (t - now)"
    using unat_add_lem [of now "t - now"] by simp
  then show ?thesis by (simp add: word_le_nat_alt)
qed

lemma only_future_sched: "only_future w w' \<Longrightarrow> sched_extends w (w_sched w s) (w_sched w' s)"
  by (simp add: only_future_def)

lemma scheduler_step_first:
  assumes "eq_inv (sc_eq (w_sched w s))" "eq_list (sc_eq (w_sched w s)) = e # es" "ev_handler e \<noteq> CB_NULL"
  obtains q where "eq_inv q" "eq_list q = es" "scheduler_step A s w = (1, event_free (Some e)
      (call_event A (ev_handler e) e (ev_handler_ctx e)
        (upd_sched s (\<lambda>k. k\<lparr>sc_eq := q, sc_now := max (sc_now k) (ev_timestamp e)\<rparr>) w)))"
proof -
  obtain q where q: "event_queue_pop (sc_eq (w_sched w s)) = (Some e, q)" "eq_inv q" "eq_list q = es"
    using event_queue_pop_list [OF assms(1)] assms(2)
    by (cases "event_queue_pop (sc_eq (w_sched w s))") auto
  have clock: "(if ev_timestamp e > sc_now (w_sched w s)
         then upd_sched s (\<lambda>k. k\<lparr>sc_now := ev_timestamp e\<rparr>) (upd_sched s (\<lambda>k. k\<lparr>sc_eq := q\<rparr>) w)
         else upd_sched s (\<lambda>k. k\<lparr>sc_eq := q\<rparr>) w) =
      upd_sched s (\<lambda>k. k\<lparr>sc_eq := q, sc_now := max (sc_now k) (ev_timestamp e)\<rparr>) w"
    by (auto simp: upd_sched_def max_def not_less fun_eq_iff)
  show ?thesis
    by (rule that [OF q(2,3)]) (use q(1) assms(3) in \<open>simp add: scheduler_step_def Let_def clock [symmetric]\<close>)
qed

text \<open>
  One step of the scheduler: with an empty queue nothing happens; otherwise the clock moves to the
  time of the first event, and the queue then holds the other events and new ones that lie ahead.
\<close>

lemma scheduler_step_course:
  assumes A: "app_within only_future A" and inv: "eq_inv (sc_eq (w_sched w s))"
    and step: "scheduler_step A s w = (r, w')"
  obtains
    (idle) "eq_list (sc_eq (w_sched w s)) = []" "r = 0" "w' = w"
  | (event) e es new where "eq_list (sc_eq (w_sched w s)) = e # es" "r = 1"
      "sc_now (w_sched w' s) = max (sc_now (w_sched w s)) (ev_timestamp e)" "eq_inv (sc_eq (w_sched w' s))"
      "mset (eq_list (sc_eq (w_sched w' s))) = mset es + new"
      "\<And>x. x \<in># new \<Longrightarrow> ahead w (max (sc_now (w_sched w s)) (ev_timestamp e)) (ev_timestamp x)"
      "w_sim w' = w_sim w" "\<And>l. ln_delay_ms (w_link w' l) = ln_delay_ms (w_link w l)"
proof -
  obtain ev q where pop: "event_queue_pop (sc_eq (w_sched w s)) = (ev, q)" by fastforce
  show ?thesis
  proof (cases ev)
    case None
    then have "q = sc_eq (w_sched w s)" "eq_list (sc_eq (w_sched w s)) = []"
      using event_queue_pop_list [OF inv pop] by (simp_all split: list.splits)
    moreover from this have "r = 0" "w' = w"
      using step pop None by (simp_all add: scheduler_step_def upd_sched_def)
    ultimately show ?thesis using idle by blast
  next
    case (Some e)
    obtain es where es: "eq_list (sc_eq (w_sched w s)) = e # es" "eq_inv q" "eq_list q = es"
      using event_queue_pop_list [OF inv pop] Some by (auto split: list.splits)
    define w1 where "w1 = upd_sched s (\<lambda>k. k\<lparr>sc_eq := q\<rparr>) w"
    define w2 where "w2 = (if ev_timestamp e > sc_now (w_sched w1 s)
      then upd_sched s (\<lambda>k. k\<lparr>sc_now := ev_timestamp e\<rparr>) w1 else w1)"
    let ?t = "max (sc_now (w_sched w s)) (ev_timestamp e)"
    have w2: "sc_now (w_sched w2 s) = ?t" "sc_eq (w_sched w2 s) = q" "w_sim w2 = w_sim w" "w_link w2 = w_link w"
      by (auto simp: w2_def w1_def max_def not_less)
    have fut: "only_future w2 w'" and r: "r = 1"
      using step unfolding scheduler_step_def pop Some
      by (auto simp: Let_def split_def w2_def w1_def intro!: future.step_event_free
          future.step_call_event [OF A] future.R_refl split: if_splits)
    have "sched_extends w2 (w_sched w2 s) (w_sched w' s)" using fut by (rule only_future_sched)
    then obtain new where new: "eq_inv (sc_eq (w_sched w' s))" "sc_now (w_sched w' s) = ?t"
      "mset (eq_list (sc_eq (w_sched w' s))) = mset es + new"
      "\<forall>x \<in># new. ahead w2 ?t (ev_timestamp x)"
      using w2 es by (auto simp: sched_extends_def)
    have "ahead w2 now t = ahead w now t" for now t by (intro ahead_cong) (simp add: w2)
    then show ?thesis using event [OF es(1) r new(2,1,3)] new(4) fut w2 by (simp add: only_future_def)
  qed
qed

lemma causal_step:
  assumes causal: "causal k" and es: "eq_list (sc_eq k) = e # es"
    and k': "sc_now k' = ev_timestamp e" "eq_inv (sc_eq k')" "mset (eq_list (sc_eq k')) = mset es + new"
    and new: "\<And>x. x \<in># new \<Longrightarrow> ahead w (ev_timestamp e) (ev_timestamp x)"
    and limit: "ev_timestamp e < TIME_LIMIT"
  shows "causal k'"
proof -
  have "ev_timestamp e \<le> ev_timestamp x" if x: "x \<in> set (eq_list (sc_eq k'))" for x
  proof -
    have "x \<in># mset es + new" using x by (simp flip: k'(3))
    then consider "x \<in> set es" | "x \<in># new" by auto
    then show ?thesis
    proof cases
      case 1
      then show ?thesis using causal es by (simp add: causal_def eq_inv_def eq_times_def)
    next
      case 2
      then show ?thesis using new [OF 2] limit by (intro future_not_before) (auto simp: ahead_def)
    qed
  qed
  then show ?thesis using k' by (simp add: causal_def)
qed

end
