(* ===== verification/Delivery.thy ===== *)
theory Delivery
  imports Ownership Causality
begin

text \<open>
  What the link layer delivers. A transmission either fails and schedules nothing, or schedules
  exactly one receive event for the other end of the link that carries a fresh copy of the frame;
  the frames and packets of the send path have the headers that the receive path checks.
\<close>

section \<open>What a copy is\<close>

text \<open>Only the allocator and packets change.\<close>

definition same_net :: "world \<Rightarrow> world \<Rightarrow> bool" where
  "same_net w w' \<longleftrightarrow>
     w_oom w' = w_oom w \<and> w_iface w' = w_iface w \<and> w_link w' = w_link w \<and> w_dev w' = w_dev w \<and>
     w_topo w' = w_topo w \<and> w_sched w' = w_sched w \<and> w_sim w' = w_sim w \<and> w_arp w' = w_arp w \<and>
     w_ips w' = w_ips w \<and> w_udp w' = w_udp w \<and> w_udpctx w' = w_udpctx w \<and> w_tcp w' = w_tcp w \<and>
     w_tcpctx w' = w_tcpctx w \<and> w_switch w' = w_switch w \<and> w_host w' = w_host w"

lemma same_net_refl [simp]: "same_net w w"
  by (simp add: same_net_def)

lemma same_net_trans: "same_net w w1 \<Longrightarrow> same_net w1 w2 \<Longrightarrow> same_net w w2"
  by (simp add: same_net_def)

lemma same_netD:
  assumes "same_net w w'"
  shows "w_iface w' = w_iface w" "w_link w' = w_link w" "w_sched w' = w_sched w" "w_sim w' = w_sim w"
    "w_arp w' = w_arp w" "w_ips w' = w_ips w" "w_udp w' = w_udp w" "w_oom w' = w_oom w"
    "w_topo w' = w_topo w" "w_dev w' = w_dev w"
  using assms by (simp_all add: same_net_def)

lemma same_net_basic [simp]:
  "same_net w (upd_pkt p f w)" "same_net w (free_block p w)" "same_net w (packet_free p w)"
  "same_net w (event_free e w)" "same_net w (snd (malloc w))" "same_net w (snd (realloc w))"
  by (simp_all add: same_net_def)

lemma packet_create_effect:
  assumes "mem_ok w" "packet_create n w = (p, w')"
  shows "same_net w w'"
    and "p \<noteq> 0 \<Longrightarrow> \<exists>h f i. w_pkt w' = (w_pkt w)(p := packet_fresh h f n i)"
    and "p \<noteq> 0 \<Longrightarrow> p = w_brk w" and "(\<And>k. \<not> w_oom w k) \<Longrightarrow> p \<noteq> 0"
proof -
  obtain a w1 where m1: "malloc w = (a, w1)" by fastforce
  obtain h w2 where m2: "malloc w1 = (h, w2)" by fastforce
  have n1: "same_net w w1" "w_pkt w1 = w_pkt w" using m1 malloc_simps [of w] by (simp_all add: same_net_def)
  have n2: "same_net w1 w2" "w_pkt w2 = w_pkt w1" using m2 malloc_simps [of w1] by (simp_all add: same_net_def)
  have n: "same_net w w2" using n1(1) n2(1) by (rule same_net_trans)
  show "same_net w w'"
    using assms(2) m1 m2 n n1(1)
    by (auto simp: packet_create_def Let_def same_net_def split: if_splits)
  show "p \<noteq> 0 \<Longrightarrow> \<exists>h f i. w_pkt w' = (w_pkt w)(p := packet_fresh h f n i)"
    using assms(2) m1 m2 n1 n2
    by (auto simp: packet_create_def Let_def split: if_splits intro!: exI [of _ h] exI [of _ "w_junk w2 h"]
        exI [of _ "w_next_id w2"])
  show "p \<noteq> 0 \<Longrightarrow> p = w_brk w"
    using assms(2) m1 m2 malloc_mem(5) [OF assms(1) m1]
    by (auto simp: packet_create_def Let_def split: if_splits)
  show "p \<noteq> 0" if "\<And>k. \<not> w_oom w k"
  proof -
    have a: "a \<noteq> 0" using m1 that mem_ok_brk [OF assms(1)] by (auto simp: malloc_def Let_def)
    have "w_brk w1 \<noteq> 0" using malloc_mem(5) [OF assms(1) m1 a] by simp
    then have "h \<noteq> 0" using m2 that same_netD(8) [OF n1(1)] by (auto simp: malloc_def Let_def)
    then show ?thesis using assms(2) m1 m2 a by (auto simp: packet_create_def Let_def)
  qed
qed

lemma pk_bytes_write:
  assumes "length (pk_buf k) = PKT_HEADROOM + n" "pk_data k = PKT_HEADROOM" "length bs = n"
  shows "pk_bytes ((pkt_write 0 bs k)\<lparr>pk_len := n\<rparr>) = bs"
  using assms by (simp add: pk_bytes_def pkt_write_def)

lemma packet_clone_effect:
  assumes ok: "mem_ok w" "q \<in> w_live w" "packet_ok (w_pkt w q)" and c: "packet_clone q w = (p, w')"
  shows "same_net w w'"
    and "p \<noteq> 0 \<Longrightarrow> pk_bytes (w_pkt w' p) = pk_bytes (w_pkt w q) \<and> pk_len (w_pkt w' p) = pk_len (w_pkt w q)
           \<and> packet_ok (w_pkt w' p) \<and> pk_data (w_pkt w' p) = PKT_HEADROOM"
    and "p \<noteq> 0 \<Longrightarrow> r \<noteq> p \<Longrightarrow> w_pkt w' r = w_pkt w r" and "p \<noteq> 0 \<Longrightarrow> p = w_brk w"
    and "(\<And>k. \<not> w_oom w k) \<Longrightarrow> p \<noteq> 0"
proof -
  obtain a w1 where cr: "packet_create (pk_len (w_pkt w q)) w = (a, w1)" by fastforce
  note ce = packet_create_effect [OF ok(1) cr]
  show "p \<noteq> 0" if "\<And>k. \<not> w_oom w k"
    using ce(4) [OF that] c cr by (auto simp: packet_clone_def Let_def)
  have none: "p = 0 \<and> w' = w1" if "a = 0" using c cr that by (simp add: packet_clone_def)
  have q: "q < w_brk w" using mem_okD [OF ok(1,2)] by simp
  have some: "p = a \<and> same_net w1 w' \<and>
      pk_bytes (w_pkt w' p) = pk_bytes (w_pkt w q) \<and> pk_len (w_pkt w' p) = pk_len (w_pkt w q) \<and>
      packet_ok (w_pkt w' p) \<and> pk_data (w_pkt w' p) = PKT_HEADROOM \<and>
      (\<forall>r. r \<noteq> p \<longrightarrow> w_pkt w' r = w_pkt w r)" if a: "a \<noteq> 0"
  proof -
    obtain h f i where w1: "w_pkt w1 = (w_pkt w)(a := packet_fresh h f (pk_len (w_pkt w q)) i)"
      using ce(2) [OF a] by blast
    have qa: "q \<noteq> a" using ce(3) [OF a] q by simp
    have len: "length (pk_bytes (w_pkt w q)) = pk_len (w_pkt w q)"
      using ok(3) by (simp add: packet_ok_def pk_bytes_def)
    have "p = a" "w_pkt w' = (w_pkt w1)(a := (pkt_write 0 (pk_bytes (w_pkt w q))
        (packet_fresh h f (pk_len (w_pkt w q)) i))\<lparr>pk_len := pk_len (w_pkt w q), pk_layer := pk_layer (w_pkt w q)\<rparr>)"
      "same_net w1 w'"
      using c cr a qa by (auto simp: packet_clone_def Let_def w1 pk_bytes_def same_net_def)
    then show ?thesis
      using len w1 by (simp add: packet_fresh_def pkt_write_def pk_bytes_def packet_ok_def)
  qed
  show "same_net w w'"
    using none some ce(1) same_net_trans by (cases "a = 0") blast+
  show "p \<noteq> 0 \<Longrightarrow> pk_bytes (w_pkt w' p) = pk_bytes (w_pkt w q) \<and> pk_len (w_pkt w' p) = pk_len (w_pkt w q)
           \<and> packet_ok (w_pkt w' p) \<and> pk_data (w_pkt w' p) = PKT_HEADROOM"
    "p \<noteq> 0 \<Longrightarrow> r \<noteq> p \<Longrightarrow> w_pkt w' r = w_pkt w r" "p \<noteq> 0 \<Longrightarrow> p = w_brk w"
    using none some ce(3) by blast+
qed

section \<open>Transmission over a link\<close>

text \<open>
  Between \<open>w\<close> and \<open>w'\<close> one receive event was queued in \<open>sched\<close>, carrying a fresh packet with
  the data \<open>bytes\<close>; nothing else changed in any scheduler.
\<close>

definition delivers ::
  "ptr \<Rightarrow> ptr \<Rightarrow> u64 \<Rightarrow> EventCallback \<Rightarrow> ptr \<Rightarrow> u8 list \<Rightarrow> ptr \<Rightarrow> world \<Rightarrow> world \<Rightarrow> bool" where
  "delivers src dst t h ctx bytes sched w w' \<longleftrightarrow>
     (\<exists>e q. w_sched w' = (w_sched w)(sched := (w_sched w sched)\<lparr>sc_eq := q\<rparr>) \<and> eq_inv q \<and>
        eq_list q = insert_event e (eq_list (sc_eq (w_sched w sched))) \<and>
        ev_type e = EVT_PACKET_RECEIVE \<and> ev_timestamp e = t \<and> ev_src_device e = src \<and>
        ev_dst_device e = dst \<and> ev_handler e = h \<and> ev_handler_ctx e = ctx \<and>
        fresh_packet w (ev_packet e) w' \<and> packet_ok (w_pkt w' (ev_packet e)) \<and>
        pk_bytes (w_pkt w' (ev_packet e)) = bytes)"

lemma event_create_effect:
  assumes "event_create_callback ty ts a b pk d h c w = (e, w')"
  shows "same_net w w'" "w_pkt w' = w_pkt w"
    "e = Some ev \<Longrightarrow> ev_type ev = ty \<and> ev_timestamp ev = ts \<and> ev_src_device ev = a \<and> ev_dst_device ev = b
       \<and> ev_packet ev = pk \<and> ev_handler ev = h \<and> ev_handler_ctx ev = c"
    "mem_ok w \<Longrightarrow> (\<And>k. \<not> w_oom w k) \<Longrightarrow> e \<noteq> None"
proof -
  obtain p w1 where m: "malloc w = (p, w1)" by fastforce
  have w': "w' = w1" using assms m by (auto simp: event_create_callback_def Let_def split: if_splits)
  show "same_net w w'" "w_pkt w' = w_pkt w" using m malloc_simps [of w] w' by (simp_all add: same_net_def)
  show "e = Some ev \<Longrightarrow> ev_type ev = ty \<and> ev_timestamp ev = ts \<and> ev_src_device ev = a \<and> ev_dst_device ev = b
       \<and> ev_packet ev = pk \<and> ev_handler ev = h \<and> ev_handler_ctx ev = c"
    using assms m by (auto simp: event_create_callback_def Let_def split: if_splits)
  show "mem_ok w \<Longrightarrow> (\<And>k. \<not> w_oom w k) \<Longrightarrow> e \<noteq> None"
    using assms mem_ok_brk [of w] by (auto simp: event_create_callback_def malloc_def Let_def)
qed

lemma scheduler_schedule_effect:
  assumes "eq_inv (sc_eq (w_sched w s))" "s \<noteq> 0" "scheduler_schedule s (Some e) w = (r, w')"
  shows "r = 0 \<or> r = - 1" "w_pkt w' = w_pkt w" "r \<noteq> 0 \<Longrightarrow> same_net w w'"
    and "r = 0 \<Longrightarrow> \<exists>q. w_sched w' = (w_sched w)(s := (w_sched w s)\<lparr>sc_eq := q\<rparr>) \<and> eq_inv q \<and>
           eq_list q = insert_event e (eq_list (sc_eq (w_sched w s)))"
    and "(\<And>k. \<not> w_oom w k) \<Longrightarrow> r = 0"
proof -
  let ?q = "sc_eq (w_sched w s)"
  define grow where "grow = (if eq_count ?q \<ge> eq_capacity ?q then fst (realloc w) else True)"
  define w1 where "w1 = (if eq_count ?q \<ge> eq_capacity ?q then snd (realloc w) else w)"
  obtain r' q where push: "event_queue_push grow ?q e = (r', q)" by fastforce
  have res: "r = r'" "w' = upd_sched s (\<lambda>k. k\<lparr>sc_eq := q\<rparr>) w1"
    using assms(2,3) push unfolding scheduler_schedule_def grow_def w1_def
    by (auto simp: Let_def split_def split: if_splits)
  have w1: "same_net w w1" "w_pkt w1 = w_pkt w" by (simp_all add: w1_def same_net_def)
  show "r = 0 \<or> r = - 1" using event_queue_push_fst [of grow ?q e] push res by auto
  show "w_pkt w' = w_pkt w" using w1 res by simp
  show "r \<noteq> 0 \<Longrightarrow> same_net w w'"
    using event_queue_push_fail [OF push] res w1 by (simp add: same_net_def)
  show "r = 0 \<Longrightarrow> \<exists>q. w_sched w' = (w_sched w)(s := (w_sched w s)\<lparr>sc_eq := q\<rparr>) \<and> eq_inv q \<and>
           eq_list q = insert_event e (eq_list ?q)"
    using event_queue_push_list [OF assms(1) push] res same_netD(3) [OF w1(1)] by auto
  show "r = 0" if "\<And>k. \<not> w_oom w k"
    using event_queue_push_fst [of grow ?q e] push res that by (simp add: grow_def realloc_def)
qed

lemma link_transmit_effect:
  assumes ok: "mem_ok w" "pkt \<in> w_live w" "packet_ok (w_pkt w pkt)" "eq_inv (sc_eq (w_sched w sched))"
    and t: "link_transmit link pkt src sched now h ctx w = (r, w')"
  shows "r = 1 \<or> r = - 1" "r \<noteq> 1 \<Longrightarrow> same_net w w'" "w_iface w' = w_iface w"
    and "r = 1 \<Longrightarrow> delivers src (link_get_other_interface link src w)
           (now + ucast (ln_delay_ms (w_link w link))) h ctx (pk_bytes (w_pkt w pkt)) sched w w'"
    and "(\<And>k. \<not> w_oom w k) \<Longrightarrow> link \<noteq> 0 \<Longrightarrow> src \<noteq> 0 \<Longrightarrow> sched \<noteq> 0 \<Longrightarrow> ln_up (w_link w link) \<noteq> 0 \<Longrightarrow>
           interface_is_up (link_get_other_interface link src w) w \<noteq> 0 \<Longrightarrow> r = 1"
proof -
  let ?dst = "link_get_other_interface link src w"
  let ?ts = "now + ucast (ln_delay_ms (w_link w link))"
  define refused where "refused \<longleftrightarrow> link = 0 \<or> pkt = 0 \<or> src = 0 \<or> sched = 0 \<or> ln_up (w_link w link) = 0 \<or>
    ?dst = 0 \<or> interface_is_up ?dst w = 0"
  obtain cl w1 where c1: "packet_clone pkt w = (cl, w1)" by fastforce
  note ce = packet_clone_effect [OF ok(1-3) c1] packet_clone_mem [OF ok(1) c1]
  obtain e w2 where c2: "event_create_callback EVT_PACKET_RECEIVE ?ts src ?dst cl None h ctx w1 = (e, w2)"
    by fastforce
  note ee = event_create_effect [OF c2] event_create_mem [OF keeps_mem [OF ce(6)] c2]
  obtain r3 w3 where c3: "scheduler_schedule sched e w2 = (r3, w3)" by fastforce
  have n2: "same_net w w2" by (rule same_net_trans [OF ce(1) ee(1)])
  have res: "(r, w') = (if refused then (- 1, w) else if cl = 0 then (- 1, w1)
      else if e = None then (- 1, packet_free cl w2)
      else (if r3 = 0 then 1 else - 1, if r3 \<noteq> 0 then event_free e (packet_free cl w3) else w3))"
    using t c1 c2 c3 same_netD(2) [OF ce(1)]
    by (auto simp: link_transmit_def refused_def Let_def split: if_splits)
  have sched: "eq_inv (sc_eq (w_sched w2 sched))" "w_sched w2 = w_sched w"
    using ok(4) same_netD(3) [OF n2] by simp_all
  have goal: "(r = 1 \<or> r = - 1) \<and> (r \<noteq> 1 \<longrightarrow> same_net w w') \<and> w_iface w' = w_iface w \<and>
    (r = 1 \<longrightarrow> delivers src ?dst ?ts h ctx (pk_bytes (w_pkt w pkt)) sched w w') \<and>
    ((\<forall>k. \<not> w_oom w k) \<longrightarrow> \<not> refused \<longrightarrow> r = 1)"
  proof (cases "refused \<or> cl = 0 \<or> e = None")
    case True
    have "refused" if "\<forall>k. \<not> w_oom w k"
      using that True ce(5) ee(4) [OF keeps_mem [OF ce(6)]] same_netD(8) [OF ce(1)] by auto
    moreover have "same_net w (packet_free cl w2)" by (rule same_net_trans [OF n2]) simp
    ultimately show ?thesis
      using res True ce(1) same_netD(1) [OF n2] by (auto simp: same_netD(1) split: if_splits)
  next
    case False
    then obtain ev where ev: "e = Some ev" by auto
    have s0: "sched \<noteq> 0" using False by (simp add: refused_def)
    note se = scheduler_schedule_effect [OF sched(1) s0 c3 [unfolded ev]]
    have if3: "w_iface w3 = w_iface w"
      using c3 scheduler_schedule_simps(11) [of sched e w2] same_netD(1) [OF n2] by simp
    show ?thesis
    proof (cases "r3 = 0")
      case True
      then obtain q where q: "w_sched w3 = (w_sched w)(sched := (w_sched w sched)\<lparr>sc_eq := q\<rparr>)" "eq_inv q"
        "eq_list q = insert_event ev (eq_list (sc_eq (w_sched w sched)))"
        using se(4) sched(2) by auto
      have "keeps w2 w3" by (rule schedule_mem [OF keeps_mem [OF ee(5)] c3])
      then have "fresh_packet w cl w3"
        using fresh_packet_keeps [OF ce(6) ce(7) keeps_trans [OF ee(5)]] False by simp
      moreover have "w_pkt w3 = w_pkt w1" using se(2) ee(2) by simp
      ultimately have "delivers src ?dst ?ts h ctx (pk_bytes (w_pkt w pkt)) sched w w3"
        unfolding delivers_def using q ee(3) [OF ev] ce(2) False
        by (intro exI [of _ ev] exI [of _ q]) simp
      then show ?thesis using res False True if3 by (simp split: if_splits)
    next
      case fail: False
      have n3: "same_net w2 w3" using se(3) fail by simp
      have "same_net w (event_free e (packet_free cl w3))"
        using same_net_trans [OF n2 n3] by (simp add: same_net_def)
      moreover have "\<not> (\<forall>k. \<not> w_oom w k)"
        using se(5) fail same_netD(8) [OF n2] by auto
      ultimately show ?thesis using res False fail if3 by (auto simp: same_netD(1) split: if_splits)
    qed
  qed
  then show "r = 1 \<or> r = - 1" "r \<noteq> 1 \<Longrightarrow> same_net w w'" "w_iface w' = w_iface w"
    "r = 1 \<Longrightarrow> delivers src ?dst ?ts h ctx (pk_bytes (w_pkt w pkt)) sched w w'" by blast+
  have "pkt \<noteq> 0" using mem_okD [OF ok(1,2)] by simp
  then show "(\<And>k. \<not> w_oom w k) \<Longrightarrow> link \<noteq> 0 \<Longrightarrow> src \<noteq> 0 \<Longrightarrow> sched \<noteq> 0 \<Longrightarrow> ln_up (w_link w link) \<noteq> 0 \<Longrightarrow>
           interface_is_up ?dst w \<noteq> 0 \<Longrightarrow> r = 1"
    using goal by (auto simp: refused_def interface_is_up_def split: if_splits)
qed

section \<open>Frames and packets on the wire\<close>

lemma eth_bytes_len: "length (eth_bytes h) = 14" if "eth_wf h"
  using that by (simp add: eth.length_bytes)

lemma pkt_prepend_effect:
  assumes "packet_ok (w_pkt w p)" "length hdr = n" "pkt_prepend p hdr n w = (r, w')"
  shows "same_net w w'" "w_live w' = w_live w" "r = (if n \<le> pk_data (w_pkt w p) then 0 else - 1)"
    and "r = 0 \<Longrightarrow> packet_ok (w_pkt w' p) \<and> pk_bytes (w_pkt w' p) = hdr @ pk_bytes (w_pkt w p) \<and>
           pk_data (w_pkt w' p) = pk_data (w_pkt w p) - n \<and> pk_len (w_pkt w' p) = pk_len (w_pkt w p) + n"
proof -
  obtain q where q: "packet_prepend (w_pkt w p) hdr n = (r, q)" and w': "w' = upd_pkt p (\<lambda>_. q) w"
    using assms(3) by (auto simp: pkt_prepend_def split: prod.splits)
  show "same_net w w'" "w_live w' = w_live w" by (simp_all add: w')
  show r: "r = (if n \<le> pk_data (w_pkt w p) then 0 else - 1)"
    using packet_prepend_fst [of "w_pkt w p" hdr n] q by auto
  show "packet_ok (w_pkt w' p) \<and> pk_bytes (w_pkt w' p) = hdr @ pk_bytes (w_pkt w p) \<and>
      pk_data (w_pkt w' p) = pk_data (w_pkt w p) - n \<and> pk_len (w_pkt w' p) = pk_len (w_pkt w p) + n"
    if "r = 0"
  proof -
    have n: "n \<le> pk_data (w_pkt w p)" using that r by (simp split: if_splits)
    show ?thesis
      using packet_prepend_ok [OF assms(1,2) q] packet_prepend_bytes [OF assms(1,2) n]
        packet_prepend_len [OF n, of hdr] q by (simp add: w')
  qed
qed

text \<open>What a send call must leave alone: every scheduler but the one it queues in.\<close>

lemma delivers_from:
  assumes "delivers src dst t h ctx bytes sched w1 w'" "w_sched w1 = w_sched w" "w_live w \<subseteq> w_live w1"
  shows "delivers src dst t h ctx bytes sched w w'"
proof -
  have fresh: "fresh_packet w p w'" if "fresh_packet w1 p w'" for p
    using that assms(3) by (auto simp: fresh_packet_def)
  show ?thesis
    using assms(1) fresh unfolding delivers_def assms(2) by (elim exE conjE) (intro exI conjI; assumption?; blast)
qed

lemma pk_bytes_layer [simp]: "pk_bytes (k\<lparr>pk_layer := l\<rparr>) = pk_bytes k" "packet_ok (k\<lparr>pk_layer := l\<rparr>) = packet_ok k"
  "pk_before (k\<lparr>pk_layer := l\<rparr>) n = pk_before k n"
  by (simp_all add: pk_bytes_def packet_ok_def pk_before_def)

lemma ethernet_send_effect:
  assumes ok: "mem_ok w" "payload \<in> w_live w" "packet_ok (w_pkt w payload)"
      "eq_inv (sc_eq (w_sched w (sm_sched (w_sim w sim))))"
    and mac: "length dst = 6" "length (if_mac (w_iface w iface)) = 6"
    and s: "ethernet_send sim iface (Some dst) et payload w = (r, w')"
  shows "r = 1 \<or> r = - 1" "r \<noteq> 1 \<Longrightarrow> w_sched w' = w_sched w"
    and "r = 1 \<Longrightarrow> delivers iface (link_get_other_interface (if_link (w_iface w iface)) iface w)
           (simulator_now sim w + ucast (ln_delay_ms (w_link w (if_link (w_iface w iface)))))
           CB_ethernet_receive_event sim
           (eth_bytes \<lparr>eth_dst_mac = dst, eth_src_mac = if_mac (w_iface w iface), eth_ethertype = ns_htons et\<rparr>
              @ pk_bytes (w_pkt w payload)) (sm_sched (w_sim w sim)) w w'"
    and "(\<And>k. \<not> w_oom w k) \<Longrightarrow> sim \<noteq> 0 \<Longrightarrow> iface \<noteq> 0 \<Longrightarrow> if_state (w_iface w iface) = IFACE_OK \<Longrightarrow>
           if_link (w_iface w iface) \<noteq> 0 \<Longrightarrow> sm_sched (w_sim w sim) \<noteq> 0 \<Longrightarrow>
           ln_up (w_link w (if_link (w_iface w iface))) \<noteq> 0 \<Longrightarrow>
           link_get_other_interface (if_link (w_iface w iface)) iface w \<noteq> iface \<Longrightarrow>
           interface_is_up (link_get_other_interface (if_link (w_iface w iface)) iface w) w \<noteq> 0 \<Longrightarrow>
           14 \<le> pk_data (w_pkt w payload) \<Longrightarrow> r = 1"
proof -
  let ?i = "w_iface w iface" and ?sched = "sm_sched (w_sim w sim)"
  let ?hdr = "\<lparr>eth_dst_mac = dst, eth_src_mac = if_mac ?i, eth_ethertype = ns_htons et\<rparr>"
  let ?link = "if_link ?i" and ?dst = "link_get_other_interface (if_link ?i) iface w"
  define refused where "refused \<longleftrightarrow> sim = 0 \<or> iface = 0 \<or> payload = 0 \<or> if_state ?i = IFACE_ERR_DISABLED"
  have wf: "eth_wf ?hdr" using mac by (simp add: eth_wf_def)
  obtain h w1 where m: "malloc w = (h, w1)" by fastforce
  have n1: "same_net w w1" "w_pkt w1 = w_pkt w" using m malloc_simps [of w] by (simp_all add: same_net_def)
  note mm = malloc_mem [OF ok(1) m]
  obtain r2 w2 where pp: "pkt_prepend payload (eth_bytes ?hdr) 14 w1 = (r2, w2)" by fastforce
  have ok1: "packet_ok (w_pkt w1 payload)" using ok(3) n1(2) by simp
  note pe = pkt_prepend_effect [OF ok1 eth_bytes_len [OF wf] pp]
  have n2: "same_net w w2" by (rule same_net_trans [OF n1(1) pe(1)])
  define w3 where "w3 = free_block h w2"
  have w3: "w_iface w3 = w_iface w" "w_sim w3 = w_sim w"
    using same_netD [OF n2] by (simp_all add: w3_def)
  define up :: "Interface \<Rightarrow> Interface" where "up = (\<lambda>i. i\<lparr>if_tx_bytes := if_tx_bytes i + of_nat (pk_len (w_pkt w2 payload)),
      if_last_tx_time := simulator_now sim w\<rparr>)"
  define w4 where "w4 = upd_pkt payload (\<lambda>k. k\<lparr>pk_layer := 2\<rparr>) (upd_iface iface up w3)"
  have now: "simulator_now sim x = simulator_now sim w" if "w_sched x = w_sched w" "w_sim x = w_sim w" for x
    using that by (simp add: simulator_now_def)
  have four: "upd_pkt payload (\<lambda>k. k\<lparr>pk_layer := 2\<rparr>)
      (upd_iface iface (\<lambda>i. i\<lparr>if_last_tx_time := simulator_now sim (upd_iface iface (\<lambda>i. i\<lparr>if_tx_bytes := if_tx_bytes i
         + of_nat (pk_len (w_pkt w3 payload))\<rparr>) w3)\<rparr>)
      (upd_iface iface (\<lambda>i. i\<lparr>if_tx_bytes := if_tx_bytes i + of_nat (pk_len (w_pkt w3 payload))\<rparr>) w3)) = w4"
    using now [of "upd_iface iface (\<lambda>i. i\<lparr>if_tx_bytes := if_tx_bytes i + of_nat (pk_len (w_pkt w3 payload))\<rparr>) w3"]
      same_netD(3,4) [OF n2]
    by (simp add: w4_def up_def w3_def upd_iface_def)
  have w4: "w_sched w4 = w_sched w" "w_sim w4 = w_sim w" "w_link w4 = w_link w" "w_oom w4 = w_oom w"
    "if_link (w_iface w4 iface) = ?link" "w_iface w4 = (w_iface w)(iface := up ?i)"
    using same_netD [OF n2] by (simp_all add: w4_def w3_def up_def)
  obtain r5 w5 where t: "link_transmit ?link payload iface ?sched (simulator_now sim w)
      CB_ethernet_receive_event sim w4 = (r5, w5)" by fastforce
  have res: "(r, w') = (if refused then (- 1, w) else if h = 0 then (- 1, eth_tx_error sim iface w1)
      else if r2 = - 1 then (- 1, eth_tx_error sim iface w3) else (r5, w5))"
  proof (cases refused)
    case True
    then have "ethernet_send sim iface (Some dst) et payload w = (- 1, w)"
      by (auto simp: ethernet_send_def refused_def)
    then show ?thesis using s True by simp
  next
    case False
    then have "\<not> (sim = 0 \<or> iface = 0 \<or> payload = 0)" "if_state ?i \<noteq> IFACE_ERR_DISABLED"
      by (auto simp: refused_def)
    then have "ethernet_send sim iface (Some dst) et payload w =
        (if h = 0 then (- 1, eth_tx_error sim iface w1)
         else if r2 = - 1 then (- 1, eth_tx_error sim iface w3)
         else link_transmit ?link payload iface ?sched
                (simulator_now sim w4) CB_ethernet_receive_event sim w4)"
      using m pp four same_netD(1) [OF n1(1)] w3
      unfolding ethernet_send_def w3_def [symmetric] by (simp add: Let_def w3_def [symmetric])
    then show ?thesis using s t now [OF w4(1,2)] False by (simp split: if_splits)
  qed
  have other: "link_get_other_interface ?link iface w4 = ?dst" by (simp add: link_get_other_interface_def w4)
  have quiet: "w_sched (eth_tx_error sim iface x) = w_sched x" for x by (simp add: eth_tx_error_def)
  have goal: "(r = 1 \<or> r = - 1) \<and> (r \<noteq> 1 \<longrightarrow> w_sched w' = w_sched w) \<and>
    (r = 1 \<longrightarrow> delivers iface ?dst (simulator_now sim w + ucast (ln_delay_ms (w_link w ?link)))
       CB_ethernet_receive_event sim (eth_bytes ?hdr @ pk_bytes (w_pkt w payload)) ?sched w w') \<and>
    ((\<forall>k. \<not> w_oom w k) \<longrightarrow> \<not> refused \<longrightarrow> ?link \<noteq> 0 \<longrightarrow> ?sched \<noteq> 0 \<longrightarrow> ln_up (w_link w ?link) \<noteq> 0 \<longrightarrow>
       ?dst \<noteq> iface \<longrightarrow> interface_is_up ?dst w \<noteq> 0 \<longrightarrow> 14 \<le> pk_data (w_pkt w payload) \<longrightarrow> r = 1)"
  proof (cases "refused \<or> h = 0 \<or> r2 = - 1")
    case True
    have "h \<noteq> 0" if "\<forall>k. \<not> w_oom w k"
      using that m mem_ok_brk [OF ok(1)] by (auto simp: malloc_def Let_def)
    moreover have "w_sched w1 = w_sched w" "w_sched w3 = w_sched w"
      using same_netD(3) [OF n1(1)] same_netD(3) [OF n2] by (simp_all add: w3_def)
    ultimately show ?thesis
      using res True pe(3) n1(2) by (auto simp: quiet split: if_splits)
  next
    case False
    then have r2: "r2 = 0" using pe(3) by (simp split: if_splits)
    have h: "h \<notin> w_live w" "h \<in> w_live w1" using mm(2,3) False by auto
    have live3: "w_live w \<subseteq> w_live w3" "w_live w \<subseteq> w_live w4"
      using h mm(1) pe(2) by (auto simp: w4_def w3_def free_block_def keeps_def)
    have nz: "iface \<noteq> 0" "payload \<noteq> 0" using False by (auto simp: refused_def)
    have "keeps w (free_block h w2)"
      using False h pe(2) keeps_prepend [OF keeps_mem [OF mm(1)] nz(2) pp]
      by (intro keeps_free_fresh keeps_trans [OF mm(1)]) auto
    then have mem4: "mem_ok w4" by (simp add: w4_def w3_def keeps_def mem_ok_def)
    have pk4: "packet_ok (w_pkt w4 payload)"
      "pk_bytes (w_pkt w4 payload) = eth_bytes ?hdr @ pk_bytes (w_pkt w payload)"
      using pe(4) [OF r2] n1(2) by (simp_all add: w4_def w3_def)
    have in4: "payload \<in> w_live w4" using live3(2) ok(2) by auto
    have eq4: "eq_inv (sc_eq (w_sched w4 ?sched))" using ok(4) w4(1) by simp
    note te = link_transmit_effect [OF mem4 in4 pk4(1) eq4 t]
    have rw: "r = r5" "w' = w5" using res False by auto
    have "delivers iface ?dst (simulator_now sim w + ucast (ln_delay_ms (w_link w ?link)))
       CB_ethernet_receive_event sim (eth_bytes ?hdr @ pk_bytes (w_pkt w payload)) ?sched w w'" if "r = 1"
      using delivers_from [OF te(4) w4(1) live3(2)] that rw other w4(3) pk4(2) by simp
    moreover have "r = 1" if "\<forall>k. \<not> w_oom w k" "?link \<noteq> 0" "?sched \<noteq> 0" "ln_up (w_link w ?link) \<noteq> 0"
      "?dst \<noteq> iface" "interface_is_up ?dst w \<noteq> 0"
    proof -
      have "interface_is_up ?dst w4 = interface_is_up ?dst w"
        using that(5) w4(6) by (simp add: interface_is_up_def)
      then show ?thesis using te(5) that rw other w4 nz by simp
    qed
    ultimately show ?thesis using te(1,2) rw w4(1) by (auto simp: same_netD(3))
  qed
  then show "r = 1 \<or> r = - 1" "r \<noteq> 1 \<Longrightarrow> w_sched w' = w_sched w"
    "r = 1 \<Longrightarrow> delivers iface ?dst (simulator_now sim w + ucast (ln_delay_ms (w_link w ?link)))
       CB_ethernet_receive_event sim (eth_bytes ?hdr @ pk_bytes (w_pkt w payload)) ?sched w w'" by blast+
  have "payload \<noteq> 0" using mem_okD [OF ok(1,2)] by simp
  then show "(\<And>k. \<not> w_oom w k) \<Longrightarrow> sim \<noteq> 0 \<Longrightarrow> iface \<noteq> 0 \<Longrightarrow> if_state ?i = IFACE_OK \<Longrightarrow>
           ?link \<noteq> 0 \<Longrightarrow> ?sched \<noteq> 0 \<Longrightarrow> ln_up (w_link w ?link) \<noteq> 0 \<Longrightarrow> ?dst \<noteq> iface \<Longrightarrow>
           interface_is_up ?dst w \<noteq> 0 \<Longrightarrow> 14 \<le> pk_data (w_pkt w payload) \<Longrightarrow> r = 1"
    using goal by (simp add: refused_def)
qed

section \<open>The IPv4 header\<close>

lemma ip_bytes_parts:
  "ip_bytes (h\<lparr>ip_header_checksum := c\<rparr>) = take 10 (ip_bytes h) @ le16 c @ drop 12 (ip_bytes h)"
  by (simp add: ip_bytes_def le16_def le32_def)

lemma ip_bytes_zero:
  "ip_header_checksum h = 0 \<Longrightarrow> ip_bytes h = take 10 (ip_bytes h) @ [0, 0] @ drop 12 (ip_bytes h)"
  by (simp add: ip_bytes_def le16_def le32_def)

lemma ip_header_sealed:
  assumes "ip_header_checksum h = 0"
  shows "ip_checksum (Some (ip_bytes (h\<lparr>ip_header_checksum := ip_checksum (Some (ip_bytes h))\<rparr>) @ rest)) = 0"
proof -
  let ?c = "ip_checksum (Some (ip_bytes h))"
  have "unat (ns_ntohs ?c) = 65535 - csum16 (be_total (take 10 (ip_bytes h) @ [0, 0] @ drop 12 (ip_bytes h)))"
    using ip_checksum_value [of "ip_bytes h" "[]"] ip_bytes_zero [OF assms] by simp
  then have "0 < be_total (ip_bytes (h\<lparr>ip_header_checksum := ?c\<rparr>)) \<and>
      65535 dvd be_total (ip_bytes (h\<lparr>ip_header_checksum := ?c\<rparr>))"
    unfolding ip_bytes_parts by (intro total_with_checksum) simp_all
  then show ?thesis by (subst ip_checksum_ok_iff) simp_all
qed

lemma ip_send_header_fields:
  "ip_protocol (ip_send_header s d pr n) = pr" "ip_src_ip (ip_send_header s d pr n) = ns_htonl s"
  "ip_dst_ip (ip_send_header s d pr n) = ns_htonl d" "ip_ttl (ip_send_header s d pr n) = 64"
  "ip_version_ihl (ip_send_header s d pr n) = 0x45"
  "ip_total_length (ip_send_header s d pr n) = ns_htons (of_nat (20 + n))"
  by (simp_all add: ip_send_header_def Let_def)

lemma ip_send_header_checksum:
  "ip_checksum (Some (ip_bytes (ip_send_header s d pr n) @ rest)) = 0"
  unfolding ip_send_header_def Let_def by (rule ip_header_sealed) simp

lemma ip_send_header_ok: "ip_check (ip_bytes (ip_send_header s d pr n) @ rest) = IP_OK"
  by (simp add: ip_check_def ip.at_bytes ip_send_header_fields ip_send_header_checksum)

section \<open>Packets and ARP requests on the wire\<close>

text \<open>The other end of the link of an interface, and the time a frame sent now arrives there.\<close>

definition peer :: "ptr \<Rightarrow> world \<Rightarrow> ptr" where
  "peer iface w = link_get_other_interface (if_link (w_iface w iface)) iface w"

definition arrival :: "ptr \<Rightarrow> ptr \<Rightarrow> world \<Rightarrow> u64" where
  "arrival sim iface w = simulator_now sim w + ucast (ln_delay_ms (w_link w (if_link (w_iface w iface))))"

text \<open>Nothing on the way refuses the frame.\<close>

definition path_up :: "ptr \<Rightarrow> ptr \<Rightarrow> world \<Rightarrow> bool" where
  "path_up sim iface w \<longleftrightarrow>
     sim \<noteq> NULL \<and> iface \<noteq> NULL \<and> if_state (w_iface w iface) = IFACE_OK \<and>
     if_link (w_iface w iface) \<noteq> NULL \<and> sm_sched (w_sim w sim) \<noteq> NULL \<and>
     ln_up (w_link w (if_link (w_iface w iface))) \<noteq> 0 \<and> peer iface w \<noteq> iface \<and>
     interface_is_up (peer iface w) w \<noteq> 0"

lemma peer_cong:
  "w_link w' = w_link w \<Longrightarrow> if_link (w_iface w' iface) = if_link (w_iface w iface) \<Longrightarrow> peer iface w' = peer iface w"
  by (simp add: peer_def link_get_other_interface_def)

lemma arrival_cong:
  "w_link w' = w_link w \<Longrightarrow> w_sched w' = w_sched w \<Longrightarrow> w_sim w' = w_sim w \<Longrightarrow>
   if_link (w_iface w' iface) = if_link (w_iface w iface) \<Longrightarrow> arrival sim iface w' = arrival sim iface w"
  by (simp add: arrival_def simulator_now_def)

definition eth_frame :: "mac \<Rightarrow> mac \<Rightarrow> u16 \<Rightarrow> u8 list \<Rightarrow> u8 list" where
  "eth_frame dst src et data =
     eth_bytes \<lparr>eth_dst_mac = dst, eth_src_mac = src, eth_ethertype = ns_htons et\<rparr> @ data"

lemma ethernet_send_sent:
  assumes "mem_ok w" "payload \<in> w_live w" "packet_ok (w_pkt w payload)"
      "eq_inv (sc_eq (w_sched w (sm_sched (w_sim w sim))))"
      "length dst = 6" "length (if_mac (w_iface w iface)) = 6"
    and "ethernet_send sim iface (Some dst) et payload w = (r, w')"
  shows "r = 1 \<or> r = - 1" "r \<noteq> 1 \<Longrightarrow> w_sched w' = w_sched w"
    and "r = 1 \<Longrightarrow> delivers iface (peer iface w) (arrival sim iface w) CB_ethernet_receive_event sim
           (eth_frame dst (if_mac (w_iface w iface)) et (pk_bytes (w_pkt w payload)))
           (sm_sched (w_sim w sim)) w w'"
    and "(\<And>k. \<not> w_oom w k) \<Longrightarrow> path_up sim iface w \<Longrightarrow> 14 \<le> pk_data (w_pkt w payload) \<Longrightarrow> r = 1"
  using ethernet_send_effect [OF assms]
  by (auto simp: peer_def arrival_def path_up_def eth_frame_def)

lemma ip_send_sent:
  assumes ok: "mem_ok w" "payload \<in> w_live w" "packet_ok (w_pkt w payload)"
      "eq_inv (sc_eq (w_sched w (sm_sched (w_sim w sim))))"
      "length dst = 6" "length (if_mac (w_iface w iface)) = 6"
    and s: "ip_send sim iface (Some dst) a b pr payload w = (r, w')"
  shows "r = 1 \<or> r = - 1" "r \<noteq> 1 \<Longrightarrow> w_sched w' = w_sched w"
    and "r = 1 \<Longrightarrow> delivers iface (peer iface w) (arrival sim iface w) CB_ethernet_receive_event sim
           (eth_frame dst (if_mac (w_iface w iface)) 0x0800
             (ip_bytes (ip_send_header a b pr (pk_len (w_pkt w payload))) @ pk_bytes (w_pkt w payload)))
           (sm_sched (w_sim w sim)) w w'"
    and "(\<And>k. \<not> w_oom w k) \<Longrightarrow> path_up sim iface w \<Longrightarrow> 34 \<le> pk_data (w_pkt w payload) \<Longrightarrow> r = 1"
proof -
  let ?i = "w_iface w iface"
  let ?h = "ip_send_header a b pr (pk_len (w_pkt w payload))"
  have pz: "payload \<noteq> 0" using mem_okD [OF ok(1,2)] by simp
  have goal: "(r = 1 \<or> r = - 1) \<and> (r \<noteq> 1 \<longrightarrow> w_sched w' = w_sched w) \<and>
    (r = 1 \<longrightarrow> delivers iface (peer iface w) (arrival sim iface w) CB_ethernet_receive_event sim
       (eth_frame dst (if_mac ?i) 0x0800 (ip_bytes ?h @ pk_bytes (w_pkt w payload)))
       (sm_sched (w_sim w sim)) w w') \<and>
    ((\<forall>k. \<not> w_oom w k) \<longrightarrow> path_up sim iface w \<longrightarrow> 34 \<le> pk_data (w_pkt w payload) \<longrightarrow> r = 1)"
  proof (cases "sim = 0 \<or> iface = 0")
    case True
    then have "ip_send sim iface (Some dst) a b pr payload w = (- 1, w)" by (auto simp: ip_send_def)
    then show ?thesis using s True by (auto simp: path_up_def)
  next
    case False
    obtain r1 w1 where pp: "pkt_prepend payload (ip_bytes ?h) 20 w = (r1, w1)" by fastforce
    note pe = pkt_prepend_effect [OF ok(3) bytes_widths(1) pp]
    show ?thesis
    proof (cases "r1 = - 1")
      case True
      then have "ip_send sim iface (Some dst) a b pr payload w = (- 1, w1)"
        using False pz pp by (simp add: ip_send_def)
      then show ?thesis using s True pe same_netD(3) [OF pe(1)] by (auto split: if_splits)
    next
      case r1: False
      then have r0: "r1 = 0" using pe(3) by (simp split: if_splits)
      define w2 where "w2 = upd_pkt payload (\<lambda>k. k\<lparr>pk_layer := 3\<rparr>) w1"
      define w3 where "w3 = upd_iface iface (\<lambda>i. i\<lparr>if_tx_bytes := if_tx_bytes i + of_nat (pk_len (w_pkt w2 payload))\<rparr>) w2"
      define w4 where "w4 = upd_iface iface (\<lambda>i. i\<lparr>if_last_tx_time := simulator_now sim w3\<rparr>) w3"
      have send: "ethernet_send sim iface (Some dst) 0x0800 payload w4 = (r, w')"
        using s False pz pp r1 by (simp add: ip_send_def Let_def w4_def w3_def w2_def)
      have w4: "w_sched w4 = w_sched w" "w_sim w4 = w_sim w" "w_link w4 = w_link w" "w_oom w4 = w_oom w"
        "if_link (w_iface w4 iface) = if_link ?i" "if_mac (w_iface w4 iface) = if_mac ?i"
        "w_live w4 = w_live w" "if_state (w_iface w4 iface) = if_state ?i"
        using same_netD [OF pe(1)] pe(2) by (simp_all add: w4_def w3_def w2_def)
      have other: "w_iface w4 p = w_iface w p" if "p \<noteq> iface" for p
        using that same_netD(1) [OF pe(1)] by (simp add: w4_def w3_def w2_def)
      have "mem_ok w1" using keeps_prepend [OF ok(1) pz pp] keeps_mem by blast
      then have mem4: "mem_ok w4" by (simp add: w4_def w3_def w2_def mem_ok_def)
      have pk4: "packet_ok (w_pkt w4 payload)"
        "pk_bytes (w_pkt w4 payload) = ip_bytes ?h @ pk_bytes (w_pkt w payload)"
        "pk_data (w_pkt w4 payload) = pk_data (w_pkt w payload) - 20"
        using pe(4) [OF r0] by (simp_all add: w4_def w3_def w2_def)
      have len6: "length (if_mac (w_iface w4 iface)) = 6" using ok(6) w4(6) by simp
      have eq4: "eq_inv (sc_eq (w_sched w4 (sm_sched (w_sim w4 sim))))" using ok(4) w4 by simp
      have in4: "payload \<in> w_live w4" using ok(2) w4 by simp
      note es = ethernet_send_sent [OF mem4 in4 pk4(1) eq4 ok(5) len6 send]
      have cong: "peer iface w4 = peer iface w" "arrival sim iface w4 = arrival sim iface w"
        using w4 by (auto intro: peer_cong arrival_cong)
      have "delivers iface (peer iface w) (arrival sim iface w) CB_ethernet_receive_event sim
         (eth_frame dst (if_mac ?i) 0x0800 (ip_bytes ?h @ pk_bytes (w_pkt w payload)))
         (sm_sched (w_sim w sim)) w w'" if "r = 1"
        using delivers_from [OF es(3) [OF that] w4(1)] w4 cong pk4(2) by simp
      moreover have "r = 1" if "\<forall>k. \<not> w_oom w k" "path_up sim iface w" "34 \<le> pk_data (w_pkt w payload)"
      proof -
        have "path_up sim iface w4"
          using that(2) w4 cong(1) other [of "peer iface w"]
          by (auto simp: path_up_def interface_is_up_def split: if_splits)
        then show ?thesis using es(4) that w4(4) pk4(3) by simp
      qed
      ultimately show ?thesis using es(1,2) w4(1) by simp
    qed
  qed
  then show "r = 1 \<or> r = - 1" "r \<noteq> 1 \<Longrightarrow> w_sched w' = w_sched w"
    "r = 1 \<Longrightarrow> delivers iface (peer iface w) (arrival sim iface w) CB_ethernet_receive_event sim
       (eth_frame dst (if_mac ?i) 0x0800 (ip_bytes ?h @ pk_bytes (w_pkt w payload)))
       (sm_sched (w_sim w sim)) w w'" by blast+
  show "(\<And>k. \<not> w_oom w k) \<Longrightarrow> path_up sim iface w \<Longrightarrow> 34 \<le> pk_data (w_pkt w payload) \<Longrightarrow> r = 1"
    using goal by blast
qed

definition arp_request_bytes :: "Interface \<Rightarrow> u32 \<Rightarrow> u8 list" where
  "arp_request_bytes i target_ip = arp_bytes
     \<lparr>arp_hardware_type = ns_htons 1, arp_protocol_type = ns_htons 0x0800,
      arp_hardware_addr_len = 6, arp_protocol_addr_len = 4, arp_opcode = ns_htons 1,
      arp_sender_hardware_addr = if_mac i, arp_sender_protocol_addr = if_ip_addr i,
      arp_target_hardware_addr = replicate 6 0, arp_target_protocol_addr = target_ip\<rparr>"

lemma broadcast_length [simp]: "length ETH_BROADCAST = 6"
  by (simp add: ETH_BROADCAST_def)

lemma packet_fresh_bytes [simp]: "pk_bytes (packet_fresh h f n i) = []" "pk_data (packet_fresh h f n i) = 64"
  by (simp_all add: packet_fresh_def pk_bytes_def bread_def)

lemma arp_request_sent:
  assumes ok: "mem_ok w" "eq_inv (sc_eq (w_sched w (sm_sched (w_sim w sim))))"
      "length (if_mac (w_iface w iface)) = 6"
    and s: "arp_send_request sim iface target w = (r, w')"
  shows "r = 0 \<or> r = - 1" "r \<noteq> 0 \<Longrightarrow> w_sched w' = w_sched w"
    and "r = 0 \<Longrightarrow> delivers iface (peer iface w) (arrival sim iface w) CB_ethernet_receive_event sim
           (eth_frame ETH_BROADCAST (if_mac (w_iface w iface)) 0x0806
             (arp_request_bytes (w_iface w iface) target)) (sm_sched (w_sim w sim)) w w'"
    and "(\<And>k. \<not> w_oom w k) \<Longrightarrow> path_up sim iface w \<Longrightarrow> target \<noteq> 0 \<Longrightarrow> r = 0"
proof -
  let ?i = "w_iface w iface"
  have goal: "(r = 0 \<or> r = - 1) \<and> (r \<noteq> 0 \<longrightarrow> w_sched w' = w_sched w) \<and>
    (r = 0 \<longrightarrow> delivers iface (peer iface w) (arrival sim iface w) CB_ethernet_receive_event sim
       (eth_frame ETH_BROADCAST (if_mac ?i) 0x0806 (arp_request_bytes ?i target)) (sm_sched (w_sim w sim)) w w') \<and>
    ((\<forall>k. \<not> w_oom w k) \<longrightarrow> path_up sim iface w \<longrightarrow> target \<noteq> 0 \<longrightarrow> r = 0)"
  proof (cases "sim = 0 \<or> iface = 0 \<or> target = 0")
    case True
    then have "arp_send_request sim iface target w = (- 1, w)" by (auto simp: arp_send_request_def)
    then show ?thesis using s True by (auto simp: path_up_def)
  next
    case False
    obtain p w1 where c: "packet_create 28 w = (p, w1)" by fastforce
    note pc = packet_create_effect [OF ok(1) c] packet_create_mem [OF ok(1) c]
    obtain a w2 where m: "malloc w1 = (a, w2)" by fastforce
    note mm = malloc_mem [OF keeps_mem [OF pc(5)] m]
    have n2: "same_net w w2" using m malloc_simps [of w1] by (intro same_net_trans [OF pc(1)]) (simp add: same_net_def)
    show ?thesis
    proof (cases "p = 0 \<or> a = 0")
      case True
      then have "arp_send_request sim iface target w = (- 1, free_block a (packet_free p w2))"
        using False c m by (auto simp: arp_send_request_def)
      moreover have "p \<noteq> 0 \<and> a \<noteq> 0" if "\<forall>k. \<not> w_oom w k"
        using that pc(4) m mem_ok_brk [OF keeps_mem [OF pc(5)]] same_netD(8) [OF pc(1)]
        by (auto simp: malloc_def Let_def)
      ultimately show ?thesis using s True same_netD(3) [OF n2] by auto
    next
      case pa: False
      have i2: "w_iface w2 iface = ?i" using same_netD(1) [OF n2] by simp
      obtain h f id' where pk: "w_pkt w2 p = packet_fresh h f 28 id'"
        using pc(2) pa mm(4) by auto
      obtain r3 w3 where pp: "pkt_prepend p (arp_request_bytes ?i target) 28 w2 = (r3, w3)" by fastforce
      have len: "length (arp_request_bytes ?i target) = 28"
        using ok(3) by (simp add: arp_request_bytes_def arp.length_bytes arp_wf_def)
      have ok2: "packet_ok (w_pkt w2 p)" by (simp add: pk)
      note pe = pkt_prepend_effect [OF ok2 len pp]
      have r3: "r3 = 0" using pe(3) pk by simp
      note pb = pe(4) [OF r3]
      define w4 where "w4 = free_block a w3"
      have n4: "same_net w w4" using same_net_trans [OF n2 pe(1)] by (simp add: w4_def same_net_def)
      obtain r4 w5 where e: "ethernet_send sim iface (Some ETH_BROADCAST) 0x0806 p w4 = (r4, w5)" by fastforce
      have res: "r = (if r4 \<ge> 0 then 0 else - 1)" "w' = w5"
        using s False pa c m pp e i2
        by (auto simp: arp_send_request_def w4_def Let_def arp_request_bytes_def split: if_splits)
      have a: "a \<notin> w_live w1" "a \<in> w_live w2" using mm(2,3) pa by auto
      have k12: "keeps w w2" by (rule keeps_trans [OF pc(5) mm(1)])
      have "keeps w w4"
        using pa a pe(2) keeps_prepend [OF keeps_mem [OF mm(1)] _ pp] pc(5) unfolding w4_def
        by (intro keeps_free_fresh keeps_trans [OF k12]) (auto simp: keeps_def)
      then have mem4: "mem_ok w4" "w_live w \<subseteq> w_live w4" by (auto simp: keeps_def)
      have "p \<in> w_live w1" using pc(6) pa by (simp add: fresh_packet_def owned_def)
      then have in4: "p \<in> w_live w4"
        using a pe(2) mm(1) by (auto simp: w4_def free_block_def keeps_def)
      have pk4: "packet_ok (w_pkt w4 p)" "pk_bytes (w_pkt w4 p) = arp_request_bytes ?i target"
        "pk_data (w_pkt w4 p) = 36"
        using pb pk by (simp_all add: w4_def)
      have eq4: "eq_inv (sc_eq (w_sched w4 (sm_sched (w_sim w4 sim))))"
        using ok(2) same_netD [OF n4] by simp
      have mac4: "length (if_mac (w_iface w4 iface)) = 6" using ok(3) same_netD [OF n4] by simp
      note es = ethernet_send_sent [OF mem4(1) in4 pk4(1) eq4 broadcast_length mac4 e]
      have cong: "peer iface w4 = peer iface w" "arrival sim iface w4 = arrival sim iface w"
        using same_netD [OF n4] by (auto intro: peer_cong arrival_cong)
      have "delivers iface (peer iface w) (arrival sim iface w) CB_ethernet_receive_event sim
         (eth_frame ETH_BROADCAST (if_mac ?i) 0x0806 (arp_request_bytes ?i target))
         (sm_sched (w_sim w sim)) w w'" if "r = 0"
      proof -
        have "r4 = 1" using that res es(1) by (auto split: if_splits)
        from delivers_from [OF es(3) [OF this] same_netD(3) [OF n4] mem4(2)] show ?thesis
          using same_netD [OF n4] cong pk4(2) res(2) by simp
      qed
      moreover have "r = 0" if "\<forall>k. \<not> w_oom w k" "path_up sim iface w"
      proof -
        have "path_up sim iface w4"
          using that(2) cong(1) same_netD [OF n4]
          by (auto simp: path_up_def interface_is_up_def split: if_splits)
        then show ?thesis using es(4) that(1) same_netD(8) [OF n4] pk4(3) res by simp
      qed
      ultimately show ?thesis using es(1,2) res same_netD(3) [OF n4] by (auto split: if_splits)
    qed
  qed
  then show "r = 0 \<or> r = - 1" "r \<noteq> 0 \<Longrightarrow> w_sched w' = w_sched w"
    "r = 0 \<Longrightarrow> delivers iface (peer iface w) (arrival sim iface w) CB_ethernet_receive_event sim
       (eth_frame ETH_BROADCAST (if_mac ?i) 0x0806 (arp_request_bytes ?i target)) (sm_sched (w_sim w sim)) w w'"
    by blast+
  show "(\<And>k. \<not> w_oom w k) \<Longrightarrow> path_up sim iface w \<Longrightarrow> target \<noteq> 0 \<Longrightarrow> r = 0" using goal by blast
qed

end
