(* ===== verification/Scenario.thy ===== *)
theory Scenario
  imports Ownership Causality
begin

text \<open>
  Concrete worlds that show that the hypotheses of the properties can hold: an application without
  callbacks, and a network of two hosts joined by one link, with a packet on the heap of the first.
\<close>

definition quiet_app :: app where
  "quiet_app = \<lparr>app_event = (\<lambda>n e c w. w), app_rx = (\<lambda>n i p t c w. w), app_proto = (\<lambda>n i p c w. (0, w)),
     app_udp_recv = (\<lambda>n ip port p c w. w), app_tcp_recv = (\<lambda>n b p c w. w),
     app_tcp_connect = (\<lambda>n b c w. w)\<rparr>"

lemma quiet_within: "(\<And>w. R w w) \<Longrightarrow> app_within R quiet_app"
  by (simp add: app_within_def quiet_app_def)

section \<open>Two hosts and a link\<close>

text \<open>
  Addresses: 1 the simulator, 2 the topology, 3 the scheduler, 4 and 5 the devices, 6 and 7 their
  neighbour caches, 8 and 9 their IP stacks, 10 and 11 their interfaces, 12 the link, 13 and 14
  UDP, 15 and 16 TCP, 20 a packet with its buffer at 21, 30 to 35 the arrays.
\<close>

definition lan_iface :: "u8 \<Rightarrow> u32 \<Rightarrow> ptr \<Rightarrow> ptr \<Rightarrow> ptr \<Rightarrow> Interface" where
  "lan_iface n ip dev cache stack =
     \<lparr>if_name = ''eth0'', if_mac = [2, 0, 0, 0, 0, n], if_ip_addr = ns_htonl ip, if_prefix_len = 24,
      if_mtu = 1500, if_up = 1, if_link = 12, if_device = dev, if_tx_bytes = 0, if_rx_bytes = 0,
      if_rx_handler = RX_ip_rx_shim, if_handler_ctx = stack, if_arp_cache = cache, if_rx_dropped = 0,
      if_rx_errors = 0, if_tx_errors = 0, if_state = IFACE_OK, if_last_rx_time = 0,
      if_last_tx_time = 0, if_last_error_time = 0\<rparr>"

definition lan_stack :: IpStack where
  "lan_stack = \<lparr>is_sim = 1, is_protocols = (\<lambda>pr. if pr = 1 then (PH_icmp_receive, 1)
     else if pr = 17 then (PH_udp_receive, 14) else if pr = 6 then (PH_tcp_receive, 16) else (PH_NULL, 0))\<rparr>"

definition lan_udp :: UdpState where
  "lan_udp = \<lparr>ud_sockets = replicate 32 \<lparr>us_port = 0, us_valid = 0, us_recv_handler = 0, us_ctx = 0\<rparr>,
     ud_count = 0\<rparr>"

definition lan :: "Packet \<Rightarrow> EventQueue \<Rightarrow> world" where
  "lan pk q =
     \<lparr>w_brk = 40, w_live = {1..<40}, w_bad_free = False, w_mallocs = 0, w_oom = (\<lambda>_. False),
      w_junk = (\<lambda>_ _. 0xA5), w_junk_ptr = (\<lambda>_ _. 0), w_next_id = 1,
      w_pkt = (\<lambda>p. if p = 20 then pk\<lparr>pk_head := 21\<rparr> else packet_fresh 0 (\<lambda>_. 0) 0 0),
      w_iface = (\<lambda>p. if p = 10 then lan_iface 1 0x0A000001 4 6 8 else lan_iface 2 0x0A000002 5 7 9),
      w_link = (\<lambda>_. \<lparr>ln_end_a = 10, ln_end_b = 11, ln_bandwidth_mbps = 100, ln_delay_ms = 5,
                     ln_loss_rate = 0, ln_up = 1\<rparr>),
      w_dev = (\<lambda>p. if p = 4 then \<lparr>dv_name = ''h1'', dv_interfaces_p = 30, dv_interfaces = [10],
                                  dv_iface_count = 1, dv_iface_max = 1\<rparr>
                   else \<lparr>dv_name = ''h2'', dv_interfaces_p = 31, dv_interfaces = [11],
                         dv_iface_count = 1, dv_iface_max = 1\<rparr>),
      w_topo = (\<lambda>_. \<lparr>tp_devices_p = 32, tp_devices = [4, 5], tp_dev_count = 2, tp_dev_cap = 2,
                     tp_links_p = 33, tp_links = [12], tp_link_count = 1, tp_link_cap = 1\<rparr>),
      w_sched = (\<lambda>_. \<lparr>sc_eq_p = 34, sc_eq_events_p = 35, sc_eq = q, sc_now = 0, sc_running = 0,
                      sc_handlers = (\<lambda>_. (CB_NULL, 0))\<rparr>),
      w_sim = (\<lambda>_. \<lparr>sm_topo = 2, sm_sched = 3, sm_end_time = 0\<rparr>),
      w_arp = (\<lambda>p. if p = 6 then arp_added 0x0A000002 [2, 0, 0, 0, 0, 2] 0 arp_cache_zero
                   else arp_cache_zero),
      w_ips = (\<lambda>_. lan_stack), w_udp = (\<lambda>_. lan_udp), w_udpctx = (\<lambda>_. \<lparr>uc_sim = 1, uc_state = 13\<rparr>),
      w_tcp = (\<lambda>_. \<lparr>tt_tcbs = replicate 64 tcb_zero, tt_count = 0\<rparr>),
      w_tcpctx = (\<lambda>_. \<lparr>xc_sim = 1, xc_table = 15\<rparr>),
      w_switch = (\<lambda>_. \<lparr>sw_mac_tbl = mac_table_zero, sw_port_count = 0, sw_sim = 1\<rparr>),
      w_host = (\<lambda>_. \<lparr>ho_sim = 1, ho_arp_cache = 6, ho_ip_stack = 8, ho_udp_state = 13,
                     ho_udp_context = 14, ho_tcp_table = 15, ho_tcp_context = 16, ho_gateway_ip = 0\<rparr>)\<rparr>"

lemma lan_simps [simp]:
  "w_brk (lan pk q) = 40" "w_live (lan pk q) = {1..<40}" "w_oom (lan pk q) = (\<lambda>_. False)"
  "w_bad_free (lan pk q) = False" "w_pkt (lan pk q) 20 = pk\<lparr>pk_head := 21\<rparr>"
  "w_iface (lan pk q) 10 = lan_iface 1 0x0A000001 4 6 8" "w_iface (lan pk q) 11 = lan_iface 2 0x0A000002 5 7 9"
  "sc_eq (w_sched (lan pk q) s) = q" "sc_now (w_sched (lan pk q) s) = 0"
  "w_sim (lan pk q) s = \<lparr>sm_topo = 2, sm_sched = 3, sm_end_time = 0\<rparr>"
  "w_ips (lan pk q) s = lan_stack" "w_udp (lan pk q) s = lan_udp"
  "w_udpctx (lan pk q) s = \<lparr>uc_sim = 1, uc_state = 13\<rparr>"
  "w_link (lan pk q) l = \<lparr>ln_end_a = 10, ln_end_b = 11, ln_bandwidth_mbps = 100, ln_delay_ms = 5,
     ln_loss_rate = 0, ln_up = 1\<rparr>"
  by (simp_all add: lan_def)

lemma lan_iface_simps [simp]:
  "if_mac (lan_iface n ip d c s) = [2, 0, 0, 0, 0, n]" "if_state (lan_iface n ip d c s) = IFACE_OK"
  "if_up (lan_iface n ip d c s) = 1" "if_link (lan_iface n ip d c s) = 12"
  "if_arp_cache (lan_iface n ip d c s) = c" "if_ip_addr (lan_iface n ip d c s) = ns_htonl ip"
  "if_prefix_len (lan_iface n ip d c s) = 24" "if_handler_ctx (lan_iface n ip d c s) = s"
  "if_rx_errors (lan_iface n ip d c s) = 0" "if_rx_dropped (lan_iface n ip d c s) = 0"
  by (simp_all add: lan_iface_def)

lemma lan_mem_ok: "mem_ok (lan pk q)"
  by (simp add: mem_ok_def)

lemma lan_owned: "owned (lan pk q) 20"
  by (simp add: owned_def)

lemma lan_queue: "eq_inv (event_queue_new 4)" "eq_list (event_queue_new 4) = []"
  using event_queue_new_inv [of 4] by simp_all

end
