(* ===== verification/Wire.thy ===== *)
theory Wire
  imports Delivery Scenario
begin

text \<open>
  The properties of the link layer and of IPv4 on the wire: what a successful send puts into the
  scheduler's queue, and what the receive path does with a frame.
\<close>

section \<open>Sending\<close>

text \<open>
  C5 \<open>link_transmit\<close> returns 1 and queues exactly one receive event for the other end of the link,
  at the sender's time plus the delay of the link, carrying a freshly allocated copy of the packet's
  data; or it returns -1, queues nothing and keeps every block of the heap. It succeeds whenever the
  link and the far interface are up and memory lasts. The packet itself stays with the caller.
\<close>

theorem link_transmit_correct:
  assumes "mem_ok w" "pkt \<in> w_live w" "packet_ok (w_pkt w pkt)" "eq_inv (sc_eq (w_sched w sched))"
    and "link_transmit link pkt src sched now h ctx w = (r, w')"
  shows "keeps w w' \<and>
    (r = 1 \<and> delivers src (link_get_other_interface link src w)
       (now + ucast (ln_delay_ms (w_link w link))) h ctx (pk_bytes (w_pkt w pkt)) sched w w' \<or>
     r = - 1 \<and> w_sched w' = w_sched w) \<and>
    ((\<forall>k. \<not> w_oom w k) \<and> link \<noteq> NULL \<and> src \<noteq> NULL \<and> sched \<noteq> NULL \<and> ln_up (w_link w link) \<noteq> 0 \<and>
       interface_is_up (link_get_other_interface link src w) w \<noteq> 0 \<longrightarrow> r = 1)"
  using link_transmit_effect [OF assms] link_transmit_keeps [OF assms(1,5)]
  by (auto simp: same_netD(3))

theorem link_transmit_correct_witness:
  "\<exists>w'. link_transmit 12 20 10 3 0 CB_ethernet_receive_event 1 (lan (packet_fresh 21 (\<lambda>_. 0) 8 1) (event_queue_new 4))
      = (1, w') \<and>
    delivers 10 11 5 CB_ethernet_receive_event 1 [] 3
      (lan (packet_fresh 21 (\<lambda>_. 0) 8 1) (event_queue_new 4)) w'"
proof -
  let ?w = "lan (packet_fresh 21 (\<lambda>_. 0) 8 1) (event_queue_new 4)"
  obtain r w' where t: "link_transmit 12 20 10 3 0 CB_ethernet_receive_event 1 ?w = (r, w')" by fastforce
  have p: "packet_ok (w_pkt ?w 20)" "pk_bytes (w_pkt ?w 20) = []"
    by (simp_all add: packet_ok_def packet_fresh_def pk_bytes_def bread_def)
  have other: "link_get_other_interface 12 10 ?w = 11" by (simp add: link_get_other_interface_def)
  have "interface_is_up 11 ?w \<noteq> 0" by (simp add: interface_is_up_def)
  then show ?thesis
    using link_transmit_correct [OF lan_mem_ok _ p(1) _ t] t other p(2) lan_queue by auto
qed

text \<open>
  C25 A successful \<open>ip_send\<close> puts one frame on the wire, addressed to the given MAC address with
  the IPv4 ethertype; behind the Ethernet header is an IPv4 header that passes every check of
  \<open>ip_receive\<close> and carries the addresses, the protocol, TTL 64 and the length, and then the payload.
  A failed one queues nothing; with the path up, memory and headroom, it succeeds.
\<close>

theorem ip_send_on_the_wire:
  assumes "mem_ok w" "payload \<in> w_live w" "packet_ok (w_pkt w payload)"
    and "eq_inv (sc_eq (w_sched w (sm_sched (w_sim w sim))))"
    and "length dst = 6" "length (if_mac (w_iface w iface)) = 6"
    and "ip_send sim iface (Some dst) a b pr payload w = (r, w')"
  shows "(r = - 1 \<and> w_sched w' = w_sched w \<or>
     r = 1 \<and> (\<exists>frame. delivers iface (peer iface w) (arrival sim iface w) CB_ethernet_receive_event sim
         frame (sm_sched (w_sim w sim)) w w' \<and>
       eth_at frame = \<lparr>eth_dst_mac = dst, eth_src_mac = if_mac (w_iface w iface),
                       eth_ethertype = ns_htons 0x0800\<rparr> \<and>
       ip_check (drop 14 frame) = IP_OK \<and>
       (let h = ip_at (drop 14 frame) in
          ns_ntohl (ip_src_ip h) = a \<and> ns_ntohl (ip_dst_ip h) = b \<and> ip_protocol h = pr \<and> ip_ttl h = 64 \<and>
          ns_ntohs (ip_total_length h) = of_nat (20 + pk_len (w_pkt w payload))) \<and>
       drop 34 frame = pk_bytes (w_pkt w payload))) \<and>
    ((\<forall>k. \<not> w_oom w k) \<and> path_up sim iface w \<and> 34 \<le> pk_data (w_pkt w payload) \<longrightarrow> r = 1)"
proof -
  note s = ip_send_sent [OF assms]
  let ?h = "\<lparr>eth_dst_mac = dst, eth_src_mac = if_mac (w_iface w iface), eth_ethertype = ns_htons 0x0800\<rparr>"
  let ?ip = "ip_send_header a b pr (pk_len (w_pkt w payload))"
  let ?frame = "eth_frame dst (if_mac (w_iface w iface)) 0x0800 (ip_bytes ?ip @ pk_bytes (w_pkt w payload))"
  have wf: "eth_wf ?h" using assms(5,6) by (simp add: eth_wf_def)
  have frame: "eth_at ?frame = ?h" "drop 14 ?frame = ip_bytes ?ip @ pk_bytes (w_pkt w payload)"
    "drop 34 ?frame = pk_bytes (w_pkt w payload)"
    by (simp_all add: eth_frame_def eth.at_bytes [OF wf] eth_bytes_len [OF wf])
  show ?thesis
  proof (cases "r = 1")
    case True
    from s(3) [OF this] show ?thesis
      using True frame by (intro conjI disjI2 exI [of _ ?frame])
        (simp_all add: ip_send_header_ok ip.at_bytes ip_send_header_fields Let_def)
  next
    case False
    then show ?thesis using s(1,2,4) by blast
  qed
qed

theorem ip_send_on_the_wire_witness:
  "\<exists>w'. ip_send 1 10 (Some [2, 0, 0, 0, 0, 2]) 0x0A000001 0x0A000002 17 20
      (lan (packet_fresh 21 (\<lambda>_. 0) 8 1) (event_queue_new 4)) = (1, w')"
proof -
  let ?w = "lan (packet_fresh 21 (\<lambda>_. 0) 8 1) (event_queue_new 4)"
  obtain r w' where t: "ip_send 1 10 (Some [2, 0, 0, 0, 0, 2]) 0x0A000001 0x0A000002 17 20 ?w = (r, w')"
    by fastforce
  have p: "packet_ok (w_pkt ?w 20)" "34 \<le> pk_data (w_pkt ?w 20)"
    by (simp_all add: packet_ok_def packet_fresh_def)
  have "path_up 1 10 ?w"
    by (simp add: path_up_def peer_def link_get_other_interface_def interface_is_up_def)
  then show ?thesis
    using ip_send_on_the_wire [OF lan_mem_ok _ p(1) _ _ _ t] t p(2) lan_queue by auto
qed

text \<open>The send path below IP does not touch the neighbour caches.\<close>

lemma send_arp_frame [simp]:
  "w_arp (snd (packet_create n w)) = w_arp w" "w_arp (snd (packet_clone p w)) = w_arp w"
  "w_arp (snd (pkt_prepend p bs n w)) = w_arp w"
  "w_arp (snd (event_create_callback ty ts sd dd pk d h c w)) = w_arp w"
  by (simp_all add: packet_create_def packet_clone_def pkt_prepend_def event_create_callback_def
      Let_def split_def)

lemma link_transmit_arp [simp]: "w_arp (snd (link_transmit l p s sched now h c w)) = w_arp w"
  by (simp add: link_transmit_def Let_def split_def)

lemma ethernet_send_arp [simp]: "w_arp (snd (ethernet_send sim i d et p w)) = w_arp w"
  by (simp add: ethernet_send_def Let_def split_def eth_tx_error_def split: option.split)

lemma ip_send_arp [simp]: "w_arp (snd (ip_send sim i d a b pr p w)) = w_arp w"
  by (simp add: ip_send_def Let_def split_def)

lemma arp_request_frame: "arp_send_request sim i t w = (r, w') \<Longrightarrow> w_arp w' = w_arp w"
proof -
  have "w_arp (snd (arp_send_request sim i t w)) = w_arp w"
    by (simp add: arp_send_request_def Let_def split_def)
  then show "arp_send_request sim i t w = (r, w') \<Longrightarrow> ?thesis" by simp
qed

lemma pending_filled:
  "(p :: ArpPendingPacket)\<lparr>ap_target_ip := t, ap_src_ip := s, ap_dst_ip := d, ap_protocol := pr,
     ap_iface := i, ap_payload := pl, ap_valid := v\<rparr> =
   \<lparr>ap_target_ip = t, ap_src_ip = s, ap_dst_ip = d, ap_protocol = pr, ap_iface = i, ap_payload = pl,
    ap_valid = v\<rparr>"
  by simp

lemma delivers_arp: "delivers s d t h c bs q w w' \<Longrightarrow> delivers s d t h c bs q w (set_arp p x w')"
  by (auto simp: delivers_def fresh_packet_def owned_def)

text \<open>
  C4 \<open>ip_output\<close> refuses, without any change, a source address no interface has, an interface
  that is down or has no neighbour cache, and a destination outside the interface's subnet.
  Otherwise, if the destination's MAC address is cached, it sends the IPv4 packet to it; if not, it
  broadcasts an ARP request for it and keeps the packet in a waiting slot. When the path is up and
  memory lasts it does so: the packet is sent when its buffer has room for the 34 bytes of the
  headers, the request when the address is not zero and one of the 32 slots is free. A call that
  fails leaves the waiting packets as they are, and when the address is cached queues nothing. No
  block that was allocated before is freed.
\<close>

theorem ip_output_correct:
  assumes ok: "mem_ok w" "payload \<in> w_live w" "packet_ok (w_pkt w payload)"
      "eq_inv (sc_eq (w_sched w (sm_sched (w_sim w sim))))"
    and iface: "iface = ip_find_source_iface sim a w" "cache = if_arp_cache (w_iface w iface)"
    and mac: "length (if_mac (w_iface w iface)) = 6" and arp: "arp_inv (w_arp w cache)"
    and out: "ip_output sim a b pr payload w = (r, w')"
  shows "keeps w w' \<and>
    (if sim = NULL \<or> iface = NULL \<or> interface_is_up iface w = 0 \<or> cache = NULL \<or>
        \<not> ip_same_subnet (ns_ntohl (if_ip_addr (w_iface w iface))) b (if_prefix_len (w_iface w iface))
     then r = - 1 \<and> w' = w
     else (case arp_find (w_arp w cache) b of
       Some e \<Rightarrow> r = - 1 \<and> w_sched w' = w_sched w \<or>
         r = 1 \<and> delivers iface (peer iface w) (arrival sim iface w) CB_ethernet_receive_event sim
           (eth_frame (ae_mac_addr e) (if_mac (w_iface w iface)) 0x0800
             (ip_bytes (ip_send_header a b pr (pk_len (w_pkt w payload))) @ pk_bytes (w_pkt w payload)))
           (sm_sched (w_sim w sim)) w w'
     | None \<Rightarrow> r = - 1 \<and> w_arp w' = w_arp w \<or>
         r = 0 \<and> delivers iface (peer iface w) (arrival sim iface w) CB_ethernet_receive_event sim
           (eth_frame ETH_BROADCAST (if_mac (w_iface w iface)) 0x0806
             (arp_request_bytes (w_iface w iface) (ns_htonl b))) (sm_sched (w_sim w sim)) w w' \<and>
         (\<exists>k < length (ac_pending (w_arp w cache)). ap_valid (ac_pending (w_arp w cache) ! k) = 0 \<and>
            w_arp w' = (w_arp w)(cache := (w_arp w cache)
              \<lparr>ac_pending := (ac_pending (w_arp w cache))[k :=
                 \<lparr>ap_target_ip = b, ap_src_ip = a, ap_dst_ip = b, ap_protocol = pr, ap_iface = iface,
                  ap_payload = payload, ap_valid = 1\<rparr>],
               ac_pending_count := ac_pending_count (w_arp w cache) + 1\<rparr>))) \<and>
       (r = - 1 \<longrightarrow> w_arp w' = w_arp w) \<and>
       ((\<forall>k. \<not> w_oom w k) \<and> path_up sim iface w \<longrightarrow>
          (case arp_find (w_arp w cache) b of
             Some e \<Rightarrow> 34 \<le> pk_data (w_pkt w payload) \<longrightarrow> r = 1
           | None \<Rightarrow> b \<noteq> 0 \<and> (\<exists>p \<in> set (ac_pending (w_arp w cache)). ap_valid p = 0) \<longrightarrow> r = 0)))"
proof -
  have pz: "payload \<noteq> 0" using mem_okD [OF ok(1,2)] by simp
  let ?i = "w_iface w iface" and ?c = "w_arp w cache"
  let ?refused = "sim = 0 \<or> iface = 0 \<or> interface_is_up iface w = 0 \<or> cache = 0 \<or>
    \<not> ip_same_subnet (ns_ntohl (if_ip_addr ?i)) b (if_prefix_len ?i)"
  have keep: "keeps w w'" by (rule ip_output_keeps [OF ok(1) out])
  show ?thesis
  proof (cases ?refused)
    case True
    then have "ip_output sim a b pr payload w = (- 1, w)"
      using iface by (auto simp: ip_output_def Let_def)
    then show ?thesis using out True keep by auto
  next
    case False
    then have nz: "\<not> (sim = 0 \<or> payload = 0)" "\<not> (iface = 0 \<or> interface_is_up iface w = 0 \<or> cache = 0)"
      "ip_same_subnet (ns_ntohl (if_ip_addr ?i)) b (if_prefix_len ?i)" "cache \<noteq> 0" using pz by auto
    have deref: "deref (w_arp w) cache = Some ?c" using nz(4) by (simp add: deref_def)
    have eq: "ip_output sim a b pr payload w =
        (case arp_cache_lookup (Some ?c) b (Some (replicate 6 0)) of (found, dst_mac) \<Rightarrow>
           if found \<noteq> 0 then
             case arp_send_request sim iface (ns_htonl b) w of (r, w) \<Rightarrow>
               if r \<noteq> 0 then (- 1, w)
               else case arp_pending_enqueue (deref (w_arp w) cache) iface b a b pr payload of
                      (q, c) \<Rightarrow> (if q \<noteq> 0 then - 1 else 0, set_arp cache c w)
           else ip_send sim iface dst_mac a b pr payload w)"
      using nz unfolding ip_output_def Let_def iface(1) [symmetric] iface(2) [symmetric] deref by simp
    show ?thesis
    proof (cases "arp_find ?c b")
      case (Some e)
      have mac6: "length (ae_mac_addr e) = 6" by (rule arp_find_SomeD(3) [OF arp Some])
      have sent: "ip_send sim iface (Some (ae_mac_addr e)) a b pr payload w = (r, w')"
        using out eq Some arp_cache_lookup_find [OF arp, of b "replicate 6 0"] by simp
      note sent_facts = ip_send_sent [OF ok(1-4) mac6 mac sent]
      have arp': "w_arp w' = w_arp w" using ip_send_arp [of sim iface] sent by (metis snd_conv)
      show ?thesis using sent_facts False Some keep arp' by simp blast
    next
      case None
      obtain r1 w1 where req: "arp_send_request sim iface (ns_htonl b) w = (r1, w1)" by fastforce
      note rs = arp_request_sent [OF ok(1) ok(4) mac req]
      have arp1: "w_arp w1 = w_arp w" using req by (rule arp_request_frame)
      obtain q c where enq: "arp_pending_enqueue (Some ?c) iface b a b pr payload = (q, c)" by fastforce
      have res: "(r, w') = (if r1 \<noteq> 0 then (- 1, w1) else (if q \<noteq> 0 then - 1 else 0, set_arp cache c w1))"
        using out eq None arp_cache_lookup_find [OF arp, of b "replicate 6 0"] req enq arp1 deref
        by (simp split: if_splits)
      show ?thesis
      proof (cases "r1 = 0 \<and> q = 0")
        case False
        have "w_arp w' = w_arp w"
          using False res arp1 enq nz(4)
          by (auto simp: arp_pending_enqueue_def store_def split: if_splits option.splits)
        moreover have "r = - 1" using False res by (auto split: if_splits)
        moreover have "\<not> (\<exists>p \<in> set (ac_pending ?c). ap_valid p = 0)"
          if "\<forall>k. \<not> w_oom w k" "path_up sim iface w" "b \<noteq> 0"
        proof -
          have "ns_htonl b \<noteq> 0" 
            using that(3) htonl_inject(1) [of b 0] by (simp add: ns_order_defs ns_bswap32_def)
          then have "r1 = 0" using rs(4) that by simp
          then have "q \<noteq> 0" using False by simp
          moreover have args: "iface \<noteq> 0" "b \<noteq> 0" "payload \<noteq> 0" using nz that(3) by auto
          ultimately show ?thesis using enq
            by (auto intro: arp_pending_enqueue_cases [OF args, of ?c a b pr])
        qed
        ultimately show ?thesis using keep None \<open>\<not> ?refused\<close> by auto
      next
        case True
        then have bz: "b \<noteq> 0" using enq by (auto simp: arp_pending_enqueue_def)
        have args: "iface \<noteq> 0" "b \<noteq> 0" "payload \<noteq> 0" using nz bz by auto
        have "delivers iface (peer iface w) (arrival sim iface w) CB_ethernet_receive_event sim
           (eth_frame ETH_BROADCAST (if_mac ?i) 0x0806 (arp_request_bytes ?i (ns_htonl b)))
           (sm_sched (w_sim w sim)) w w'"
          using delivers_arp [OF rs(3)] True res by simp
        moreover have "\<exists>k < length (ac_pending ?c). ap_valid (ac_pending ?c ! k) = 0 \<and>
            w_arp w' = (w_arp w)(cache := ?c
              \<lparr>ac_pending := (ac_pending ?c)[k :=
                 \<lparr>ap_target_ip = b, ap_src_ip = a, ap_dst_ip = b, ap_protocol = pr, ap_iface = iface,
                  ap_payload = payload, ap_valid = 1\<rparr>],
               ac_pending_count := ac_pending_count ?c + 1\<rparr>)"
        proof (rule arp_pending_enqueue_cases [OF args, of ?c a b pr])
          fix k
          assume k: "k < length (ac_pending ?c)" "ap_valid (ac_pending ?c ! k) = 0"
            and enqd: "arp_pending_enqueue (Some ?c) iface b a b pr payload =
              (0, Some (?c\<lparr>ac_pending := (ac_pending ?c)[k := (ac_pending ?c ! k)\<lparr>ap_target_ip := b,
                  ap_src_ip := a, ap_dst_ip := b, ap_protocol := pr, ap_iface := iface,
                  ap_payload := payload, ap_valid := 1\<rparr>],
                ac_pending_count := ac_pending_count ?c + 1\<rparr>))"
          show ?thesis
            by (intro exI [of _ k]) (use k enqd enq True res arp1 in \<open>auto simp: pending_filled\<close>)
        qed (use enq True in auto)
        moreover have "r = 0" using True res by simp
        ultimately show ?thesis using keep None \<open>\<not> ?refused\<close> by simp
      qed
    qed
  qed
qed

theorem ip_output_correct_witness:
  "\<exists>w'. ip_output 1 0x0A000001 0x0A000002 17 20 (lan (packet_fresh 21 (\<lambda>_. 0) 8 1) (event_queue_new 4)) = (1, w')"
proof -
  let ?w = "lan (packet_fresh 21 (\<lambda>_. 0) 8 1) (event_queue_new 4)"
  obtain r w' where out: "ip_output 1 0x0A000001 0x0A000002 17 20 ?w = (r, w')" by fastforce
  have p: "packet_ok (w_pkt ?w 20)" "34 \<le> pk_data (w_pkt ?w 20)"
    by (simp_all add: packet_ok_def packet_fresh_def)
  have "ip_find_source_iface 1 0x0A000001 ?w = 10"
    by (simp add: ip_find_source_iface_def topo_devices_def device_ports_def lan_def)
  then have iface: "10 = ip_find_source_iface 1 0x0A000001 ?w" "6 = if_arp_cache (w_iface ?w 10)" by simp_all
  have arp: "arp_inv (w_arp ?w 6)"
    by (simp add: lan_def) (intro arp_added_inv arp_zero_inv, simp)
  have "arp_room arp_cache_zero" by (simp add: arp_room_def arp_cache_zero_def)
  then obtain e where e: "arp_find (w_arp ?w 6) 0x0A000002 = Some e"
    using arp_added_find [OF arp_zero_inv(1), where ip = "0x0A000002" and ts = 0
        and mac = "[2, 0, 0, 0, 0, 2]"] by (auto simp: lan_def)
  have "path_up 1 10 ?w" "interface_is_up 10 ?w \<noteq> 0"
    by (simp_all add: path_up_def peer_def link_get_other_interface_def interface_is_up_def)
  moreover have "ip_same_subnet 0x0A000001 0x0A000002 24" by (simp add: ip_same_subnet_def ip_prefix_mask_def)
  ultimately show ?thesis
    using ip_output_correct [OF lan_mem_ok _ p(1) _ iface _ arp out] e p(2) out lan_queue by simp
qed

section \<open>Receiving\<close>

lemma ethernet_receive_header:
  assumes "packet_ok (w_pkt w frame)" "length dst = 6" "length src = 6"
    and "pk_bytes (w_pkt w frame) = eth_frame dst src et payload"
  shows "pk_len (w_pkt w frame) = 14 + length payload" and "eth_at (pk_rest (w_pkt w frame)) =
    \<lparr>eth_dst_mac = dst, eth_src_mac = src, eth_ethertype = ns_htons et\<rparr>"
proof -
  let ?h = "\<lparr>eth_dst_mac = dst, eth_src_mac = src, eth_ethertype = ns_htons et\<rparr>"
  have wf: "eth_wf ?h" using assms(2,3) by (simp add: eth_wf_def)
  have bytes: "pk_bytes (w_pkt w frame) = eth_bytes ?h @ payload" using assms(4) by (simp add: eth_frame_def)
  show "pk_len (w_pkt w frame) = 14 + length payload"
    using arg_cong [OF bytes, of length] eth_bytes_len [OF wf] packet_okD(2) [OF assms(1)] by simp
  show "eth_at (pk_rest (w_pkt w frame)) = ?h"
    using pk_rest_bytes [of "w_pkt w frame"] eth.at_bytes [OF wf] by (metis append.assoc bytes)
qed

lemma ethernet_receive_accepts:
  assumes ok: "packet_ok (w_pkt w frame)" "iface \<noteq> 0" "frame \<noteq> 0" "length dst = 6" "length src = 6"
    and bytes: "pk_bytes (w_pkt w frame) = eth_frame dst src et payload"
    and mine: "if_state (w_iface w iface) = IFACE_OK" "dst = if_mac (w_iface w iface) \<or> dst = ETH_BROADCAST"
  obtains s where "packet_ok s" "pk_bytes s = payload" "pk_before s 14 = eth_frame dst src et []"
    "pk_head s = pk_head (w_pkt w frame)" "ethernet_receive iface frame (Some x) w = (0, Some et, upd_pkt frame (\<lambda>_. s)
       (upd_iface iface (\<lambda>i. i\<lparr>if_rx_bytes := if_rx_bytes i + of_nat (length payload)\<rparr>) w))"
proof -
  let ?k = "w_pkt w frame"
  let ?h = "\<lparr>eth_dst_mac = dst, eth_src_mac = src, eth_ethertype = ns_htons et\<rparr>"
  note hd = ethernet_receive_header [OF ok(1,4,5) bytes]
  have wf: "length (eth_bytes ?h) = 14" using ok(4,5) by (intro eth_bytes_len) (simp add: eth_wf_def)
  obtain q where st: "packet_strip ?k 14 = (0, q)" using hd(1) by (simp add: packet_strip_def Let_def)
  have qeq: "q = ?k\<lparr>pk_data := pk_data ?k + 14, pk_len := length payload\<rparr>"
    using st hd(1) by (simp add: packet_strip_def Let_def)
  have "pk_bytes q = payload"
    using packet_strip_bytes [OF ok(1), of 14] hd(1) bytes wf st by (simp add: eth_frame_def)
  moreover have "pk_before q 14 = eth_bytes ?h"
    using packet_strip_before [of 14 ?k] hd(1) bytes wf st by (simp add: eth_frame_def)
  ultimately have q: "packet_ok q" "pk_len q = length payload" "pk_bytes q = payload"
    "pk_before q 14 = eth_bytes ?h" "pk_head q = pk_head ?k"
    using packet_strip_ok [OF ok(1) st] by (simp_all add: qeq)
  have "ethernet_receive iface frame (Some x) w = (0, Some et, upd_pkt frame (\<lambda>_. q\<lparr>pk_layer := 3\<rparr>)
       (upd_iface iface (\<lambda>i. i\<lparr>if_rx_bytes := if_rx_bytes i + of_nat (length payload)\<rparr>) w))"
    using ok(2,3) mine hd st q(2)
    by (auto simp: ethernet_receive_def mac_equal_def Let_def pkt_strip_def upd_pkt_def upd_iface_def)
  then show ?thesis using that [of "q\<lparr>pk_layer := 3\<rparr>"] q by (simp add: eth_frame_def)
qed

text \<open>
  C26 \<open>ethernet_receive\<close> on a frame for this interface or for everyone returns 0, hands over the
  ethertype and leaves the packet with the frame's data and the Ethernet header in front of it; a
  frame for someone else returns 1 and a disabled interface -1, and nothing changes. So what
  \<open>ethernet_send\<close> frames for an interface is what that interface receives.
\<close>

theorem ethernet_receive_correct:
  assumes "packet_ok (w_pkt w frame)" "iface \<noteq> NULL" "frame \<noteq> NULL" "length dst = 6" "length src = 6"
    and "pk_bytes (w_pkt w frame) = eth_frame dst src et payload"
    and "ethernet_receive iface frame (Some x) w = (r, out, w')"
  shows "if if_state (w_iface w iface) = IFACE_ERR_DISABLED then r = - 1 \<and> out = Some x \<and> w' = w
    else if dst = if_mac (w_iface w iface) \<or> dst = ETH_BROADCAST
    then r = 0 \<and> out = Some et \<and> packet_ok (w_pkt w' frame) \<and> pk_bytes (w_pkt w' frame) = payload \<and>
      pk_before (w_pkt w' frame) 14 = eth_frame dst src et [] \<and> w_sched w' = w_sched w \<and>
      w_iface w' = (w_iface w)(iface := (w_iface w iface)
        \<lparr>if_rx_bytes := if_rx_bytes (w_iface w iface) + of_nat (length payload)\<rparr>)
    else r = 1 \<and> out = Some x \<and> w' = w"
proof (cases "if_state (w_iface w iface) = IFACE_OK \<and> (dst = if_mac (w_iface w iface) \<or> dst = ETH_BROADCAST)")
  case True
  then have mine: "if_state (w_iface w iface) = IFACE_OK" "dst = if_mac (w_iface w iface) \<or> dst = ETH_BROADCAST"
    by auto
  obtain s where "packet_ok s" "pk_bytes s = payload" "pk_before s 14 = eth_frame dst src et []"
    and rc: "ethernet_receive iface frame (Some x) w = (0, Some et, upd_pkt frame (\<lambda>_. s)
       (upd_iface iface (\<lambda>i. i\<lparr>if_rx_bytes := if_rx_bytes i + of_nat (length payload)\<rparr>) w))"
    by (rule ethernet_receive_accepts [OF assms(1-6) mine])
  then show ?thesis using assms(7) mine by simp
next
  case False
  then show ?thesis
    using assms(2,3,7) ethernet_receive_header [OF assms(1,4-6)]
    by (cases "if_state (w_iface w iface)") (auto simp: ethernet_receive_def mac_equal_def Let_def split: if_splits)
qed

theorem ethernet_receive_correct_witness:
  "\<exists>w'. ethernet_receive 11 20 (Some 0) (lan ((packet_fresh 21 (\<lambda>_. 0) 16 1)
      \<lparr>pk_buf := replicate 64 0 @ eth_frame [2, 0, 0, 0, 0, 2] [2, 0, 0, 0, 0, 1] 0x0800 [7, 8], pk_len := 16\<rparr>)
      (event_queue_new 4)) = (0, Some 0x0800, w') \<and> pk_bytes (w_pkt w' 20) = [7, 8]"
proof -
  let ?f = "eth_frame [2, 0, 0, 0, 0, 2] [2, 0, 0, 0, 0, 1] 0x0800 [7, 8]"
  let ?w = "lan ((packet_fresh 21 (\<lambda>_. 0) 16 1)\<lparr>pk_buf := replicate 64 0 @ ?f, pk_len := 16\<rparr>) (event_queue_new 4)"
  have len: "length ?f = 16" by (simp add: eth_frame_def eth_bytes_len eth_wf_def)
  have p: "packet_ok (w_pkt ?w 20)" "pk_bytes (w_pkt ?w 20) = ?f"
    using len by (simp_all add: packet_ok_def packet_fresh_def pk_bytes_def bread_def)
  obtain r out w' where rc: "ethernet_receive 11 20 (Some 0) ?w = (r, out, w')" by (metis prod_cases3)
  from ethernet_receive_correct [OF p(1) _ _ _ _ p(2) rc] rc show ?thesis by simp
qed

text \<open>What \<open>ip_receive\<close> does, by the verdict of the header checks.\<close>

lemma ip_receive_effect:
  assumes "mem_ok w" "owned w frame" "packet_ok (w_pkt w frame)" "iface \<noteq> NULL" "20 \<le> pk_len (w_pkt w frame)"
    and "ip_receive A iface frame et stack w = (r, w')"
  shows "case ip_check (pk_rest (w_pkt w frame)) of
      IP_BAD_VERSION \<Rightarrow> r = - 1 \<and> consumes frame w w' \<and> w_iface w' = w_iface (rx_error iface w)
    | IP_TTL_EXPIRED \<Rightarrow> r = - 1 \<and> consumes frame w w' \<and> w_iface w' = w_iface (rx_drop iface w)
    | IP_BAD_CHECKSUM \<Rightarrow> r = - 1 \<and> consumes frame w w' \<and> w_iface w' = w_iface (rx_error iface w)
    | IP_OK \<Rightarrow> (\<exists>w1. pk_bytes (w_pkt w1 frame) = drop 20 (pk_bytes (w_pkt w frame)) \<and>
        pk_before (w_pkt w1 frame) 20 = take 20 (pk_bytes (w_pkt w frame)) \<and>
        packet_ok (w_pkt w1 frame) \<and> owned w1 frame \<and> w_live w1 = w_live w \<and> w_sched w1 = w_sched w \<and>
        w_iface w1 = (w_iface w)(iface := (w_iface w iface)
          \<lparr>if_rx_bytes := if_rx_bytes (w_iface w iface) + of_nat (pk_len (w_pkt w frame)),
           if_last_rx_time := (if stack = NULL then 0 else simulator_now (is_sim (w_ips w stack)) w)\<rparr>) \<and>
        (r, w') =
          (case is_protocols (w_ips w stack) (ip_protocol (ip_at (pk_rest (w_pkt w frame)))) of (h, ctx) \<Rightarrow>
             if stack = NULL \<or> h = PH_NULL then (0, w1) else call_protocol A h iface frame ctx w1))"
proof -
  let ?k = "w_pkt w frame"
  let ?data = "pk_rest ?k"
  have f0: "frame \<noteq> 0" using mem_okD [OF assms(1)] assms(2) by (auto simp: owned_def)
  have guard: "\<not> (iface = 0 \<or> frame = 0 \<or> pk_len ?k < 20)" using assms(4,5) f0 by simp
  have free: "consumes frame w (packet_free frame x)" if "keeps w x" for x
    by (rule consumes_free [OF assms(1,2) that])
  have kept: "keeps w (rx_error iface w)" "keeps w (rx_drop iface w)"
    using keeps_counters(1,2) [OF keeps_refl [OF assms(1)]] by blast+
  show ?thesis
  proof (cases "ip_check ?data")
    case IP_OK
    define w1 where "w1 = upd_pkt frame (\<lambda>k. k\<lparr>pk_data := pk_data k + 20, pk_len := pk_len k - 20, pk_layer := 4\<rparr>)
      (upd_iface iface (\<lambda>i. i\<lparr>if_last_rx_time :=
          (if (if stack \<noteq> 0 then is_sim (w_ips w stack) else 0) \<noteq> 0
           then simulator_now (if stack \<noteq> 0 then is_sim (w_ips w stack) else 0)
             (upd_iface iface (\<lambda>i. i\<lparr>if_rx_bytes := if_rx_bytes i + of_nat (pk_len ?k)\<rparr>) w) else 0)\<rparr>)
        (upd_iface iface (\<lambda>i. i\<lparr>if_rx_bytes := if_rx_bytes i + of_nat (pk_len ?k)\<rparr>) w))"
    have res: "(r, w') = (case is_protocols (w_ips w stack) (ip_protocol (ip_at ?data)) of (h, ctx) \<Rightarrow>
             if stack = 0 \<or> h = PH_NULL then (0, w1) else call_protocol A h iface frame ctx w1)"
      using assms(6) guard IP_OK by (simp add: ip_receive_def w1_def Let_def split: prod.splits if_splits)
    have strip: "w_pkt w1 frame = (snd (packet_strip ?k 20))\<lparr>pk_layer := 4\<rparr>"
      using assms(5) by (simp add: w1_def packet_strip_def Let_def)
    obtain s where s: "packet_strip ?k 20 = (0, s)"
      using assms(5) by (simp add: packet_strip_def Let_def)
    have "pk_bytes ?k = take 20 (pk_bytes ?k) @ pk_bytes s"
      using packet_strip_bytes [OF assms(3,5)] s by simp
    moreover have "length (take 20 (pk_bytes ?k)) = 20"
      using packet_okD(2) [OF assms(3)] assms(5) by simp
    ultimately have "pk_bytes s = drop 20 (pk_bytes ?k)" by (metis append_eq_conv_conj)
    moreover have "packet_ok s" by (rule packet_strip_ok [OF assms(3) s])
    moreover have "pk_before s 20 = take 20 (pk_bytes ?k)" using packet_strip_before [OF assms(5)] s by simp
    moreover have "owned w1 frame" "w_live w1 = w_live w" "w_sched w1 = w_sched w"
      using assms(2) by (simp_all add: owned_def w1_def)
    moreover have "w_iface w1 = (w_iface w)(iface := (w_iface w iface)
          \<lparr>if_rx_bytes := if_rx_bytes (w_iface w iface) + of_nat (pk_len (w_pkt w frame)),
           if_last_rx_time := (if stack = NULL then 0 else simulator_now (is_sim (w_ips w stack)) w)\<rparr>)"
      by (auto simp: w1_def simulator_now_def fun_eq_iff)
    ultimately show ?thesis
      unfolding IP_OK ip_verdict.case using res strip s by (intro exI [of _ w1]) simp
  qed (use assms(6) guard free [OF kept(1)] free [OF kept(2)] in
      \<open>auto simp: ip_receive_def Let_def\<close>)
qed

lemma ip_check_bytes:
  assumes "length hdr = 20"
  shows "ip_check (hdr @ rest) =
    (if drop_bit 4 (hdr ! 0) \<noteq> 4 then IP_BAD_VERSION
     else if hdr ! 8 = 0 then IP_TTL_EXPIRED
     else if 0 < be_total hdr \<and> 65535 dvd be_total hdr then IP_OK
     else IP_BAD_CHECKSUM)"
  using assms by (simp add: ip_check_def ip_checksum_ok_iff ip_at_def nth_append Let_def)

text \<open>
  C6 \<open>ip_receive\<close> on a packet with a whole header: a version other than 4, or a one's complement sum of
  the ten words that does not verify, counts a receive
  error, an expired TTL a drop, and each of them frees the packet, once, and returns -1; otherwise
  the header is stripped (and stays readable in front of the data), the time and the byte count of
  the interface are updated, and the handler that the stack has for the protocol is called with the
  packet; without a stack or a handler the result is 0 and the packet stays allocated.
\<close>

theorem ip_receive_correct:
  assumes "mem_ok w" "owned w frame" "packet_ok (w_pkt w frame)" "iface \<noteq> NULL" "20 \<le> pk_len (w_pkt w frame)"
    and "ip_receive A iface frame et stack w = (r, w')"
  shows "let hdr = take 20 (pk_bytes (w_pkt w frame)) in
    if drop_bit 4 (hdr ! 0) \<noteq> 4 then r = - 1 \<and> consumes frame w w' \<and> w_iface w' = w_iface (rx_error iface w)
    else if hdr ! 8 = 0 then r = - 1 \<and> consumes frame w w' \<and> w_iface w' = w_iface (rx_drop iface w)
    else if be_total hdr = 0 \<or> be_total hdr mod 65535 \<noteq> 0
    then r = - 1 \<and> consumes frame w w' \<and> w_iface w' = w_iface (rx_error iface w)
    else (\<exists>w1. pk_bytes (w_pkt w1 frame) = drop 20 (pk_bytes (w_pkt w frame)) \<and>
        pk_before (w_pkt w1 frame) 20 = hdr \<and> packet_ok (w_pkt w1 frame) \<and> owned w1 frame \<and>
        w_live w1 = w_live w \<and> w_sched w1 = w_sched w \<and>
        w_iface w1 = (w_iface w)(iface := (w_iface w iface)
          \<lparr>if_rx_bytes := if_rx_bytes (w_iface w iface) + of_nat (pk_len (w_pkt w frame)),
           if_last_rx_time := (if stack = NULL then 0 else simulator_now (is_sim (w_ips w stack)) w)\<rparr>) \<and>
        (r, w') = (case is_protocols (w_ips w stack) (hdr ! 9) of (h, ctx) \<Rightarrow>
             if stack = NULL \<or> h = PH_NULL then (0, w1) else call_protocol A h iface frame ctx w1))"
proof -
  let ?hdr = "take 20 (pk_bytes (w_pkt w frame))"
  have len: "length ?hdr = 20" using packet_okD(2) [OF assms(3)] assms(5) by simp
  have "pk_bytes (w_pkt w frame) = take (pk_len (w_pkt w frame)) (pk_rest (w_pkt w frame))"
    by (simp add: pk_bytes_def pk_rest_def bread_def)
  then have "?hdr = take 20 (pk_rest (w_pkt w frame))" using assms(5) by simp
  then have rest: "pk_rest (w_pkt w frame) = ?hdr @ drop 20 (pk_rest (w_pkt w frame))" by simp
  have check: "ip_check (pk_rest (w_pkt w frame)) = 
     (if drop_bit 4 (?hdr ! 0) \<noteq> 4 then IP_BAD_VERSION else if ?hdr ! 8 = 0 then IP_TTL_EXPIRED
      else if 0 < be_total ?hdr \<and> 65535 dvd be_total ?hdr then IP_OK else IP_BAD_CHECKSUM)"
    by (subst rest) (rule ip_check_bytes [OF len])
  have proto: "ip_protocol (ip_at (pk_rest (w_pkt w frame))) = ?hdr ! 9"
    by (subst rest) (use len in \<open>simp add: ip_at_def nth_append\<close>)
  show ?thesis
    using ip_receive_effect [OF assms]
    unfolding check proto Let_def dvd_eq_mod_eq_0
    by (cases "drop_bit 4 (?hdr ! 0) \<noteq> 4"; cases "?hdr ! 8 = 0"; cases "be_total ?hdr = 0";
        cases "be_total ?hdr mod 65535 = 0") simp_all
qed

theorem ip_receive_correct_witness:
  "\<exists>w'. ip_receive quiet_app 11 20 0x0800 9 (lan ((packet_fresh 21 (\<lambda>_. 0) 20 1)
      \<lparr>pk_buf := replicate 64 0 @ ip_bytes (ip_send_header 0x0A000001 0x0A000002 99 0), pk_len := 20\<rparr>)
      (event_queue_new 4)) = (0, w')"
proof -
  let ?h = "ip_send_header 0x0A000001 0x0A000002 99 0"
  let ?w = "lan ((packet_fresh 21 (\<lambda>_. 0) 20 1)\<lparr>pk_buf := replicate 64 0 @ ip_bytes ?h, pk_len := 20\<rparr>)
      (event_queue_new 4)"
  have p: "packet_ok (w_pkt ?w 20)" "pk_len (w_pkt ?w 20) = 20" "pk_rest (w_pkt ?w 20) = ip_bytes ?h @ []"
    by (simp_all add: packet_ok_def packet_fresh_def pk_rest_def)
  obtain r w' where rc: "ip_receive quiet_app 11 20 0x0800 9 ?w = (r, w')" by fastforce
  have bytes: "take 20 (pk_bytes (w_pkt ?w 20)) = ip_bytes ?h"
    using ip.length_bytes [of ?h] by (simp add: pk_bytes_def bread_def packet_fresh_def)
  have len: "length (ip_bytes ?h) = 20" by (simp add: ip.length_bytes)
  have "ip_check (ip_bytes ?h @ []) = IP_OK" by (rule ip_send_header_ok)
  then have ok: "drop_bit 4 (ip_bytes ?h ! 0) = 4" "ip_bytes ?h ! 8 \<noteq> 0" "be_total (ip_bytes ?h) \<noteq> 0"
    "be_total (ip_bytes ?h) mod 65535 = 0"
    unfolding ip_check_bytes [OF len] by (auto split: if_splits)
  have proto: "ip_bytes ?h ! 9 = 99" by (simp add: ip_bytes_def ip_send_header_fields le16_def)
  show ?thesis
    using ip_receive_correct [OF lan_mem_ok lan_owned p(1) _ _ rc, unfolded bytes Let_def] rc p(2) ok proto
    by (auto simp: lan_stack_def simp del: lan_simps(5))
qed

section \<open>Address resolution over the wire\<close>

text \<open>The first byte of an ARP message for Ethernet is not an IPv4 version byte.\<close>

lemma arp_not_ip:
  assumes "arp_hardware_type a = ns_htons 1"
  shows "ip_check (arp_bytes a @ rest) = IP_BAD_VERSION"
proof -
  have "(arp_bytes a @ rest) ! 0 = 0"
    using assms by (simp add: arp_bytes_def le16_def ns_order_defs ns_bswap16_def)
  then show ?thesis by (simp add: ip_check_def ip_at_def)
qed

text \<open>
  C21 ARP requests and replies are never answered: the receive event of a frame that carries an ARP
  message for Ethernet, at an enabled host interface, ends in \<open>ip_receive\<close>, which takes it for an
  IP packet of a wrong version: a receive error is counted, the packet is freed, and neither the
  neighbour caches nor any event queue change. An unresolved destination stays unresolved.
\<close>

theorem arp_frames_are_dropped:
  assumes "mem_ok w" "owned w (ev_packet e)" "packet_ok (w_pkt w (ev_packet e))"
    and "ev_dst_device e = iface" "iface \<noteq> NULL"
    and "if_state (w_iface w iface) = IFACE_OK" "if_rx_handler (w_iface w iface) = RX_ip_rx_shim"
    and "pk_bytes (w_pkt w (ev_packet e)) = eth_frame dst src 0x0806 (arp_bytes a)" "arp_wf a"
    and "arp_hardware_type a = ns_htons 1" "length dst = 6" "length src = 6"
    and "dst = if_mac (w_iface w iface) \<or> dst = ETH_BROADCAST"
    and "w' = ethernet_receive_event A e ctx w"
  shows "w_arp w' = w_arp w \<and> w_sched w' = w_sched w \<and> consumes (ev_packet e) w w' \<and>
    if_rx_errors (w_iface w' iface) = if_rx_errors (w_iface w iface) + 1"
proof -
  let ?p = "ev_packet e"
  have p0: "?p \<noteq> 0" using mem_okD [OF assms(1)] assms(2) by (auto simp: owned_def)
  obtain s where s: "packet_ok s" "pk_bytes s = arp_bytes a" "pk_before s 14 = eth_frame dst src 0x0806 []"
    and hd: "pk_head s = pk_head (w_pkt w ?p)"
    and rc: "ethernet_receive iface ?p (Some 0) w = (0, Some 0x0806, upd_pkt ?p (\<lambda>_. s)
       (upd_iface iface (\<lambda>i. i\<lparr>if_rx_bytes := if_rx_bytes i + of_nat (length (arp_bytes a))\<rparr>) w))"
    by (rule ethernet_receive_accepts [OF assms(3,5) p0 assms(11,12,8,6,13)])
  define w1 where "w1 = upd_iface iface (\<lambda>i. i\<lparr>if_last_rx_time := ev_timestamp e\<rparr>) (upd_pkt ?p (\<lambda>_. s)
       (upd_iface iface (\<lambda>i. i\<lparr>if_rx_bytes := if_rx_bytes i + of_nat (length (arp_bytes a))\<rparr>) w))"
  have len: "pk_len s = 28"
    using arg_cong [OF s(2), of length] packet_okD(2) [OF s(1)] assms(9) by (simp add: arp.length_bytes)
  have "pk_rest s = arp_bytes a @ drop (pk_len s) (pk_rest s)" using pk_rest_bytes [of s] s(2) by simp
  then have check: "ip_check (pk_rest s) = IP_BAD_VERSION" using arp_not_ip [OF assms(10)] by metis
  have w1: "w_pkt w1 ?p = s" "if_rx_handler (w_iface w1 iface) = RX_ip_rx_shim" by (simp_all add: w1_def assms(7))
  have "w' = ip_rx_shim A iface ?p 0x0806 (if_handler_ctx (w_iface w1 iface)) w1"
    using assms(4,5,7,14) p0 rc
    by (simp add: ethernet_receive_event_def w1_def call_rx_handler_def Let_def)
  then have w': "w' = packet_free ?p (rx_error iface w1)"
    using check len assms(5) p0 w1(1) by (simp add: ip_rx_shim_def ip_receive_def Let_def)
  have "keeps w w1"
    unfolding w1_def using hd p0 by (intro keeps_upd keeps_upd_pkt keeps_refl assms(1)) simp_all
  then have "consumes ?p w w'" unfolding w' by (intro consumes_free [OF assms(1,2)] keeps_counters)
  then show ?thesis by (simp add: w' w1_def rx_error_def)
qed

theorem arp_frames_are_dropped_witness:
  "\<exists>w'. w' = ethernet_receive_event quiet_app
      \<lparr>ev_self = 36, ev_type = EVT_PACKET_RECEIVE, ev_timestamp = 5, ev_src_device = 10, ev_dst_device = 11,
       ev_packet = 20, ev_data = None, ev_handler = CB_ethernet_receive_event, ev_handler_ctx = 1\<rparr> 1
      (lan ((packet_fresh 21 (\<lambda>_. 0) 42 1)\<lparr>pk_buf := replicate 64 0 @ eth_frame ETH_BROADCAST
          [2, 0, 0, 0, 0, 1] 0x0806 (arp_request_bytes (lan_iface 1 0x0A000001 4 6 8) 0x0200000A),
        pk_len := 42\<rparr>) (event_queue_new 4)) \<and> if_rx_errors (w_iface w' 11) = 1"
proof -
  let ?a = "\<lparr>arp_hardware_type = ns_htons 1, arp_protocol_type = ns_htons 0x0800,
      arp_hardware_addr_len = 6, arp_protocol_addr_len = 4, arp_opcode = ns_htons 1,
      arp_sender_hardware_addr = [2, 0, 0, 0, 0, 1], arp_sender_protocol_addr = ns_htonl 0x0A000001,
      arp_target_hardware_addr = replicate 6 0, arp_target_protocol_addr = 0x0200000A\<rparr>"
  let ?f = "eth_frame ETH_BROADCAST [2, 0, 0, 0, 0, 1] 0x0806 (arp_bytes ?a)"
  let ?w = "lan ((packet_fresh 21 (\<lambda>_. 0) 42 1)\<lparr>pk_buf := replicate 64 0 @ ?f, pk_len := 42\<rparr>) (event_queue_new 4)"
  let ?e = "\<lparr>ev_self = 36, ev_type = EVT_PACKET_RECEIVE, ev_timestamp = 5, ev_src_device = 10, ev_dst_device = 11,
       ev_packet = 20, ev_data = None, ev_handler = CB_ethernet_receive_event, ev_handler_ctx = 1\<rparr>"
  have wf: "arp_wf ?a" by (simp add: arp_wf_def)
  have len: "length ?f = 42" by (simp add: eth_frame_def eth_bytes_len eth_wf_def arp.length_bytes [OF wf])
  have p: "packet_ok (w_pkt ?w 20)" "pk_bytes (w_pkt ?w 20) = ?f"
    using len by (simp_all add: packet_ok_def packet_fresh_def pk_bytes_def bread_def)
  have "if_rx_handler (w_iface ?w 11) = RX_ip_rx_shim" by (simp add: lan_iface_def)
  then show ?thesis
    using arp_frames_are_dropped [where e = ?e and iface = 11 and w = ?w and a = ?a and dst = ETH_BROADCAST
        and src = "[2, 0, 0, 0, 0, 1]" and A = quiet_app and ctx = 1] p wf lan_mem_ok lan_owned
    by (simp add: arp_request_bytes_def)
qed

end
