(* ===== verification/Arrival.thy ===== *)
theory Arrival
  imports Wire
begin

text \<open>
  From the event queue to the protocol handler: what the dispatch of a receive event does with a
  frame that carries a valid IPv4 packet for the interface, and the header that the program itself
  puts in front of a packet. The transport properties are compositions of these lemmas with what
  the senders put on the wire (\<open>Delivery\<close>).
\<close>

section \<open>Through the network layer\<close>

lemma ip_receive_accepts:
  assumes ok: "packet_ok (w_pkt w frame)" "iface \<noteq> NULL" "frame \<noteq> NULL" "stack \<noteq> NULL"
    and bytes: "pk_bytes (w_pkt w frame) = hdr @ body" "length hdr = 20" "ip_check hdr = IP_OK"
    and h: "is_protocols (w_ips w stack) (hdr ! 9) = (h, c)" "h \<noteq> PH_NULL"
  obtains g s where "\<And>i. if_static (g i) = if_static i" "packet_ok s" "pk_bytes s = body" "pk_before s 20 = hdr"
    "pk_head s = pk_head (w_pkt w frame)" "20 \<le> pk_data s"
    "ip_receive A iface frame et stack w =
       call_protocol A h iface frame c (upd_pkt frame (\<lambda>_. s) (upd_iface iface g w))"
proof -
  let ?k = "w_pkt w frame"
  have len: "pk_len ?k = 20 + length body"
    using arg_cong [OF bytes(1), of length] packet_okD(2) [OF ok(1)] bytes(2) by simp
  obtain s where s: "packet_strip ?k 20 = (0, s)" using len by (simp add: packet_strip_def Let_def)
  then have s_def: "s = ?k\<lparr>pk_data := pk_data ?k + 20, pk_len := pk_len ?k - 20\<rparr>"
    using len by (simp add: packet_strip_def Let_def)
  have before: "pk_before s 20 = hdr"
    using packet_strip_before [of 20 ?k] len s bytes by simp
  have body: "pk_bytes s = body"
    using packet_strip_bytes [OF ok(1), of 20] len s bytes by simp
  have rest: "pk_rest ?k = hdr @ (body @ drop (pk_len ?k) (pk_rest ?k))"
    using pk_rest_bytes [of ?k] bytes(1) by (metis append.assoc)
  have check: "ip_check (pk_rest ?k) = IP_OK"
    by (subst rest) (use bytes(3) ip_check_bytes [OF bytes(2), of "[]"] ip_check_bytes [OF bytes(2)] in simp)
  have proto: "ip_protocol (ip_at (pk_rest ?k)) = hdr ! 9"
    by (subst rest) (use bytes(2) in \<open>simp add: ip_at_def nth_append\<close>)
  define now where "now = (if is_sim (w_ips w stack) \<noteq> NULL then simulator_now (is_sim (w_ips w stack))
    (upd_iface iface (\<lambda>i. i\<lparr>if_rx_bytes := if_rx_bytes i + of_nat (pk_len ?k)\<rparr>) w) else 0)"
  define g where "g = (\<lambda>i :: Interface. i\<lparr>if_rx_bytes := if_rx_bytes i + of_nat (pk_len ?k), if_last_rx_time := now\<rparr>)"
  have two: "upd_iface iface (\<lambda>i. i\<lparr>if_last_rx_time := now\<rparr>)
      (upd_iface iface (\<lambda>i. i\<lparr>if_rx_bytes := if_rx_bytes i + of_nat (pk_len ?k)\<rparr>) w) = upd_iface iface g w"
    by (simp add: g_def upd_iface_def)
  have strip: "upd_pkt frame (\<lambda>k. k\<lparr>pk_data := pk_data k + 20, pk_len := pk_len k - 20, pk_layer := 4\<rparr>) x =
      upd_pkt frame (\<lambda>_. s\<lparr>pk_layer := 4\<rparr>) x" if "w_pkt x frame = ?k" for x
    using that by (simp add: upd_pkt_def s_def)
  have "ip_receive A iface frame et stack w =
       call_protocol A h iface frame c (upd_pkt frame (\<lambda>_. s\<lparr>pk_layer := 4\<rparr>) (upd_iface iface g w))"
    unfolding two [symmetric]
    by (subst strip [symmetric])
       (use ok(2-4) len check proto h in \<open>simp_all add: ip_receive_def Let_def now_def\<close>)
  moreover have "if_static (g i) = if_static i" for i by (simp add: g_def if_static_def)
  moreover have "pk_head s = pk_head ?k" "20 \<le> pk_data s" by (simp_all add: s_def)
  ultimately show ?thesis
    using that [of g "s\<lparr>pk_layer := 4\<rparr>"] packet_strip_ok [OF ok(1) s] before body by simp
qed

section \<open>The receive event of an IPv4 frame\<close>

lemma upd_pkt_twice: "upd_pkt p f (upd_pkt p g w) = upd_pkt p (\<lambda>k. f (g k)) w"
  by (simp add: upd_pkt_def)

lemma upd_iface_twice: "upd_iface p f (upd_iface p g w) = upd_iface p (\<lambda>k. f (g k)) w"
  by (simp add: upd_iface_def)

lemma upd_pkt_iface: "upd_iface i f (upd_pkt p g w) = upd_pkt p g (upd_iface i f w)"
  by (simp add: upd_iface_def upd_pkt_def)

lemma frame_arrives:
  assumes e: "ev_dst_device e = iface" "ev_packet e = frame" "iface \<noteq> NULL" "frame \<noteq> NULL"
    and p: "packet_ok (w_pkt w frame)" "pk_bytes (w_pkt w frame) = eth_frame dst src 0x0800 (hdr @ body)"
      "length dst = 6" "length src = 6" "length hdr = 20" "ip_check hdr = IP_OK"
    and i: "if_state (w_iface w iface) = IFACE_OK" "dst = if_mac (w_iface w iface) \<or> dst = ETH_BROADCAST"
      "if_rx_handler (w_iface w iface) = RX_ip_rx_shim" "if_handler_ctx (w_iface w iface) = stack" "stack \<noteq> NULL"
    and h: "is_protocols (w_ips w stack) (hdr ! 9) = (h, c)" "h \<noteq> PH_NULL"
  obtains g s where "\<And>i. if_static (g i) = if_static i" "packet_ok s" "pk_bytes s = body" "pk_before s 20 = hdr"
    "pk_head s = pk_head (w_pkt w frame)" "20 \<le> pk_data s"
    "ethernet_receive_event A e ctx w =
       snd (call_protocol A h iface frame c (upd_pkt frame (\<lambda>_. s) (upd_iface iface g w)))"
proof -
  obtain s1 where s1: "packet_ok s1" "pk_bytes s1 = hdr @ body" "pk_head s1 = pk_head (w_pkt w frame)"
    and rc: "ethernet_receive iface frame (Some 0) w = (0, Some 0x0800, upd_pkt frame (\<lambda>_. s1)
       (upd_iface iface (\<lambda>i. i\<lparr>if_rx_bytes := if_rx_bytes i + of_nat (length (hdr @ body))\<rparr>) w))"
    by (rule ethernet_receive_accepts [OF p(1) e(3,4) p(3,4,2) i(1,2), of 0]) blast
  define g1 where "g1 = (\<lambda>i :: Interface. i\<lparr>if_rx_bytes := if_rx_bytes i + of_nat (length (hdr @ body)),
    if_last_rx_time := ev_timestamp e\<rparr>)"
  define w1 where "w1 = upd_pkt frame (\<lambda>_. s1) (upd_iface iface g1 w)"
  have ev: "ethernet_receive_event A e ctx w = snd (ip_receive A iface frame 0x0800 stack w1)"
    using e i rc
    by (simp add: ethernet_receive_event_def Let_def upd_pkt_iface upd_iface_twice call_rx_handler_def
        ip_rx_shim_def w1_def g1_def)
  have w1: "packet_ok (w_pkt w1 frame)" "pk_bytes (w_pkt w1 frame) = hdr @ body"
    "is_protocols (w_ips w1 stack) (hdr ! 9) = (h, c)" "pk_head (w_pkt w1 frame) = pk_head (w_pkt w frame)"
    using s1 h(1) by (simp_all add: w1_def)
  obtain g s where gs: "\<And>i. if_static (g i) = if_static i" "packet_ok s" "pk_bytes s = body" "pk_before s 20 = hdr"
    "pk_head s = pk_head (w_pkt w1 frame)" "20 \<le> pk_data s"
    "ip_receive A iface frame 0x0800 stack w1 =
       call_protocol A h iface frame c (upd_pkt frame (\<lambda>_. s) (upd_iface iface g w1))"
    by (rule ip_receive_accepts [OF w1(1) e(3,4) i(5) w1(2) p(5,6) w1(3) h(2), of A "0x0800"]) blast
  have eq: "upd_pkt frame (\<lambda>_. s) (upd_iface iface g w1) = upd_pkt frame (\<lambda>_. s) (upd_iface iface (\<lambda>i. g (g1 i)) w)"
    by (simp add: w1_def upd_pkt_iface upd_pkt_twice upd_iface_twice)
  have static: "if_static (g (g1 i)) = if_static i" for i using gs(1) by (simp add: g1_def if_static_def)
  show ?thesis
    by (rule that [OF static gs(2-4) _ gs(6)]) (use gs(5,7) w1(4) ev eq in simp_all)
qed

section \<open>Delivery to an IP endpoint\<close>

text \<open>Interface \<open>j\<close> with address \<open>m\<close> hands what it receives to the IP stack \<open>stack\<close>.\<close>

definition ip_endpoint :: "ptr \<Rightarrow> mac \<Rightarrow> ptr \<Rightarrow> world \<Rightarrow> bool" where
  "ip_endpoint j m stack w \<longleftrightarrow>
     j \<noteq> NULL \<and> if_state (w_iface w j) = IFACE_OK \<and> if_mac (w_iface w j) = m \<and>
     if_rx_handler (w_iface w j) = RX_ip_rx_shim \<and> if_handler_ctx (w_iface w j) = stack \<and> stack \<noteq> NULL"

lemma ip_endpoint_wiring: "same_wiring w w' \<Longrightarrow> ip_endpoint j m stack w' = ip_endpoint j m stack w"
  by (auto simp: ip_endpoint_def same_wiring_def if_static_def)

lemma ip_bytes_nth: "ip_bytes h ! 9 = ip_protocol h"
  by (simp add: ip_bytes_def le16_def)

lemma receive_event_dispatched:
  assumes q: "eq_inv (sc_eq (w_sched w sch))" "eq_list (sc_eq (w_sched w sch)) = ev # es"
    and ev: "ev_timestamp ev = t" "ev_dst_device ev = j" "ev_handler ev = CB_ethernet_receive_event" "ev_packet ev \<noteq> NULL"
    and pk: "packet_ok (w_pkt w (ev_packet ev))"
      "pk_bytes (w_pkt w (ev_packet ev)) = eth_frame m src 0x0800 (ip_bytes (ip_send_header a b pr n) @ body)"
      "length m = 6" "length src = 6"
    and j: "ip_endpoint j m stack w" "is_protocols (w_ips w stack) pr = (h, c)" "h \<noteq> PH_NULL"
  obtains g s q where "\<And>i. if_static (g i) = if_static i" "packet_ok s" "pk_bytes s = body"
    "pk_before s 20 = ip_bytes (ip_send_header a b pr n)" "20 \<le> pk_data s"
    "pk_head s = pk_head (w_pkt w (ev_packet ev))" "eq_list q = es" "eq_inv q"
    "scheduler_step A sch w = (1, event_free (Some ev) (snd (call_protocol A h j (ev_packet ev) c
       (upd_pkt (ev_packet ev) (\<lambda>_. s) (upd_iface j g
          (upd_sched sch (\<lambda>k. k\<lparr>sc_eq := q, sc_now := max (sc_now k) t\<rparr>) w))))))"
proof -
  let ?h = "ip_send_header a b pr n"
  obtain q where q1: "eq_inv q" "eq_list q = es" "scheduler_step A sch w = (1, event_free (Some ev)
      (call_event A (ev_handler ev) ev (ev_handler_ctx ev)
        (upd_sched sch (\<lambda>k. k\<lparr>sc_eq := q, sc_now := max (sc_now k) (ev_timestamp ev)\<rparr>) w)))"
    by (rule scheduler_step_first [OF q, of A]) (use ev(3) in auto)
  let ?w = "upd_sched sch (\<lambda>k. k\<lparr>sc_eq := q, sc_now := max (sc_now k) (ev_timestamp ev)\<rparr>) w"
  have hdr: "length (ip_bytes ?h) = 20" "ip_check (ip_bytes ?h) = IP_OK" "ip_bytes ?h ! 9 = pr"
    using ip_send_header_ok [of a b pr n "[]"] by (simp_all add: ip.length_bytes ip_bytes_nth ip_send_header_fields)
  have jj: "j \<noteq> 0" "if_state (w_iface ?w j) = IFACE_OK" "m = if_mac (w_iface ?w j) \<or> m = ETH_BROADCAST"
    "if_rx_handler (w_iface ?w j) = RX_ip_rx_shim" "if_handler_ctx (w_iface ?w j) = stack" "stack \<noteq> 0"
    "is_protocols (w_ips ?w stack) (ip_bytes ?h ! 9) = (h, c)"
    using j hdr(3) by (simp_all add: ip_endpoint_def)
  have pk1: "packet_ok (w_pkt ?w (ev_packet ev))"
    "pk_bytes (w_pkt ?w (ev_packet ev)) = eth_frame m src 0x0800 (ip_bytes ?h @ body)" using pk(1,2) by simp_all
  obtain g s where gs: "\<And>i. if_static (g i) = if_static i" "packet_ok s" "pk_bytes s = body"
    "pk_before s 20 = ip_bytes ?h" "pk_head s = pk_head (w_pkt ?w (ev_packet ev))" "20 \<le> pk_data s"
    "ethernet_receive_event A ev (ev_handler_ctx ev) ?w =
       snd (call_protocol A h j (ev_packet ev) c (upd_pkt (ev_packet ev) (\<lambda>_. s) (upd_iface j g ?w)))"
    by (rule frame_arrives [OF ev(2) refl jj(1) ev(4) pk1 pk(3,4) hdr(1,2) jj(2-7) j(3), of A "ev_handler_ctx ev"]) blast
  show ?thesis
    by (rule that [OF gs(1-4,6) _ q1(2,1)])
       (use q1(3) gs(5,7) ev in \<open>simp_all add: call_event_def\<close>)
qed

lemma packet_delivered:
  assumes d: "delivers i j t CB_ethernet_receive_event ctx
      (eth_frame m src 0x0800 (ip_bytes (ip_send_header a b pr n) @ body)) sch w w'"
    and e: "eq_list (sc_eq (w_sched w sch)) = []" "mem_ok w'" "length m = 6" "length src = 6"
    and j: "ip_endpoint j m stack w'" "is_protocols (w_ips w' stack) pr = (h, c)" "h \<noteq> PH_NULL"
  obtains g s ev q where "\<And>i. if_static (g i) = if_static i" "packet_ok s" "pk_bytes s = body"
    "pk_before s 20 = ip_bytes (ip_send_header a b pr n)" "20 \<le> pk_data s"
    "fresh_packet w (ev_packet ev) w'" "pk_head s = pk_head (w_pkt w' (ev_packet ev))" "eq_list q = []" "eq_inv q"
    "scheduler_step A sch w' = (1, event_free (Some ev) (snd (call_protocol A h j (ev_packet ev) c
       (upd_pkt (ev_packet ev) (\<lambda>_. s) (upd_iface j g
          (upd_sched sch (\<lambda>k. k\<lparr>sc_eq := q, sc_now := max (sc_now k) t\<rparr>) w'))))))"
proof -
  obtain ev q0 where ev: "w_sched w' = (w_sched w)(sch := (w_sched w sch)\<lparr>sc_eq := q0\<rparr>)" "eq_inv q0"
    "eq_list q0 = [ev]" "ev_timestamp ev = t" "ev_dst_device ev = j" "ev_handler ev = CB_ethernet_receive_event"
    "fresh_packet w (ev_packet ev) w'" "packet_ok (w_pkt w' (ev_packet ev))"
    "pk_bytes (w_pkt w' (ev_packet ev)) = eth_frame m src 0x0800 (ip_bytes (ip_send_header a b pr n) @ body)"
    using d e(1) by (auto simp: delivers_def)
  have q0: "eq_inv (sc_eq (w_sched w' sch))" "eq_list (sc_eq (w_sched w' sch)) = [ev]"
    using ev by simp_all
  have p0: "ev_packet ev \<noteq> 0" using ev(7) mem_okD [OF e(2)] by (auto simp: fresh_packet_def owned_def)
  show ?thesis
    by (rule receive_event_dispatched [OF q0 ev(4-6) p0 ev(8,9) e(3,4) j, of A]) (rule that [OF _ _ _ _ _ ev(7)])
qed

section \<open>A concrete packet\<close>

text \<open>A packet as a transport handler sees it: the IP header stripped, in front of the data.\<close>

definition stripped_packet :: "IpHeader \<Rightarrow> u8 list \<Rightarrow> Packet" where
  "stripped_packet hdr body = (packet_fresh 21 (\<lambda>_. 0) (20 + length body) 1)
     \<lparr>pk_buf := replicate 64 0 @ ip_bytes hdr @ body, pk_data := 84, pk_len := length body\<rparr>"

lemma stripped_packet:
  "packet_ok (stripped_packet hdr body)" "pk_before (stripped_packet hdr body) 20 = ip_bytes hdr"
  "pk_bytes (stripped_packet hdr body) = body" "pk_data (stripped_packet hdr body) = 84"
  "pk_len (stripped_packet hdr body) = length body" "pk_end (stripped_packet hdr body) = 84 + length body"
  by (simp_all add: stripped_packet_def packet_ok_def packet_fresh_def pk_before_def pk_bytes_def bread_def pk_end_def)

lemma pk_head_update [simp]:
  "packet_ok (k\<lparr>pk_head := h\<rparr>) = packet_ok k" "pk_before (k\<lparr>pk_head := h\<rparr>) n = pk_before k n"
  "pk_bytes (k\<lparr>pk_head := h\<rparr>) = pk_bytes k" "pk_end (k\<lparr>pk_head := h\<rparr>) = pk_end k"
  by (simp_all add: packet_ok_def pk_before_def pk_bytes_def pk_end_def)

end
