(* ===== verification/Datagram.thy ===== *)
theory Datagram
  imports Arrival
begin

text \<open>
  UDP between two hosts: the bytes \<open>udp_send\<close> puts on the wire, what \<open>udp_receive\<close> makes of a
  packet, and the composition of both over a link.
\<close>

section \<open>Writing a message into a fresh packet\<close>

lemma bwrite_append:
  assumes "off + length a + length b \<le> length buf"
  shows "bwrite (bwrite buf off a) (off + length a) b = bwrite buf off (a @ b)"
  using assms by (simp add: bwrite_def ac_simps)

lemma pkt_write_append:
  assumes "pk_data k + length a + length b \<le> length (pk_buf k)" "n = length a"
  shows "pkt_write n b (pkt_write 0 a k) = pkt_write 0 (a @ b) k"
  using assms bwrite_append [of "pk_data k" a b "pk_buf k"] by (simp add: pkt_write_def add.commute)

lemma pkt_write_whole:
  assumes "length bs = n"
  shows "packet_ok ((pkt_write 0 bs (packet_fresh h f n i))\<lparr>pk_len := n, pk_layer := l\<rparr>)"
    and "pk_bytes ((pkt_write 0 bs (packet_fresh h f n i))\<lparr>pk_len := n, pk_layer := l\<rparr>) = bs"
    and "pk_data ((pkt_write 0 bs (packet_fresh h f n i))\<lparr>pk_len := n, pk_layer := l\<rparr>) = 64"
  using assms by (simp_all add: packet_ok_def packet_fresh_def pkt_write_def pk_bytes_def)

text \<open>The datagram for a payload of \<open>n\<close> bytes.\<close>

definition udp_datagram :: "u16 \<Rightarrow> u16 \<Rightarrow> nat \<Rightarrow> u8 list \<Rightarrow> u8 list" where
  "udp_datagram src_port dst_port n data =
     udp_bytes \<lparr>udp_src_port = ns_htons src_port, udp_dst_port = ns_htons dst_port,
        udp_length = ns_htons (of_nat (8 + n)), udp_hdr_checksum = 0\<rparr> @ take n data"

lemma udp_datagram_length: "n \<le> length data \<Longrightarrow> length (udp_datagram sp dp n data) = 8 + n"
  by (simp add: udp_datagram_def udp.length_bytes)

lemma udp_fill_whole:
  assumes "n \<le> length data"
  shows "udp_fill sp dp (Some data) n (packet_fresh h f (8 + n) i) =
    (pkt_write 0 (udp_datagram sp dp n data) (packet_fresh h f (8 + n) i))\<lparr>pk_len := 8 + n, pk_layer := 4\<rparr>"
  using assms
  by (cases "n = 0")
     (simp_all add: udp_fill_def udp_datagram_def Let_def pkt_write_append udp.length_bytes packet_fresh_def)

section \<open>Sending to a resolved neighbour\<close>

text \<open>
  Interface \<open>iface\<close> has address \<open>a\<close> and is up, \<open>b\<close> is in its subnet, and its neighbour cache maps
  \<open>b\<close> to the MAC address \<open>m\<close>.
\<close>

definition neighbour :: "ptr \<Rightarrow> ptr \<Rightarrow> u32 \<Rightarrow> u32 \<Rightarrow> mac \<Rightarrow> world \<Rightarrow> bool" where
  "neighbour sim iface a b m w \<longleftrightarrow>
     sim \<noteq> NULL \<and> iface \<noteq> NULL \<and> ip_find_source_iface sim a w = iface \<and> interface_is_up iface w \<noteq> 0 \<and>
     length (if_mac (w_iface w iface)) = 6 \<and> if_arp_cache (w_iface w iface) \<noteq> NULL \<and>
     ip_same_subnet (ns_ntohl (if_ip_addr (w_iface w iface))) b (if_prefix_len (w_iface w iface)) \<and>
     arp_inv (w_arp w (if_arp_cache (w_iface w iface))) \<and>
     map_option ae_mac_addr (arp_find (w_arp w (if_arp_cache (w_iface w iface))) b) = Some m"

lemma ip_output_resolved:
  assumes "neighbour sim iface a b m w" "payload \<noteq> NULL"
  shows "ip_output sim a b pr payload w = ip_send sim iface (Some m) a b pr payload w" "length m = 6"
proof -
  let ?c = "w_arp w (if_arp_cache (w_iface w iface))"
  obtain e where e: "arp_find ?c b = Some e" "m = ae_mac_addr e" using assms(1) by (auto simp: neighbour_def)
  have inv: "arp_inv ?c" using assms(1) by (simp add: neighbour_def)
  have "arp_cache_lookup (Some ?c) b (Some (replicate 6 0)) = (0, Some m)"
    using arp_cache_lookup_find [OF inv, of b "replicate 6 0"] e by simp
  then show "ip_output sim a b pr payload w = ip_send sim iface (Some m) a b pr payload w"
    using assms by (simp add: neighbour_def ip_output_def Let_def deref_def)
  show "length m = 6" using arp_find_SomeD(3) [OF inv e(1)] e(2) by simp
qed

lemma ip_find_source_iface_net:
  "same_net w w' \<Longrightarrow> ip_find_source_iface sim a w' = ip_find_source_iface sim a w"
  by (simp add: ip_find_source_iface_def same_net_def)

lemma neighbour_net: "same_net w w' \<Longrightarrow> neighbour sim iface a b m w' = neighbour sim iface a b m w"
  using ip_find_source_iface_net [of w w' sim a]
  by (simp add: neighbour_def interface_is_up_def same_net_def cong: conj_cong)

lemma path_up_net: "same_net w w' \<Longrightarrow> path_up sim iface w' = path_up sim iface w"
  by (simp add: path_up_def peer_def link_get_other_interface_def interface_is_up_def same_net_def)

text \<open>
  A sender that has built a packet with \<open>bytes\<close>, and hands it to \<open>ip_output\<close>, the destination
  being a resolved neighbour.
\<close>

lemma output_packet:
  assumes w: "eq_inv (sc_eq (w_sched w (sm_sched (w_sim w sim))))" "neighbour sim iface a b m w"
    and x: "same_net w x" "mem_ok x" "p \<in> w_live x" "w_live w \<subseteq> w_live x"
    and pk: "packet_ok (w_pkt x p)" "pk_bytes (w_pkt x p) = bytes" "pk_len (w_pkt x p) = n" "pk_data (w_pkt x p) = 64"
    and out: "ip_output sim a b pr p x = (r, w')"
  shows "r = 1 \<or> r = - 1" and "r = 1 \<Longrightarrow> delivers iface (peer iface w) (arrival sim iface w) CB_ethernet_receive_event sim
     (eth_frame m (if_mac (w_iface w iface)) 0x0800 (ip_bytes (ip_send_header a b pr n) @ bytes))
     (sm_sched (w_sim w sim)) w w'"
    and "(\<And>k. \<not> w_oom w k) \<Longrightarrow> path_up sim iface w \<Longrightarrow> r = 1"
    and "r \<noteq> 1 \<Longrightarrow> w_sched w' = w_sched w"
proof -
  note nd = same_netD [OF x(1)]
  have p0: "p \<noteq> 0" using mem_okD [OF x(2,3)] by simp
  have nb: "neighbour sim iface a b m x" using w(2) neighbour_net [OF x(1)] by simp
  note res = ip_output_resolved [OF nb p0]
  have send: "ip_send sim iface (Some m) a b pr p x = (r, w')" using res(1) out by simp
  have eq: "eq_inv (sc_eq (w_sched x (sm_sched (w_sim x sim))))" using w(1) nd by simp
  have mac: "length (if_mac (w_iface x iface)) = 6" using nb by (simp add: neighbour_def)
  note sent = ip_send_sent [OF x(2,3) pk(1) eq res(2) mac send]
  show "r = 1 \<or> r = - 1" by (rule sent(1))
  show "w_sched w' = w_sched w" if "r \<noteq> 1" using sent(2) [OF that] nd(3) by simp
  have cong: "peer iface x = peer iface w" "arrival sim iface x = arrival sim iface w"
    using nd by (auto intro: peer_cong arrival_cong)
  show "delivers iface (peer iface w) (arrival sim iface w) CB_ethernet_receive_event sim
     (eth_frame m (if_mac (w_iface w iface)) 0x0800 (ip_bytes (ip_send_header a b pr n) @ bytes))
     (sm_sched (w_sim w sim)) w w'" if "r = 1"
    using delivers_from [OF sent(3) [OF that] nd(3) x(4)] nd pk(2,3) cong by simp
  show "r = 1" if "\<And>k. \<not> w_oom w k" "path_up sim iface w"
    using sent(4) that path_up_net [OF x(1)] pk(4) nd(8) by simp
qed

text \<open>The packet is a fresh one, filled with \<open>bytes\<close>.\<close>

lemma filled_packet:
  assumes ok: "mem_ok w" and cr: "packet_create n w = (p, w1)" "p \<noteq> NULL"
    and fill: "\<And>h f i. fill (packet_fresh h f n i) = (pkt_write 0 bytes (packet_fresh h f n i))\<lparr>pk_len := n, pk_layer := 4\<rparr>"
      "length bytes = n"
  defines "x \<equiv> upd_pkt p fill w1"
  shows "same_net w x" "mem_ok x" "p \<in> w_live x" "w_live w \<subseteq> w_live x"
    "packet_ok (w_pkt x p)" "pk_bytes (w_pkt x p) = bytes" "pk_len (w_pkt x p) = n" "pk_data (w_pkt x p) = 64"
proof -
  note ce = packet_create_effect [OF ok cr(1)] and cm = packet_create_mem [OF ok cr(1)]
  show "same_net w x" unfolding x_def by (rule same_net_trans [OF ce(1) same_net_basic(1)])
  obtain h f k where w1: "w_pkt w1 = (w_pkt w)(p := packet_fresh h f n k)" using ce(2) [OF cr(2)] by blast
  show "packet_ok (w_pkt x p)" "pk_bytes (w_pkt x p) = bytes" "pk_len (w_pkt x p) = n" "pk_data (w_pkt x p) = 64"
    using pkt_write_whole [OF fill(2)] by (simp_all add: x_def w1 fill(1))
  have keep: "keeps w w1" and fresh: "fresh_packet w p w1" using cm cr(2) by auto
  show "mem_ok x" "p \<in> w_live x" "w_live w \<subseteq> w_live x"
    using keeps_mem [OF keep] keep fresh by (auto simp: x_def mem_ok_def keeps_def fresh_packet_def owned_def)
qed

lemma output_fresh_packet:
  assumes ok: "mem_ok w" "eq_inv (sc_eq (w_sched w (sm_sched (w_sim w sim))))" "neighbour sim iface a b m w"
    and cr: "packet_create n w = (p, w1)" "p \<noteq> NULL"
    and fill: "\<And>h f i. fill (packet_fresh h f n i) = (pkt_write 0 bytes (packet_fresh h f n i))\<lparr>pk_len := n, pk_layer := 4\<rparr>"
      "length bytes = n"
    and out: "ip_output sim a b pr p (upd_pkt p fill w1) = (r, w')"
  shows "r = 1 \<or> r = - 1" and "r = 1 \<Longrightarrow> delivers iface (peer iface w) (arrival sim iface w) CB_ethernet_receive_event sim
     (eth_frame m (if_mac (w_iface w iface)) 0x0800 (ip_bytes (ip_send_header a b pr n) @ bytes))
     (sm_sched (w_sim w sim)) w w'"
    and "(\<And>k. \<not> w_oom w k) \<Longrightarrow> path_up sim iface w \<Longrightarrow> r = 1"
    and "r \<noteq> 1 \<Longrightarrow> w_sched w' = w_sched w"
  using output_packet [OF ok(2,3) filled_packet [OF ok(1) cr fill] out] by blast+

lemma udp_send_keeps:
  assumes "mem_ok w" "udp_send sim a b sp dp data n w = (r, w')"
  shows "keeps w w'"
proof -
  obtain p x where c: "packet_create (8 + n) w = (p, x)" by fastforce
  have refl: "keeps w w" "keeps w x" using keeps_refl [OF assms(1)] packet_create_mem(1) [OF assms(1) c] by blast+
  show ?thesis
  proof (cases "p = 0")
    case True
    then show ?thesis using assms(2) c refl by (auto simp: udp_send_def Let_def split: if_splits)
  next
    case False
    note b = building_create [OF assms(1) c False]
    have out: "building w p (snd (ip_output sim a b 17 p (upd_pkt p (udp_fill sp dp data n) x)))"
      by (intro building_steps b) simp
    have "keeps w (snd (udp_send sim a b sp dp data n w))"
      using refl False c building_keeps [OF out] building_discard [OF out]
      by (simp add: udp_send_def Let_def split_def)
    then show ?thesis using assms(2) by simp
  qed
qed

lemma udp_sent:
  assumes ok: "mem_ok w" "eq_inv (sc_eq (w_sched w (sm_sched (w_sim w sim))))" "neighbour sim iface a b m w"
    and n: "n \<le> length data" and s: "udp_send sim a b sp dp (Some data) n w = (r, w')"
  shows "r = 0 \<or> r = - 1"
    and "r = 0 \<Longrightarrow> n \<le> 65527 \<and> delivers iface (peer iface w) (arrival sim iface w) CB_ethernet_receive_event sim
     (eth_frame m (if_mac (w_iface w iface)) 0x0800
       (ip_bytes (ip_send_header a b 17 (8 + n)) @ udp_datagram sp dp n data))
     (sm_sched (w_sim w sim)) w w'"
    and "(\<And>k. \<not> w_oom w k) \<Longrightarrow> path_up sim iface w \<Longrightarrow> dp \<noteq> 0 \<Longrightarrow> n \<le> 65527 \<Longrightarrow> r = 0"
proof -
  have sim: "sim \<noteq> 0" using ok(3) by (simp add: neighbour_def)
  obtain p w1 where cr: "packet_create (8 + n) w = (p, w1)" by fastforce
  obtain r' w2 where out: "ip_output sim a b 17 p (upd_pkt p (udp_fill sp dp (Some data) n) w1) = (r', w2)" by fastforce
  have res: "(r, w') = (if dp = 0 \<or> n > 65527 then (- 1, w) else if p = 0 then (- 1, w1)
      else if r' = - 1 then (- 1, packet_free p w2) else (0, w2))"
    using s cr out sim by (auto simp: udp_send_def Let_def split: if_splits)
  note sent = output_fresh_packet [OF ok cr _ udp_fill_whole [OF n] udp_datagram_length [OF n] out]
  show "r = 0 \<or> r = - 1" using res by (auto split: if_splits)
  show "n \<le> 65527 \<and> delivers iface (peer iface w) (arrival sim iface w) CB_ethernet_receive_event sim
     (eth_frame m (if_mac (w_iface w iface)) 0x0800
       (ip_bytes (ip_send_header a b 17 (8 + n)) @ udp_datagram sp dp n data))
     (sm_sched (w_sim w sim)) w w'" if "r = 0"
    using res that sent(1,2) by (auto split: if_splits)
  show "r = 0" if "\<And>k. \<not> w_oom w k" "path_up sim iface w" "dp \<noteq> 0" "n \<le> 65527"
    using res that packet_create_effect(4) [OF ok(1) cr that(1)] sent(3) by (auto split: if_splits)
qed

section \<open>Receiving\<close>

lemma bound_first_index:
  assumes "bound s port = Some (h, c)"
  obtains i where "first_index (\<lambda>k. us_valid k = 1 \<and> us_port k = port) (ud_sockets s) = Some i"
    "us_recv_handler (ud_sockets s ! i) = h" "us_ctx (ud_sockets s ! i) = c"
  using assms by (auto simp: bound_def entry_of_def slot_of_def)

lemma udp_datagram_header:
  assumes "pk_bytes k = udp_datagram sp dp n data"
  shows "udp_at (pk_rest k) = \<lparr>udp_src_port = ns_htons sp, udp_dst_port = ns_htons dp,
      udp_length = ns_htons (of_nat (8 + n)), udp_hdr_checksum = 0\<rparr>"
  using pk_rest_bytes [of k] udp.at_bytes unfolding assms udp_datagram_def append_assoc by metis

lemma udp_receive_bound:
  assumes p: "packet_ok (w_pkt w pkt)" "pk_head (w_pkt w pkt) \<noteq> NULL" "20 \<le> pk_data (w_pkt w pkt)"
    and nz: "iface \<noteq> NULL" "pkt \<noteq> NULL" "ctx \<noteq> NULL" "uc_state (w_udpctx w ctx) = us" "us \<noteq> NULL"
    and hdr: "pk_before (w_pkt w pkt) 20 = hdr" "ip_protocol (ip_at hdr) = 17"
    and body: "pk_bytes (w_pkt w pkt) = udp_datagram sp dp n data" "n \<le> length data" "n \<le> 65527"
    and sock: "bound (w_udp w us) dp = Some (h, c)"
  obtains s where "packet_ok s" "pk_bytes s = take n data" "pk_head s = pk_head (w_pkt w pkt)"
    "udp_receive recv iface pkt ctx w =
       (0, recv h (ns_ntohl (ip_src_ip (ip_at hdr))) sp pkt c (upd_pkt pkt (\<lambda>_. s) w))"
proof -
  let ?k = "w_pkt w pkt"
  have len: "pk_len ?k = 8 + n"
    using udp_datagram_length [OF body(2), of sp dp] body(1) packet_okD(2) [OF p(1)] by simp
  obtain s where s: "packet_strip ?k 8 = (0, s)" using len by (simp add: packet_strip_def Let_def)
  have data: "pk_bytes s = take n data"
    using packet_strip_bytes [OF p(1), of 8] len s body(1) by (simp add: udp_datagram_def udp.length_bytes)
  have head: "pk_head s = pk_head ?k" using s len by (auto simp: packet_strip_def Let_def)
  have fits: "pk_data ?k + pk_len ?k \<le> pk_end ?k" using p(1) by (simp add: packet_ok_def pk_end_def)
  have ulen: "unat (of_nat (8 + n) :: u16) = 8 + n" using body(3) by (simp add: unsigned_of_nat take_bit_nat_eq_self del: of_nat_add)
  obtain i where i: "first_index (\<lambda>k. us_valid k = 1 \<and> us_port k = dp) (ud_sockets (w_udp w us)) = Some i"
    "us_recv_handler (ud_sockets (w_udp w us) ! i) = h" "us_ctx (ud_sockets (w_udp w us) ! i) = c"
    by (rule bound_first_index [OF sock])
  have strip: "pkt_strip pkt 8 w = (0, upd_pkt pkt (\<lambda>_. s) w)" using s by (simp add: pkt_strip_def)
  have "udp_receive recv iface pkt ctx w =
      (0, recv h (ns_ntohl (ip_src_ip (ip_at hdr))) sp pkt c (upd_pkt pkt (\<lambda>_. s\<lparr>pk_layer := 5\<rparr>) w))"
    using nz p(2,3) len fits hdr i strip ulen
    by (simp add: udp_receive_def Let_def null_buffer_def udp_datagram_header [OF body(1)] upd_pkt_twice
        del: of_nat_add)
  then show ?thesis
    using that [of "s\<lparr>pk_layer := 5\<rparr>"] packet_strip_ok [OF p(1) s] data head by simp
qed

section \<open>End to end\<close>

text \<open>
  C7 A datagram arrives. If \<open>udp_send\<close> succeeds towards a resolved neighbour, the next step of the
  scheduler (nothing else being queued) dispatches its arrival after the delay of the link, through
  Ethernet, IPv4 and UDP, and calls the function that the destination socket is bound to, with the
  source address and port of the sender and a packet that holds exactly the payload. And it does
  succeed when the path is up, the port is not 0, the payload fits a datagram and memory lasts.
\<close>

theorem udp_end_to_end:
  assumes w: "mem_ok w" "eq_inv (sc_eq (w_sched w sch))" "eq_list (sc_eq (w_sched w sch)) = []"
      "sch = sm_sched (w_sim w sim)"
    and net: "neighbour sim i a b m w" "ip_endpoint (peer i w) m stack w"
    and sock: "is_protocols (w_ips w stack) 17 = (PH_udp_receive, uctx)" "uctx \<noteq> NULL"
      "us = uc_state (w_udpctx w uctx)" "us \<noteq> NULL" "bound (w_udp w us) dp = Some (h, hctx)"
    and data: "n \<le> length data" "udp_send sim a b sp dp (Some data) n w = (r, w1)"
  shows "(r = 0 \<longrightarrow> (\<exists>ev w2 pkt. scheduler_step A sch w1 = (1, event_free (Some ev) (app_udp_recv A h a sp pkt hctx w2)) \<and>
            pk_bytes (w_pkt w2 pkt) = take n data \<and> packet_ok (w_pkt w2 pkt) \<and> owned w2 pkt \<and>
            sc_now (w_sched w2 sch) = max (sc_now (w_sched w sch)) (arrival sim i w))) \<and>
    ((\<forall>k. \<not> w_oom w k) \<and> path_up sim i w \<and> dp \<noteq> 0 \<and> n \<le> 65527 \<longrightarrow> r = 0)"
proof (intro conjI impI)
  have eq: "eq_inv (sc_eq (w_sched w (sm_sched (w_sim w sim))))" using w(2,4) by simp
  note sent = udp_sent [OF w(1) eq net(1) data]
  show "r = 0" if "(\<forall>k. \<not> w_oom w k) \<and> path_up sim i w \<and> dp \<noteq> 0 \<and> n \<le> 65527"
    using sent(3) that by blast
  assume "r = 0"
  with sent(2) w(4) have n: "n \<le> 65527" and d: "delivers i (peer i w) (arrival sim i w) CB_ethernet_receive_event sim
     (eth_frame m (if_mac (w_iface w i)) 0x0800 (ip_bytes (ip_send_header a b 17 (8 + n)) @ udp_datagram sp dp n data))
     sch w w1" by auto
  have wiring: "fixed_wiring w w1" using wiring.step_udp_send [OF wiring.R_refl] data(2) by (metis snd_conv)
  have same: "w_ips w1 = w_ips w" "w_udpctx w1 = w_udpctx w" "w_udp w1 = w_udp w" "same_wiring w w1"
    "sc_now (w_sched w1 sch) = sc_now (w_sched w sch)"
    using wiring by (simp_all add: fixed_wiring_def same_wiring_def)
  have mem: "mem_ok w1" using keeps_mem [OF udp_send_keeps [OF w(1) data(2)]] .
  have end1: "ip_endpoint (peer i w) m stack w1" "is_protocols (w_ips w1 stack) 17 = (PH_udp_receive, uctx)"
    using net(2) sock(1) ip_endpoint_wiring [OF same(4)] same(1) by simp_all
  have lens: "length m = 6" "length (if_mac (w_iface w i)) = 6"
    using ip_output_resolved(2) [OF net(1), of 1] net(1) by (simp_all add: neighbour_def)
  obtain g s ev q where st: "\<And>i. if_static (g i) = if_static i" "packet_ok s" "pk_bytes s = udp_datagram sp dp n data"
    "pk_before s 20 = ip_bytes (ip_send_header a b 17 (8 + n))" "20 \<le> pk_data s"
    "fresh_packet w (ev_packet ev) w1" "pk_head s = pk_head (w_pkt w1 (ev_packet ev))"
    "scheduler_step A sch w1 = (1, event_free (Some ev) (snd (call_protocol A PH_udp_receive (peer i w) (ev_packet ev) uctx
       (upd_pkt (ev_packet ev) (\<lambda>_. s) (upd_iface (peer i w) g
          (upd_sched sch (\<lambda>k. k\<lparr>sc_eq := q, sc_now := max (sc_now k) (arrival sim i w)\<rparr>) w1))))))"
    by (rule packet_delivered [OF d w(3) mem lens end1, of A]) auto
  let ?p = "ev_packet ev" and ?j = "peer i w"
  define w2 where "w2 = upd_pkt ?p (\<lambda>_. s) (upd_iface ?j g
          (upd_sched sch (\<lambda>k. k\<lparr>sc_eq := q, sc_now := max (sc_now k) (arrival sim i w)\<rparr>) w1))"
  have own: "owned w1 ?p" "?p \<noteq> 0" "pk_head s \<noteq> 0"
    using st(6,7) mem_okD [OF mem] by (auto simp: fresh_packet_def owned_def)
  have "ip_at (ip_bytes (ip_send_header a b 17 (8 + n))) = ip_send_header a b 17 (8 + n)"
    using ip.at_bytes_exact by simp
  then have hdr: "ip_protocol (ip_at (ip_bytes (ip_send_header a b 17 (8 + n)))) = 17"
    "ns_ntohl (ip_src_ip (ip_at (ip_bytes (ip_send_header a b 17 (8 + n))))) = a"
    by (simp_all add: ip_send_header_fields)
  have rcv: "packet_ok (w_pkt w2 ?p)" "pk_head (w_pkt w2 ?p) \<noteq> 0" "20 \<le> pk_data (w_pkt w2 ?p)"
    "?j \<noteq> 0" "uc_state (w_udpctx w2 uctx) = us" "pk_before (w_pkt w2 ?p) 20 = ip_bytes (ip_send_header a b 17 (8 + n))"
    "pk_bytes (w_pkt w2 ?p) = udp_datagram sp dp n data" "bound (w_udp w2 us) dp = Some (h, hctx)"
    using st own net(2) same sock(3,5) by (simp_all add: w2_def ip_endpoint_def)
  obtain s2 where s2: "packet_ok s2" "pk_bytes s2 = take n data" "pk_head s2 = pk_head (w_pkt w2 ?p)"
    "udp_receive (app_udp_recv A) ?j ?p uctx w2 = (0, app_udp_recv A h a sp ?p hctx (upd_pkt ?p (\<lambda>_. s2) w2))"
    using udp_receive_bound [OF rcv(1-4) own(2) sock(2) rcv(5) sock(4) rcv(6) hdr(1) rcv(7) data(1) n rcv(8)] hdr(2)
    by metis
  have "owned (upd_pkt ?p (\<lambda>_. s2) w2) ?p" using own(1) s2(3) st(7) by (simp add: owned_def w2_def)
  moreover have "sc_now (w_sched (upd_pkt ?p (\<lambda>_. s2) w2) sch) = max (sc_now (w_sched w sch)) (arrival sim i w)"
    using same(5) by (simp add: w2_def)
  moreover have "scheduler_step A sch w1 = (1, event_free (Some ev) (app_udp_recv A h a sp ?p hctx (upd_pkt ?p (\<lambda>_. s2) w2)))"
    using st(8) s2(4) by (simp add: call_protocol_def w2_def)
  ultimately show "\<exists>ev w2 pkt. scheduler_step A sch w1 = (1, event_free (Some ev) (app_udp_recv A h a sp pkt hctx w2)) \<and>
            pk_bytes (w_pkt w2 pkt) = take n data \<and> packet_ok (w_pkt w2 pkt) \<and> owned w2 pkt \<and>
            sc_now (w_sched w2 sch) = max (sc_now (w_sched w sch)) (arrival sim i w)"
    using s2(1,2) by (intro exI [of _ ev] exI [of _ "upd_pkt ?p (\<lambda>_. s2) w2"] exI [of _ ?p]) simp
qed

text \<open>The network of two hosts, with port 53 of the second bound to function 4 of the application.\<close>

definition lan_bound :: UdpState where
  "lan_bound = \<lparr>ud_sockets = \<lparr>us_port = 53, us_valid = 1, us_recv_handler = 4, us_ctx = 77\<rparr> #
       replicate 31 \<lparr>us_port = 0, us_valid = 0, us_recv_handler = 0, us_ctx = 0\<rparr>,
     ud_count = 1\<rparr>"

definition lan_server :: world where
  "lan_server = (lan (packet_fresh 21 (\<lambda>_. 0) 8 1) (event_queue_new 4))\<lparr>w_udp := (\<lambda>_. lan_bound)\<rparr>"

lemma lan_neighbour: "neighbour 1 10 0x0A000001 0x0A000002 [2, 0, 0, 0, 0, 2] (lan pk q)"
proof -
  have "arp_inv (arp_added 0x0A000002 [2, 0, 0, 0, 0, 2] 0 arp_cache_zero)"
    by (intro arp_added_inv arp_zero_inv) simp
  moreover have "ip_find_source_iface 1 0x0A000001 (lan pk q) = 10"
    by (simp add: ip_find_source_iface_def topo_devices_def device_ports_def lan_def)
  moreover have "map_option ae_mac_addr (arp_find (arp_added 0x0A000002 [2, 0, 0, 0, 0, 2] 0 arp_cache_zero) 0x0A000002)
      = Some [2, 0, 0, 0, 0, 2]"
    using arp_added_find [OF arp_zero_inv(1), of "0x0A000002" "[2, 0, 0, 0, 0, 2]" 0]
    by (auto simp: arp_room_def arp_cache_zero_def)
  moreover have "w_arp (lan pk q) 6 = arp_added 0x0A000002 [2, 0, 0, 0, 0, 2] 0 arp_cache_zero" by (simp add: lan_def)
  ultimately show ?thesis
    by (simp add: neighbour_def interface_is_up_def ip_same_subnet_def ip_prefix_mask_def)
qed

lemma lan_endpoint: "peer 10 (lan pk q) = 11" "ip_endpoint 11 [2, 0, 0, 0, 0, 2] 9 (lan pk q)" "path_up 1 10 (lan pk q)"
  by (simp_all add: peer_def link_get_other_interface_def ip_endpoint_def lan_iface_def path_up_def
      interface_is_up_def)

theorem udp_end_to_end_witness:
  "\<exists>w1 ev w2 pkt. udp_send 1 0x0A000001 0x0A000002 5000 53 (Some [1, 2, 3]) 3 lan_server = (0, w1) \<and>
     scheduler_step quiet_app 3 w1 = (1, event_free (Some ev) w2) \<and> pk_bytes (w_pkt w2 pkt) = [1, 2, 3]"
proof -
  let ?l = "lan (packet_fresh 21 (\<lambda>_. 0) 8 1) (event_queue_new 4)"
  obtain r w1 where s: "udp_send 1 0x0A000001 0x0A000002 5000 53 (Some [1, 2, 3]) 3 lan_server = (r, w1)" by fastforce
  have same: "neighbour 1 10 0x0A000001 0x0A000002 [2, 0, 0, 0, 0, 2] lan_server" "peer 10 lan_server = 11"
    "ip_endpoint 11 [2, 0, 0, 0, 0, 2] 9 lan_server" "path_up 1 10 lan_server" "mem_ok lan_server"
    using lan_neighbour [of "packet_fresh 21 (\<lambda>_. 0) 8 1" "event_queue_new 4"]
      lan_endpoint [of "packet_fresh 21 (\<lambda>_. 0) 8 1" "event_queue_new 4"]
      lan_mem_ok [of "packet_fresh 21 (\<lambda>_. 0) 8 1" "event_queue_new 4"]
    by (simp_all add: lan_server_def neighbour_def ip_find_source_iface_def interface_is_up_def peer_def
        link_get_other_interface_def ip_endpoint_def path_up_def mem_ok_def)
  have sock: "bound (w_udp lan_server 13) 53 = Some (4, 77)"
    by (simp add: lan_server_def lan_bound_def lan_udp_def bound_def entry_of_def slot_of_def)
  have hyps: "eq_inv (sc_eq (w_sched lan_server 3))" "eq_list (sc_eq (w_sched lan_server 3)) = []"
    "3 = sm_sched (w_sim lan_server 1)" "ip_endpoint (peer 10 lan_server) [2, 0, 0, 0, 0, 2] 9 lan_server"
    "is_protocols (w_ips lan_server 9) 17 = (PH_udp_receive, 14)" "13 = uc_state (w_udpctx lan_server 14)"
    using lan_queue same(2,3) by (simp_all add: lan_server_def lan_stack_def)
  have len: "3 \<le> length [1, 2, 3 :: u8]" by simp
  note all = udp_end_to_end [OF same(5) hyps(1-3) same(1) hyps(4,5) _ hyps(6) _ sock len s, of quiet_app]
  have "\<forall>k. \<not> w_oom lan_server k" by (simp add: lan_server_def)
  then have "r = 0" using all same(4) by simp
  then obtain ev w2 pkt where "scheduler_step quiet_app 3 w1 = (1, event_free (Some ev) (app_udp_recv quiet_app 4 0x0A000001 5000 pkt 77 w2))"
    "pk_bytes (w_pkt w2 pkt) = take 3 [1, 2, 3]" using all by auto
  moreover have "app_udp_recv quiet_app n x y z c w = w" for n x y z c w by (simp add: quiet_app_def)
  ultimately show ?thesis using s \<open>r = 0\<close> by auto
qed

text \<open>
  C24 \<open>udp_receive\<close> on a packet with its IP header in front: a packet that is too short, of another
  protocol, or whose length field is below 8 or beyond the data is freed, once, counted as a receive
  error and answered with -1. A datagram for a bound port is handed to the socket's function without
  its header, with everything that follows the header, whatever the length field says. For an unbound
  port the answer is an ICMP port-unreachable message, the result is that of sending it (1 when it
  went out), and the packet stays allocated; without a simulator to send it, the packet is freed and
  counted as dropped.
\<close>

theorem udp_receive_correct:
  assumes w: "mem_ok w" "owned w pkt" "packet_ok (w_pkt w pkt)" "20 \<le> pk_data (w_pkt w pkt)"
    and nz: "iface \<noteq> NULL" "ctx \<noteq> NULL" "us = uc_state (w_udpctx w ctx)" "us \<noteq> NULL"
    and hd: "ip = ip_at (pk_before (w_pkt w pkt) 20)" "udp = udp_at (pk_bytes (w_pkt w pkt))"
    and rc: "udp_receive recv iface pkt ctx w = (r, w')"
  shows "if pk_len (w_pkt w pkt) < 8 \<or> ip_protocol ip \<noteq> 17 \<or> unat (ns_ntohs (udp_length udp)) < 8 \<or>
       pk_len (w_pkt w pkt) < unat (ns_ntohs (udp_length udp))
    then r = - 1 \<and> consumes pkt w w' \<and> w_iface w' = w_iface (rx_error iface w)
    else case bound (w_udp w us) (ns_ntohs (udp_dst_port udp)) of
      Some (h, c) \<Rightarrow> r = 0 \<and> (\<exists>s. packet_ok s \<and> pk_bytes s = drop 8 (pk_bytes (w_pkt w pkt)) \<and>
         w' = recv h (ns_ntohl (ip_src_ip ip)) (ns_ntohs (udp_src_port udp)) pkt c (upd_pkt pkt (\<lambda>_. s) w))
    | None \<Rightarrow>
        if uc_sim (w_udpctx w ctx) \<noteq> NULL
        then (r, w') = icmp_send_unreach_port (uc_sim (w_udpctx w ctx)) iface pkt w \<and> keeps w w'
        else r = - 1 \<and> consumes pkt w w' \<and> w_iface w' = w_iface (rx_drop iface w)"
proof -
  let ?k = "w_pkt w pkt"
  have p0: "pkt \<noteq> 0" "pk_head ?k \<noteq> 0" using mem_okD [OF w(1)] w(2) by (auto simp: owned_def)
  have free: "consumes pkt w (rx_error iface (packet_free pkt w))" "consumes pkt w (rx_drop iface (packet_free pkt w))"
    using consumes_free [OF w(1,2) keeps_refl [OF w(1)]]
    by (auto simp: consumes_def rx_error_def rx_drop_def mem_ok_def)
  have fits: "\<not> pk_end ?k \<le> pk_data ?k" "\<not> pk_end ?k - pk_data ?k < pk_len ?k" if "\<not> pk_len ?k < 8"
    using w(3) that by (auto simp: packet_ok_def pk_end_def)
  have at: "udp_at (pk_rest ?k) = udp" if "\<not> pk_len ?k < 8"
    unfolding hd(2) by (subst pk_rest_bytes) (rule udp.at_prefix, use that packet_okD(2) [OF w(3)] in simp)
  define s where "s = snd (packet_strip ?k 8)"
  have s: "packet_strip ?k 8 = (0, s)" if "\<not> pk_len ?k < 8"
    using that by (simp add: s_def packet_strip_def Let_def)
  have len8: "length (take 8 (pk_bytes ?k)) = 8" if "\<not> pk_len ?k < 8"
    using packet_okD(2) [OF w(3)] that by simp
  have strip: "packet_ok s" "pk_bytes s = drop 8 (pk_bytes ?k)" "pkt_strip pkt 8 w = (0, upd_pkt pkt (\<lambda>_. s) w)"
    if ok: "\<not> pk_len ?k < 8"
  proof -
    show "packet_ok s" by (rule packet_strip_ok [OF w(3) s [OF ok]])
    have "pk_bytes ?k = take 8 (pk_bytes ?k) @ pk_bytes s"
      using packet_strip_bytes [OF w(3), of 8] ok by (simp add: s_def)
    then show "pk_bytes s = drop 8 (pk_bytes ?k)" using len8 [OF ok] by (metis append_eq_conv_conj)
    show "pkt_strip pkt 8 w = (0, upd_pkt pkt (\<lambda>_. s) w)" using s [OF ok] by (simp add: pkt_strip_def)
  qed
  show ?thesis
  proof (cases "pk_len ?k < 8 \<or> ip_protocol ip \<noteq> 17 \<or> unat (ns_ntohs (udp_length udp)) < 8 \<or>
       pk_len ?k < unat (ns_ntohs (udp_length udp))")
    case True
    then have "udp_receive recv iface pkt ctx w = (- 1, rx_error iface (packet_free pkt w))"
      using nz p0 w(4) fits at hd(1)
      by (cases "pk_len ?k < 8") (auto simp: udp_receive_def Let_def null_buffer_def)
    then show ?thesis using rc True free(1) by (simp add: rx_error_def)
  next
    case False
    then have ok: "\<not> pk_len ?k < 8" by simp
    have eq: "(r, w') = (case first_index (\<lambda>k. us_valid k = 1 \<and> us_port k = ns_ntohs (udp_dst_port udp)) (ud_sockets (w_udp w us)) of
          Some j \<Rightarrow> (0, recv (us_recv_handler (ud_sockets (w_udp w us) ! j)) (ns_ntohl (ip_src_ip ip)) (ns_ntohs (udp_src_port udp))
              pkt (us_ctx (ud_sockets (w_udp w us) ! j)) (upd_pkt pkt (\<lambda>_. s\<lparr>pk_layer := 5\<rparr>) w))
        | None \<Rightarrow> if uc_sim (w_udpctx w ctx) \<noteq> 0 then icmp_send_unreach_port (uc_sim (w_udpctx w ctx)) iface pkt w
            else (- 1, rx_drop iface (packet_free pkt w)))"
      using rc False nz p0 w(4) fits [OF ok] at [OF ok] hd(1) strip(3) [OF ok]
      by (auto simp: udp_receive_def Let_def null_buffer_def upd_pkt_twice split: option.splits if_splits)
    show ?thesis
    proof (cases "bound (w_udp w us) (ns_ntohs (udp_dst_port udp))")
      case None
      then have "first_index (\<lambda>k. us_valid k = 1 \<and> us_port k = ns_ntohs (udp_dst_port udp)) (ud_sockets (w_udp w us)) = None"
        by (simp add: bound_def entry_of_def slot_of_def)
      then show ?thesis
        using False None eq free(2) icmp_send_error_keeps [OF w(1), of "uc_sim (w_udpctx w ctx)" iface pkt 3 3 0]
        by (auto simp: rx_drop_def icmp_send_unreach_port_def prod_eq_iff split: if_splits)
    next
      case (Some hc)
      then obtain h c where hc: "bound (w_udp w us) (ns_ntohs (udp_dst_port udp)) = Some (h, c)" by (cases hc) auto
      obtain j where "first_index (\<lambda>k. us_valid k = 1 \<and> us_port k = ns_ntohs (udp_dst_port udp)) (ud_sockets (w_udp w us)) = Some j"
        "us_recv_handler (ud_sockets (w_udp w us) ! j) = h" "us_ctx (ud_sockets (w_udp w us) ! j) = c"
        by (rule bound_first_index [OF hc])
      then show ?thesis
        using False hc eq strip(1,2) [OF ok] by (auto intro!: exI [of _ "s\<lparr>pk_layer := 5\<rparr>"])
    qed
  qed
qed

theorem udp_receive_correct_witness:
  "\<exists>w'. udp_receive (app_udp_recv quiet_app) 11 20 14 ((lan (stripped_packet (ip_send_header 0x0A000001 0x0A000002 17 11)
      (udp_datagram 5000 53 3 [1, 2, 3])) (event_queue_new 4))\<lparr>w_udp := (\<lambda>_. lan_bound)\<rparr>) = (0, w')"
proof -
  let ?hdr = "ip_send_header 0x0A000001 0x0A000002 17 11" and ?d = "udp_datagram 5000 53 3 [1, 2, 3]"
  let ?w = "(lan (stripped_packet ?hdr ?d) (event_queue_new 4))\<lparr>w_udp := (\<lambda>_. lan_bound)\<rparr>"
  obtain r w' where rc: "udp_receive (app_udp_recv quiet_app) 11 20 14 ?w = (r, w')" by fastforce
  have w: "mem_ok ?w" "owned ?w 20" "packet_ok (w_pkt ?w 20)" "20 \<le> pk_data (w_pkt ?w 20)" "pk_bytes (w_pkt ?w 20) = ?d"
    "pk_before (w_pkt ?w 20) 20 = ip_bytes ?hdr" "pk_len (w_pkt ?w 20) = 11"
    using stripped_packet [of ?hdr ?d] udp_datagram_length [of 3 "[1, 2, 3]" 5000 53]
    by (simp_all add: mem_ok_def owned_def)
  have nz: "11 \<noteq> (0 :: nat)" "14 \<noteq> (0 :: nat)" "13 = uc_state (w_udpctx ?w 14)" "13 \<noteq> (0 :: nat)" by simp_all
  have "ip_at (ip_bytes ?hdr) = ?hdr" by (rule ip.at_bytes_exact) simp
  then have ip: "ip_protocol (ip_at (ip_bytes ?hdr)) = 17" by (simp add: ip_send_header_fields)
  have udp: "udp_at ?d = \<lparr>udp_src_port = ns_htons 5000, udp_dst_port = ns_htons 53,
      udp_length = ns_htons (of_nat (8 + 3)), udp_hdr_checksum = 0\<rparr>"
    by (simp add: udp_datagram_def udp.at_bytes)
  have sock: "bound (w_udp ?w 13) 53 = Some (4, 77)"
    by (simp add: lan_bound_def bound_def entry_of_def slot_of_def)
  have "r = 0"
    using udp_receive_correct [OF w(1-4) nz refl refl rc, unfolded w(5,6) ip udp] sock w(7) by simp
  then show ?thesis using rc by blast
qed

end
