(* ===== verification/Tcp_Machine.thy ===== *)
theory Tcp_Machine
  imports Tcp_Table
begin

text \<open>
  The abstract specification of the TCP module: how one connection block may change
  (\<open>conn_step\<close>), how the table may change (\<open>table_step\<close>), and what therefore holds of every block
  of every table that is reached from \<open>tcp_init\<close>. That the handlers of \<open>protocols/tcp.c\<close> only take
  these steps is shown in the theory of their effects.
\<close>

section \<open>Steps of a connection\<close>

definition acked :: "Tcb \<Rightarrow> u32 \<Rightarrow> Tcb" where
  "acked b a = snd (sendq_acked b a)"

text \<open>The segment in flight; there is at most one.\<close>

definition in_flight :: "Tcb \<Rightarrow> TcpSegment option" where
  "in_flight b = (case filter seg_used (sq_entries (tc_sendq b)) of [] \<Rightarrow> None | s # _ \<Rightarrow> Some s)"

text \<open>
  The rules, in the order of the handlers. \<open>syn_ack\<close>, \<open>final_ack\<close>: the handshake. \<open>data_ack\<close>,
  \<open>received\<close>: acknowledgement and receipt of data. \<open>fin\<close>: the peer closes. \<open>fin_acked\<close>, \<open>fin_both\<close>,
  \<open>fin_closing\<close>, \<open>last_ack\<close>: the rest of the close. \<open>sent\<close>, \<open>closed\<close>: the calls of the application.
  \<open>resent\<close>, \<open>timed\<close>: retransmission.
\<close>

inductive conn_step :: "Tcb \<Rightarrow> Tcb \<Rightarrow> bool" where
  syn_ack: "tc_state b = TCP_SYN_SENT \<Longrightarrow> a = tc_snd_nxt b \<Longrightarrow>
    conn_step b ((acked (b\<lparr>tc_rcv_nxt := q, tc_snd_una := a\<rparr>) a)\<lparr>tc_state := TCP_ESTABLISHED\<rparr>)"
| final_ack: "tc_state b = TCP_SYN_RECEIVED \<Longrightarrow> a = tc_snd_nxt b \<Longrightarrow>
    conn_step b ((acked (b\<lparr>tc_snd_una := a\<rparr>) a)\<lparr>tc_state := TCP_ESTABLISHED\<rparr>)"
| data_ack: "tc_state b = TCP_ESTABLISHED \<Longrightarrow> tc_snd_una b < a \<Longrightarrow> a \<le> tc_snd_nxt b \<Longrightarrow>
    conn_step b ((acked b a)\<lparr>tc_snd_una := a\<rparr>)"
| received: "tc_state b = TCP_ESTABLISHED \<or> tc_state b = TCP_FIN_WAIT_2 \<Longrightarrow>
    conn_step b (b\<lparr>tc_rcv_nxt := tc_rcv_nxt b + n\<rparr>)"
| fin: "tc_state b = TCP_ESTABLISHED \<Longrightarrow>
    conn_step b (b\<lparr>tc_rcv_nxt := tc_rcv_nxt b + 1, tc_state := TCP_CLOSE_WAIT\<rparr>)"
| fin_acked: "tc_state b = TCP_FIN_WAIT_1 \<Longrightarrow> tc_snd_una b < a \<Longrightarrow> b1 = acked (b\<lparr>tc_snd_una := a\<rparr>) a \<Longrightarrow>
    conn_step b (if fin_still_unacked b1 then b1 else b1\<lparr>tc_state := TCP_FIN_WAIT_2\<rparr>)"
| fin_both: "tc_state b = TCP_FIN_WAIT_2 \<Longrightarrow>
    conn_step b (b\<lparr>tc_rcv_nxt := tc_rcv_nxt b + 1, tc_state := TCP_TIME_WAIT\<rparr>)"
| fin_closing: "tc_state b = TCP_CLOSING \<Longrightarrow> tc_snd_una b < a \<Longrightarrow> b1 = acked (b\<lparr>tc_snd_una := a\<rparr>) a \<Longrightarrow>
    conn_step b (if fin_still_unacked b1 then b1 else b1\<lparr>tc_state := TCP_TIME_WAIT\<rparr>)"
| last_ack: "tc_state b = TCP_LAST_ACK \<Longrightarrow> tc_snd_una b < a \<Longrightarrow> b1 = acked (b\<lparr>tc_snd_una := a\<rparr>) a \<Longrightarrow>
    fin_still_unacked b1 \<Longrightarrow> conn_step b b1"
| sent: "tc_state b = TCP_ESTABLISHED \<Longrightarrow> tcp_sendq_has_unacked b = 0 \<Longrightarrow>
    tcp_sendq_track b p (tc_snd_nxt b) (tc_snd_nxt b + n) (TCP_FLAG_ACK OR TCP_FLAG_PSH) now = (0, b1) \<Longrightarrow>
    conn_step b (b1\<lparr>tc_snd_nxt := tc_snd_nxt b1 + n\<rparr>)"
| closed: "tc_state b = TCP_ESTABLISHED \<and> s = TCP_FIN_WAIT_1 \<or> tc_state b = TCP_CLOSE_WAIT \<and> s = TCP_LAST_ACK \<Longrightarrow>
    tcp_sendq_has_unacked b = 0 \<Longrightarrow>
    tcp_sendq_track b p (tc_snd_nxt b) (tc_snd_nxt b + 1) (TCP_FLAG_FIN OR TCP_FLAG_ACK) now = (0, b1) \<Longrightarrow>
    conn_step b (b1\<lparr>tc_snd_nxt := tc_snd_nxt b1 + 1, tc_state := s\<rparr>)"
| resent: "(\<And>s. sg_pkt (f s) = sg_pkt s \<and> sg_seq_end (f s) = sg_seq_end s \<and> sg_flags (f s) = sg_flags s \<and>
       sg_acked (f s) = sg_acked s) \<Longrightarrow>
    conn_step b (b\<lparr>tc_sendq := (tc_sendq b)\<lparr>sq_entries := (sq_entries (tc_sendq b))
       [i := f (sq_entries (tc_sendq b) ! i)]\<rparr>\<rparr>)"
| timed: "conn_step b (b\<lparr>tc_retransmit_ts := ts\<rparr>)"

inductive_cases conn_stepE: "conn_step b c"

text \<open>A new connection: its SYN is in flight.\<close>

definition fresh_conn :: "u32 \<times> u16 \<times> u32 \<times> u16 \<Rightarrow> Tcb \<Rightarrow> bool" where
  "fresh_conn key b \<longleftrightarrow> tc_valid b = 1 \<and> conn_key b = key \<and> tc_state b \<in> {TCP_SYN_SENT, TCP_SYN_RECEIVED} \<and>
     tc_snd_una b = 0 \<and> tc_snd_nxt b = 1 \<and> sq_count (tc_sendq b) = 1 \<and>
     (\<exists>s. sq_entries (tc_sendq b) = [s] \<and> sg_pkt s \<noteq> NULL \<and> sg_seq_end s = 1 \<and> sg_acked s = 0 \<and>
        sg_flags s = (if tc_state b = TCP_SYN_SENT then TCP_FLAG_SYN else TCP_FLAG_SYN OR TCP_FLAG_ACK))"

inductive table_step :: "TcpTable \<Rightarrow> TcpTable \<Rightarrow> bool" where
  connection: "i < length (tt_tcbs t) \<Longrightarrow> tcb_used (tt_tcbs t ! i) \<Longrightarrow> conn_step (tt_tcbs t ! i) b \<Longrightarrow>
    table_step t (t\<lparr>tt_tcbs := (tt_tcbs t)[i := b]\<rparr>)"
| released: "i < length (tt_tcbs t) \<Longrightarrow> tcb_used (tt_tcbs t ! i) \<Longrightarrow>
    tc_state (tt_tcbs t ! i) \<in> {TCP_TIME_WAIT, TCP_LAST_ACK} \<Longrightarrow> table_step t (release_slot t i)"
| opened: "tcp_alloc_tcb (Some t) = (Some i, Some t1) \<Longrightarrow> tcp_find_exact (Some t) li lp ri rp = None \<Longrightarrow>
    fresh_conn (li, lp, ri, rp) b \<Longrightarrow> table_step t (t1\<lparr>tt_tcbs := (tt_tcbs t1)[i := b]\<rparr>)"
| open_failed: "tcp_alloc_tcb (Some t) = (Some i, Some t1) \<Longrightarrow> table_step t (release_slot t1 i)"
| listening: "tcp_listen (Some t) li lp rf cf ctx = (r, Some t1) \<Longrightarrow> table_step t t1"

abbreviation table_steps :: "TcpTable \<Rightarrow> TcpTable \<Rightarrow> bool" where
  "table_steps \<equiv> table_step\<^sup>*\<^sup>*"

section \<open>What holds of every block\<close>

text \<open>
  The state of a connection and its send queue agree: a SYN is in flight exactly in the two
  opening states, a FIN exactly in FIN_WAIT_1 and LAST_ACK, nothing after the FIN has been
  acknowledged; the segment in flight ends at the next sequence number. CLOSING does not occur.
\<close>

definition conn_ok :: "Tcb \<Rightarrow> bool" where
  "conn_ok b \<longleftrightarrow> tcb_used b \<longrightarrow>
     tc_state b \<notin> {TCP_CLOSED, TCP_CLOSING} \<and>
     (case in_flight b of
        None \<Rightarrow> tc_state b \<notin> {TCP_SYN_SENT, TCP_SYN_RECEIVED, TCP_FIN_WAIT_1, TCP_LAST_ACK}
      | Some s \<Rightarrow> sg_acked s = 0 \<and> sg_seq_end s = tc_snd_nxt b \<and>
          tc_state b \<notin> {TCP_LISTEN, TCP_FIN_WAIT_2, TCP_TIME_WAIT} \<and>
          (sg_flags s AND TCP_FLAG_SYN \<noteq> 0 \<longleftrightarrow> tc_state b \<in> {TCP_SYN_SENT, TCP_SYN_RECEIVED}) \<and>
          (sg_flags s AND TCP_FLAG_FIN \<noteq> 0 \<longleftrightarrow> tc_state b \<in> {TCP_FIN_WAIT_1, TCP_LAST_ACK}))"

definition table_ok :: "TcpTable \<Rightarrow> bool" where
  "table_ok t \<longleftrightarrow> tcp_inv t \<and> (\<forall>b \<in> set (tt_tcbs t). conn_ok b)"

lemma sendq_acked_1:
  assumes "sq_entries (tc_sendq b) = [s]"
  shows "sendq_acked b a = (if seg_used s \<and> sg_seq_end s \<le> a
    then ([sg_pkt s], b\<lparr>tc_sendq := \<lparr>sq_entries = [s\<lparr>sg_acked := 1, sg_pkt := NULL\<rparr>],
       sq_count = sq_count (tc_sendq b) - 1\<rparr>\<rparr>)
    else ([], b))"
  using assms by (cases "tc_sendq b") (auto simp: sendq_acked_def)

lemma acked_1:
  assumes "sq_entries (tc_sendq b) = [s]"
  shows "acked b a = (if seg_used s \<and> sg_seq_end s \<le> a
    then b\<lparr>tc_sendq := \<lparr>sq_entries = [s\<lparr>sg_acked := 1, sg_pkt := NULL\<rparr>],
       sq_count = sq_count (tc_sendq b) - 1\<rparr>\<rparr> else b)"
  using sendq_acked_1 [OF assms] by (auto simp: acked_def)

lemma acked_simps [simp]:
  "tc_state (acked b a) = tc_state b" "tc_snd_nxt (acked b a) = tc_snd_nxt b"
  "tc_snd_una (acked b a) = tc_snd_una b" "tc_rcv_nxt (acked b a) = tc_rcv_nxt b"
  "tc_valid (acked b a) = tc_valid b" "conn_key (acked b a) = conn_key b"
  "tc_recv_handler (acked b a) = tc_recv_handler b" "tc_connect_handler (acked b a) = tc_connect_handler b"
  "tc_handler_ctx (acked b a) = tc_handler_ctx b"
  "tc_local_ip (acked b a) = tc_local_ip b" "tc_remote_ip (acked b a) = tc_remote_ip b"
  "tc_local_port (acked b a) = tc_local_port b" "tc_remote_port (acked b a) = tc_remote_port b"
proof -
  obtain freed c where "sendq_acked b a = (freed, c)" by fastforce
  note f = sendq_acked_frame [OF this] and this
  then have "acked b a = b\<lparr>tc_sendq := tc_sendq c\<rparr>" by (simp add: acked_def)
  then show "tc_state (acked b a) = tc_state b" "tc_snd_nxt (acked b a) = tc_snd_nxt b"
    "tc_snd_una (acked b a) = tc_snd_una b" "tc_rcv_nxt (acked b a) = tc_rcv_nxt b"
    "tc_valid (acked b a) = tc_valid b" "conn_key (acked b a) = conn_key b"
    "tc_recv_handler (acked b a) = tc_recv_handler b" "tc_connect_handler (acked b a) = tc_connect_handler b"
    "tc_handler_ctx (acked b a) = tc_handler_ctx b"
    "tc_local_ip (acked b a) = tc_local_ip b" "tc_remote_ip (acked b a) = tc_remote_ip b"
    "tc_local_port (acked b a) = tc_local_port b" "tc_remote_port (acked b a) = tc_remote_port b"
    by (simp_all add: conn_key_def)
qed

text \<open>A block in terms of its one entry.\<close>

lemma in_flight_1: "sq_entries (tc_sendq b) = [s] \<Longrightarrow> in_flight b = (if seg_used s then Some s else None)"
  by (simp add: in_flight_def)

lemma fin_still_unacked_1: "sq_entries (tc_sendq b) = [s] \<Longrightarrow>
    fin_still_unacked b \<longleftrightarrow> seg_used s \<and> sg_flags s AND TCP_FLAG_FIN \<noteq> 0"
  by (simp add: fin_still_unacked_def)

lemma has_unacked_1: "sq_entries (tc_sendq b) = [s] \<Longrightarrow>
    tcp_sendq_has_unacked b = (if seg_used s \<and> sg_acked s = 0 then 1 else 0)"
  by (simp add: tcp_sendq_has_unacked_def)

lemma track_1:
  assumes "sq_entries (tc_sendq b) = [s]" "tcp_sendq_track b p a z fl now = (0, b1)"
  shows "p \<noteq> 0 \<and> \<not> seg_used s \<and> b1 = b\<lparr>tc_sendq := \<lparr>sq_entries = [\<lparr>sg_pkt = p, sg_seq_start = a, sg_seq_end = z,
     sg_flags = fl, sg_sent_ts = now, sg_retransmits = 0, sg_acked = 0\<rparr>], sq_count = sq_count (tc_sendq b) + 1\<rparr>\<rparr>"
  using assms by (cases "tc_sendq b") (auto simp: tcp_sendq_track_def Let_def split: if_splits)

lemma conn_step_ok:
  assumes step: "conn_step b c" and inv: "sendq_inv b" and ok: "conn_ok b" and used: "tcb_used b"
  shows "sendq_inv c \<and> conn_ok c \<and> tc_valid c = tc_valid b \<and> conn_key c = conn_key b \<and>
    (tc_state c = TCP_LISTEN \<longleftrightarrow> tc_state b = TCP_LISTEN) \<and> (tc_state b = TCP_LISTEN \<longrightarrow> listen_key c = listen_key b)"
  using inv
proof (cases rule: sendq_single)
  case (1 s)
  note single = 1
  have bits: "(0x18 :: u8) AND 2 = 0" "(0x18 :: u8) AND 1 = 0" "(0x11 :: u8) AND 2 = 0" "(0x11 :: u8) AND 1 \<noteq> 0"
    by simp_all
  show ?thesis
    using step
  proof (cases rule: conn_step.cases)
    case (resent f i)
    show ?thesis
      using resent single ok used
      by (cases i) (auto simp: conn_ok_def in_flight_def sendq_inv_def conn_key_def listen_key_def split: if_splits)
  next
    case (sent p n now b1)
    then show ?thesis
      using track_1 [OF single(1) sent(4)] single ok used bits
      by (auto simp: conn_ok_def in_flight_def sendq_inv_def conn_key_def listen_key_def)
  next
    case (closed st p now b1)
    then show ?thesis
      using track_1 [OF single(1) closed(4)] single ok used bits
      by (auto simp: conn_ok_def in_flight_def sendq_inv_def conn_key_def listen_key_def)
  qed (use single ok used in \<open>auto simp: conn_ok_def acked_1 in_flight_1 fin_still_unacked_1 sendq_inv_def conn_key_def
      listen_key_def split: if_splits\<close>)
qed

section \<open>What holds of every table\<close>

lemma table_okD:
  assumes "table_ok t" "i < length (tt_tcbs t)"
  shows "tcp_inv t" "length (tt_tcbs t) = 64" "sendq_inv (tt_tcbs t ! i)" "conn_ok (tt_tcbs t ! i)"
  using assms tcp_inv_nth [of t i] by (auto simp: table_ok_def tcp_inv_def)

lemma table_ok_write:
  assumes "table_ok t" "tcp_inv t'" "tt_tcbs t' = (tt_tcbs t)[i := c]" "conn_ok c"
  shows "table_ok t'"
  using assms by (auto simp: table_ok_def dest!: set_update_subset_insert [THEN subsetD])

lemma conn_ok_zero [simp]: "conn_ok tcb_zero"
  by (simp add: conn_ok_def)

lemma fresh_conn_ok:
  assumes "fresh_conn key b"
  shows "sendq_inv b" "conn_ok b" "tc_valid b = 1" "connected b" "\<not> listening b" "conn_key b = key"
  using assms by (auto simp: fresh_conn_def sendq_inv_def conn_ok_def in_flight_def connected_def listening_def)

lemma release_slot_tcbs [simp]: "tt_tcbs (release_slot t i) = (tt_tcbs t)[i := tcb_zero]"
  by (simp add: release_slot_def Let_def)

lemma release_slot_overwritten: "release_slot (t\<lparr>tt_tcbs := (tt_tcbs t)[i := b]\<rparr>) i = release_slot t i"
  by (simp add: release_slot_def)

lemma alloc_keeps:
  assumes ok: "table_ok t" and alloc: "tcp_alloc_tcb (Some t) = (Some i, Some t1)"
  shows "i < 64" "tc_valid (tt_tcbs t ! i) = 0" "tt_tcbs t1 = (tt_tcbs t)[i := tcb_zero\<lparr>tc_valid := 1\<rparr>]"
    "tt_count t1 = tt_count t + 1" "0 \<le> tt_count t"
proof -
  have inv: "tcp_inv t" using ok by (simp add: table_ok_def)
  show "i < 64" "tc_valid (tt_tcbs t ! i) = 0" "tt_tcbs t1 = (tt_tcbs t)[i := tcb_zero\<lparr>tc_valid := 1\<rparr>]"
    "tt_count t1 = tt_count t + 1"
    using alloc by (cases rule: tcp_alloc_cases [OF inv]; simp)+
  show "0 \<le> tt_count t" using inv by (simp add: tcp_inv_def)
qed

lemma table_step_ok:
  assumes "table_step t t'" "table_ok t"
  shows "table_ok t'"
  using assms
proof (cases rule: table_step.cases)
  case (connection i b)
  note d = table_okD [OF assms(2) connection(2)]
  note step = conn_step_ok [OF connection(4) d(3,4) connection(3)]
  have b: "tc_valid b = 0 \<or> tc_valid b = 1" "sendq_inv b" "conn_ok b" "tcb_used b"
    using step tcp_inv_nth(2) [OF d(1)] connection(2,3) d(2) by auto
  have conn: "connected b \<longleftrightarrow> connected (tt_tcbs t ! i)" "listening b \<longleftrightarrow> listening (tt_tcbs t ! i)"
    using step by (auto simp: connected_def listening_def)
  have "slot_of connected conn_key (conn_key b) (tt_tcbs t) = Some i" if "connected b"
    using that step conn d(1,2) connection(2) by (intro slot_of_unique) (auto simp: tcp_inv_def)
  moreover have "slot_of listening listen_key (listen_key b) (tt_tcbs t) = Some i" if "listening b"
    using that step conn d(1,2) connection(2) by (intro slot_of_unique) (auto simp: tcp_inv_def listening_def)
  ultimately have "tcp_inv t'"
    using b connection d(2) by (intro tcp_write [OF d(1), where i = i and c = b]) auto
  then show ?thesis using table_ok_write [OF assms(2)] connection(1) b(3) by simp
next
  case (released i)
  note d = table_okD [OF assms(2) released(2)]
  have "tcp_inv t'" unfolding released(1) by (rule release_slot_inv [OF d(1)]) (use released d in auto)
  then show ?thesis using table_ok_write [OF assms(2)] released(1) by simp
next
  case (opened i t1 li lp ri rp b)
  note a = alloc_keeps [OF assms(2) opened(2)] and f = fresh_conn_ok [OF opened(4)]
  have inv: "tcp_inv t" using assms(2) by (simp add: table_ok_def)
  have "slot_of connected conn_key (conn_key b) (tt_tcbs t) = None"
    using opened(3) by (simp add: f(6) find_exact_slot)
  then have "tcp_inv t'"
    using a f opened(1) by (intro tcp_write [OF inv a(1), of b]) auto
  then show ?thesis using table_ok_write [OF assms(2)] opened(1) f(2) a(3) by simp
next
  case (open_failed i t1)
  note a = alloc_keeps [OF assms(2) open_failed(2)]
  have inv: "tcp_inv t" using assms(2) by (simp add: table_ok_def)
  have "tcp_inv t'"
    using a open_failed(1) by (intro tcp_write [OF inv a(1), of tcb_zero]) (auto simp: release_slot_def)
  then show ?thesis using table_ok_write [OF assms(2)] open_failed(1) a(3) by simp
next
  case (listening li lp rf cf ctx r)
  have inv: "tcp_inv t" using assms(2) by (simp add: table_ok_def)
  show ?thesis
  proof (cases "lp = 0")
    case True
    then show ?thesis using listening assms(2) by (simp add: tcp_listen_def)
  next
    case False
    show ?thesis
    proof (rule tcp_listen_cases [OF inv False, of li rf cf ctx])
      fix i t1
      let ?c = "tcb_zero\<lparr>tc_valid := 1, tc_local_ip := li, tc_local_port := lp, tc_state := TCP_LISTEN,
         tc_rcv_wnd := 65535, tc_recv_handler := rf, tc_connect_handler := cf, tc_handler_ctx := ctx\<rparr>"
      assume l: "tcp_listen (Some t) li lp rf cf ctx = (Some i, Some t1)" "tcp_inv t1" "i < 64"
        "tt_tcbs t1 ! i = ?c" "\<And>j. j \<noteq> i \<Longrightarrow> tt_tcbs t1 ! j = tt_tcbs t ! j"
      have "conn_ok ?c" by (simp add: conn_ok_def in_flight_def tcb_zero_def seg_zero_def)
      moreover have "tt_tcbs t1 = (tt_tcbs t)[i := ?c]"
        using l inv by (intro nth_equalityI) (auto simp: tcp_inv_def nth_list_update)
      ultimately show ?thesis using table_ok_write [OF assms(2) l(2)] l(1) listening by simp
    qed (use listening assms(2) in auto)
  qed
qed

lemma table_steps_ok: "table_steps t t' \<Longrightarrow> table_ok t \<Longrightarrow> table_ok t'"
  by (induction rule: rtranclp_induct) (auto intro: table_step_ok)

lemma table_ok_init: "tcp_init (Some t) = Some t' \<Longrightarrow> table_ok t'"
  using tcp_init_inv(1) [of t t'] by (auto simp: table_ok_def tcp_init_def)

section \<open>A connection that cannot be closed\<close>

text \<open>
  In CLOSE_WAIT acknowledgements are not processed, and \<open>tcp_close\<close> refuses while a segment is in
  flight. A connection that enters CLOSE_WAIT with a segment in flight therefore stays there.
\<close>

definition stuck :: "Tcb \<Rightarrow> bool" where
  "stuck b \<longleftrightarrow> tcb_used b \<and> tc_state b = TCP_CLOSE_WAIT \<and> in_flight b \<noteq> None"

lemma stuck_conn_step:
  assumes "conn_step b c" "stuck b" "sendq_inv b" "conn_ok b"
  shows "stuck c"
  using assms(3)
proof (cases rule: sendq_single)
  case (1 s)
  then have s: "in_flight b = Some s" "seg_used s" "sg_acked s = 0" "tc_state b = TCP_CLOSE_WAIT" "tcb_used b"
    using assms(2,4) by (auto simp: stuck_def in_flight_1 conn_ok_def split: if_splits)
  show ?thesis
    using assms(1)
  proof (cases rule: conn_step.cases)
    case (resent f i)
    then show ?thesis using s 1 by (cases i) (auto simp: stuck_def in_flight_def)
  next
    case closed
    then show ?thesis using s 1 by (simp add: has_unacked_1)
  qed (use s 1 in \<open>auto simp: stuck_def in_flight_def\<close>)
qed

lemma stuck_table_step:
  assumes step: "table_step t t'" and ok: "table_ok t" and i: "i < 64" "stuck (tt_tcbs t ! i)"
  shows "stuck (tt_tcbs t' ! i)"
proof -
  have inv: "tcp_inv t" and len: "length (tt_tcbs t) = 64" using ok by (simp_all add: table_ok_def tcp_inv_def)
  have used: "tc_valid (tt_tcbs t ! i) \<noteq> 0" using i(2) by (simp add: stuck_def)
  show ?thesis
    using step
  proof (cases rule: table_step.cases)
    case (connection j b)
    then show ?thesis
      using stuck_conn_step [OF _ i(2), of b] i table_okD(3,4) [OF ok, of i] len by (cases "j = i") simp_all
  next
    case (released j)
    then have "j \<noteq> i" using i(2) by (auto simp: stuck_def)
    then show ?thesis using released(1) i(2) by simp
  next
    case (opened j t1 li lp ri rp b)
    note a = alloc_keeps [OF ok opened(2)]
    then have "j \<noteq> i" using used by auto
    then show ?thesis using opened(1) a(3) i(2) by simp
  next
    case (open_failed j t1)
    note a = alloc_keeps [OF ok open_failed(2)]
    then have "j \<noteq> i" using used by auto
    then show ?thesis using open_failed(1) a(3) i(2) by simp
  next
    case (listening li lp rf cf ctx r)
    show ?thesis
    proof (cases "lp = 0")
      case True
      then show ?thesis using listening i by (simp add: tcp_listen_def)
    next
      case False
      show ?thesis
      proof (rule tcp_listen_cases [OF inv False, of li rf cf ctx])
        fix j t1
        assume l: "tcp_listen (Some t) li lp rf cf ctx = (Some j, Some t1)"
          "\<And>k. k \<noteq> j \<Longrightarrow> tt_tcbs t1 ! k = tt_tcbs t ! k" "tc_valid (tt_tcbs t ! j) = 0"
        have "t' = t1" using l(1) listening by simp
        moreover have "i \<noteq> j" using l(3) used by auto
        ultimately show ?thesis using l(2) i(2) by simp
      next
        assume "tcp_listen (Some t) li lp rf cf ctx = (None, Some t)"
        then show ?thesis using listening i(2) by simp
      next
        assume "tcp_listen (Some t) li lp rf cf ctx = (None, Some t)"
        then show ?thesis using listening i(2) by simp
      qed
    qed
  qed
qed

lemma stuck_table_steps:
  assumes "table_steps t t'" "table_ok t" "i < 64" "stuck (tt_tcbs t ! i)"
  shows "stuck (tt_tcbs t' ! i)"
  using assms
proof (induction rule: rtranclp_induct)
  case (step y z)
  then show ?case using stuck_table_step [OF step.hyps(2) table_steps_ok [OF step.hyps(1)]] by blast
qed

end
