(* ===== verification/Tcp_Steps.thy ===== *)
theory Tcp_Steps
  imports Tcp_Machine Scenario
begin

text \<open>
  The TCP code implements the abstract machine: the network code below it leaves every connection
  table alone, and each handler and each call of the application (\<open>tcp_receive\<close>, \<open>tcp_connect\<close>,
  \<open>tcp_send\<close>, \<open>tcp_close\<close>, the timers) changes the tables only by the steps of the machine.
\<close>

section \<open>The code below TCP\<close>

definition same_tables :: "world \<Rightarrow> world \<Rightarrow> bool" where
  "same_tables w w' \<longleftrightarrow> w_tcp w' = w_tcp w \<and> w_sim w' = w_sim w \<and> w_tcpctx w' = w_tcpctx w \<and>
     w_link w' = w_link w \<and> (\<forall>s. sc_now (w_sched w' s) = sc_now (w_sched w s))"

interpretation quiet: net_relation same_tables
  by unfold_locales (auto simp: same_tables_def)

lemma same_tablesD:
  assumes "same_tables w w'"
  shows "w_tcp w' = w_tcp w" "w_sim w' = w_sim w" "w_tcpctx w' = w_tcpctx w"
    "scheduler_now s w' = scheduler_now s w"
  using assms by (auto simp: same_tables_def scheduler_now_def)

lemmas segment_tables [simp] = same_tablesD [OF quiet.step_send_segment [OF quiet.R_refl]]
lemmas ack_tables [simp] = same_tablesD [OF quiet.step_send_ack [OF quiet.R_refl]]
lemmas output_tables [simp] = same_tablesD [OF quiet.step_ip_output [OF quiet.R_refl]]
lemmas time_wait_tables [simp] = same_tablesD [OF quiet.step_schedule_time_wait [OF quiet.R_refl]]
lemmas free_packets_tables [simp] = same_tablesD [OF quiet.step_free_packets [OF quiet.R_refl]]
lemmas packet_free_tables [simp] = same_tablesD [OF quiet.step_packet_free [OF quiet.R_refl]]
lemmas clone_tables [simp] = same_tablesD [OF quiet.step_packet_clone [OF quiet.R_refl]]
lemmas strip_tables [simp] = same_tablesD [OF quiet.step_strip [OF quiet.R_refl]]
lemmas verdict_tables [simp] = quiet.step_verdicts [OF quiet.R_refl, THEN same_tablesD(1)]

section \<open>Writes to a block\<close>

definition at_slot :: "tcb_ref \<Rightarrow> (Tcb \<Rightarrow> Tcb) \<Rightarrow> (ptr \<Rightarrow> TcpTable) \<Rightarrow> ptr \<Rightarrow> TcpTable" where
  "at_slot c f T = T(fst c := (T (fst c))\<lparr>tt_tcbs := (tt_tcbs (T (fst c)))[snd c := f (tt_tcbs (T (fst c)) ! snd c)]\<rparr>)"

definition slot_ok :: "tcb_ref \<Rightarrow> (ptr \<Rightarrow> TcpTable) \<Rightarrow> bool" where
  "slot_ok c T \<longleftrightarrow> snd c < length (tt_tcbs (T (fst c)))"

lemma slot_ok_at [simp]: "slot_ok c (at_slot d f T) = slot_ok c T"
  by (simp add: slot_ok_def at_slot_def)

lemma at_slot_at [simp]: "at_slot c f (at_slot c g T) = at_slot c (f \<circ> g) T" if "slot_ok c T"
  using that by (simp add: slot_ok_def at_slot_def fun_eq_iff)

lemma tcp_upd_tcb [simp]: "w_tcp (upd_tcb c f w) = at_slot c f (w_tcp w)"
  by (simp add: upd_tcb_def at_slot_def)

lemma tcb_of_cong: "w_tcp w = T \<Longrightarrow> tcb_of w c = tt_tcbs (T (fst c)) ! snd c"
  by (simp add: tcb_of_def)

lemma tcb_of_upd [simp]: "tcb_of (upd_tcb c f w) c = f (tcb_of w c)" if "slot_ok c (w_tcp w)"
  using that by (simp add: tcb_of_def at_slot_def slot_ok_def)

lemma upd_tcb_tables [simp]: "w_sim (upd_tcb c f w) = w_sim w" "w_tcpctx (upd_tcb c f w) = w_tcpctx w"
  "w_sched (upd_tcb c f w) = w_sched w"
  by (simp_all add: upd_tcb_def)

lemma tcp_sendq_ack_tables [simp]:
  "w_tcp (tcp_sendq_ack (Some c) a w) = at_slot c (\<lambda>b. acked b a) (w_tcp w)"
  by (simp add: tcp_sendq_ack_def Let_def split_def acked_def at_slot_def tcb_of_def)

lemma tcb_of_acked [simp]: "tcb_of (tcp_sendq_ack (Some c) a w) c = acked (tcb_of w c) a" if "slot_ok c (w_tcp w)"
  using that by (simp add: tcb_of_def at_slot_def slot_ok_def)

lemma sendq_ack_tables [simp]: "w_sim (tcp_sendq_ack (Some c) a w) = w_sim w"
  "w_tcpctx (tcp_sendq_ack (Some c) a w) = w_tcpctx w"
  by (simp_all add: tcp_sendq_ack_def Let_def split_def)

lemma tcb_of_same [simp]: "tcb_of (snd (snd (tcp_send_segment sim a b sp dp sq ak fl pl n wc w))) c = tcb_of w c"
  "tcb_of (snd (tcp_send_ack sim d w)) c = tcb_of w c" "tcb_of (snd (pkt_strip p n w)) c = tcb_of w c"
  "tcb_of (schedule_time_wait ctx d w) c = tcb_of w c" "tcb_of (upd_pkt p g w) c = tcb_of w c"
  "tcb_of (packet_free p w) c = tcb_of w c" "tcb_of (snd (ip_output sim a b pr p w)) c = tcb_of w c"
  "tcb_of (snd (packet_clone p w)) c = tcb_of w c"
  by (simp_all add: tcb_of_def)

section \<open>Steps of the tables\<close>

definition tables_evolve :: "(ptr \<Rightarrow> TcpTable) \<Rightarrow> (ptr \<Rightarrow> TcpTable) \<Rightarrow> bool" where
  "tables_evolve T T' \<longleftrightarrow> (\<forall>p. table_steps (T p) (T' p))"

lemma evolve_refl [simp]: "tables_evolve T T"
  by (simp add: tables_evolve_def)

lemma evolve_trans: "tables_evolve T T1 \<Longrightarrow> tables_evolve T1 T2 \<Longrightarrow> tables_evolve T T2"
  unfolding tables_evolve_def by (meson rtranclp_trans)

lemma evolve_table: "table_steps (T p) t \<Longrightarrow> tables_evolve T (T(p := t))"
  by (simp add: tables_evolve_def)

lemma evolve_slot:
  assumes "slot_ok c T" "tcb_used (tt_tcbs (T (fst c)) ! snd c)"
    and "conn_step\<^sup>=\<^sup>= (tt_tcbs (T (fst c)) ! snd c) (f (tt_tcbs (T (fst c)) ! snd c))"
  shows "tables_evolve T (at_slot c f T)"
  unfolding at_slot_def
proof (rule evolve_table)
  let ?t = "T (fst c)" and ?b = "tt_tcbs (T (fst c)) ! snd c"
  show "table_steps ?t (?t\<lparr>tt_tcbs := (tt_tcbs ?t)[snd c := f ?b]\<rparr>)"
  proof (cases "f ?b = ?b")
    case True
    then show ?thesis using assms(1) by (simp add: slot_ok_def)
  next
    case False
    then show ?thesis
      using assms by (auto simp: slot_ok_def intro!: r_into_rtranclp table_step.connection)
  qed
qed

lemma evolve_step:
  assumes "slot_ok c (w_tcp w)" "tcb_used (tcb_of w c)" "conn_step\<^sup>=\<^sup>= (tcb_of w c) (f (tcb_of w c))"
  shows "tables_evolve (w_tcp w) (at_slot c f (w_tcp w))"
  using evolve_slot [of c "w_tcp w" f] assms by (simp add: tcb_of_def)

section \<open>The handlers of the states\<close>

lemma syn_sent_evolves:
  assumes conn: "\<And>n d x. tables_evolve (w_tcp x) (w_tcp (conn n c d x))"
    and c: "slot_ok c (w_tcp w)" "tcb_used (tcb_of w c)" "tc_state (tcb_of w c) = TCP_SYN_SENT"
  shows "tables_evolve (w_tcp w) (w_tcp (snd (tcp_on_syn_sent conn iface pkt ctx c sq ak fl w)))"
proof (cases "flag_set fl TCP_FLAG_SYN \<and> flag_set fl TCP_FLAG_ACK \<and> ak = tc_snd_nxt (tcb_of w c)")
  case True
  let ?f = "(\<lambda>b. b\<lparr>tc_state := TCP_ESTABLISHED\<rparr>) \<circ> ((\<lambda>b. acked b ak) \<circ> (\<lambda>b. b\<lparr>tc_rcv_nxt := sq + 1, tc_snd_una := ak\<rparr>))"
  have "tables_evolve (w_tcp w) (at_slot c ?f (w_tcp w))"
    by (rule evolve_step [OF c(1,2)])
      (use True c(3) conn_step.syn_ack [of "tcb_of w c" ak "sq + 1"] in simp)
  then show ?thesis
    using True c(1) unfolding tcp_on_syn_sent_def
    by (auto simp: Let_def split_def comp_assoc intro!: evolve_trans [OF _ conn])
qed (auto simp: tcp_on_syn_sent_def)

lemma syn_received_evolves:
  assumes conn: "\<And>n d x. tables_evolve (w_tcp x) (w_tcp (conn n c d x))"
    and c: "slot_ok c (w_tcp w)" "tcb_used (tcb_of w c)" "tc_state (tcb_of w c) = TCP_SYN_RECEIVED"
  shows "tables_evolve (w_tcp w) (w_tcp (snd (tcp_on_syn_received conn iface pkt c ak fl w)))"
proof (cases "flag_set fl TCP_FLAG_ACK \<and> ak = tc_snd_nxt (tcb_of w c)")
  case True
  let ?f = "(\<lambda>b. b\<lparr>tc_state := TCP_ESTABLISHED\<rparr>) \<circ> ((\<lambda>b. acked b ak) \<circ> (\<lambda>b. b\<lparr>tc_snd_una := ak\<rparr>))"
  have "tables_evolve (w_tcp w) (at_slot c ?f (w_tcp w))"
    by (rule evolve_step [OF c(1,2)])
      (use True c(3) conn_step.final_ack [of "tcb_of w c" ak] in simp)
  then show ?thesis
    using True c(1) unfolding tcp_on_syn_received_def
    by (auto simp: Let_def split_def comp_assoc intro!: evolve_trans [OF _ conn])
qed (auto simp: tcp_on_syn_received_def)

lemma established_ack_evolves:
  assumes c: "slot_ok c (w_tcp w)" "tcb_used (tcb_of w c)" "tc_state (tcb_of w c) = TCP_ESTABLISHED"
  shows "tables_evolve (w_tcp w) (w_tcp (established_ack c ak fl w))"
    "slot_ok c (w_tcp (established_ack c ak fl w))" "tcb_used (tcb_of (established_ack c ak fl w) c)"
    "tc_state (tcb_of (established_ack c ak fl w) c) = TCP_ESTABLISHED"
proof -
  let ?f = "(\<lambda>b. b\<lparr>tc_snd_una := ak\<rparr>) \<circ> (\<lambda>b. acked b ak)"
  have "tables_evolve (w_tcp w) (at_slot c ?f (w_tcp w))"
    if "ak > tc_snd_una (tcb_of w c)" "ak \<le> tc_snd_nxt (tcb_of w c)"
    by (rule evolve_step [OF c(1,2)]) (use that c(3) conn_step.data_ack [of "tcb_of w c" ak] in simp)
  then show "tables_evolve (w_tcp w) (w_tcp (established_ack c ak fl w))"
    using c(1) by (simp add: established_ack_def)
qed (use c in \<open>simp_all add: established_ack_def\<close>)

lemma received_evolves:
  assumes c: "slot_ok c (w_tcp w)" "tcb_used (tcb_of w c)"
    "tc_state (tcb_of w c) = TCP_ESTABLISHED \<or> tc_state (tcb_of w c) = TCP_FIN_WAIT_2"
  shows "tables_evolve (w_tcp w) (at_slot c (\<lambda>b. b\<lparr>tc_rcv_nxt := tc_rcv_nxt b + n\<rparr>) (w_tcp w))"
  by (rule evolve_step [OF c(1,2)]) (use c(3) conn_step.received in simp)

lemma established_data_evolves:
  assumes recv: "\<And>n p d x. tables_evolve (w_tcp x) (w_tcp (recv n c p d x))"
    and c: "slot_ok c (w_tcp w)" "tcb_used (tcb_of w c)" "tc_state (tcb_of w c) = TCP_ESTABLISHED"
  shows "tables_evolve (w_tcp w) (w_tcp (snd (established_data recv iface pkt sim c sq n w)))"
proof -
  have "tables_evolve (w_tcp w) (at_slot c (\<lambda>b. b\<lparr>tc_rcv_nxt := tc_rcv_nxt b + of_nat n\<rparr>) (w_tcp w))"
    by (rule received_evolves) (use c in auto)
  then show ?thesis
    by (auto simp: established_data_def Let_def split_def intro!: evolve_trans [OF _ recv])
qed

lemma at_slot_cong: "f (tt_tcbs (T (fst c)) ! snd c) = g (tt_tcbs (T (fst c)) ! snd c) \<Longrightarrow> at_slot c f T = at_slot c g T"
  by (simp add: at_slot_def)

lemma on_established_evolves:
  assumes recv: "\<And>n p d x. tables_evolve (w_tcp x) (w_tcp (recv n c p d x))"
    and c: "slot_ok c (w_tcp w)" "tcb_used (tcb_of w c)" "tc_state (tcb_of w c) = TCP_ESTABLISHED"
  shows "tables_evolve (w_tcp w) (w_tcp (snd (tcp_on_established recv iface pkt ctx c sq ak fl n w)))"
proof -
  define x where "x = established_ack c ak fl w"
  note e = established_ack_evolves [OF c, of ak fl, folded x_def]
  have "tables_evolve (w_tcp x) (w_tcp (snd (if n > 0
      then established_data recv iface pkt (xc_sim (w_tcpctx w ctx)) c sq n x
      else if flag_set fl TCP_FLAG_FIN \<and> sq = tc_rcv_nxt (tcb_of x c)
      then
        let x = upd_tcb c (\<lambda>b. b\<lparr>tc_rcv_nxt := sq + 1\<rparr>) x;
            (res, x) = tcp_send_ack (xc_sim (w_tcpctx w ctx)) c x
        in if res = - 1 then tcp_malformed iface pkt x
           else tcp_consume pkt (upd_tcb c (\<lambda>b. b\<lparr>tc_state := TCP_CLOSE_WAIT\<rparr>) x)
      else if \<not> flag_set fl TCP_FLAG_FIN then tcp_consume pkt x else tcp_drop iface pkt x)))"
    (is "tables_evolve _ (w_tcp (snd ?r))")
  proof (cases "n > 0")
    case True
    then show ?thesis using established_data_evolves [where recv = recv, OF recv e(2-4)] by simp
  next
    case False
    show ?thesis
    proof (cases "flag_set fl TCP_FLAG_FIN \<and> sq = tc_rcv_nxt (tcb_of x c)")
      case True
      have "tables_evolve (w_tcp x) (at_slot c (\<lambda>b. b\<lparr>tc_rcv_nxt := tc_rcv_nxt b + 1\<rparr>) (w_tcp x))"
        by (rule received_evolves) (use e in auto)
      moreover have "tables_evolve (w_tcp x)
          (at_slot c ((\<lambda>b. b\<lparr>tc_state := TCP_CLOSE_WAIT\<rparr>) \<circ> (\<lambda>b. b\<lparr>tc_rcv_nxt := tc_rcv_nxt b + 1\<rparr>)) (w_tcp x))"
        by (rule evolve_step [OF e(2,3)]) (use e(4) conn_step.fin [of "tcb_of x c"] in simp)
      moreover have "at_slot c (\<lambda>b. b\<lparr>tc_rcv_nxt := sq + 1\<rparr>) (w_tcp x) = at_slot c (\<lambda>b. b\<lparr>tc_rcv_nxt := tc_rcv_nxt b + 1\<rparr>) (w_tcp x)"
        "at_slot c ((\<lambda>b. b\<lparr>tc_state := TCP_CLOSE_WAIT\<rparr>) \<circ> (\<lambda>b. b\<lparr>tc_rcv_nxt := sq + 1\<rparr>)) (w_tcp x) =
         at_slot c ((\<lambda>b. b\<lparr>tc_state := TCP_CLOSE_WAIT\<rparr>) \<circ> (\<lambda>b. b\<lparr>tc_rcv_nxt := tc_rcv_nxt b + 1\<rparr>)) (w_tcp x)"
        by (rule at_slot_cong; use True in \<open>simp add: tcb_of_def\<close>)+
      ultimately show ?thesis using False True e(2) by (auto simp: Let_def split_def)
    qed (use False in auto)
  qed
  then show ?thesis
    using evolve_trans [OF e(1)] unfolding tcp_on_established_def x_def by (simp only: Let_def)
qed

section \<open>The states of the close\<close>

lemma fin_wait_1_evolves:
  assumes c: "slot_ok c (w_tcp w)" "tcb_used (tcb_of w c)" "tc_state (tcb_of w c) = TCP_FIN_WAIT_1"
  shows "tables_evolve (w_tcp w) (w_tcp (snd (tcp_on_fin_wait_1 iface pkt c ak fl w)))"
proof (cases "flag_set fl TCP_FLAG_ACK \<and> ak > tc_snd_una (tcb_of w c)")
  case True
  let ?b = "acked ((tcb_of w c)\<lparr>tc_snd_una := ak\<rparr>) ak"
  let ?g = "(\<lambda>b. acked b ak) \<circ> (\<lambda>b. b\<lparr>tc_snd_una := ak\<rparr>)"
  let ?f = "if fin_still_unacked ?b then ?g else (\<lambda>b. b\<lparr>tc_state := TCP_FIN_WAIT_2\<rparr>) \<circ> ?g"
  have "tables_evolve (w_tcp w) (at_slot c ?f (w_tcp w))"
    by (rule evolve_step [OF c(1,2)])
      (use True c(3) conn_step.fin_acked [of "tcb_of w c" ak, OF _ _ refl] in auto)
  then show ?thesis
    using True c(1) unfolding tcp_on_fin_wait_1_def
    by (auto simp: Let_def split_def comp_assoc split: if_splits)
qed (auto simp: tcp_on_fin_wait_1_def)

lemma fin_wait_2_evolves:
  assumes c: "slot_ok c (w_tcp w)" "tcb_used (tcb_of w c)" "tc_state (tcb_of w c) = TCP_FIN_WAIT_2"
  shows "tables_evolve (w_tcp w) (w_tcp (snd (tcp_on_fin_wait_2 iface pkt ctx c sq fl w)))"
proof (cases "flag_set fl TCP_FLAG_FIN \<and> sq = tc_rcv_nxt (tcb_of w c)")
  case True
  have "tables_evolve (w_tcp w) (at_slot c (\<lambda>b. b\<lparr>tc_rcv_nxt := tc_rcv_nxt b + 1\<rparr>) (w_tcp w))"
    by (rule received_evolves) (use c in auto)
  moreover have "tables_evolve (w_tcp w)
      (at_slot c ((\<lambda>b. b\<lparr>tc_state := TCP_TIME_WAIT\<rparr>) \<circ> (\<lambda>b. b\<lparr>tc_rcv_nxt := tc_rcv_nxt b + 1\<rparr>)) (w_tcp w))"
    by (rule evolve_step [OF c(1,2)]) (use c(3) conn_step.fin_both [of "tcb_of w c"] in simp)
  moreover have "at_slot c (\<lambda>b. b\<lparr>tc_rcv_nxt := sq + 1\<rparr>) (w_tcp w) = at_slot c (\<lambda>b. b\<lparr>tc_rcv_nxt := tc_rcv_nxt b + 1\<rparr>) (w_tcp w)"
    "at_slot c ((\<lambda>b. b\<lparr>tc_state := TCP_TIME_WAIT\<rparr>) \<circ> (\<lambda>b. b\<lparr>tc_rcv_nxt := sq + 1\<rparr>)) (w_tcp w) =
     at_slot c ((\<lambda>b. b\<lparr>tc_state := TCP_TIME_WAIT\<rparr>) \<circ> (\<lambda>b. b\<lparr>tc_rcv_nxt := tc_rcv_nxt b + 1\<rparr>)) (w_tcp w)"
    by (rule at_slot_cong; use True in \<open>simp add: tcb_of_def\<close>)+
  ultimately show ?thesis
    using True c(1) unfolding tcp_on_fin_wait_2_def by (auto simp: Let_def split_def)
qed (auto simp: tcp_on_fin_wait_2_def)

lemma closing_evolves:
  assumes c: "slot_ok c (w_tcp w)" "tcb_used (tcb_of w c)" "tc_state (tcb_of w c) = TCP_CLOSING"
  shows "tables_evolve (w_tcp w) (w_tcp (snd (tcp_on_closing iface pkt ctx c ak w)))"
proof (cases "ak > tc_snd_una (tcb_of w c)")
  case True
  let ?b = "acked ((tcb_of w c)\<lparr>tc_snd_una := ak\<rparr>) ak"
  let ?g = "(\<lambda>b. acked b ak) \<circ> (\<lambda>b. b\<lparr>tc_snd_una := ak\<rparr>)"
  let ?f = "if fin_still_unacked ?b then ?g else (\<lambda>b. b\<lparr>tc_state := TCP_TIME_WAIT\<rparr>) \<circ> ?g"
  have "tables_evolve (w_tcp w) (at_slot c ?f (w_tcp w))"
    by (rule evolve_step [OF c(1,2)])
      (use True c(3) conn_step.fin_closing [of "tcb_of w c" ak, OF _ _ refl] in auto)
  then show ?thesis
    using True c(1) unfolding tcp_on_closing_def
    by (auto simp: Let_def split_def comp_assoc split: if_splits)
qed (auto simp: tcp_on_closing_def)

text \<open>Releasing a block overwrites whatever was written to it before.\<close>

lemma release_tables:
  assumes "slot_ok (t, i) (w_tcp w)" "t \<noteq> 0"
  shows "w_tcp (tcp_release_tcb t (Some (t, i)) w) = (w_tcp w)(t := release_slot (w_tcp w t) i)"
  using assms by (simp add: tcp_release_tcb_def at_slot_def release_slot_def Let_def slot_ok_def fun_eq_iff)

lemma release_written: "(at_slot (t, i) f T)(t := release_slot (at_slot (t, i) f T t) i) = T(t := release_slot (T t) i)"
  by (simp add: at_slot_def release_slot_overwritten fun_eq_iff)

lemma last_ack_evolves:
  assumes c: "slot_ok c (w_tcp w)" "tcb_used (tcb_of w c)" "tc_state (tcb_of w c) = TCP_LAST_ACK"
    and t: "xc_table (w_tcpctx w ctx) = fst c" "fst c \<noteq> 0"
  shows "tables_evolve (w_tcp w) (w_tcp (snd (tcp_on_last_ack iface pkt ctx c ak fl w)))"
proof (cases "flag_set fl TCP_FLAG_ACK \<and> ak > tc_snd_una (tcb_of w c)")
  case True
  let ?b = "acked ((tcb_of w c)\<lparr>tc_snd_una := ak\<rparr>) ak"
  let ?g = "(\<lambda>b. acked b ak) \<circ> (\<lambda>b. b\<lparr>tc_snd_una := ak\<rparr>)"
  have stay: "tables_evolve (w_tcp w) (at_slot c ?g (w_tcp w))" if "fin_still_unacked ?b"
    by (rule evolve_step [OF c(1,2)])
      (use True that c(3) conn_step.last_ack [of "tcb_of w c" ak, OF _ _ refl] in auto)
  have rel: "tables_evolve (w_tcp w) ((w_tcp w)(fst c := release_slot (w_tcp w (fst c)) (snd c)))"
    by (rule evolve_table) (use c in \<open>auto simp: slot_ok_def tcb_of_def intro!: r_into_rtranclp table_step.released\<close>)
  show ?thesis
    using True c(1) stay rel release_tables [of "fst c" "snd c"] t unfolding tcp_on_last_ack_def
    by (auto simp: Let_def split_def release_written [of "fst c" "snd c", unfolded prod.collapse])
qed (auto simp: tcp_on_last_ack_def)

lemma dispatch_evolves:
  assumes recv: "\<And>n p d x. tables_evolve (w_tcp x) (w_tcp (recv n c p d x))"
    and conn: "\<And>n d x. tables_evolve (w_tcp x) (w_tcp (conn n c d x))"
    and c: "slot_ok c (w_tcp w)" "tcb_used (tcb_of w c)"
    and t: "xc_table (w_tcpctx w ctx) = fst c" "fst c \<noteq> 0"
  shows "tables_evolve (w_tcp w) (w_tcp (snd (tcp_dispatch recv conn iface pkt ctx c sq ak fl n w)))"
  unfolding tcp_dispatch_def
  by (cases "tc_state (tcb_of w c)")
    (simp_all add: syn_sent_evolves [where conn = conn, OF conn c] syn_received_evolves [where conn = conn, OF conn c]
      on_established_evolves [where recv = recv, OF recv c] fin_wait_1_evolves [OF c] fin_wait_2_evolves [OF c]
      closing_evolves [OF c] last_ack_evolves [OF c _ t])

section \<open>Opening and receiving\<close>

lemma clone_wanted:
  assumes "tcp_send_segment sim a b sp dp sq ak fl pl n True w = (res, clone, w')" "res \<noteq> - 1"
  shows "clone \<noteq> 0"
  using assms by (auto simp: tcp_send_segment_def Let_def split: prod.splits if_splits)

lemma alloc_at:
  assumes "tcp_alloc_tcb (Some (w_tcp w t)) = (Some i, t1)"
  obtains t2 where "t1 = Some t2" "tt_tcbs t2 = (tt_tcbs (w_tcp w t))[i := tcb_zero\<lparr>tc_valid := 1\<rparr>]"
    "i < length (tt_tcbs (w_tcp w t))"
  using assms by (auto simp: tcp_alloc_tcb_def Let_def split: option.splits dest: first_index_SomeD(1))

text \<open>
  A block is allocated, filled in, and then either has its SYN in flight or is released.
\<close>

lemma opened_evolves:
  assumes alloc: "tcp_alloc_tcb (Some (w_tcp w t)) = (Some i, Some t1)"
    and free: "tcp_find_exact (Some (w_tcp w t)) li lp ri rp = None"
    and T: "T = (w_tcp w)(t := t1)"
    and f: "fresh_conn (li, lp, ri, rp) (f (tcb_zero\<lparr>tc_valid := 1\<rparr>))"
  shows "tables_evolve (w_tcp w) (at_slot (t, i) f T)"
proof -
  have "tt_tcbs t1 ! i = tcb_zero\<lparr>tc_valid := 1\<rparr>"
    using alloc_at [OF alloc] by (metis nth_list_update_eq option.inject)
  then show ?thesis
    unfolding T at_slot_def
    using evolve_table [of "w_tcp w" t, OF r_into_rtranclp [of table_step, OF table_step.opened [OF alloc free f]]] by simp
qed

lemma open_failed_evolves:
  assumes alloc: "tcp_alloc_tcb (Some (w_tcp w t)) = (Some i, Some t1)"
  shows "tables_evolve (w_tcp w) ((w_tcp w)(t := release_slot t1 i))"
  by (rule evolve_table) (rule r_into_rtranclp [of table_step, OF table_step.open_failed [OF alloc]])

text \<open>The blocks that \<open>tcp_connect\<close> and a listener fill in, once the SYN is in flight.\<close>

lemma fresh_conn_track:
  assumes b: "tc_sendq b = tc_sendq tcb_zero" "tc_valid b = 1" "tc_snd_una b = 0" "tc_snd_nxt b = 1"
    and p: "p \<noteq> 0" and st: "tc_state b = TCP_SYN_SENT \<and> fl = TCP_FLAG_SYN \<or>
      tc_state b = TCP_SYN_RECEIVED \<and> fl = TCP_FLAG_SYN OR TCP_FLAG_ACK"
  shows "fst (tcp_sendq_track b p 0 1 fl now) = 0"
    "fresh_conn (conn_key b) (snd (tcp_sendq_track b p 0 1 fl now))"
proof -
  have "tcp_sendq_track b p 0 1 fl now = (0, b\<lparr>tc_sendq := \<lparr>sq_entries = [\<lparr>sg_pkt = p, sg_seq_start = 0,
      sg_seq_end = 1, sg_flags = fl, sg_sent_ts = now, sg_retransmits = 0, sg_acked = 0\<rparr>], sq_count = 1\<rparr>\<rparr>)"
    using b(1) p by (simp add: tcp_sendq_track_def tcb_zero_def seg_zero_def)
  then show "fst (tcp_sendq_track b p 0 1 fl now) = 0"
    "fresh_conn (conn_key b) (snd (tcp_sendq_track b p 0 1 fl now))"
    using b p st by (auto simp: fresh_conn_def conn_key_def)
qed

lemma schedule_retransmit_tables:
  "w_tcp (tcp_schedule_retransmit sim ctx (Some c) w) = w_tcp w \<or>
   (\<exists>ts. w_tcp (tcp_schedule_retransmit sim ctx (Some c) w) = at_slot c (\<lambda>b. b\<lparr>tc_retransmit_ts := ts\<rparr>) (w_tcp w))"
proof -
  have "w_tcp (snd (event_create_callback ty ts s d p v h k w)) = w_tcp w" for ty ts s d p v h k
    using quiet.step_event [OF quiet.R_refl] by (rule same_tablesD)
  then show ?thesis
    by (cases "ctx = 0") (auto simp: tcp_schedule_retransmit_def Let_def split_def event_create_def)
qed

lemma schedule_retransmit_evolves:
  assumes "slot_ok c (w_tcp w)" "tcb_used (tcb_of w c)"
  shows "tables_evolve (w_tcp w) (w_tcp (tcp_schedule_retransmit sim ctx (Some c) w))"
  using schedule_retransmit_tables [of sim ctx c w] evolve_step [OF assms] conn_step.timed by auto

lemma at_slot_const: "at_slot c (\<lambda>_. b) (at_slot c f T) = at_slot c (\<lambda>_. b) T"
  by (simp add: at_slot_def fun_eq_iff)

lemma on_listen_evolves:
  assumes t: "xc_table (w_tcpctx w ctx) = t" "t \<noteq> 0"
    and free: "tcp_find_exact (Some (w_tcp w t)) dip dp sip sp = None"
  shows "tables_evolve (w_tcp w) (w_tcp (snd (tcp_on_listen iface pkt ctx l dip dp sip sp sq w)))"
proof (cases "tcp_alloc_tcb (Some (w_tcp w t))")
  case (Pair r t1)
  show ?thesis
  proof (cases r)
    case None
    then have "t1 = Some (w_tcp w t)" using Pair by (auto simp: tcp_alloc_tcb_def Let_def split: option.splits)
    then show ?thesis using Pair None t by (simp add: tcp_on_listen_def Let_def store_def)
  next
    case (Some i)
    obtain t2 where t2: "t1 = Some t2" "tt_tcbs t2 = (tt_tcbs (w_tcp w t))[i := tcb_zero\<lparr>tc_valid := 1\<rparr>]"
        "i < length (tt_tcbs (w_tcp w t))"
      using alloc_at Pair Some by metis
    have alloc: "tcp_alloc_tcb (Some (w_tcp w t)) = (Some i, Some t2)" using Pair Some t2 by simp
    define lb where "lb = tcb_of (set_tcp t (Some t2) w) (t, l)"
    define f where "f = (\<lambda>b :: Tcb. b\<lparr>tc_local_ip := dip, tc_local_port := dp, tc_remote_ip := sip,
       tc_remote_port := sp, tc_state := TCP_SYN_RECEIVED, tc_snd_una := 0, tc_snd_nxt := 1,
       tc_rcv_nxt := sq + 1, tc_snd_wnd := TCP_DEFAULT_WINDOW, tc_rcv_wnd := TCP_DEFAULT_WINDOW,
       tc_recv_handler := tc_recv_handler lb, tc_connect_handler := tc_connect_handler lb,
       tc_handler_ctx := tc_handler_ctx lb\<rparr>)"
    define x where "x = upd_tcb (t, i) f (set_tcp t (Some t2) w)"
    define b where "b = f (tcb_zero\<lparr>tc_valid := 1\<rparr>)"
    define sim where "sim = xc_sim (w_tcpctx w ctx)"
    define sched where "sched = sm_sched (w_sim w sim)"
    define now where "now = (if sched \<noteq> 0 then scheduler_now sched x else 0)"
    obtain res p y where seg: "tcp_send_segment sim (tc_local_ip b) (tc_remote_ip b) (tc_local_port b)
        (tc_remote_port b) 0 (tc_rcv_nxt b) (TCP_FLAG_SYN OR TCP_FLAG_ACK) None 0 True x = (res, p, y)"
      by (metis prod_cases3)
    have ok: "slot_ok (t, i) (w_tcp (set_tcp t (Some t2) w))" "tcb_of (set_tcp t (Some t2) w) (t, i) = tcb_zero\<lparr>tc_valid := 1\<rparr>"
      using t2 by (simp_all add: slot_ok_def tcb_of_def store_def)
    have xb: "tcb_of x (t, i) = b" "slot_ok (t, i) (w_tcp x)" "w_tcp x = at_slot (t, i) f ((w_tcp w)(t := t2))"
      using ok by (simp_all add: x_def b_def store_def)
    have y: "w_tcp y = w_tcp x" "tcb_of y (t, i) = b"
      using segment_tables(1) [of sim _ _ _ _ _ _ _ _ _ _ x] seg xb(1) tcb_of_same(1) by (metis snd_conv)+
    have ctx: "w_tcpctx x = w_tcpctx w" "w_sim x = w_sim w" by (simp_all add: x_def)
    have run: "tcp_on_listen iface pkt ctx l dip dp sip sp sq w = (if res = - 1
        then tcp_malformed iface pkt (tcp_release_tcb t (Some (t, i)) y)
        else let (tracked, b1) = tcp_sendq_track b p 0 1 (TCP_FLAG_SYN OR TCP_FLAG_ACK) now;
                 y = upd_tcb (t, i) (\<lambda>_. b1) y
             in if tracked = - 1
                then tcp_malformed iface pkt (tcp_release_tcb t (Some (t, i)) (packet_free p y))
                else tcp_consume pkt y)"
      unfolding tcp_on_listen_def Let_def t(1) alloc option.case prod.case lb_def [symmetric] f_def [symmetric]
        x_def [symmetric] xb(1) ctx sim_def [symmetric] sched_def [symmetric] now_def [symmetric] seg y(2)
      by (rule refl)
    show ?thesis
    proof (cases "res = - 1")
      case True
      have "w_tcp (tcp_release_tcb t (Some (t, i)) y) = (w_tcp w)(t := release_slot t2 i)"
        using release_tables [of t i y] t(2) y(1) xb(2,3) release_written [of t i f "(w_tcp w)(t := t2)"] by simp
      then show ?thesis using run True open_failed_evolves [OF alloc] by simp
    next
      case False
      have p: "p \<noteq> 0" by (rule clone_wanted [OF seg False])
      have key: "conn_key b = (dip, dp, sip, sp)" by (simp add: b_def f_def conn_key_def)
      have track: "fst (tcp_sendq_track b p 0 1 (TCP_FLAG_SYN OR TCP_FLAG_ACK) now) = 0"
        "fresh_conn (conn_key b) (snd (tcp_sendq_track b p 0 1 (TCP_FLAG_SYN OR TCP_FLAG_ACK) now))"
        by (rule fresh_conn_track; simp add: b_def f_def p)+
      then have "tables_evolve (w_tcp w) (at_slot (t, i) (\<lambda>_. snd (tcp_sendq_track b p 0 1 (TCP_FLAG_SYN OR TCP_FLAG_ACK) now))
          ((w_tcp w)(t := t2)))"
        using opened_evolves [OF alloc free refl, of "\<lambda>_. snd (tcp_sendq_track b p 0 1 (TCP_FLAG_SYN OR TCP_FLAG_ACK) now)"] key
        by simp
      then show ?thesis
        using run False track(1) y(1) xb(3) by (simp add: Let_def split_def at_slot_const)
    qed
  qed
qed

lemma find_exact_ok:
  assumes "tcp_find_exact (Some (w_tcp w t)) li lp ri rp = Some i"
  shows "slot_ok (t, i) (w_tcp w)" "tcb_used (tcb_of w (t, i))" "tc_state (tcb_of w (t, i)) \<noteq> TCP_LISTEN"
    "conn_key (tcb_of w (t, i)) = (li, lp, ri, rp)"
  using assms by (auto simp: tcp_find_exact_def slot_ok_def tcb_of_def conn_key_def dest: first_index_SomeD)

lemma tcp_receive_evolves:
  assumes recv: "\<And>n c p d x. tables_evolve (w_tcp x) (w_tcp (recv n c p d x))"
    and conn: "\<And>n c d x. tables_evolve (w_tcp x) (w_tcp (conn n c d x))"
  shows "tables_evolve (w_tcp w) (w_tcp (snd (tcp_receive recv conn iface pkt ctx w)))"
  unfolding tcp_receive_def
  by (auto simp: Let_def rx_error_def split: option.split intro!: dispatch_evolves recv conn on_listen_evolves
      dest: find_exact_ok)

section \<open>The calls of the application\<close>

lemma set_tcp_none [simp]: "w_tcp (set_tcp t (Some (w_tcp w t)) w) = w_tcp w"
  by (simp add: store_def)

lemma connect_evolves:
  "tables_evolve (w_tcp w) (w_tcp (snd (tcp_connect sim t li ri lp rp rf cf ctx w)))"
proof (cases "sim = 0 \<or> t = 0 \<or> li = 0 \<or> ri = 0 \<or> lp = 0 \<or> rp = 0 \<or>
    tcp_find_exact (Some (w_tcp w t)) li lp ri rp \<noteq> None")
  case True
  then show ?thesis by (auto simp: tcp_connect_def)
next
  case False
  then have go: "sim \<noteq> 0" "t \<noteq> 0" "li \<noteq> 0" "ri \<noteq> 0" "lp \<noteq> 0" "rp \<noteq> 0"
    and free: "tcp_find_exact (Some (w_tcp w t)) li lp ri rp = None" by auto
  show ?thesis
  proof (cases "tcp_alloc_tcb (Some (w_tcp w t))")
    case (Pair r t1)
    show ?thesis
    proof (cases r)
      case None
      then have "t1 = Some (w_tcp w t)" using Pair by (auto simp: tcp_alloc_tcb_def Let_def split: option.splits)
      then show ?thesis using Pair None go free by (simp add: tcp_connect_def)
    next
      case (Some i)
      obtain t2 where t2: "t1 = Some t2" "tt_tcbs t2 = (tt_tcbs (w_tcp w t))[i := tcb_zero\<lparr>tc_valid := 1\<rparr>]"
          "i < length (tt_tcbs (w_tcp w t))"
        using alloc_at Pair Some by metis
      have alloc: "tcp_alloc_tcb (Some (w_tcp w t)) = (Some i, Some t2)" using Pair Some t2 by simp
      define f where "f = (\<lambda>b :: Tcb. b\<lparr>tc_local_ip := li, tc_local_port := lp,
         tc_remote_ip := ri, tc_remote_port := rp,
         tc_state := TCP_SYN_SENT, tc_snd_una := 0, tc_snd_nxt := 1, tc_rcv_nxt := 0,
         tc_snd_wnd := TCP_DEFAULT_WINDOW, tc_rcv_wnd := TCP_DEFAULT_WINDOW,
         tc_recv_handler := rf, tc_connect_handler := cf, tc_handler_ctx := ctx\<rparr>)"
      define x where "x = upd_tcb (t, i) f (set_tcp t (Some t2) w)"
      define b where "b = f (tcb_zero\<lparr>tc_valid := 1\<rparr>)"
      obtain res p y where seg: "tcp_send_segment sim li ri lp rp 0 0 TCP_FLAG_SYN None 0 True x = (res, p, y)"
        by (metis prod_cases3)
      define sched where "sched = sm_sched (w_sim y sim)"
      define now where "now = (if sched \<noteq> 0 then scheduler_now sched y else 0)"
      have ok: "slot_ok (t, i) (w_tcp (set_tcp t (Some t2) w))" "tcb_of (set_tcp t (Some t2) w) (t, i) = tcb_zero\<lparr>tc_valid := 1\<rparr>"
        using t2 by (simp_all add: slot_ok_def tcb_of_def store_def)
      have xb: "tcb_of x (t, i) = b" "slot_ok (t, i) (w_tcp x)" "w_tcp x = at_slot (t, i) f ((w_tcp w)(t := t2))"
        using ok by (simp_all add: x_def b_def store_def)
      have y: "w_tcp y = w_tcp x" "tcb_of y (t, i) = b"
        using segment_tables(1) [of sim _ _ _ _ _ _ _ _ _ _ x] seg xb(1) tcb_of_same(1) by (metis snd_conv)+
      define b1 where "b1 = snd (tcp_sendq_track b p 0 1 TCP_FLAG_SYN now)"
      have run: "snd (tcp_connect sim t li ri lp rp rf cf ctx w) = (if res = - 1
          then tcp_release_tcb t (Some (t, i)) y
          else let z = upd_tcb (t, i) (\<lambda>_. b1) y
               in if fst (tcp_sendq_track b p 0 1 TCP_FLAG_SYN now) = - 1
                  then tcp_release_tcb t (Some (t, i)) (packet_free p z)
                  else if sched \<noteq> 0 then tcp_schedule_retransmit sim 0 (Some (t, i)) z else z)"
        unfolding tcp_connect_def Let_def alloc option.case prod.case f_def [symmetric]
          x_def [symmetric] seg y(2) sched_def [symmetric] now_def [symmetric]
        unfolding split_def b1_def [symmetric]
        using go free by simp
      show ?thesis
      proof (cases "res = - 1")
        case True
        have "w_tcp (tcp_release_tcb t (Some (t, i)) y) = (w_tcp w)(t := release_slot t2 i)"
          using release_tables [of t i y] go(2) y(1) xb(2,3) release_written [of t i f "(w_tcp w)(t := t2)"] by simp
        then show ?thesis using run True open_failed_evolves [OF alloc] by simp
      next
        case False
        have p: "p \<noteq> 0" by (rule clone_wanted [OF seg False])
        have key: "conn_key b = (li, lp, ri, rp)" by (simp add: b_def f_def conn_key_def)
        have track: "fst (tcp_sendq_track b p 0 1 TCP_FLAG_SYN now) = 0" "fresh_conn (conn_key b) b1"
          unfolding b1_def by (rule fresh_conn_track; simp add: b_def f_def p)+
        define z where "z = upd_tcb (t, i) (\<lambda>_. b1) y"
        have "tables_evolve (w_tcp w) (w_tcp z)"
          using opened_evolves [OF alloc free refl, of "\<lambda>_. b1"] key track(2)
          by (simp add: z_def y(1) xb(3) at_slot_const)
        moreover have "tables_evolve (w_tcp z) (w_tcp (tcp_schedule_retransmit sim 0 (Some (t, i)) z))"
          using schedule_retransmit_evolves [of "(t, i)" z] xb(2) y(1) fresh_conn_ok(3) [OF track(2)]
          by (simp add: z_def)
        ultimately show ?thesis
          using run False track(1) evolve_trans by (simp add: Let_def z_def [symmetric])
      qed
    qed
  qed
qed

text \<open>The course of \<open>tcp_send\<close> past its checks.\<close>

lemma tcp_send_course:
  assumes "sim \<noteq> NULL" "tc_valid (tcb_of w c) = 1" "tc_state (tcb_of w c) = TCP_ESTABLISHED" "n > 0 \<longrightarrow> data \<noteq> None"
      "n \<noteq> 0" "tcp_sendq_has_unacked (tcb_of w c) = 0"
    and b: "b = tcb_of w c" "len = (if n > TCP_MSS then TCP_MSS else n)"
    and seg: "tcp_send_segment sim (tc_local_ip b) (tc_remote_ip b) (tc_local_port b)
      (tc_remote_port b) (tc_snd_nxt b) (tc_rcv_nxt b) (TCP_FLAG_ACK OR TCP_FLAG_PSH) data len True w = (res, p, y)"
    and now: "sched = sm_sched (w_sim y sim)" "now = (if sched \<noteq> NULL then scheduler_now sched y else 0)"
    and track: "tcp_sendq_track b p (tc_snd_nxt b) (tc_snd_nxt b + of_nat len) (TCP_FLAG_ACK OR TCP_FLAG_PSH) now = (r, b1)"
  shows "tcp_send sim (Some c) data n w = (if res = - 1 then (- 1, packet_free p y)
      else let z = upd_tcb c (\<lambda>_. b1) y
           in if r = - 1 then (- 1, packet_free p z)
              else let z = upd_tcb c (\<lambda>b. b\<lparr>tc_snd_nxt := tc_snd_nxt b + of_nat len\<rparr>) z
                   in (0, if sched \<noteq> NULL then tcp_schedule_retransmit sim NULL (Some c) z else z))"
proof -
  have "tcb_of y c = b" using seg b(1) tcb_of_same(1) by (metis snd_conv)
  then show ?thesis
    using assms(1-6)
    unfolding tcp_send_def Let_def option.case prod.case b(1) [symmetric] b(2) [symmetric] seg now(1) [symmetric]
    by (simp only: now(2) [symmetric] prod.case track) (auto simp: b(1) split: option.splits)
qed

lemma send_evolves:
  assumes c: "slot_ok c (w_tcp w)"
  shows "tables_evolve (w_tcp w) (w_tcp (snd (tcp_send sim (Some c) data n w)))"
proof (cases "sim = 0 \<or> tc_valid (tcb_of w c) \<noteq> 1 \<or> tc_state (tcb_of w c) \<noteq> TCP_ESTABLISHED \<or>
    n > 0 \<and> data = None \<or> n = 0 \<or> tcp_sendq_has_unacked (tcb_of w c) \<noteq> 0")
  case True
  then show ?thesis by (auto simp: tcp_send_def Let_def)
next
  case False
  let ?b = "tcb_of w c"
  define len where "len = (if n > TCP_MSS then TCP_MSS else n)"
  obtain res p y where seg: "tcp_send_segment sim (tc_local_ip ?b) (tc_remote_ip ?b) (tc_local_port ?b)
      (tc_remote_port ?b) (tc_snd_nxt ?b) (tc_rcv_nxt ?b) (TCP_FLAG_ACK OR TCP_FLAG_PSH) data len True w = (res, p, y)"
    by (metis prod_cases3)
  have y: "w_tcp y = w_tcp w" "tcb_of y c = ?b"
    using segment_tables(1) [of sim _ _ _ _ _ _ _ _ _ _ w] seg tcb_of_same(1) by (metis snd_conv)+
  define sched where "sched = sm_sched (w_sim y sim)"
  define now where "now = (if sched \<noteq> 0 then scheduler_now sched y else 0)"
  obtain r b1 where track: "tcp_sendq_track ?b p (tc_snd_nxt ?b) (tc_snd_nxt ?b + of_nat len)
      (TCP_FLAG_ACK OR TCP_FLAG_PSH) now = (r, b1)" by fastforce
  have go: "sim \<noteq> 0" "tc_valid ?b = 1" "tc_state ?b = TCP_ESTABLISHED" "n > 0 \<longrightarrow> data \<noteq> None" "n \<noteq> 0"
    "tcp_sendq_has_unacked ?b = 0"
    using False by auto
  note run = tcp_send_course [OF go refl len_def seg sched_def now_def track]
  show ?thesis
  proof (cases "res = - 1")
    case True
    then show ?thesis using run y by simp
  next
    case res: False
    show ?thesis
    proof (cases "r = - 1")
      case True
      then have "b1 = ?b" using track by (auto simp: tcp_sendq_track_def Let_def split: if_splits option.splits)
      then have "tables_evolve (w_tcp w) (at_slot c (\<lambda>_. b1) (w_tcp w))"
        using c by (simp add: at_slot_def tcb_of_def)
      then show ?thesis using run res True y by simp
    next
      case False': False
      then have r: "r = 0" using track by (auto simp: tcp_sendq_track_def Let_def split: if_splits option.splits)
      define z where "z = upd_tcb c (\<lambda>b. b\<lparr>tc_snd_nxt := tc_snd_nxt b + of_nat len\<rparr>) (upd_tcb c (\<lambda>_. b1) y)"
      have "conn_step ?b (b1\<lparr>tc_snd_nxt := tc_snd_nxt b1 + of_nat len\<rparr>)"
        by (rule conn_step.sent [OF _ _ track [unfolded r]]) (use False in auto)
      then have "tables_evolve (w_tcp w) (w_tcp z)"
        using evolve_step [OF c, of "(\<lambda>b. b\<lparr>tc_snd_nxt := tc_snd_nxt b + of_nat len\<rparr>) \<circ> (\<lambda>_. b1)"] c False
        by (simp add: z_def y(1))
      moreover have "tcb_used b1"
        using track r False by (auto simp: tcp_sendq_track_def Let_def split: if_splits option.splits)
      then have "tables_evolve (w_tcp z) (w_tcp (tcp_schedule_retransmit sim 0 (Some c) z))"
        using schedule_retransmit_evolves [of c z] c by (simp add: z_def y(1))
      ultimately show ?thesis
        using run res False' evolve_trans by (simp add: Let_def z_def [symmetric])
    qed
  qed
qed

lemma close_evolves:
  assumes c: "slot_ok c (w_tcp w)"
  shows "tables_evolve (w_tcp w) (w_tcp (snd (tcp_close sim (Some c) w)))"
proof (cases "sim = 0 \<or> tc_valid (tcb_of w c) \<noteq> 1 \<or>
    tc_state (tcb_of w c) \<noteq> TCP_ESTABLISHED \<and> tc_state (tcb_of w c) \<noteq> TCP_CLOSE_WAIT \<or>
    tcp_sendq_has_unacked (tcb_of w c) \<noteq> 0")
  case True
  then show ?thesis by (auto simp: tcp_close_def Let_def)
next
  case False
  let ?b = "tcb_of w c"
  obtain res p y where seg: "tcp_send_segment sim (tc_local_ip ?b) (tc_remote_ip ?b) (tc_local_port ?b)
      (tc_remote_port ?b) (tc_snd_nxt ?b) (tc_rcv_nxt ?b) (TCP_FLAG_FIN OR TCP_FLAG_ACK) None 0 True w = (res, p, y)"
    by (metis prod_cases3)
  have y: "w_tcp y = w_tcp w" "tcb_of y c = ?b"
    using segment_tables(1) [of sim _ _ _ _ _ _ _ _ _ _ w] seg tcb_of_same(1) by (metis snd_conv)+
  define sched where "sched = sm_sched (w_sim y sim)"
  define now where "now = (if sched \<noteq> 0 then scheduler_now sched y else 0)"
  obtain r b1 where track: "tcp_sendq_track ?b p (tc_snd_nxt ?b) (tc_snd_nxt ?b + 1)
      (TCP_FLAG_FIN OR TCP_FLAG_ACK) now = (r, b1)" by fastforce
  define st where "st = (if tc_state ?b = TCP_ESTABLISHED then TCP_FIN_WAIT_1 else TCP_LAST_ACK)"
  have st: "(if tc_state ?b = TCP_ESTABLISHED then upd_tcb c (\<lambda>b. b\<lparr>tc_state := TCP_FIN_WAIT_1\<rparr>) z
      else if tc_state ?b = TCP_CLOSE_WAIT then upd_tcb c (\<lambda>b. b\<lparr>tc_state := TCP_LAST_ACK\<rparr>) z else z) =
      upd_tcb c (\<lambda>b. b\<lparr>tc_state := st\<rparr>) z" for z
    using False by (auto simp: st_def)
  have run: "snd (tcp_close sim (Some c) w) = (if res = - 1 then packet_free p y
      else let z = upd_tcb c (\<lambda>_. b1) y
           in if r = - 1 then packet_free p z
              else let z = upd_tcb c (\<lambda>b. b\<lparr>tc_state := st\<rparr>) (upd_tcb c (\<lambda>b. b\<lparr>tc_snd_nxt := tc_snd_nxt b + 1\<rparr>) z)
                   in if sched \<noteq> 0 then tcp_schedule_retransmit sim NULL (Some c) z else z)"
    unfolding tcp_close_def Let_def option.case prod.case seg y(2) sched_def [symmetric]
      now_def [symmetric] track st
    using False by (cases "tc_state (tcb_of w c)") simp_all
  show ?thesis
  proof (cases "res = - 1")
    case True
    then show ?thesis using run y by simp
  next
    case res: False
    show ?thesis
    proof (cases "r = - 1")
      case True
      then have "b1 = ?b" using track by (auto simp: tcp_sendq_track_def Let_def split: if_splits option.splits)
      then have "tables_evolve (w_tcp w) (at_slot c (\<lambda>_. b1) (w_tcp w))"
        using c by (simp add: at_slot_def tcb_of_def)
      then show ?thesis using run res True y by simp
    next
      case False': False
      then have r: "r = 0" using track by (auto simp: tcp_sendq_track_def Let_def split: if_splits option.splits)
      define z where "z = upd_tcb c (\<lambda>b. b\<lparr>tc_state := st\<rparr>) (upd_tcb c (\<lambda>b. b\<lparr>tc_snd_nxt := tc_snd_nxt b + 1\<rparr>) (upd_tcb c (\<lambda>_. b1) y))"
      have "conn_step ?b (b1\<lparr>tc_snd_nxt := tc_snd_nxt b1 + 1, tc_state := st\<rparr>)"
        by (rule conn_step.closed [OF _ _ track [unfolded r]]) (use False in \<open>auto simp: st_def\<close>)
      then have "tables_evolve (w_tcp w) (w_tcp z)"
        using evolve_step [OF c, of "(\<lambda>b. b\<lparr>tc_state := st\<rparr>) \<circ> ((\<lambda>b. b\<lparr>tc_snd_nxt := tc_snd_nxt b + 1\<rparr>) \<circ> (\<lambda>_. b1))"] c False
        by (simp add: z_def y(1) comp_assoc)
      moreover have "tcb_used b1"
        using track r False by (auto simp: tcp_sendq_track_def Let_def split: if_splits option.splits)
      then have "tables_evolve (w_tcp z) (w_tcp (tcp_schedule_retransmit sim 0 (Some c) z))"
        using schedule_retransmit_evolves [of c z] c by (simp add: z_def y(1))
      ultimately show ?thesis
        using run res False' evolve_trans by (simp add: Let_def z_def [symmetric])
    qed
  qed
qed

section \<open>The timers\<close>

lemma time_wait_handler_evolves:
  assumes "\<And>c. ev_data e = Some c \<Longrightarrow> fst c = ctx \<and> slot_ok c (w_tcp w)"
  shows "tables_evolve (w_tcp w) (w_tcp (tcp_time_wait_handler e ctx w))"
proof (cases "ev_data e")
  case None
  then show ?thesis by (simp add: tcp_time_wait_handler_def)
next
  case (Some c)
  obtain i where c: "c = (ctx, i)" "slot_ok c (w_tcp w)" using assms [OF Some] by (cases c) auto
  have "tables_evolve (w_tcp w) ((w_tcp w)(ctx := release_slot (w_tcp w ctx) i))"
    if "tc_valid (tcb_of w c) = 1" "tc_state (tcb_of w c) = TCP_TIME_WAIT"
    by (rule evolve_table)
      (use that c in \<open>auto simp: slot_ok_def tcb_of_def intro!: r_into_rtranclp [of table_step] table_step.released\<close>)
  then show ?thesis
    using Some c release_tables [of ctx i w] by (simp add: tcp_time_wait_handler_def)
qed

lemma retransmit_loop_evolves:
  assumes "slot_ok c (w_tcp w)" "tcb_used (tcb_of w c)"
  shows "tables_evolve (w_tcp w) (w_tcp (retransmit_loop ctx c i n w))"
  using assms
proof (induction n arbitrary: i w)
  case 0
  then show ?case by simp
next
  case (Suc n)
  have seg: "tables_evolve (w_tcp x) (w_tcp (upd_seg c i f x)) \<and> slot_ok c (w_tcp (upd_seg c i f x)) \<and>
      tcb_used (tcb_of (upd_seg c i f x) c)"
    if "slot_ok c (w_tcp x)" "tcb_used (tcb_of x c)"
      "\<And>s. sg_pkt (f s) = sg_pkt s \<and> sg_seq_end (f s) = sg_seq_end s \<and> sg_flags (f s) = sg_flags s \<and> sg_acked (f s) = sg_acked s"
    for f x
    using that evolve_step [OF that(1,2), of "\<lambda>b. b\<lparr>tc_sendq := (tc_sendq b)
      \<lparr>sq_entries := (sq_entries (tc_sendq b))[i := f (sq_entries (tc_sendq b) ! i)]\<rparr>\<rparr>"]
      conn_step.resent [of f "tcb_of x c" i, OF that(3)] by (simp add: upd_seg_def)
  have timer: "slot_ok c (w_tcp (tcp_schedule_retransmit s k (Some c) x)) \<and> tcb_used (tcb_of (tcp_schedule_retransmit s k (Some c) x) c)"
    if "slot_ok c (w_tcp x)" "tcb_used (tcb_of x c)" for s k x
    using schedule_retransmit_tables [of s k c x] that by (auto simp: tcb_of_def at_slot_def slot_ok_def)
  show ?case
  proof (cases "sg_pkt (seg_of w c i) \<noteq> 0 \<and> sg_acked (seg_of w c i) = 0")
    case False
    then show ?thesis using Suc by auto
  next
    case True
    obtain clone x where clone: "packet_clone (sg_pkt (seg_of w c i)) w = (clone, x)" by fastforce
    have x: "w_tcp x = w_tcp w" using clone_tables(1) [of "sg_pkt (seg_of w c i)" w] clone by simp
    obtain res y where out: "ip_output (xc_sim (w_tcpctx w ctx)) (tc_local_ip (tcb_of x c)) (tc_remote_ip (tcb_of x c))
        IPPROTO_TCP clone x = (res, y)" by fastforce
    have y: "w_tcp y = w_tcp w" using output_tables(1) [of "xc_sim (w_tcpctx w ctx)"] out x by (metis snd_conv)
    define z where "z = upd_seg c i (\<lambda>s. s\<lparr>sg_retransmits := sg_retransmits s + 1\<rparr>) y"
    have ok: "slot_ok c (w_tcp y)" "tcb_used (tcb_of y c)" using Suc.prems y by (simp_all add: tcb_of_def)
    have z: "tables_evolve (w_tcp w) (w_tcp z)" "slot_ok c (w_tcp z)" "tcb_used (tcb_of z c)"
      using seg [OF ok, of "\<lambda>s. s\<lparr>sg_retransmits := sg_retransmits s + 1\<rparr>"] y by (simp_all add: z_def)
    define v where "v = upd_seg c i (\<lambda>s. s\<lparr>sg_sent_ts := scheduler_now (sm_sched (w_sim z (xc_sim (w_tcpctx w ctx)))) z\<rparr>) z"
    have v: "tables_evolve (w_tcp z) (w_tcp v)" "slot_ok c (w_tcp v)" "tcb_used (tcb_of v c)"
      using seg [OF z(2,3), of "\<lambda>s. s\<lparr>sg_sent_ts := scheduler_now (sm_sched (w_sim z (xc_sim (w_tcpctx w ctx)))) z\<rparr>"]
      by (simp_all add: v_def)
    define u where "u = (if sm_sched (w_sim z (xc_sim (w_tcpctx w ctx))) \<noteq> 0
      then tcp_schedule_retransmit (xc_sim (w_tcpctx w ctx)) ctx (Some c) v else z)"
    have u: "tables_evolve (w_tcp w) (w_tcp u)" "slot_ok c (w_tcp u)" "tcb_used (tcb_of u c)"
      using z v timer [OF v(2,3)] evolve_trans [OF z(1) evolve_trans [OF v(1) schedule_retransmit_evolves [OF v(2,3)]]]
      by (auto simp: u_def)
    have run: "retransmit_loop ctx c i (Suc n) w = (if clone = 0 then retransmit_loop ctx c (Suc i) n x
        else if res = - 1 then packet_free clone y else retransmit_loop ctx c (Suc i) n u)"
      unfolding retransmit_loop.simps Let_def clone prod.case out z_def [symmetric] v_def [symmetric] u_def [symmetric]
      using True by simp
    have "tables_evolve (w_tcp x) (w_tcp (retransmit_loop ctx c (Suc i) n x))"
      by (rule Suc.IH) (use Suc.prems x in \<open>simp_all add: tcb_of_def\<close>)
    then show ?thesis
      using run x y evolve_trans [OF u(1) Suc.IH [OF u(2,3)]] by simp
  qed
qed

lemma retransmit_handler_evolves:
  assumes "\<And>c. ev_data e = Some c \<Longrightarrow> slot_ok c (w_tcp w)"
  shows "tables_evolve (w_tcp w) (w_tcp (tcp_retransmit_handler e ctx w))"
proof (cases "ev_data e")
  case (Some c)
  then show ?thesis
    using retransmit_loop_evolves [of c w ctx 0 1] assms by (simp add: tcp_retransmit_handler_def del: retransmit_loop.simps)
qed (simp add: tcp_retransmit_handler_def)

section \<open>Runs\<close>

text \<open>
  One operation of the module: a segment arrives, the application listens, connects, sends or
  closes, a timer fires; \<open>other\<close> stands for all code that leaves the connection tables alone. A
  reference to a block names one of the slots of its table.
\<close>

inductive tcp_op :: "tcp_recv_fns \<Rightarrow> tcp_connect_fns \<Rightarrow> world \<Rightarrow> world \<Rightarrow> bool"
  for recv conn where
  op_receive: "tcp_op recv conn w (snd (tcp_receive recv conn iface pkt ctx w))"
| op_listen: "tcp_op recv conn w (set_tcp t (snd (tcp_listen (Some (w_tcp w t)) li lp rf cf d)) w)"
| op_connect: "tcp_op recv conn w (snd (tcp_connect sim t li ri lp rp rf cf d w))"
| op_send: "slot_ok c (w_tcp w) \<Longrightarrow> tcp_op recv conn w (snd (tcp_send sim (Some c) data n w))"
| op_close: "slot_ok c (w_tcp w) \<Longrightarrow> tcp_op recv conn w (snd (tcp_close sim (Some c) w))"
| op_retransmit: "ev_data e = Some c \<Longrightarrow> slot_ok c (w_tcp w) \<Longrightarrow> tcp_op recv conn w (tcp_retransmit_handler e ctx w)"
| op_time_wait: "ev_data e = Some c \<Longrightarrow> slot_ok c (w_tcp w) \<Longrightarrow> fst c = t \<Longrightarrow> tcp_op recv conn w (tcp_time_wait_handler e t w)"
| other: "w_tcp w' = w_tcp w \<Longrightarrow> tcp_op recv conn w w'"

abbreviation tcp_run :: "tcp_recv_fns \<Rightarrow> tcp_connect_fns \<Rightarrow> world \<Rightarrow> world \<Rightarrow> bool" where
  "tcp_run recv conn \<equiv> (tcp_op recv conn)\<^sup>*\<^sup>*"

text \<open>The callbacks of the application change tables only in the same ways.\<close>

definition callbacks_ok :: "tcp_recv_fns \<Rightarrow> tcp_connect_fns \<Rightarrow> bool" where
  "callbacks_ok recv conn \<longleftrightarrow>
     (\<forall>n c p d x. tables_evolve (w_tcp x) (w_tcp (recv n c p d x))) \<and>
     (\<forall>n c d x. tables_evolve (w_tcp x) (w_tcp (conn n c d x)))"

lemma op_evolves:
  assumes cb: "callbacks_ok recv conn" and op: "tcp_op recv conn w w'"
  shows "tables_evolve (w_tcp w) (w_tcp w')"
  using op
proof (cases rule: tcp_op.cases)
  case (op_receive iface pkt ctx)
  have "tables_evolve (w_tcp x) (w_tcp (recv n c p d x))" "tables_evolve (w_tcp x) (w_tcp (conn n c d x))" for n c p d x
    using cb unfolding callbacks_ok_def by blast+
  then show ?thesis
    unfolding op_receive by (rule tcp_receive_evolves [where recv = recv and conn = conn])
next
  case (op_listen t li lp rf cf d)
  obtain r t' where l: "tcp_listen (Some (w_tcp w t)) li lp rf cf d = (r, Some t')"
  proof -
    have "snd (tcp_listen (Some (w_tcp w t)) li lp rf cf d) \<noteq> None"
      by (auto simp: tcp_listen_def tcp_alloc_tcb_def Let_def split: option.split)
    then show ?thesis using that by (cases "tcp_listen (Some (w_tcp w t)) li lp rf cf d") auto
  qed
  then show ?thesis
    unfolding op_listen using evolve_table [of "w_tcp w" t, OF r_into_rtranclp [of table_step, OF table_step.listening [OF l]]]
    by (simp add: store_def)
qed (auto simp: connect_evolves send_evolves close_evolves intro!: retransmit_handler_evolves time_wait_handler_evolves)

lemma run_evolves:
  assumes "callbacks_ok recv conn" "tcp_run recv conn w w'"
  shows "tables_evolve (w_tcp w) (w_tcp w')"
  using assms(2) by (induction rule: rtranclp_induct) (auto intro: evolve_trans op_evolves [OF assms(1)])

definition no_conns :: TcpTable where
  "no_conns = \<lparr>tt_tcbs = replicate 64 tcb_zero, tt_count = 0\<rparr>"

lemma no_conns_ok: "table_ok no_conns"
  by (rule table_ok_init [of no_conns]) (simp add: tcp_init_def no_conns_def)

lemma lan_conns: "w_tcp (lan pk q) t = no_conns"
  by (simp add: lan_def no_conns_def)

section \<open>Properties\<close>

text \<open>
  C10 The TCP code implements the abstract connection machine: receiving any segment, listening,
  opening, sending, closing and the two timers, in any order, change the connection tables only by
  steps of \<open>table_step\<close> (the transitions of single connections, allocation of a block with its SYN
  in flight, release from LAST_ACK or TIME_WAIT), provided the callbacks of the application do.
\<close>

theorem tcp_refines_machine:
  assumes "callbacks_ok recv conn" "(tcp_op recv conn)\<^sup>*\<^sup>* w w'"
  shows "table_step\<^sup>*\<^sup>* (w_tcp w p) (w_tcp w' p)"
  using run_evolves [OF assms] by (simp add: tables_evolve_def)

theorem tcp_refines_machine_witness:
  "table_step\<^sup>*\<^sup>* no_conns
     (w_tcp (snd (tcp_connect 1 15 0x0A000001 0x0A000002 4000 80 0 0 0
        (lan (packet_fresh 0 (\<lambda>_. 0) 0 0) (event_queue_new 4)))) 15)"
  using tcp_refines_machine [of "\<lambda>_ _ _ _ x. x" "\<lambda>_ _ _ x. x", OF _ r_into_rtranclp, OF _ op_connect
      [where w = "lan (packet_fresh 0 (\<lambda>_. 0) 0 0) (event_queue_new 4)" and sim = 1 and t = 15 and li = "0x0A000001"
        and ri = "0x0A000002" and lp = 4000 and rp = 80 and rf = 0 and cf = 0 and d = 0]]
  by (simp add: callbacks_ok_def lan_conns)

text \<open>
  C9 What holds of every connection at all times. The table that \<open>tcp_init\<close> leaves is consistent, and
  whatever the operations of the module do, in any order, a consistent table stays consistent: the
  counter is the number of blocks in use, no two connections share their addresses and ports, the
  state and the send queue of a connection agree (a SYN is in flight exactly while it opens, a FIN
  exactly in FIN_WAIT_1 and LAST_ACK, a segment in flight ends at the next sequence number), and no
  connection is ever in the state CLOSING.
\<close>

theorem tcp_tables_consistent:
  assumes run: "callbacks_ok recv conn" "(tcp_op recv conn)\<^sup>*\<^sup>* w w'"
    and ok: "table_ok (w_tcp w p)"
  shows "table_ok (w_tcp w' p) \<and> table_ok (the (tcp_init (Some t))) \<and>
    tt_count (w_tcp w' p) = int (length (filter (\<lambda>b. tc_valid b \<noteq> 0) (tt_tcbs (w_tcp w' p)))) \<and>
    (\<forall>b \<in> set (tt_tcbs (w_tcp w' p)). tc_valid b \<noteq> 0 \<longrightarrow>
      tc_state b \<noteq> TCP_CLOSING \<and> tc_state b \<noteq> TCP_CLOSED \<and>
      (tc_state b \<in> {TCP_FIN_WAIT_1, TCP_LAST_ACK} \<longleftrightarrow>
         (\<exists>s. in_flight b = Some s \<and> sg_flags s AND TCP_FLAG_FIN \<noteq> 0)) \<and>
      (tc_state b \<in> {TCP_SYN_SENT, TCP_SYN_RECEIVED} \<longleftrightarrow>
         (\<exists>s. in_flight b = Some s \<and> sg_flags s AND TCP_FLAG_SYN \<noteq> 0)) \<and>
      (\<forall>s. in_flight b = Some s \<longrightarrow> sg_seq_end s = tc_snd_nxt b))"
proof -
  have "table_ok (w_tcp w' p)"
    using run_evolves [OF run] table_steps_ok ok by (auto simp: tables_evolve_def)
  moreover from this have "tt_count (w_tcp w' p) = int (length (filter (\<lambda>b. tc_valid b \<noteq> 0) (tt_tcbs (w_tcp w' p))))"
    by (simp add: table_ok_def tcp_inv_def in_use_def)
  moreover have "table_ok (the (tcp_init (Some t)))"
    by (rule table_ok_init [of t]) (simp add: tcp_init_def)
  ultimately show ?thesis
    by (auto simp: table_ok_def conn_ok_def split: option.splits)
qed

theorem tcp_tables_consistent_witness:
  "table_ok (w_tcp (snd (tcp_connect 1 15 0x0A000001 0x0A000002 4000 80 0 0 0
        (lan (packet_fresh 0 (\<lambda>_. 0) 0 0) (event_queue_new 4)))) 15)"
  using tcp_tables_consistent [of "\<lambda>_ _ _ _ x. x" "\<lambda>_ _ _ x. x", OF _ r_into_rtranclp, OF _ op_connect
      [where w = "lan (packet_fresh 0 (\<lambda>_. 0) 0 0) (event_queue_new 4)" and sim = 1 and t = 15 and li = "0x0A000001"
        and ri = "0x0A000002" and lp = 4000 and rp = 80 and rf = 0 and cf = 0 and d = 0], of 15 no_conns]
  by (simp add: callbacks_ok_def lan_conns no_conns_ok)

text \<open>
  C22 A connection that enters CLOSE_WAIT with a segment in flight is lost: acknowledgements are not
  processed in that state, \<open>tcp_close\<close> refuses while a segment is in flight, so whatever arrives and
  whatever the application calls, the block stays in CLOSE_WAIT and every \<open>tcp_close\<close> returns -1.
\<close>

theorem tcp_close_wait_stuck:
  assumes run: "callbacks_ok recv conn" "(tcp_op recv conn)\<^sup>*\<^sup>* w w'"
    and ok: "table_ok (w_tcp w (fst c))" "snd c < 64"
    and c: "tc_valid (tcb_of w c) \<noteq> 0" "tc_state (tcb_of w c) = TCP_CLOSE_WAIT" "in_flight (tcb_of w c) = Some s"
  shows "tc_valid (tcb_of w' c) \<noteq> 0 \<and> tc_state (tcb_of w' c) = TCP_CLOSE_WAIT \<and>
    tcp_close sim (Some c) w' = (- 1, w')"
proof -
  have ev: "table_steps (w_tcp w (fst c)) (w_tcp w' (fst c))"
    using run_evolves [OF run] by (simp add: tables_evolve_def)
  have "stuck (tcb_of w' c)"
    using stuck_table_steps [OF ev ok] c by (simp add: stuck_def tcb_of_def)
  note st = this [unfolded stuck_def]
  have ok': "table_ok (w_tcp w' (fst c))" by (rule table_steps_ok [OF ev ok(1)])
  then have "snd c < length (tt_tcbs (w_tcp w' (fst c)))" using ok(2) by (simp add: table_ok_def tcp_inv_def)
  note d = table_okD [OF ok' this]
  have "tcp_sendq_has_unacked (tcb_of w' c) \<noteq> 0"
  proof (rule sendq_single [OF d(3)])
    fix r
    assume "sq_entries (tc_sendq (tt_tcbs (w_tcp w' (fst c)) ! snd c)) = [r]"
    then show ?thesis
      using st d(4) by (auto simp: has_unacked_1 in_flight_1 conn_ok_def tcb_of_def split: if_splits)
  qed
  then show ?thesis using st by (simp add: tcp_close_def)
qed

text \<open>A table with one such connection, reached by a FIN that crosses data.\<close>

definition crossed_conn :: Tcb where
  "crossed_conn = tcb_zero\<lparr>tc_valid := 1, tc_local_ip := 0x0A000001, tc_local_port := 80,
     tc_remote_ip := 0x0A000002, tc_remote_port := 4000, tc_state := TCP_CLOSE_WAIT, tc_snd_una := 1,
     tc_snd_nxt := 11, tc_rcv_nxt := 2, tc_sendq := \<lparr>sq_entries = [\<lparr>sg_pkt = 20, sg_seq_start = 1, sg_seq_end = 11,
       sg_flags = 0x18, sg_sent_ts = 0, sg_retransmits = 0, sg_acked = 0\<rparr>], sq_count = 1\<rparr>\<rparr>"

lemma crossed_ok: "table_ok \<lparr>tt_tcbs = (replicate 64 tcb_zero)[0 := crossed_conn], tt_count = 1\<rparr>"
proof -
  have inv: "tcp_inv no_conns" using no_conns_ok by (simp add: table_ok_def)
  have b: "sendq_inv crossed_conn" "conn_ok crossed_conn" "tc_valid crossed_conn = 1" "tc_state crossed_conn = TCP_CLOSE_WAIT"
    by (simp_all add: crossed_conn_def sendq_inv_def conn_ok_def in_flight_def)
  have "slot_of connected conn_key (conn_key crossed_conn) (tt_tcbs no_conns) = None"
    by (auto simp: slot_of_None no_conns_def)
  then have "tcp_inv \<lparr>tt_tcbs = (replicate 64 tcb_zero)[0 := crossed_conn], tt_count = 1\<rparr>"
    using b by (intro tcp_write [OF inv, of 0 crossed_conn]) (auto simp: no_conns_def listening_def)
  then show ?thesis using table_ok_write [OF no_conns_ok] b(2) by (simp add: no_conns_def)
qed

theorem tcp_close_wait_stuck_witness:
  "fst (tcp_close 1 (Some (15, 0)) ((lan (packet_fresh 0 (\<lambda>_. 0) 0 0) (event_queue_new 4))
     \<lparr>w_tcp := \<lambda>_. \<lparr>tt_tcbs = (replicate 64 tcb_zero)[0 := crossed_conn], tt_count = 1\<rparr>\<rparr>)) = - 1"
proof -
  let ?w = "(lan (packet_fresh 0 (\<lambda>_. 0) 0 0) (event_queue_new 4))
     \<lparr>w_tcp := \<lambda>_. \<lparr>tt_tcbs = (replicate 64 tcb_zero)[0 := crossed_conn], tt_count = 1\<rparr>\<rparr>"
  have "tcb_of ?w (15, 0) = crossed_conn" by (simp add: tcb_of_def)
  then have c: "tc_valid (tcb_of ?w (15, 0)) \<noteq> 0" "tc_state (tcb_of ?w (15, 0)) = TCP_CLOSE_WAIT"
    "in_flight (tcb_of ?w (15, 0)) = Some \<lparr>sg_pkt = 20, sg_seq_start = 1, sg_seq_end = 11,
       sg_flags = 0x18, sg_sent_ts = 0, sg_retransmits = 0, sg_acked = 0\<rparr>"
    by (simp_all add: crossed_conn_def in_flight_def)
  have cb: "callbacks_ok (\<lambda>_ _ _ _ x. x) (\<lambda>_ _ _ x. x)" by (simp add: callbacks_ok_def)
  show ?thesis
    using tcp_close_wait_stuck [OF cb rtranclp.rtrancl_refl _ _ c, of 1] crossed_ok by simp
qed

end
