(* ===== verification/Bystander.thy ===== *)
theory Bystander
  imports Delivery
begin

text \<open>
  Sending leaves the contents of every other packet alone: only the packet that is handed over and
  packets allocated on the way are written.
\<close>

definition bystander :: "ptr \<Rightarrow> world \<Rightarrow> world \<Rightarrow> bool" where
  "bystander q w w' \<longleftrightarrow> w_brk w \<le> w_brk w' \<and> (q < w_brk w \<longrightarrow> w_pkt w' q = w_pkt w q)"

lemma bystander_refl [intro!, simp]: "bystander q w w"
  by (simp add: bystander_def)

lemma bystander_trans: "bystander q w x \<Longrightarrow> bystander q x y \<Longrightarrow> bystander q w y"
  by (simp add: bystander_def)

named_theorems untouched

lemma untouched_writes [untouched]:
  "bystander q w x \<Longrightarrow> (q < w_brk w \<Longrightarrow> p \<noteq> q) \<Longrightarrow> bystander q w (upd_pkt p f x)"
  "bystander q w x \<Longrightarrow> bystander q w (upd_iface p g x)"
  "bystander q w x \<Longrightarrow> bystander q w (set_arp p c x)"
  "bystander q w x \<Longrightarrow> bystander q w (set_tcp p t x)"
  "bystander q w x \<Longrightarrow> bystander q w (upd_tcb b h x)"
  "bystander q w x \<Longrightarrow> bystander q w (free_block p x)"
  "bystander q w x \<Longrightarrow> bystander q w (packet_free p x)"
  "bystander q w x \<Longrightarrow> bystander q w (event_free e x)"
  by (auto simp: bystander_def upd_tcb_def)

lemma untouched_counters [untouched]:
  "bystander q w x \<Longrightarrow> bystander q w (rx_error i x)" "bystander q w x \<Longrightarrow> bystander q w (rx_drop i x)"
  "bystander q w x \<Longrightarrow> bystander q w (tx_error i x)" "bystander q w x \<Longrightarrow> bystander q w (eth_tx_error s i x)"
  by (auto simp: rx_error_def rx_drop_def tx_error_def eth_tx_error_def intro: untouched)

lemma untouched_malloc [untouched]: "bystander q w x \<Longrightarrow> bystander q w (snd (malloc x))"
  by (cases x rule: malloc_cases) (auto simp: bystander_def)

lemma untouched_event [untouched]:
  "bystander q w x \<Longrightarrow> bystander q w (snd (event_create_callback ty ts a b p d h c x))"
  using untouched_malloc [of q w x] by (auto simp: event_create_callback_def split_def Let_def)

lemma untouched_schedule [untouched]: "bystander q w x \<Longrightarrow> bystander q w (snd (scheduler_schedule s e x))"
  by (simp add: bystander_def)

lemma packet_create_new: "fst (packet_create n w) = 0 \<or> fst (packet_create n w) = w_brk w"
  by (cases w rule: malloc_cases) (auto simp: packet_create_def Let_def split_def)

lemma untouched_create [untouched]: "bystander q w x \<Longrightarrow> bystander q w (snd (packet_create n x))"
proof -
  assume x: "bystander q w x"
  have new: "q < w_brk w \<Longrightarrow> fst (malloc x) \<noteq> 0 \<Longrightarrow> fst (malloc x) \<noteq> q"
    using x by (cases x rule: malloc_cases) (auto simp: bystander_def)
  have "bystander q w (y\<lparr>w_next_id := n\<rparr>) = bystander q w y" for y n by (simp add: bystander_def)
  then show ?thesis
    using x new by (auto simp: packet_create_def Let_def split_def intro!: untouched)
qed

lemma untouched_prepend [untouched]:
  "bystander q w x \<Longrightarrow> (q < w_brk w \<Longrightarrow> p \<noteq> q) \<Longrightarrow> bystander q w (snd (pkt_prepend p h n x))"
  by (auto simp: pkt_prepend_def Let_def split_def intro!: untouched)

lemma created_new:
  assumes "bystander q w x" "fst (packet_create n x) \<noteq> 0" "q < w_brk w"
  shows "fst (packet_create n x) \<noteq> q"
  using assms packet_create_new [of n x] by (auto simp: bystander_def)

lemma untouched_clone [untouched]: "bystander q w x \<Longrightarrow> bystander q w (snd (packet_clone p x))"
  using created_new [of q w x "pk_len (w_pkt x p)"]
  by (auto simp: packet_clone_def Let_def split_def intro!: untouched)

section \<open>The send path\<close>

lemma untouched_transmit [untouched]:
  "bystander q w x \<Longrightarrow> bystander q w (snd (link_transmit link pkt src sched now h c x))"
  by (auto simp: link_transmit_def Let_def split_def intro!: untouched)

lemma untouched_ethernet [untouched]:
  "bystander q w x \<Longrightarrow> (q < w_brk w \<Longrightarrow> p \<noteq> q) \<Longrightarrow> bystander q w (snd (ethernet_send sim iface dst et p x))"
  by (auto simp: ethernet_send_def Let_def split_def intro!: untouched split: option.split)

lemma untouched_ip_send [untouched]:
  "bystander q w x \<Longrightarrow> (q < w_brk w \<Longrightarrow> p \<noteq> q) \<Longrightarrow> bystander q w (snd (ip_send sim iface dst a b pr p x))"
  by (auto simp: ip_send_def Let_def split_def intro!: untouched)

lemma untouched_arp_request [untouched]:
  "bystander q w x \<Longrightarrow> bystander q w (snd (arp_send_request sim iface t x))"
  using created_new [of q w x 28]
  by (auto simp: arp_send_request_def Let_def split_def intro!: untouched)

lemma untouched_output [untouched]:
  "bystander q w x \<Longrightarrow> (q < w_brk w \<Longrightarrow> p \<noteq> q) \<Longrightarrow> bystander q w (snd (ip_output sim a b pr p x))"
  by (auto simp: ip_output_def Let_def split_def intro!: untouched)

text \<open>The course of \<open>tcp_send_segment\<close>, step by step.\<close>

lemma segment_course:
  assumes "\<not> (sim = NULL \<or> n > 1460 \<or> n > 0 \<and> pl = None)"
    and "packet_create (20 + n) w = (p, w1)" "x = upd_pkt p (tcp_fill sp dp sq ak fl pl n) w1"
    and "(if wc then packet_clone p x else (NULL, x)) = (q, y)" "ip_output sim a b 6 p y = (r, z)"
  shows "tcp_send_segment sim a b sp dp sq ak fl pl n wc w =
      (if p = 0 then (- 1, NULL, w1) else if wc \<and> q = 0 then (- 1, NULL, packet_free p y)
       else if r = - 1 then (- 1, NULL, packet_free q (packet_free p z)) else (0, q, z))"
proof -
  have "\<not> n > 1460" "sim \<noteq> 0" "(n > 0 \<and> pl = None) = False" using assms(1) by auto
  then show ?thesis
    unfolding tcp_send_segment_def Let_def assms(2) prod.case assms(3) [symmetric] assms(4) assms(5)
    by (simp only: if_False simp_thms if_True)
qed

lemma untouched_segment [untouched]:
  assumes x: "bystander q w x"
  shows "bystander q w (snd (snd (tcp_send_segment sim a b sp dp sq ak fl pl n wc x)))"
proof (cases "sim = 0 \<or> n > 1460 \<or> n > 0 \<and> pl = None")
  case True
  then show ?thesis using x by (auto simp: tcp_send_segment_def)
next
  case False
  obtain p x1 where cr: "packet_create (20 + n) x = (p, x1)" by fastforce
  have new: "q < w_brk w \<Longrightarrow> p \<noteq> 0 \<Longrightarrow> p \<noteq> q" using created_new [OF x, of "20 + n"] cr by simp
  have x1: "bystander q w x1" using untouched_create [OF x, of "20 + n"] cr by simp
  define y where "y = upd_pkt p (tcp_fill sp dp sq ak fl pl n) x1"
  obtain t z where cl: "(if wc then packet_clone p y else (0, y)) = (t, z)" by fastforce
  obtain r v where out: "ip_output sim a b 6 p z = (r, v)" by fastforce
  note res = segment_course [OF False cr y_def cl out]
  show ?thesis
  proof (cases "p = 0")
    case True
    then show ?thesis using res x1 by simp
  next
    case p: False
    have y: "bystander q w y" unfolding y_def using x1 new p by (intro untouched) auto
    have z: "bystander q w z"
      using untouched_clone [OF y, of p] y cl by (cases wc) auto
    have "bystander q w v" using untouched_output [OF z, of p sim a b 6] new p out by simp
    then show ?thesis using res z p by (auto intro: untouched)
  qed
qed

end
