(* ===== verification/Tcp_Data.thy ===== *)
theory Tcp_Data
  imports Datagram Tcp_Steps Bystander
begin

text \<open>
  The segments of TCP on the wire: the bytes \<open>tcp_send_segment\<close> puts there, what an established
  connection does with the segments it receives, and the way from \<open>tcp_send\<close> on one host to the
  receive handler of the application on the other.
\<close>

section \<open>Sending a segment\<close>

definition tcp_header :: "u16 \<Rightarrow> u16 \<Rightarrow> u32 \<Rightarrow> u32 \<Rightarrow> u8 \<Rightarrow> TcpHeader" where
  "tcp_header src_port dst_port seq ack flags =
     \<lparr>tcp_src_port = ns_htons src_port, tcp_dst_port = ns_htons dst_port, tcp_seq_num = ns_htonl seq,
      tcp_ack_num = ns_htonl ack, tcp_data_off_flags = ns_htons (push_bit 12 5 OR ucast flags),
      tcp_window = ns_htons 65535, tcp_hdr_checksum = 0, tcp_urgent_ptr = 0\<rparr>"

definition tcp_segment :: "u16 \<Rightarrow> u16 \<Rightarrow> u32 \<Rightarrow> u32 \<Rightarrow> u8 \<Rightarrow> u8 list \<Rightarrow> u8 list" where
  "tcp_segment src_port dst_port seq ack flags body = tcp_bytes (tcp_header src_port dst_port seq ack flags) @ body"

lemma tcp_segment_length [simp]: "length (tcp_segment sp dp sq ak fl body) = 20 + length body"
  by (simp add: tcp_segment_def tcp.length_bytes)

text \<open>The payload pointer, its length and the bytes they stand for.\<close>

definition payload_of :: "u8 list option \<Rightarrow> nat \<Rightarrow> u8 list \<Rightarrow> bool" where
  "payload_of payload n body \<longleftrightarrow> length body = n \<and> (n = 0 \<or> (\<exists>data. payload = Some data \<and> body = take n data))"

lemma tcp_fill_whole:
  assumes "payload_of payload n body"
  shows "tcp_fill sp dp sq ak fl payload n (packet_fresh h f (20 + n) i) =
    (pkt_write 0 (tcp_segment sp dp sq ak fl body) (packet_fresh h f (20 + n) i))\<lparr>pk_len := 20 + n, pk_layer := 4\<rparr>"
  using assms
  by (cases "n = 0") (auto simp: payload_of_def tcp_fill_def tcp_segment_def tcp_header_def Let_def pkt_write_append
      tcp.length_bytes packet_fresh_def)

lemma segment_sent:
  assumes ok: "mem_ok w" "eq_inv (sc_eq (w_sched w (sm_sched (w_sim w sim))))" "neighbour sim iface a b m w"
    and n: "payload_of payload n body" "n \<le> 1460"
    and s: "tcp_send_segment sim a b sp dp sq ak fl payload n wc w = (r, clone, w')"
  shows "r = 0 \<or> r = - 1"
    and "r = 0 \<Longrightarrow> delivers iface (peer iface w) (arrival sim iface w) CB_ethernet_receive_event sim
     (eth_frame m (if_mac (w_iface w iface)) 0x0800
       (ip_bytes (ip_send_header a b 6 (20 + n)) @ tcp_segment sp dp sq ak fl body))
     (sm_sched (w_sim w sim)) w w'"
    and "(\<And>k. \<not> w_oom w k) \<Longrightarrow> path_up sim iface w \<Longrightarrow> r = 0"
    and "r = 0 \<Longrightarrow> wc \<longleftrightarrow> clone \<noteq> NULL"
    and "w_arp w' = w_arp w"
proof -
  have sim: "sim \<noteq> 0" using ok(3) by (simp add: neighbour_def)
  have pl: "\<not> (n > 0 \<and> payload = None)" using n(1) by (auto simp: payload_of_def)
  obtain p w1 where cr: "packet_create (20 + n) w = (p, w1)" by fastforce
  define x where "x = upd_pkt p (tcp_fill sp dp sq ak fl payload n) w1"
  obtain q y where cl: "(if wc then packet_clone p x else (0, x)) = (q, y)" by fastforce
  obtain r' z where out: "ip_output sim a b 6 p y = (r', z)" by fastforce
  have res: "(r, clone, w') = (if p = 0 then (- 1, 0, w1) else if wc \<and> q = 0 then (- 1, 0, packet_free p y)
      else if r' = - 1 then (- 1, 0, packet_free q (packet_free p z)) else (0, q, z))"
    using segment_course [OF _ cr x_def cl out] s sim pl n(2) by auto
  have len: "length (tcp_segment sp dp sq ak fl body) = 20 + n" using n(1) by (simp add: payload_of_def)
  note fp = filled_packet [OF ok(1) cr _ tcp_fill_whole [OF n(1)] len, folded x_def]
  have y: "same_net w y" "mem_ok y" "p \<in> w_live y" "w_live w \<subseteq> w_live y"
      "packet_ok (w_pkt y p)" "pk_bytes (w_pkt y p) = tcp_segment sp dp sq ak fl body"
      "pk_len (w_pkt y p) = 20 + n" "pk_data (w_pkt y p) = 64" if p: "p \<noteq> 0" "\<not> (wc \<and> q = 0)"
  proof -
    have "same_net x y \<and> w_live x \<subseteq> w_live y \<and> mem_ok y \<and> w_pkt y p = w_pkt x p"
    proof (cases wc)
      case False
      then show ?thesis using cl fp(2) [OF p(1)] by simp
    next
      case True
      then have c: "packet_clone p x = (q, y)" and q: "q \<noteq> 0" using cl p(2) by auto
      note e = packet_clone_effect [OF fp(2,3,5) [OF p(1)] c]
      have "keeps x y" using packet_clone_mem(1) [OF fp(2) [OF p(1)] c] by simp
      moreover have "p \<noteq> q" using e(4) [OF q] mem_okD [OF fp(2,3) [OF p(1)]] by auto
      ultimately show ?thesis using e(1) e(3) [OF q] by (auto simp: keeps_def)
    qed
    then show "same_net w y" "mem_ok y" "p \<in> w_live y" "w_live w \<subseteq> w_live y"
      "packet_ok (w_pkt y p)" "pk_bytes (w_pkt y p) = tcp_segment sp dp sq ak fl body"
      "pk_len (w_pkt y p) = 20 + n" "pk_data (w_pkt y p) = 64"
      using fp [OF p(1)] same_net_trans by auto
  qed
  note sent = output_packet [OF ok(2,3) y out]
  show "r = 0 \<or> r = - 1" using res by (auto split: if_splits)
  show "delivers iface (peer iface w) (arrival sim iface w) CB_ethernet_receive_event sim
     (eth_frame m (if_mac (w_iface w iface)) 0x0800
       (ip_bytes (ip_send_header a b 6 (20 + n)) @ tcp_segment sp dp sq ak fl body))
     (sm_sched (w_sim w sim)) w w'" if "r = 0"
    using res that sent(1,2) by (auto split: if_splits)
  show "wc \<longleftrightarrow> clone \<noteq> NULL" if "r = 0" using res that cl by (auto split: if_splits)
  have "w_arp w1 = w_arp w" using same_netD(5) [OF packet_create_effect(1) [OF ok(1) cr]] .
  moreover have "w_arp y = w_arp x" using cl send_arp_frame(2) by (metis snd_conv)
  moreover have "w_arp z = w_arp y" if "p \<noteq> 0" "\<not> (wc \<and> q = 0)"
    using ip_output_resolved(1) [of sim iface a b m y p] ok(3) neighbour_net [OF y(1) [OF that]] out that(1)
    by (metis ip_send_arp snd_conv)
  ultimately show "w_arp w' = w_arp w" using res by (auto simp: x_def split: if_splits)
  show "r = 0" if oom: "\<And>k. \<not> w_oom w k" and up: "path_up sim iface w"
  proof -
    have p: "p \<noteq> 0" by (rule packet_create_effect(4) [OF ok(1) cr oom])
    have q: "q \<noteq> 0" if wc
      using packet_clone_effect(5) [OF fp(2,3,5) [OF p], of q y] cl that oom same_netD(8) [OF fp(1) [OF p]] by simp
    then show ?thesis using res p sent(1,3) oom up by (auto split: if_splits)
  qed
qed

text \<open>Whatever happens, nothing allocated before is lost.\<close>

lemma segment_keeps:
  assumes ok: "mem_ok w" and s: "tcp_send_segment sim a b sp dp sq ak fl payload n wc w = (r, clone, w')"
  shows "keeps w w'"
proof (cases "sim = 0 \<or> n > 1460 \<or> n > 0 \<and> payload = None")
  case True
  then show ?thesis using s keeps_refl [OF ok] by (auto simp: tcp_send_segment_def split: if_splits)
next
  case False
  obtain p w1 where cr: "packet_create (20 + n) w = (p, w1)" by fastforce
  define x where "x = upd_pkt p (tcp_fill sp dp sq ak fl payload n) w1"
  obtain q y where cl: "(if wc then packet_clone p x else (0, x)) = (q, y)" by fastforce
  obtain r' z where out: "ip_output sim a b 6 p y = (r', z)" by fastforce
  have w': "w' = (if p = 0 then w1 else if wc \<and> q = 0 then packet_free p y
      else if r' = - 1 then packet_free q (packet_free p z) else z)"
    using segment_course [OF False cr x_def cl out] s by auto
  show ?thesis
  proof (cases "p = 0")
    case True
    then show ?thesis using w' packet_create_mem(1) [OF ok cr] by simp
  next
    case p: False
    have bx: "building w p x" unfolding x_def by (intro building_steps building_create [OF ok cr p]) simp
    have mx: "mem_ok x" using bx keeps_mem by (auto simp: building_def)
    have xy: "keeps x y" "q \<noteq> 0 \<Longrightarrow> fresh_packet x q y"
      using cl keeps_refl [OF mx] packet_clone_mem [OF mx, of p q y] by (auto split: if_splits)
    have yz: "keeps y z" by (rule ip_output_keeps [OF keeps_mem [OF xy(1)] out])
    have by': "building w p y" by (rule building_later [OF bx xy(1)])
    have bz: "building w p z" by (rule building_later [OF by' yz])
    have free: "keeps w (packet_free q (packet_free p z))"
    proof (cases "q = 0")
      case True
      then show ?thesis using building_discard [OF bz] by (simp add: packet_free_def)
    next
      case q: False
      have fq: "fresh_packet x q z" by (rule fresh_packet_keeps [OF xy(1) xy(2) [OF q] yz])
      have xz: "keeps x z" by (rule keeps_trans [OF xy(1) yz])
      have ox: "owned x p" "owned z p" using bx bz by (simp_all add: building_def fresh_packet_def)
      have eq: "packet_free p z = z\<lparr>w_live := w_live z - {p, pk_head (w_pkt z p)}\<rparr>"
        by (rule packet_free_owned [OF keeps_mem [OF xz] ox(2)])
      have hp: "pk_head (w_pkt z p) = pk_head (w_pkt x p)"
        using xz ox(1) mem_okD [OF mx] by (auto simp: keeps_def owned_def)
      have sub: "w_live w \<subseteq> w_live x" using bx by (simp add: building_def keeps_def)
      have "fresh_packet w q (packet_free p z)"
        using fq ox(1) sub unfolding eq by (auto simp: fresh_packet_def owned_def hp)
      then show ?thesis by (rule keeps_packet_free_fresh [OF building_discard [OF bz]])
    qed
    show ?thesis
      using w' p free building_keeps [OF bz] building_discard [OF by'] by (auto split: if_splits)
  qed
qed

section \<open>Receiving a segment\<close>

lemma tcp_at_segment: "tcp_at (tcp_segment sp dp sq ak fl body @ rest) = tcp_header sp dp sq ak fl"
  by (simp add: tcp_segment_def tcp.at_bytes)

lemma data_off_flags: "ns_ntohs (ns_htons (push_bit 12 5 OR ucast (fl :: u8))) = (push_bit 12 5 OR ucast fl :: u16)"
  by simp

lemma header_words: "drop_bit 12 (push_bit 12 5 OR ucast (fl :: u8) :: u16) = 5"
proof -
  have "drop_bit 12 (ucast fl :: u16) = 0"
    by (simp add: bit_eq_iff bit_simps)
  then show ?thesis by (simp add: drop_bit_or)
qed

lemma flags_kept:
  assumes "fl < 0x40"
  shows "(ucast ((push_bit 12 5 OR ucast fl) AND 0x3F :: u16) :: u8) = fl"
proof -
  have mask: "(0x3F :: u16) = mask 6" by (simp add: mask_eq_decr_exp)
  have "take_bit 6 fl = fl"
    using assms by (simp add: take_bit_eq_mod word_arith_nat_mod word_less_nat_alt)
  then have fl: "bit fl k \<Longrightarrow> k < 6" for k
    by (metis bit_take_bit_iff)
  have high: "\<not> bit (push_bit 12 5 :: u16) k" if "k < 6" for k
    using that by (simp only: bit_push_bit_iff) simp
  have keep: "(push_bit 12 5 OR ucast fl) AND mask 6 = (ucast fl :: u16)"
    by (rule bit_word_eqI)
       (use high in \<open>auto simp: bit_and_iff bit_or_iff bit_mask_iff bit_ucast_iff dest: fl simp del: push_bit_numeral\<close>)
  have "(ucast (ucast fl :: u16) :: u8) = fl"
    by (rule bit_word_eqI) (auto simp: bit_ucast_iff)
  then show ?thesis unfolding mask keep .
qed

lemma tcp_receive_dispatch:
  assumes p: "packet_ok (w_pkt w pkt)" "pk_head (w_pkt w pkt) \<noteq> NULL" "20 \<le> pk_data (w_pkt w pkt)"
    and nz: "iface \<noteq> NULL" "pkt \<noteq> NULL" "ctx \<noteq> NULL" "xc_sim (w_tcpctx w ctx) \<noteq> NULL"
      "xc_table (w_tcpctx w ctx) = t" "t \<noteq> NULL"
    and hdr: "pk_before (w_pkt w pkt) 20 = hdr" "ip_protocol (ip_at hdr) = 6"
      "ns_ntohl (ip_src_ip (ip_at hdr)) = ri" "ns_ntohl (ip_dst_ip (ip_at hdr)) = li"
    and body: "pk_bytes (w_pkt w pkt) = tcp_segment rp lp sq ak fl body" "fl < 0x40"
    and conn_at: "tcp_find_exact (Some (w_tcp w t)) li lp ri rp = Some i"
  shows "tcp_receive recv conn iface pkt ctx w = tcp_dispatch recv conn iface pkt ctx (t, i) sq ak fl (length body) w"
proof -
  let ?k = "w_pkt w pkt"
  have len: "pk_len ?k = 20 + length body"
    using arg_cong [OF body(1), of length] packet_okD(2) [OF p(1)] by simp
  have fits: "pk_data ?k + pk_len ?k \<le> pk_end ?k" using p(1) by (simp add: packet_ok_def pk_end_def)
  have at: "tcp_at (pk_rest ?k) = tcp_header rp lp sq ak fl"
    using pk_rest_bytes [of ?k] tcp_at_segment unfolding body(1) by metis
  have off: "ns_ntohs (tcp_data_off_flags (tcp_header rp lp sq ak fl)) = push_bit 12 5 OR ucast fl"
    unfolding tcp_header_def TcpHeader.simps by (rule data_off_flags)
  show ?thesis
    unfolding tcp_receive_def Let_def at off header_words flags_kept [OF body(2)]
    using nz p len fits hdr conn_at by (simp add: null_buffer_def tcp_header_def)
qed

section \<open>Data on an established connection\<close>

text \<open>The block once the acknowledgement of the segment has been processed.\<close>

definition after_ack :: "Tcb \<Rightarrow> u32 \<Rightarrow> u8 \<Rightarrow> Tcb" where
  "after_ack b ak fl = (if fl AND TCP_FLAG_ACK \<noteq> 0 \<and> tc_snd_una b < ak \<and> ak \<le> tc_snd_nxt b
     then (acked b ak)\<lparr>tc_snd_una := ak\<rparr> else b)"

lemma after_ack_simps [simp]:
  "tc_state (after_ack b ak fl) = tc_state b" "tc_rcv_nxt (after_ack b ak fl) = tc_rcv_nxt b"
  "tc_snd_nxt (after_ack b ak fl) = tc_snd_nxt b" "tc_valid (after_ack b ak fl) = tc_valid b"
  "conn_key (after_ack b ak fl) = conn_key b" "tc_recv_handler (after_ack b ak fl) = tc_recv_handler b"
  "tc_handler_ctx (after_ack b ak fl) = tc_handler_ctx b" "tc_local_ip (after_ack b ak fl) = tc_local_ip b"
  "tc_remote_ip (after_ack b ak fl) = tc_remote_ip b" "tc_local_port (after_ack b ak fl) = tc_local_port b"
  "tc_remote_port (after_ack b ak fl) = tc_remote_port b"
  by (simp_all add: after_ack_def conn_key_def)

lemma established_ack_after:
  assumes "slot_ok c (w_tcp w)"
  shows "tcb_of (established_ack c ak fl w) c = after_ack (tcb_of w c) ak fl"
    "w_tcp (established_ack c ak fl w) = at_slot c (\<lambda>b. after_ack b ak fl) (w_tcp w)"
proof -
  show "tcb_of (established_ack c ak fl w) c = after_ack (tcb_of w c) ak fl"
    using assms by (simp add: established_ack_def after_ack_def flag_set_def)
  show "w_tcp (established_ack c ak fl w) = at_slot c (\<lambda>b. after_ack b ak fl) (w_tcp w)"
    using assms
    by (auto simp: established_ack_def after_ack_def flag_set_def tcb_of_def slot_ok_def at_slot_def fun_eq_iff)
qed

text \<open>Processing an acknowledgement touches the block and the allocator only.\<close>

lemma free_packets_net:
  "same_net w (free_packets ps w)" "w_pkt (free_packets ps w) = w_pkt w"
  "mem_ok w \<Longrightarrow> mem_ok (free_packets ps w)"
proof -
  have "mem_ok (packet_free p w)" if "mem_ok w" for p and w :: world
    using that by (auto simp: packet_free_def free_block_def mem_ok_def)
  then show "mem_ok w \<Longrightarrow> mem_ok (free_packets ps w)" by (induction ps arbitrary: w) simp_all
  show "same_net w (free_packets ps w)"
  proof (induction ps arbitrary: w)
    case (Cons p ps)
    then show ?case using same_net_trans [OF same_net_basic(3) [of w p] Cons.IH] by simp
  qed simp
  show "w_pkt (free_packets ps w) = w_pkt w" by (induction ps arbitrary: w) simp_all
qed

definition but_tables :: "world \<Rightarrow> world \<Rightarrow> bool" where
  "but_tables w x \<longleftrightarrow> w_oom x = w_oom w \<and> w_iface x = w_iface w \<and> w_link x = w_link w \<and> w_dev x = w_dev w \<and>
     w_topo x = w_topo w \<and> w_sched x = w_sched w \<and> w_sim x = w_sim w \<and> w_arp x = w_arp w \<and>
     w_tcpctx x = w_tcpctx w \<and> w_pkt x = w_pkt w \<and> (mem_ok w \<longrightarrow> mem_ok x)"

lemma but_tables_trans: "but_tables w x \<Longrightarrow> but_tables x y \<Longrightarrow> but_tables w y"
  by (simp add: but_tables_def)

lemma but_tables_free: "but_tables w (free_packets ps w)"
  using free_packets_net [where w = w and ps = ps] by (simp add: but_tables_def same_net_def)

lemma but_tables_basic: "but_tables w w" "but_tables w (upd_tcb c f w)" "but_tables w (tcp_sendq_ack (Some c) a w)"
proof -
  show "but_tables w w" "but_tables w (upd_tcb c f w)"
    by (simp_all add: but_tables_def upd_tcb_def mem_ok_def)
  have "but_tables x (upd_tcb c g x)" for x g by (simp add: but_tables_def upd_tcb_def mem_ok_def)
  from but_tables_trans [OF but_tables_free this]
  show "but_tables w (tcp_sendq_ack (Some c) a w)" by (simp add: tcp_sendq_ack_def Let_def split_def)
qed

lemma established_ack_net: "but_tables w (established_ack c ak fl w)"
  using but_tables_basic(1) but_tables_trans [OF but_tables_basic(3,2)] by (simp add: established_ack_def)

lemma but_tablesD:
  assumes "but_tables w x"
  shows "w_iface x = w_iface w" "w_sched x = w_sched w" "w_sim x = w_sim w" "w_oom x = w_oom w"
    "w_tcpctx x = w_tcpctx w" "w_pkt x = w_pkt w" "mem_ok w \<Longrightarrow> mem_ok x"
    "neighbour sim j a b m x = neighbour sim j a b m w" "path_up sim j x = path_up sim j w"
    "peer j x = peer j w" "arrival sim j x = arrival sim j w"
  using assms
  by (auto simp: but_tables_def neighbour_def ip_find_source_iface_def interface_is_up_def path_up_def peer_def
      link_get_other_interface_def arrival_def simulator_now_def scheduler_now_def)

text \<open>The pure acknowledgement of what a connection has received.\<close>

definition ack_segment :: "Tcb \<Rightarrow> u8 list" where
  "ack_segment b = tcp_segment (tc_local_port b) (tc_remote_port b) (tc_snd_nxt b) (tc_rcv_nxt b) TCP_FLAG_ACK []"

lemma ack_sent:
  assumes ok: "mem_ok w" "eq_inv (sc_eq (w_sched w (sm_sched (w_sim w sim))))"
    and nb: "neighbour sim j (tc_local_ip (tcb_of w c)) (tc_remote_ip (tcb_of w c)) m w"
    and s: "tcp_send_ack sim c w = (r, w')"
  shows "r = 0 \<or> r = - 1"
    and "r = 0 \<Longrightarrow> delivers j (peer j w) (arrival sim j w) CB_ethernet_receive_event sim
     (eth_frame m (if_mac (w_iface w j)) 0x0800
       (ip_bytes (ip_send_header (tc_local_ip (tcb_of w c)) (tc_remote_ip (tcb_of w c)) 6 20) @ ack_segment (tcb_of w c)))
     (sm_sched (w_sim w sim)) w w'"
    and "(\<And>k. \<not> w_oom w k) \<Longrightarrow> path_up sim j w \<Longrightarrow> r = 0"
    and "keeps w w'" "bystander q w w'" "w_tcp w' = w_tcp w"
proof -
  let ?b = "tcb_of w c"
  obtain cl where seg: "tcp_send_segment sim (tc_local_ip ?b) (tc_remote_ip ?b) (tc_local_port ?b) (tc_remote_port ?b)
      (tc_snd_nxt ?b) (tc_rcv_nxt ?b) TCP_FLAG_ACK None 0 False w = (r, cl, w')"
    using s by (auto simp: tcp_send_ack_def Let_def split: prod.splits)
  have "payload_of None 0 []" by (simp add: payload_of_def)
  note sent = segment_sent [OF ok nb this _ seg]
  show "r = 0 \<or> r = - 1" using sent(1) by simp
  show "r = 0 \<Longrightarrow> delivers j (peer j w) (arrival sim j w) CB_ethernet_receive_event sim
     (eth_frame m (if_mac (w_iface w j)) 0x0800
       (ip_bytes (ip_send_header (tc_local_ip ?b) (tc_remote_ip ?b) 6 20) @ ack_segment ?b))
     (sm_sched (w_sim w sim)) w w'" using sent(2) by (simp add: ack_segment_def)
  show "(\<And>k. \<not> w_oom w k) \<Longrightarrow> path_up sim j w \<Longrightarrow> r = 0" using sent(3) by simp
  show "keeps w w'" by (rule segment_keeps [OF ok(1) seg])
  show "bystander q w w'" using untouched_segment [OF bystander_refl] seg by (metis snd_conv)
  show "w_tcp w' = w_tcp w" using ack_tables(1) [of sim c w] s by simp
qed

text \<open>The course of a data segment that finds its connection established.\<close>

lemma established_receives:
  assumes w: "mem_ok w" "eq_inv (sc_eq (w_sched w (sm_sched (w_sim w sim))))" "owned w pkt"
    and p: "packet_ok (w_pkt w pkt)" "20 \<le> pk_data (w_pkt w pkt)"
    and nz: "iface \<noteq> NULL" "ctx \<noteq> NULL" "xc_sim (w_tcpctx w ctx) = sim" "xc_table (w_tcpctx w ctx) = t" "t \<noteq> NULL"
    and hdr: "ip_at (pk_before (w_pkt w pkt) 20) = ip" "ip_protocol ip = 6"
      "ns_ntohl (ip_src_ip ip) = ri" "ns_ntohl (ip_dst_ip ip) = li"
    and seg: "pk_bytes (w_pkt w pkt) = tcp_segment rp lp sq ak fl body" "fl < 0x40" "body \<noteq> []"
    and con: "tcp_find_exact (Some (w_tcp w t)) li lp ri rp = Some i" "tc_state (tcb_of w (t, i)) = TCP_ESTABLISHED"
    and net: "neighbour sim j li ri m w"
    and rc: "tcp_receive recv conn iface pkt ctx w = (r, w')"
    and b: "b = after_ack (tcb_of w (t, i)) ak fl" "x = established_ack (t, i) ak fl w"
      "nxt = (if sq = tc_rcv_nxt b then sq + of_nat (length body) else tc_rcv_nxt b)"
  shows "\<exists>y. w_tcp y = at_slot (t, i) (\<lambda>_. b\<lparr>tc_rcv_nxt := nxt\<rparr>) (w_tcp w) \<and>
    (r = 0 \<longrightarrow> delivers j (peer j w) (arrival sim j w) CB_ethernet_receive_event sim
       (eth_frame m (if_mac (w_iface w j)) 0x0800
         (ip_bytes (ip_send_header li ri 6 20) @ ack_segment (b\<lparr>tc_rcv_nxt := nxt\<rparr>)))
       (sm_sched (w_sim w sim)) x y \<and>
      (if sq = tc_rcv_nxt b
       then \<exists>s. packet_ok s \<and> pk_bytes s = body \<and>
         w' = (if tc_recv_handler b \<noteq> 0
               then recv (tc_recv_handler b) (t, i) pkt (tc_handler_ctx b) (upd_pkt pkt (\<lambda>_. s) y)
               else packet_free pkt (upd_pkt pkt (\<lambda>_. s) y))
       else w' = packet_free pkt y)) \<and>
    (r \<noteq> 0 \<longrightarrow> r = - 1 \<and> w' = rx_error iface (packet_free pkt y)) \<and>
    ((\<forall>k. \<not> w_oom w k) \<and> path_up sim j w \<longrightarrow> r = 0)"
proof -
  let ?c = "(t, i)" and ?k = "w_pkt w pkt"
  have sim: "sim \<noteq> 0" using net by (simp add: neighbour_def)
  have pk0: "pkt \<noteq> 0" "pk_head ?k \<noteq> 0" "pkt < w_brk w" using w(1,3) mem_okD by (auto simp: owned_def)
  note fe = find_exact_ok [OF con(1)]
  note en = but_tablesD [OF established_ack_net [of w ?c ak fl, folded b(2)]]
  note ea = established_ack_after [OF fe(1), of ak fl, folded b]
  have key: "tc_local_ip b = li" "tc_remote_ip b = ri" using fe(4) by (simp_all add: b(1) conn_key_def)
  have slot: "slot_ok ?c (w_tcp x)" using fe(1) by (simp add: ea(2))
  have len: "pk_len ?k = 20 + length body"
    using arg_cong [OF seg(1), of length] packet_okD(2) [OF p(1)] by simp
  define y1 where "y1 = (if sq = tc_rcv_nxt b then upd_tcb ?c (\<lambda>b. b\<lparr>tc_rcv_nxt := tc_rcv_nxt b + of_nat (length body)\<rparr>) x else x)"
  have n1: "but_tables x y1" using but_tables_basic by (simp add: y1_def)
  note d1 = but_tablesD [OF n1]
  have b1: "tcb_of y1 ?c = b\<lparr>tc_rcv_nxt := nxt\<rparr>" using slot ea(1) by (simp add: y1_def b(3))
  have t1: "w_tcp y1 = at_slot ?c (\<lambda>_. b\<lparr>tc_rcv_nxt := nxt\<rparr>) (w_tcp w)"
  proof (cases "sq = tc_rcv_nxt b")
    case True
    then show ?thesis
      using fe(1) by (auto simp: y1_def ea(2) b(1,3) tcb_of_def at_slot_def slot_ok_def fun_eq_iff)
  next
    case False
    then have "b\<lparr>tc_rcv_nxt := nxt\<rparr> = b" by (simp add: b(3))
    moreover have "w_tcp y1 = at_slot ?c (\<lambda>_. b) (w_tcp w)"
      using False by (simp add: y1_def ea(2) b(1) tcb_of_def at_slot_def)
    ultimately show ?thesis by simp
  qed
  obtain r1 y where ack: "tcp_send_ack sim ?c y1 = (r1, y)" by fastforce
  have ok1: "mem_ok y1" "eq_inv (sc_eq (w_sched y1 (sm_sched (w_sim y1 sim))))"
    "neighbour sim j (tc_local_ip (tcb_of y1 ?c)) (tc_remote_ip (tcb_of y1 ?c)) m y1"
    using d1 en w net by (simp_all add: b1 key)
  note sent = ack_sent [OF ok1 ack]
  have brk: "w_brk y1 = w_brk w"
  proof -
    have "w_brk (free_packets ps z) = w_brk z" for ps and z :: world by (induction ps arbitrary: z) simp_all
    then show ?thesis
      by (simp add: y1_def b(2) established_ack_def upd_tcb_def tcp_sendq_ack_def Let_def split_def)
  qed
  have pky: "w_pkt y pkt = ?k"
    using sent(5) [of pkt] pk0(3) brk d1 en by (simp add: bystander_def)
  obtain s where s: "packet_strip ?k 20 = (0, s)" using len by (simp add: packet_strip_def Let_def)
  have sb: "packet_ok (s\<lparr>pk_layer := 5\<rparr>)" "pk_bytes (s\<lparr>pk_layer := 5\<rparr>) = body"
    using packet_strip_ok [OF p(1) s] packet_strip_bytes [OF p(1), of 20] len s seg(1)
    by (simp_all add: tcp_segment_def tcp.length_bytes)
  have strip: "upd_pkt pkt (\<lambda>k. k\<lparr>pk_layer := 5\<rparr>) (snd (pkt_strip pkt 20 y)) = upd_pkt pkt (\<lambda>_. s\<lparr>pk_layer := 5\<rparr>) y"
    "fst (pkt_strip pkt 20 y) = 0"
    using s pky by (simp_all add: pkt_strip_def upd_pkt_twice)
  have yb: "tcb_of y ?c = b\<lparr>tc_rcv_nxt := nxt\<rparr>" using sent(6) b1 by (simp add: tcb_of_def)
  have "tcp_receive recv conn iface pkt ctx w = tcp_dispatch recv conn iface pkt ctx ?c sq ak fl (length body) w"
    by (rule tcp_receive_dispatch) (use p pk0 nz hdr seg con sim in auto)
  also have "\<dots> = established_data recv iface pkt sim ?c sq (length body) x"
    using con(2) seg(3) by (simp add: tcp_dispatch_def tcp_on_established_def Let_def nz(3) b(2))
  also have "\<dots> = (if r1 = - 1 then tcp_malformed iface pkt y
      else if sq = tc_rcv_nxt b then
        (if tc_recv_handler b \<noteq> 0 then (0, recv (tc_recv_handler b) ?c pkt (tc_handler_ctx b) (upd_pkt pkt (\<lambda>_. s\<lparr>pk_layer := 5\<rparr>) y))
         else tcp_consume pkt (upd_pkt pkt (\<lambda>_. s\<lparr>pk_layer := 5\<rparr>) y))
      else tcp_consume pkt y)"
    using ack strip slot yb
    by (cases "sq = tc_rcv_nxt b") (simp_all add: established_data_def Let_def split_def ea(1) y1_def)
  finally have run: "(r, w') = \<dots>" using rc by simp
  have "delivers j (peer j w) (arrival sim j w) CB_ethernet_receive_event sim
       (eth_frame m (if_mac (w_iface w j)) 0x0800
         (ip_bytes (ip_send_header li ri 6 20) @ ack_segment (b\<lparr>tc_rcv_nxt := nxt\<rparr>)))
       (sm_sched (w_sim w sim)) x y" if "r1 = 0"
    using delivers_from [OF sent(2) [OF that], of x] d1 en key b1
    by (auto simp: y1_def upd_tcb_def split: if_splits)
  then show ?thesis
    using run sent(1,3,6) t1 sb d1 en
    by (intro exI [of _ y])
      (auto simp: tcp_malformed_def tcp_consume_def split: if_splits intro!: exI [of _ "s\<lparr>pk_layer := 5\<rparr>"])
qed

text \<open>
  C11 An established connection receives data. Let \<open>b\<close> be its block once the acknowledgement in the
  segment has been processed. If the segment starts at the next byte expected, the expectation moves
  past its data, this is acknowledged to the sender, and the receive handler of the connection (when
  there is one) gets the packet with exactly the data; if not, the byte expected is acknowledged again
  and the packet is freed without a callback. When the acknowledgement cannot be sent the packet is
  freed, counted as an error and the result is -1, although the expectation has moved: data that
  arrived in order is then lost. With memory and the path available the result is 0.
\<close>

theorem tcp_receive_data:
  assumes w: "mem_ok w" "eq_inv (sc_eq (w_sched w (sm_sched (w_sim w sim))))" "owned w pkt"
    and p: "packet_ok (w_pkt w pkt)" "20 \<le> pk_data (w_pkt w pkt)"
    and nz: "iface \<noteq> NULL" "ctx \<noteq> NULL" "xc_sim (w_tcpctx w ctx) = sim" "xc_table (w_tcpctx w ctx) = t" "t \<noteq> NULL"
    and hdr: "ip_at (pk_before (w_pkt w pkt) 20) = ip" "ip_protocol ip = 6"
      "ns_ntohl (ip_src_ip ip) = ri" "ns_ntohl (ip_dst_ip ip) = li"
    and seg: "pk_bytes (w_pkt w pkt) = tcp_segment rp lp sq ak fl body" "fl < 0x40" "body \<noteq> []"
    and con: "tcp_find_exact (Some (w_tcp w t)) li lp ri rp = Some i" "tc_state (tcb_of w (t, i)) = TCP_ESTABLISHED"
    and net: "neighbour sim j li ri m w"
    and rc: "tcp_receive recv conn iface pkt ctx w = (r, w')"
    and b: "b = after_ack (tcb_of w (t, i)) ak fl" "x = established_ack (t, i) ak fl w"
      "nxt = (if sq = tc_rcv_nxt b then sq + of_nat (length body) else tc_rcv_nxt b)"
  shows "\<exists>y. w_tcp y = at_slot (t, i) (\<lambda>_. b\<lparr>tc_rcv_nxt := nxt\<rparr>) (w_tcp w) \<and>
    (r = 0 \<longrightarrow> delivers j (peer j w) (arrival sim j w) CB_ethernet_receive_event sim
       (eth_frame m (if_mac (w_iface w j)) 0x0800
         (ip_bytes (ip_send_header li ri 6 20) @ ack_segment (b\<lparr>tc_rcv_nxt := nxt\<rparr>)))
       (sm_sched (w_sim w sim)) x y \<and>
      (if sq = tc_rcv_nxt b
       then \<exists>s. packet_ok s \<and> pk_bytes s = body \<and>
         w' = (if tc_recv_handler b \<noteq> 0
               then recv (tc_recv_handler b) (t, i) pkt (tc_handler_ctx b) (upd_pkt pkt (\<lambda>_. s) y)
               else packet_free pkt (upd_pkt pkt (\<lambda>_. s) y))
       else w' = packet_free pkt y)) \<and>
    (r \<noteq> 0 \<longrightarrow> r = - 1 \<and> w' = rx_error iface (packet_free pkt y)) \<and>
    ((\<forall>k. \<not> w_oom w k) \<and> path_up sim j w \<longrightarrow> r = 0)"
  by (rule established_receives [OF assms])

text \<open>The first of the two hosts has a connection from port 80 to port 4000 of the second.\<close>

definition lan_conn :: Tcb where
  "lan_conn = tcb_zero\<lparr>tc_valid := 1, tc_local_ip := 0x0A000001, tc_local_port := 80, tc_remote_ip := 0x0A000002,
     tc_remote_port := 4000, tc_state := TCP_ESTABLISHED, tc_snd_una := 1, tc_snd_nxt := 1, tc_rcv_nxt := 7,
     tc_recv_handler := 3\<rparr>"

definition lan_tcp :: "Packet \<Rightarrow> world" where
  "lan_tcp pk = (lan pk (event_queue_new 4))\<lparr>w_tcp := \<lambda>_. \<lparr>tt_tcbs = lan_conn # replicate 63 tcb_zero, tt_count = 1\<rparr>\<rparr>"

lemma lan_tcp_simps [simp]:
  "w_oom (lan_tcp pk) = (\<lambda>_. False)" "w_pkt (lan_tcp pk) 20 = pk\<lparr>pk_head := 21\<rparr>"
  "tcb_of (lan_tcp pk) (15, 0) = lan_conn" "w_sim (lan_tcp pk) s = \<lparr>sm_topo = 2, sm_sched = 3, sm_end_time = 0\<rparr>"
  "sc_eq (w_sched (lan_tcp pk) s) = event_queue_new 4" "w_tcpctx (lan_tcp pk) c = \<lparr>xc_sim = 1, xc_table = 15\<rparr>"
  by (simp_all add: lan_tcp_def tcb_of_def lan_def)

lemma lan_tcp_net: "mem_ok (lan_tcp pk)" "owned (lan_tcp pk) 20" "neighbour 1 10 0x0A000001 0x0A000002 [2, 0, 0, 0, 0, 2] (lan_tcp pk)"
  "path_up 1 10 (lan_tcp pk)"
  using lan_mem_ok [of pk "event_queue_new 4"] lan_owned [of pk "event_queue_new 4"] lan_neighbour [of pk "event_queue_new 4"]
    lan_endpoint(3) [of pk "event_queue_new 4"]
  by (simp_all add: lan_tcp_def neighbour_def ip_find_source_iface_def interface_is_up_def path_up_def peer_def
      link_get_other_interface_def mem_ok_def owned_def)

lemma lan_tcp_find: "tcp_find_exact (Some (w_tcp (lan_tcp pk) 15)) 0x0A000001 80 0x0A000002 4000 = Some 0"
  "tc_state (tcb_of (lan_tcp pk) (15, 0)) = TCP_ESTABLISHED"
  by (simp_all add: lan_tcp_def lan_conn_def tcp_find_exact_def tcb_of_def)

theorem tcp_receive_data_witness:
  "\<exists>w'. tcp_receive (\<lambda>_ _ _ _ x. x) (\<lambda>_ _ _ x. x) 10 20 16
     (lan_tcp (stripped_packet (ip_send_header 0x0A000002 0x0A000001 6 23) (tcp_segment 4000 80 7 1 0x18 [1, 2, 3]))) = (0, w')"
proof -
  let ?h = "ip_send_header 0x0A000002 0x0A000001 6 23" and ?s = "tcp_segment 4000 80 7 1 0x18 [1, 2, 3]"
  let ?w = "lan_tcp (stripped_packet ?h ?s)"
  obtain r w' where rc: "tcp_receive (\<lambda>_ _ _ _ x. x) (\<lambda>_ _ _ x. x) 10 20 16 ?w = (r, w')" by fastforce
  have q: "eq_inv (sc_eq (w_sched ?w (sm_sched (w_sim ?w 1))))" using lan_queue by simp
  have p: "packet_ok (w_pkt ?w 20)" "20 \<le> pk_data (w_pkt ?w 20)" "pk_bytes (w_pkt ?w 20) = ?s"
    "ip_at (pk_before (w_pkt ?w 20) 20) = ?h"
    using stripped_packet [of ?h ?s] ip.at_bytes_exact [of ?h] by simp_all
  have h: "ip_protocol ?h = 6" "ns_ntohl (ip_src_ip ?h) = 0x0A000002" "ns_ntohl (ip_dst_ip ?h) = 0x0A000001"
    by (simp_all add: ip_send_header_fields)
  have n: "(10 :: nat) \<noteq> 0" "(16 :: nat) \<noteq> 0" "xc_sim (w_tcpctx ?w 16) = 1" "xc_table (w_tcpctx ?w 16) = 15" "(15 :: nat) \<noteq> 0"
    "(0x18 :: u8) < 0x40" "[1, 2, 3 :: u8] \<noteq> []" by simp_all
  have "(\<forall>k. \<not> w_oom ?w k) \<and> path_up 1 10 ?w" using lan_tcp_net(4) by simp
  then have "r = 0"
    using tcp_receive_data [OF lan_tcp_net(1) q lan_tcp_net(2) p(1,2) n(1-5) p(4) h p(3) n(6,7) lan_tcp_find
        lan_tcp_net(3) rc refl refl refl] by blast
  then show ?thesis using rc by blast
qed

end
