(* ===== verification/Tcp_Delivery.thy ===== *)
theory Tcp_Delivery
  imports Tcp_Data
begin

text \<open>
  \<open>tcp_send\<close> on one host, and the way of its segment to the receive handler on the other.
\<close>

section \<open>The retransmission timer\<close>

text \<open>
  \<open>tcp_send\<close> starts it without a context. It is an event of its own, one second ahead, or there
  is no timer when memory runs out.
\<close>

lemma retransmit_timer:
  assumes q: "eq_inv (sc_eq (w_sched w s))" "s = sm_sched (w_sim w sim)"
    and w': "w' = tcp_schedule_retransmit sim NULL (Some c) w"
  shows "\<exists>q. w_sched w' = (w_sched w)(s := (w_sched w s)\<lparr>sc_eq := q\<rparr>) \<and> eq_inv q \<and>
    (q = sc_eq (w_sched w s) \<or> (\<exists>e. ev_timestamp e = sc_now (w_sched w s) + 1000000 \<and> ev_type e = EVT_TCP_RETRANSMIT \<and>
       ev_handler e = CB_NULL \<and> ev_data e = Some c \<and> eq_list q = insert_event e (eq_list (sc_eq (w_sched w s)))))"
    and "w_pkt w' = w_pkt w" "w_arp w' = w_arp w" "mem_ok w \<Longrightarrow> keeps w w'"
proof -
  let ?now = "sc_now (w_sched w s) + 1000000"
  let ?Q = "\<lambda>x. \<exists>q. w_sched x = (w_sched w)(s := (w_sched w s)\<lparr>sc_eq := q\<rparr>) \<and> eq_inv q \<and>
    (q = sc_eq (w_sched w s) \<or> (\<exists>e. ev_timestamp e = ?now \<and> ev_type e = EVT_TCP_RETRANSMIT \<and>
       ev_handler e = CB_NULL \<and> ev_data e = Some c \<and> eq_list q = insert_event e (eq_list (sc_eq (w_sched w s)))))"
  have same: "?Q x" if "w_sched x = w_sched w" for x
    using that q(1) by (intro exI [of _ "sc_eq (w_sched w s)"]) simp
  have "?Q w' \<and> w_pkt w' = w_pkt w \<and> w_arp w' = w_arp w \<and> (mem_ok w \<longrightarrow> keeps w w')"
  proof (cases "sim = 0 \<or> s = 0")
    case True
    then have "w' = w" using w' q(2) by (auto simp: tcp_schedule_retransmit_def)
    then show ?thesis using same [OF refl] keeps_refl by blast
  next
    case False
    obtain e w1 where ec: "event_create_callback EVT_TCP_RETRANSMIT ?now NULL NULL NULL (Some c) CB_NULL NULL w = (e, w1)"
      by fastforce
    have c1: "same_net w w1" "w_pkt w1 = w_pkt w" "mem_ok w \<Longrightarrow> keeps w w1"
      using event_create_effect(1,2) [OF ec] event_create_mem(1) [OF _ ec] by auto
    note n1 = same_netD [OF c1(1)]
    have run: "w' = (if e = None then w1 else let (res, w2) = scheduler_schedule s e w1
        in if res = - 1 then event_free e w2 else upd_tcb c (\<lambda>b. b\<lparr>tc_retransmit_ts := ?now\<rparr>) w2)"
      using False w' ec
      by (simp add: q(2) tcp_schedule_retransmit_def Let_def event_create_def scheduler_now_def cong: if_cong)
    show ?thesis
    proof (cases e)
      case None
      then show ?thesis using run c1(2,3) n1(5) same [OF n1(3)] by simp
    next
      case (Some ev)
      obtain res w2 where sc: "scheduler_schedule s (Some ev) w1 = (res, w2)" by fastforce
      have q1: "eq_inv (sc_eq (w_sched w1 s))" "s \<noteq> 0" using q(1) n1 False by simp_all
      note ef = scheduler_schedule_effect [OF q1 sc]
      have ev: "ev_timestamp ev = ?now" "ev_type ev = EVT_TCP_RETRANSMIT" "ev_handler ev = CB_NULL" "ev_data ev = Some c"
        using ec Some by (auto simp: event_create_callback_def Let_def split: prod.splits if_splits)
      have k2: "keeps w w2" if "mem_ok w"
        using keeps_trans [OF c1(3) [OF that] schedule_mem [OF keeps_mem [OF c1(3) [OF that]] sc]] .
      have arp: "w_arp w2 = w_arp w" using n1 scheduler_schedule_simps(15) [of s "Some ev" w1] sc by simp
      show ?thesis
      proof (cases "res = 0")
        case True
        then have "w' = upd_tcb c (\<lambda>b. b\<lparr>tc_retransmit_ts := ?now\<rparr>) w2" using run Some sc by simp
        moreover have "keeps w (upd_tcb c f w2)" if "mem_ok w" for f
          using k2 [OF that] by (simp add: keeps_def upd_tcb_def mem_ok_def)
        ultimately show ?thesis
          using ef(2,4) True n1 c1(2) ev arp by (auto simp: upd_tcb_def)
      next
        case res: False
        then have w': "w' = event_free (Some ev) w2" using run Some sc ef(1) by simp
        have "keeps w (event_free (Some ev) w2)" if "mem_ok w"
        proof -
          have "ev_self ev \<in> w_live w1" "ev_self ev \<notin> w_live w" using event_create_mem(2) [OF that ec Some] by auto
          moreover have "w_live w2 = w_live w1" using scheduler_schedule_simps(16) [of s "Some ev" w1] sc by simp
          ultimately show ?thesis using keeps_free_fresh [OF k2 [OF that]] by (simp add: event_free_def)
        qed
        moreover have "w_sched w' = w_sched w" using same_netD(3) [OF ef(3) [OF res]] n1 w' by simp
        from same [OF this] have "?Q w'" .
        ultimately show ?thesis using w' ef(2) c1(2) arp by simp
      qed
    qed
  qed
  then show "?Q w'" "w_pkt w' = w_pkt w" "w_arp w' = w_arp w" "mem_ok w \<Longrightarrow> keeps w w'" by blast+
qed

section \<open>What tcp_send does\<close>

lemma tcp_sent:
  assumes ok: "mem_ok w" "eq_inv (sc_eq (w_sched w sch))" "sch = sm_sched (w_sim w sim)"
    and b: "slot_ok c (w_tcp w)" "b = tcb_of w c" "tc_valid b = 1" "tc_state b = TCP_ESTABLISHED" "sendq_inv b"
      "owned_packets b = []"
    and net: "neighbour sim j (tc_local_ip b) (tc_remote_ip b) m w"
    and n: "0 < n" "n \<le> length data" "k = min n 1460"
    and s: "tcp_send sim (Some c) (Some data) n w = (r, w')"
  shows "r = 0 \<or> r = - 1"
    and "r = 0 \<Longrightarrow> \<exists>y q. delivers j (peer j w) (arrival sim j w) CB_ethernet_receive_event sim
       (eth_frame m (if_mac (w_iface w j)) 0x0800 (ip_bytes (ip_send_header (tc_local_ip b) (tc_remote_ip b) 6 (20 + k)) @
         tcp_segment (tc_local_port b) (tc_remote_port b) (tc_snd_nxt b) (tc_rcv_nxt b) (TCP_FLAG_ACK OR TCP_FLAG_PSH) (take k data)))
       sch w y \<and>
     w_sched w' = (w_sched y)(sch := (w_sched y sch)\<lparr>sc_eq := q\<rparr>) \<and> eq_inv q \<and>
     (q = sc_eq (w_sched y sch) \<or> (\<exists>e. ev_timestamp e = sc_now (w_sched w sch) + 1000000 \<and> ev_handler e = CB_NULL \<and>
        ev_type e = EVT_TCP_RETRANSMIT \<and> eq_list q = insert_event e (eq_list (sc_eq (w_sched y sch))))) \<and>
     w_pkt w' = w_pkt y \<and> w_arp w' = w_arp w \<and> keeps w y \<and> keeps y w'"
    and "r = 0 \<Longrightarrow> tc_snd_nxt (tcb_of w' c) = tc_snd_nxt b + of_nat k \<and> tc_state (tcb_of w' c) = TCP_ESTABLISHED \<and>
      (\<exists>s. in_flight (tcb_of w' c) = Some s \<and> sg_seq_start s = tc_snd_nxt b \<and> sg_seq_end s = tc_snd_nxt b + of_nat k) \<and>
      (\<forall>t. t \<noteq> fst c \<longrightarrow> w_tcp w' t = w_tcp w t)"
    and "(\<And>k. \<not> w_oom w k) \<Longrightarrow> path_up sim j w \<Longrightarrow> r = 0"
proof -
  let ?fl = "TCP_FLAG_ACK OR TCP_FLAG_PSH"
  have sim: "sim \<noteq> 0" using net by (simp add: neighbour_def)
  obtain e0 where e0: "sq_entries (tc_sendq b) = [e0]" by (rule sendq_single [OF b(5)])
  have free: "\<not> seg_used e0" using b(6) e0 by (auto simp: owned_packets_def split: if_splits)
  have k: "k = (if n > 1460 then 1460 else n)" "payload_of (Some data) k (take k data)" "k \<le> 1460"
    using n by (auto simp: payload_of_def)
  obtain res p y where seg: "tcp_send_segment sim (tc_local_ip b) (tc_remote_ip b) (tc_local_port b) (tc_remote_port b)
      (tc_snd_nxt b) (tc_rcv_nxt b) ?fl (Some data) k True w = (res, p, y)"
    by (metis prod_cases3)
  have eq: "eq_inv (sc_eq (w_sched w (sm_sched (w_sim w sim))))" using ok(2,3) by simp
  note sent = segment_sent [OF ok(1) eq net k(2,3) seg]
  have ky: "keeps w y" by (rule segment_keeps [OF ok(1) seg])
  have ty: "w_tcp y = w_tcp w" "w_sim y = w_sim w" "scheduler_now sch y = scheduler_now sch w"
    using same_tablesD [OF quiet.step_send_segment [OF quiet.R_refl]] seg by (metis snd_conv)+
  define sched where "sched = sm_sched (w_sim y sim)"
  have sched: "sched = sch" using ty(2) ok(3) by (simp add: sched_def)
  define now where "now = (if sched \<noteq> 0 then scheduler_now sched y else 0)"
  obtain tr b1 where track: "tcp_sendq_track b p (tc_snd_nxt b) (tc_snd_nxt b + of_nat k) ?fl now = (tr, b1)" by fastforce
  have go: "n > 0 \<longrightarrow> Some data \<noteq> None" "n \<noteq> 0" "tcp_sendq_has_unacked (tcb_of w c) = 0"
    using n(1) e0 free b(2) by (auto simp: has_unacked_1)
  note run = tcp_send_course [OF sim b(3,4) [unfolded b(2)] go b(2) k(1) seg sched_def now_def track]
  have tracked: "tr = 0 \<and> tc_snd_nxt b1 = tc_snd_nxt b \<and> tc_state b1 = tc_state b \<and>
     (\<exists>s. in_flight b1 = Some s \<and> sg_seq_start s = tc_snd_nxt b \<and> sg_seq_end s = tc_snd_nxt b + of_nat k)" if "res = 0"
  proof (rule tcp_sendq_track_cases [OF b(5), of p "tc_snd_nxt b" "tc_snd_nxt b + of_nat k" ?fl now])
    show "p \<noteq> 0" using sent(4) that by simp
  qed (use track e0 free sent(4) that in \<open>auto simp: in_flight_def\<close>)
  define z where "z = upd_tcb c (\<lambda>b. b\<lparr>tc_snd_nxt := tc_snd_nxt b + of_nat k\<rparr>) (upd_tcb c (\<lambda>_. b1) y)"
  have end0: "r = 0 \<and> w' = (if sch \<noteq> 0 then tcp_schedule_retransmit sim 0 (Some c) z else z)" if "res = 0"
    using run s tracked [OF that] that sched by (simp add: z_def Let_def)
  have z: "w_sched z = w_sched y" "w_sim z = w_sim y" "w_pkt z = w_pkt y" "w_arp z = w_arp y" "w_live z = w_live y"
    "tcb_of z c = b1\<lparr>tc_snd_nxt := tc_snd_nxt b1 + of_nat k\<rparr>" "keeps y z"
    using b(1) ty keeps_mem [OF ky] by (auto simp: z_def upd_tcb_def tcb_of_def slot_ok_def keeps_def mem_ok_def)
  have "res = 0 \<or> res = - 1" by (rule sent(1))
  moreover have "r = - 1" if "res = - 1" using run s that by simp
  ultimately show "r = 0 \<or> r = - 1" using end0 by blast
  show "r = 0" if "\<And>k. \<not> w_oom w k" "path_up sim j w" using sent(3) that end0 by blast
  have r0: "res = 0" if "r = 0" using that sent(1) run s by auto
  have now: "sc_now (w_sched y sch) = sc_now (w_sched w sch)" if "sch \<noteq> 0"
    using ty(3) that by (simp add: scheduler_now_def)
  show "tc_snd_nxt (tcb_of w' c) = tc_snd_nxt b + of_nat k \<and> tc_state (tcb_of w' c) = TCP_ESTABLISHED \<and>
      (\<exists>s. in_flight (tcb_of w' c) = Some s \<and> sg_seq_start s = tc_snd_nxt b \<and> sg_seq_end s = tc_snd_nxt b + of_nat k) \<and>
      (\<forall>t. t \<noteq> fst c \<longrightarrow> w_tcp w' t = w_tcp w t)" if "r = 0"
  proof -
    note e = end0 [OF r0 [OF that]] and t = tracked [OF r0 [OF that]]
    have slot: "slot_ok c (w_tcp z)" using b(1) ty(1) by (simp add: z_def)
    have "(tcb_of w' c = tcb_of z c \<or> (\<exists>ts. tcb_of w' c = (tcb_of z c)\<lparr>tc_retransmit_ts := ts\<rparr>)) \<and>
        (\<forall>t. t \<noteq> fst c \<longrightarrow> w_tcp w' t = w_tcp z t)"
      using e slot schedule_retransmit_tables [of sim 0 c z]
      by (auto simp: tcb_of_def at_slot_def slot_ok_def split: if_splits)
    moreover have "w_tcp z t = w_tcp w t" if "t \<noteq> fst c" for t
      using that ty(1) by (simp add: z_def at_slot_def)
    ultimately show ?thesis using t z(6) b(4) by (auto simp: in_flight_def)
  qed
  show "\<exists>y q. delivers j (peer j w) (arrival sim j w) CB_ethernet_receive_event sim
       (eth_frame m (if_mac (w_iface w j)) 0x0800 (ip_bytes (ip_send_header (tc_local_ip b) (tc_remote_ip b) 6 (20 + k)) @
         tcp_segment (tc_local_port b) (tc_remote_port b) (tc_snd_nxt b) (tc_rcv_nxt b) ?fl (take k data)))
       sch w y \<and>
     w_sched w' = (w_sched y)(sch := (w_sched y sch)\<lparr>sc_eq := q\<rparr>) \<and> eq_inv q \<and>
     (q = sc_eq (w_sched y sch) \<or> (\<exists>e. ev_timestamp e = sc_now (w_sched w sch) + 1000000 \<and> ev_handler e = CB_NULL \<and>
        ev_type e = EVT_TCP_RETRANSMIT \<and> eq_list q = insert_event e (eq_list (sc_eq (w_sched y sch))))) \<and>
     w_pkt w' = w_pkt y \<and> w_arp w' = w_arp w \<and> keeps w y \<and> keeps y w'" if "r = 0"
  proof -
    note d = sent(2) [OF r0 [OF that]] and e = end0 [OF r0 [OF that]]
    have qy: "eq_inv (sc_eq (w_sched y sch))" using d ok(3) by (auto simp: delivers_def)
    show ?thesis
    proof (cases "sch = 0")
      case True
      then have "w' = z" using e by simp
      then show ?thesis using d ok(3) z qy ky sent(5) by (intro exI [of _ y] exI [of _ "sc_eq (w_sched y sch)"]) simp
    next
      case False
      then have w': "w' = tcp_schedule_retransmit sim 0 (Some c) z" using e by simp
      have qz: "eq_inv (sc_eq (w_sched z sch))" "sch = sm_sched (w_sim z sim)" using qy z ty(2) ok(3) by simp_all
      note rt = retransmit_timer [OF qz w']
      have "keeps y w'" using keeps_trans [OF z(7) rt(4)] z keeps_mem by blast
      then show ?thesis
        using d ok(3) rt(1-3) z ky sent(5) now [OF False] by (intro exI [of _ y]) auto
    qed
  qed
qed

section \<open>The network as seen after a while\<close>

lemma same_wiring_iface:
  assumes "same_wiring w w'"
  shows "if_mac (w_iface w' p) = if_mac (w_iface w p)" "if_ip_addr (w_iface w' p) = if_ip_addr (w_iface w p)"
    "if_prefix_len (w_iface w' p) = if_prefix_len (w_iface w p)" "if_up (w_iface w' p) = if_up (w_iface w p)"
    "if_link (w_iface w' p) = if_link (w_iface w p)" "if_arp_cache (w_iface w' p) = if_arp_cache (w_iface w p)"
    "if_state (w_iface w' p) = if_state (w_iface w p)" "if_device (w_iface w' p) = if_device (w_iface w p)"
  using assms by (auto simp: same_wiring_def if_static_def)

lemma neighbour_wiring:
  assumes "same_wiring w w'" "w_arp w' = w_arp w"
  shows "neighbour sim i a b m w' = neighbour sim i a b m w"
  using assms(2) same_wiring_iface [OF assms(1)] assms(1)
  by (simp add: neighbour_def ip_find_source_iface_def interface_is_up_def same_wiring_def)

lemma path_up_wiring:
  assumes "same_wiring w w'"
  shows "path_up sim i w' = path_up sim i w" "peer i w' = peer i w"
  using same_wiring_iface [OF assms] assms
  by (simp_all add: path_up_def peer_def link_get_other_interface_def interface_is_up_def same_wiring_def)

section \<open>End to end\<close>

text \<open>
  C8 Data sent on one side of a connection arrives on the other. Suppose that the scheduler's queue is
  empty, that the link delivers no later than 1000000 after the present time, when the retransmission
  timer is due, that both hosts have resolved each other, links are up in both directions and memory
  lasts, that the connection of the sender is established with nothing in flight, and that of the
  receiver, in another table, is established, expects the next byte of the sender and has a receive
  handler. Then \<open>tcp_send\<close> of 1 to 1460 bytes returns 0 and moves the sender's next number past the
  data, and the next step of the scheduler dispatches the arrival, through Ethernet, IPv4 and TCP: the
  receiver has its expectation moved past the data, and its receive handler is called with a packet
  that holds exactly the data.
\<close>

theorem tcp_end_to_end:
  assumes w: "mem_ok w" "eq_inv (sc_eq (w_sched w sch))" "eq_list (sc_eq (w_sched w sch)) = []" "sch = sm_sched (w_sim w sim)"
    and up: "\<forall>k. \<not> w_oom w k" "path_up sim i w" "path_up sim (peer i w) w"
    and snd: "slot_ok c (w_tcp w)" "b = tcb_of w c" "tc_valid b = 1" "tc_state b = TCP_ESTABLISHED" "sendq_inv b"
      "owned_packets b = []" "neighbour sim i (tc_local_ip b) (tc_remote_ip b) m w"
    and stack: "ip_endpoint (peer i w) m stack w" "is_protocols (w_ips w stack) 6 = (PH_tcp_receive, ctx)" "ctx \<noteq> NULL"
      "xc_sim (w_tcpctx w ctx) = sim" "xc_table (w_tcpctx w ctx) = t" "t \<noteq> NULL" "t \<noteq> fst c"
    and rcv: "tcp_find_exact (Some (w_tcp w t)) (tc_remote_ip b) (tc_remote_port b) (tc_local_ip b) (tc_local_port b) = Some k"
      "d = tcb_of w (t, k)" "tc_state d = TCP_ESTABLISHED" "tc_rcv_nxt d = tc_snd_nxt b" "tc_recv_handler d \<noteq> 0"
      "neighbour sim (peer i w) (tc_remote_ip b) (tc_local_ip b) m' w"
    and data: "0 < n" "n \<le> length data" "n \<le> 1460" "tcp_send sim (Some c) (Some data) n w = (r, w1)"
    and time: "arrival sim i w \<le> sc_now (w_sched w sch) + 1000000"
  shows "r = 0 \<and> tc_snd_nxt (tcb_of w1 c) = tc_snd_nxt b + of_nat n \<and>
    (\<exists>ev w2 pkt. scheduler_step A sch w1 =
         (1, event_free (Some ev) (app_tcp_recv A (tc_recv_handler d) (t, k) pkt (tc_handler_ctx d) w2)) \<and>
       pk_bytes (w_pkt w2 pkt) = take n data \<and> packet_ok (w_pkt w2 pkt) \<and>
       tc_rcv_nxt (tcb_of w2 (t, k)) = tc_snd_nxt b + of_nat n \<and>
       sc_now (w_sched w2 sch) = max (sc_now (w_sched w sch)) (arrival sim i w))"
proof -
  let ?a = "tc_local_ip b" and ?b = "tc_remote_ip b" and ?j = "peer i w" and ?fl = "TCP_FLAG_ACK OR TCP_FLAG_PSH"
  have nk: "n = min n 1460" using data(3) by simp
  note sent = tcp_sent [OF w(1,2,4) snd data(1,2) nk data(4)]
  have r: "r = 0" using sent(4) up by blast
  obtain y q where y: "delivers i ?j (arrival sim i w) CB_ethernet_receive_event sim
       (eth_frame m (if_mac (w_iface w i)) 0x0800 (ip_bytes (ip_send_header ?a ?b 6 (20 + n)) @
         tcp_segment (tc_local_port b) (tc_remote_port b) (tc_snd_nxt b) (tc_rcv_nxt b) ?fl (take n data))) sch w y"
    "w_sched w1 = (w_sched y)(sch := (w_sched y sch)\<lparr>sc_eq := q\<rparr>)" "eq_inv q"
    "q = sc_eq (w_sched y sch) \<or> (\<exists>e. ev_timestamp e = sc_now (w_sched w sch) + 1000000 \<and> ev_handler e = CB_NULL \<and>
        ev_type e = EVT_TCP_RETRANSMIT \<and> eq_list q = insert_event e (eq_list (sc_eq (w_sched y sch))))"
    "w_pkt w1 = w_pkt y" "w_arp w1 = w_arp w" "keeps w y" "keeps y w1"
    using sent(2) [OF r] by blast
  obtain ev qy where ev: "w_sched y = (w_sched w)(sch := (w_sched w sch)\<lparr>sc_eq := qy\<rparr>)" "eq_list qy = [ev]"
    "ev_timestamp ev = arrival sim i w" "ev_dst_device ev = ?j" "ev_handler ev = CB_ethernet_receive_event"
    "fresh_packet w (ev_packet ev) y" "packet_ok (w_pkt y (ev_packet ev))"
    "pk_bytes (w_pkt y (ev_packet ev)) = eth_frame m (if_mac (w_iface w i)) 0x0800 (ip_bytes (ip_send_header ?a ?b 6 (20 + n)) @
         tcp_segment (tc_local_port b) (tc_remote_port b) (tc_snd_nxt b) (tc_rcv_nxt b) ?fl (take n data))"
    using y(1) w(3) by (auto simp: delivers_def)
  let ?p = "ev_packet ev"
  have queue: "eq_inv (sc_eq (w_sched w1 sch))" "\<exists>es. eq_list (sc_eq (w_sched w1 sch)) = ev # es"
    using y(2-4) ev(1-3) time by (auto simp: not_le)
  then obtain es where es: "eq_list (sc_eq (w_sched w1 sch)) = ev # es" by blast
  have own: "owned w1 ?p" "?p \<noteq> 0"
    using owned_keeps(1) [OF keeps_mem [OF y(7)] _ y(8)] ev(6) mem_okD [OF keeps_mem [OF y(7)]]
    by (auto simp: fresh_packet_def owned_def)
  have fixed: "fixed_wiring w w1" using wiring.step_tcp_send [OF wiring.R_refl] data(4) by (metis snd_conv)
  have wire: "same_wiring w w1" "w_ips w1 = w_ips w" "w_tcpctx w1 = w_tcpctx w" "w_sim w1 = w_sim w" "w_oom w1 = w_oom w"
    "sc_now (w_sched w1 sch) = sc_now (w_sched w sch)"
    using fixed by (simp_all add: fixed_wiring_def same_wiring_def)
  have lens: "length m = 6" "length (if_mac (w_iface w i)) = 6"
    using ip_output_resolved(2) [OF snd(7), of 1] snd(7) by (simp_all add: neighbour_def)
  have pk: "packet_ok (w_pkt w1 ?p)" "pk_bytes (w_pkt w1 ?p) = eth_frame m (if_mac (w_iface w i)) 0x0800 (ip_bytes (ip_send_header ?a ?b 6 (20 + n)) @
         tcp_segment (tc_local_port b) (tc_remote_port b) (tc_snd_nxt b) (tc_rcv_nxt b) ?fl (take n data))"
    using ev(7,8) y(5) by simp_all
  have endp: "ip_endpoint ?j m stack w1" "is_protocols (w_ips w1 stack) 6 = (PH_tcp_receive, ctx)"
    using stack(1,2) ip_endpoint_wiring [OF wire(1)] wire(2) by simp_all
  obtain g s q2 where st: "\<And>i. if_static (g i) = if_static i" "packet_ok s"
    "pk_bytes s = tcp_segment (tc_local_port b) (tc_remote_port b) (tc_snd_nxt b) (tc_rcv_nxt b) ?fl (take n data)"
    "pk_before s 20 = ip_bytes (ip_send_header ?a ?b 6 (20 + n))" "20 \<le> pk_data s" "pk_head s = pk_head (w_pkt w1 ?p)"
    "eq_inv q2"
    "scheduler_step A sch w1 = (1, event_free (Some ev) (snd (call_protocol A PH_tcp_receive ?j ?p ctx
       (upd_pkt ?p (\<lambda>_. s) (upd_iface ?j g
          (upd_sched sch (\<lambda>k. k\<lparr>sc_eq := q2, sc_now := max (sc_now k) (arrival sim i w)\<rparr>) w1))))))"
    by (rule receive_event_dispatched [OF queue(1) es ev(3-5) own(2) pk lens endp, of A]) auto
  define w2 where "w2 = upd_pkt ?p (\<lambda>_. s) (upd_iface ?j g
          (upd_sched sch (\<lambda>k. k\<lparr>sc_eq := q2, sc_now := max (sc_now k) (arrival sim i w)\<rparr>) w1))"
  obtain r2 w3 where rc: "tcp_receive (app_tcp_recv A) (app_tcp_connect A) ?j ?p ctx w2 = (r2, w3)" by fastforce
  have w12: "same_wiring w w2" "w_arp w2 = w_arp w"
    using wire(1) y(6) st(1) by (simp_all add: w2_def same_wiring_def)
  have slot: "w_tcp w2 t = w_tcp w t" using sent(3) [OF r] stack(7) by (simp add: w2_def)
  have w2: "mem_ok w2" "eq_inv (sc_eq (w_sched w2 (sm_sched (w_sim w2 sim))))" "owned w2 ?p"
    "packet_ok (w_pkt w2 ?p)" "20 \<le> pk_data (w_pkt w2 ?p)" "?j \<noteq> 0" "xc_sim (w_tcpctx w2 ctx) = sim" "xc_table (w_tcpctx w2 ctx) = t"
    "pk_bytes (w_pkt w2 ?p) = tcp_segment (tc_local_port b) (tc_remote_port b) (tc_snd_nxt b) (tc_rcv_nxt b) ?fl (take n data)"
    using keeps_mem [OF y(8)] st own stack wire w(4) by (simp_all add: w2_def mem_ok_def owned_def ip_endpoint_def)
  have ip: "ip_at (pk_before (w_pkt w2 ?p) 20) = ip_send_header ?a ?b 6 (20 + n)"
    using st(4) ip.at_bytes_exact by (simp add: w2_def)
  have dw2: "tcb_of w2 (t, k) = d" using slot rcv(2) by (simp add: tcb_of_def)
  have con: "tcp_find_exact (Some (w_tcp w2 t)) ?b (tc_remote_port b) ?a (tc_local_port b) = Some k"
    "tc_state (tcb_of w2 (t, k)) = TCP_ESTABLISHED"
    using slot rcv dw2 by simp_all
  have nb: "neighbour sim ?j ?b ?a m' w2" using rcv(6) neighbour_wiring [OF w12] by simp
  have fl: "?fl < 0x40" "take n data \<noteq> []" using data(1,2) by auto
  have h: "ip_protocol (ip_send_header ?a ?b 6 (20 + n)) = 6" "ns_ntohl (ip_src_ip (ip_send_header ?a ?b 6 (20 + n))) = ?a"
    "ns_ntohl (ip_dst_ip (ip_send_header ?a ?b 6 (20 + n))) = ?b"
    by (simp_all add: ip_send_header_fields)
  let ?d = "after_ack (tcb_of w2 (t, k)) (tc_rcv_nxt b) ?fl" and ?x = "established_ack (t, k) (tc_rcv_nxt b) ?fl w2"
  have order: "tc_rcv_nxt ?d = tc_snd_nxt b" "tc_recv_handler ?d = tc_recv_handler d" "tc_handler_ctx ?d = tc_handler_ctx d"
    "tc_recv_handler d \<noteq> 0"
    using rcv(4,5) dw2 by simp_all
  have nxt: "tc_snd_nxt b + of_nat n = (if tc_snd_nxt b = tc_rcv_nxt ?d
      then tc_snd_nxt b + of_nat (length (take n data)) else tc_rcv_nxt ?d)"
    using order(1) data(2) by simp
  let ?frame = "eth_frame m' (if_mac (w_iface w2 ?j)) 0x0800 (ip_bytes (ip_send_header ?b ?a 6 20) @
      ack_segment (?d\<lparr>tc_rcv_nxt := tc_snd_nxt b + of_nat n\<rparr>))"
  obtain y2 where y2: "w_tcp y2 = at_slot (t, k) (\<lambda>_. ?d\<lparr>tc_rcv_nxt := tc_snd_nxt b + of_nat n\<rparr>) (w_tcp w2)"
    "r2 = 0 \<longrightarrow> delivers ?j (peer ?j w2) (arrival sim ?j w2) CB_ethernet_receive_event sim ?frame (sm_sched (w_sim w2 sim)) ?x y2 \<and>
       (if tc_snd_nxt b = tc_rcv_nxt ?d
        then \<exists>s. packet_ok s \<and> pk_bytes s = take n data \<and>
          w3 = (if tc_recv_handler ?d \<noteq> 0
               then app_tcp_recv A (tc_recv_handler ?d) (t, k) ?p (tc_handler_ctx ?d) (upd_pkt ?p (\<lambda>_. s) y2)
               else packet_free ?p (upd_pkt ?p (\<lambda>_. s) y2))
        else w3 = packet_free ?p y2)"
    "(\<forall>k. \<not> w_oom w2 k) \<and> path_up sim ?j w2 \<longrightarrow> r2 = 0"
    using established_receives [OF w2(1-6) stack(3) w2(7,8) stack(6) ip h w2(9) fl con nb rc refl refl nxt]
    by (elim exE conjE)
  have "r2 = 0" using y2(3) up(1,3) wire(5) path_up_wiring [OF w12(1)] by (simp add: w2_def)
  with y2(2) have d2: "delivers ?j (peer ?j w2) (arrival sim ?j w2) CB_ethernet_receive_event sim ?frame (sm_sched (w_sim w2 sim)) ?x y2"
    and "\<exists>s. packet_ok s \<and> pk_bytes s = take n data \<and>
       w3 = app_tcp_recv A (tc_recv_handler d) (t, k) ?p (tc_handler_ctx d) (upd_pkt ?p (\<lambda>_. s) y2)"
    by (simp_all only: order simp_thms if_True not_False_eq_True)
  then obtain s3 where
    s3: "packet_ok s3" "pk_bytes s3 = take n data"
      "w3 = app_tcp_recv A (tc_recv_handler d) (t, k) ?p (tc_handler_ctx d) (upd_pkt ?p (\<lambda>_. s3) y2)"
    by blast
  let ?w = "upd_pkt ?p (\<lambda>_. s3) y2"
  have "w_sched ?x = w_sched w2" using but_tablesD(2) [OF established_ack_net] .
  then have "sc_now (w_sched y2 sch) = sc_now (w_sched w2 sch)" using d2 by (auto simp: delivers_def)
  then have "sc_now (w_sched ?w sch) = max (sc_now (w_sched w sch)) (arrival sim i w)" using wire(6) by (simp add: w2_def)
  moreover have "tc_rcv_nxt (tcb_of ?w (t, k)) = tc_snd_nxt b + of_nat n"
    using y2(1) find_exact_ok(1) [OF con(1)] by (simp add: tcb_of_def at_slot_def slot_ok_def)
  moreover have "scheduler_step A sch w1 = (1, event_free (Some ev) (app_tcp_recv A (tc_recv_handler d) (t, k) ?p (tc_handler_ctx d) ?w))"
    using st(8) rc s3(3) by (simp add: call_protocol_def w2_def)
  moreover have "tc_snd_nxt (tcb_of w1 c) = tc_snd_nxt b + of_nat n" using sent(3) [OF r] by simp
  ultimately show ?thesis
    using r s3(1,2) by (intro conjI exI [of _ ev] exI [of _ ?w] exI [of _ ?p]) simp_all
qed

text \<open>
  The two hosts with a connection between port 4000 of the first (table 25) and port 80 of the second
  (table 15), each knowing the address of the other.
\<close>

definition pair_client :: Tcb where
  "pair_client = tcb_zero\<lparr>tc_valid := 1, tc_local_ip := 0x0A000001, tc_local_port := 4000, tc_remote_ip := 0x0A000002,
     tc_remote_port := 80, tc_state := TCP_ESTABLISHED, tc_snd_una := 1, tc_snd_nxt := 1, tc_rcv_nxt := 1\<rparr>"

definition pair_server :: Tcb where
  "pair_server = tcb_zero\<lparr>tc_valid := 1, tc_local_ip := 0x0A000002, tc_local_port := 80, tc_remote_ip := 0x0A000001,
     tc_remote_port := 4000, tc_state := TCP_ESTABLISHED, tc_snd_una := 1, tc_snd_nxt := 1, tc_rcv_nxt := 1,
     tc_recv_handler := 3\<rparr>"

definition lan_pair :: world where
  "lan_pair = (lan (packet_fresh 21 (\<lambda>_. 0) 8 1) (event_queue_new 4))
     \<lparr>w_tcp := (\<lambda>p. \<lparr>tt_tcbs = (if p = 15 then pair_server else pair_client) # replicate 63 tcb_zero, tt_count = 1\<rparr>),
      w_arp := (\<lambda>p. if p = 6 then arp_added 0x0A000002 [2, 0, 0, 0, 0, 2] 0 arp_cache_zero
                    else arp_added 0x0A000001 [2, 0, 0, 0, 0, 1] 0 arp_cache_zero)\<rparr>"

lemma resolved_cache:
  assumes "length m = 6" "a \<noteq> 0"
  shows "arp_inv (arp_added a m 0 arp_cache_zero)" "map_option ae_mac_addr (arp_find (arp_added a m 0 arp_cache_zero) a) = Some m"
proof -
  show "arp_inv (arp_added a m 0 arp_cache_zero)" using assms by (intro arp_added_inv arp_zero_inv) simp
  show "map_option ae_mac_addr (arp_find (arp_added a m 0 arp_cache_zero) a) = Some m"
    using arp_added_find [OF arp_zero_inv(1), of a m 0] assms by (auto simp: arp_room_def arp_cache_zero_def)
qed

lemma lan_pair_neighbours:
  "neighbour 1 10 0x0A000001 0x0A000002 [2, 0, 0, 0, 0, 2] lan_pair"
  "neighbour 1 11 0x0A000002 0x0A000001 [2, 0, 0, 0, 0, 1] lan_pair"
proof -
  have "ip_find_source_iface 1 0x0A000001 lan_pair = 10" "ip_find_source_iface 1 0x0A000002 lan_pair = 11"
    by (simp_all add: ip_find_source_iface_def topo_devices_def device_ports_def lan_pair_def lan_def)
  moreover have "w_arp lan_pair 6 = arp_added 0x0A000002 [2, 0, 0, 0, 0, 2] 0 arp_cache_zero"
    "w_arp lan_pair 7 = arp_added 0x0A000001 [2, 0, 0, 0, 0, 1] 0 arp_cache_zero"
    "w_iface lan_pair 10 = lan_iface 1 0x0A000001 4 6 8" "w_iface lan_pair 11 = lan_iface 2 0x0A000002 5 7 9"
    by (simp_all add: lan_pair_def)
  ultimately show "neighbour 1 10 0x0A000001 0x0A000002 [2, 0, 0, 0, 0, 2] lan_pair"
    "neighbour 1 11 0x0A000002 0x0A000001 [2, 0, 0, 0, 0, 1] lan_pair"
    using resolved_cache [of "[2, 0, 0, 0, 0, 2]" "0x0A000002"] resolved_cache [of "[2, 0, 0, 0, 0, 1]" "0x0A000001"]
    by (simp_all add: neighbour_def interface_is_up_def ip_same_subnet_def ip_prefix_mask_def)
qed

lemma lan_pair_simps:
  "mem_ok lan_pair" "eq_inv (sc_eq (w_sched lan_pair 3))" "eq_list (sc_eq (w_sched lan_pair 3)) = []"
  "3 = sm_sched (w_sim lan_pair 1)" "\<forall>k. \<not> w_oom lan_pair k" "peer 10 lan_pair = 11" "path_up 1 10 lan_pair" "path_up 1 11 lan_pair"
  "tcb_of lan_pair (25, 0) = pair_client" "tcb_of lan_pair (15, 0) = pair_server" "slot_ok (25, 0) (w_tcp lan_pair)"
  "ip_endpoint 11 [2, 0, 0, 0, 0, 2] 9 lan_pair" "is_protocols (w_ips lan_pair 9) 6 = (PH_tcp_receive, 16)"
  "xc_sim (w_tcpctx lan_pair 16) = 1" "xc_table (w_tcpctx lan_pair 16) = 15"
  "arrival 1 10 lan_pair = 5" "sc_now (w_sched lan_pair 3) = 0"
  using lan_queue
  by (simp_all add: lan_pair_def lan_def mem_ok_def peer_def link_get_other_interface_def path_up_def interface_is_up_def
      ip_endpoint_def lan_iface_def lan_stack_def tcb_of_def slot_ok_def arrival_def simulator_now_def scheduler_now_def)

theorem tcp_end_to_end_witness:
  "\<exists>w1 ev w2 pkt. tcp_send 1 (Some (25, 0)) (Some [1, 2, 3]) 3 lan_pair = (0, w1) \<and>
     scheduler_step quiet_app 3 w1 = (1, event_free (Some ev) w2) \<and> pk_bytes (w_pkt w2 pkt) = [1, 2, 3]"
proof -
  obtain r w1 where s: "tcp_send 1 (Some (25, 0)) (Some [1, 2, 3]) 3 lan_pair = (r, w1)" by fastforce
  note l = lan_pair_simps
  have c: "tc_valid pair_client = 1" "tc_state pair_client = TCP_ESTABLISHED" "sendq_inv pair_client" "owned_packets pair_client = []"
    by (simp_all add: pair_client_def sendq_inv_def owned_packets_def tcb_zero_def seg_zero_def)
  have k: "tc_local_ip pair_client = 0x0A000001" "tc_remote_ip pair_client = 0x0A000002" "tc_local_port pair_client = 4000"
    "tc_remote_port pair_client = 80" "tc_snd_nxt pair_client = 1"
    by (simp_all add: pair_client_def)
  have d: "tc_state pair_server = TCP_ESTABLISHED" "tc_rcv_nxt pair_server = tc_snd_nxt pair_client" "tc_recv_handler pair_server \<noteq> 0"
    by (simp_all add: pair_server_def pair_client_def)
  have find: "tcp_find_exact (Some (w_tcp lan_pair 15)) 0x0A000002 80 0x0A000001 4000 = Some 0"
    by (simp add: lan_pair_def pair_server_def tcp_find_exact_def)
  note nb = lan_pair_neighbours
  have up: "path_up 1 (peer 10 lan_pair) lan_pair" "ip_endpoint (peer 10 lan_pair) [2, 0, 0, 0, 0, 2] 9 lan_pair"
    "neighbour 1 (peer 10 lan_pair) 0x0A000002 0x0A000001 [2, 0, 0, 0, 0, 1] lan_pair"
    "arrival 1 10 lan_pair \<le> sc_now (w_sched lan_pair 3) + 1000000"
    using l nb by simp_all
  have n: "(16 :: nat) \<noteq> 0" "(15 :: nat) \<noteq> 0" "15 \<noteq> fst (25 :: nat, 0 :: nat)" "0 < (3 :: nat)" "3 \<le> length [1, 2, 3 :: u8]" "(3 :: nat) \<le> 1460"
    by simp_all
  have "r = 0 \<and> tc_snd_nxt (tcb_of w1 (25, 0)) = tc_snd_nxt pair_client + of_nat 3 \<and>
    (\<exists>ev w2 pkt. scheduler_step quiet_app 3 w1 =
         (1, event_free (Some ev) (app_tcp_recv quiet_app (tc_recv_handler pair_server) (15, 0) pkt (tc_handler_ctx pair_server) w2)) \<and>
       pk_bytes (w_pkt w2 pkt) = take 3 [1, 2, 3] \<and> packet_ok (w_pkt w2 pkt) \<and>
       tc_rcv_nxt (tcb_of w2 (15, 0)) = tc_snd_nxt pair_client + of_nat 3 \<and>
       sc_now (w_sched w2 3) = max (sc_now (w_sched lan_pair 3)) (arrival 1 10 lan_pair))"
    by (rule tcp_end_to_end [OF l(1-5,7) up(1) l(11) l(9) [symmetric] c _ up(2) l(13) n(1) l(14,15) n(2,3) _ l(10) [symmetric] d
        _ n(4-6) s up(4), unfolded k(1-4)]) (use nb(1) up(3) find in simp_all)
  moreover have "app_tcp_recv quiet_app n b p c w = w" for n b p c w by (simp add: quiet_app_def)
  ultimately show ?thesis using s by auto
qed

end
