(* ===== verification/Echo.thy ===== *)
theory Echo
  imports Datagram
begin

text \<open>
  ICMP: the messages that \<open>icmp_send_echo_request\<close>, \<open>icmp_send_echo_reply\<close> and
  \<open>icmp_send_error\<close> write, their checksums, and what is sent in answer to a request.
\<close>

section \<open>Sealed messages\<close>

lemma bwrite_inside:
  assumes "n + length b \<le> length a" "off + length a \<le> length buf"
  shows "bwrite (bwrite buf off a) (off + n) b = bwrite buf off (bwrite a n b)"
proof -
  let ?buf = "take off buf @ a @ drop (off + length a) buf"
  have "length (take off buf) = off" using assms by simp
  then have "take (off + n) ?buf = take off buf @ take n a"
    "drop (off + n + length b) ?buf = drop (n + length b) a @ drop (off + length a) buf"
    using assms(1) by (simp_all add: ac_simps)
  then show ?thesis using assms by (simp add: bwrite_def)
qed

lemma pkt_write_inside:
  assumes "n + length b \<le> length a" "pk_data k + length a \<le> length (pk_buf k)"
  shows "pkt_write n b (pkt_write 0 a k) = pkt_write 0 (bwrite a n b) k"
  using bwrite_inside [OF assms] by (simp add: pkt_write_def)

lemma icmp_bytes_writes:
  "bwrite (icmp_bytes h @ data) 2 (le16 c) = icmp_bytes (h\<lparr>icmp_hdr_checksum := c\<rparr>) @ data"
  "bwrite (icmp_bytes h @ data) 0 [t] = icmp_bytes (h\<lparr>icmp_type := t\<rparr>) @ data"
  by (simp_all add: bwrite_def icmp_bytes_def le16_def numeral_eq_Suc)

text \<open>A message whose checksum field was computed with the field set to zero.\<close>

definition icmp_sealed :: "IcmpHeader \<Rightarrow> u8 list \<Rightarrow> u8 list" where
  "icmp_sealed h data =
     (let h = h\<lparr>icmp_hdr_checksum := 0\<rparr>
      in icmp_bytes (h\<lparr>icmp_hdr_checksum := icmp_checksum (Some (icmp_bytes h @ data)) (8 + length data)\<rparr>) @ data)"

lemma icmp_sealed_length: "length (icmp_sealed h data) = 8 + length data"
  by (simp add: icmp_sealed_def Let_def icmp.length_bytes)

lemma icmp_sealed_fields [simp]:
  "icmp_type (icmp_at (icmp_sealed h data)) = icmp_type h" "icmp_code (icmp_at (icmp_sealed h data)) = icmp_code h"
  "icmp_id (icmp_at (icmp_sealed h data)) = icmp_id h" "icmp_seq (icmp_at (icmp_sealed h data)) = icmp_seq h"
  "drop 8 (icmp_sealed h data) = data"
  by (simp_all add: icmp_sealed_def Let_def icmp.at_bytes icmp.length_bytes)

lemma icmp_sealed_verifies:
  assumes "8 + length data < 131072"
  shows "icmp_checksum (Some (icmp_sealed h data)) (8 + length data) = 0"
proof -
  let ?h = "h\<lparr>icmp_hdr_checksum := 0\<rparr>"
  define c where "c = icmp_checksum (Some (icmp_bytes ?h @ data)) (8 + length data)"
  have parts: "icmp_bytes (?h\<lparr>icmp_hdr_checksum := c\<rparr>) = take 2 (icmp_bytes ?h) @ le16 c @ drop 4 (icmp_bytes ?h)" for c
    by (simp add: icmp_bytes_def le16_def)
  have zero: "icmp_bytes ?h = take 2 (icmp_bytes ?h) @ [0, 0] @ drop 4 (icmp_bytes ?h)"
    by (simp add: icmp_bytes_def le16_def)
  have len: "length (icmp_bytes ?h @ data) = 8 + length data" by (simp add: icmp.length_bytes)
  have "unat (ns_ntohs c) = 65535 - csum16 (be_total (icmp_bytes ?h @ data))"
    using icmp_checksum_value [of "icmp_bytes ?h @ data"] len assms unfolding c_def by (metis add_is_0 list.size(3) zero_neq_numeral)
  also have "icmp_bytes ?h @ data = take 2 (icmp_bytes ?h) @ [0, 0] @ (drop 4 (icmp_bytes ?h) @ data)"
    using zero by (metis append.assoc)
  finally have "0 < be_total (take 2 (icmp_bytes ?h) @ le16 c @ (drop 4 (icmp_bytes ?h) @ data)) \<and>
      65535 dvd be_total (take 2 (icmp_bytes ?h) @ le16 c @ (drop 4 (icmp_bytes ?h) @ data))"
    by (intro total_with_checksum) (simp_all add: icmp.length_bytes)
  moreover have "icmp_sealed h data = take 2 (icmp_bytes ?h) @ le16 c @ (drop 4 (icmp_bytes ?h) @ data)"
    unfolding icmp_sealed_def Let_def parts c_def by simp
  moreover have "icmp_sealed h data \<noteq> []" using icmp_sealed_length [of h data] by auto
  ultimately show ?thesis
    using icmp_checksum_ok_iff [of "icmp_sealed h data"] icmp_sealed_length [of h data] assms by simp
qed

section \<open>What the senders write\<close>

lemma pk_rest_written:
  "length bs = n \<Longrightarrow> pk_rest ((pkt_write 0 bs (packet_fresh h f n i))\<lparr>pk_len := m, pk_layer := l\<rparr>) = bs"
  by (simp add: pk_rest_def pkt_write_def packet_fresh_def bwrite_def)

lemma pkt_write_fields:
  "pkt_write o1 b (k\<lparr>pk_len := n, pk_layer := l\<rparr>) = (pkt_write o1 b k)\<lparr>pk_len := n, pk_layer := l\<rparr>"
  by (simp add: pkt_write_def)

lemma seal_written:
  assumes "icmp_hdr_checksum h = 0" "n = 8 + length data"
    and k_def: "k = (pkt_write 0 (icmp_bytes h @ data) (packet_fresh hp f n i))\<lparr>pk_len := n, pk_layer := 4\<rparr>"
  shows "pkt_write 2 (le16 (icmp_checksum (Some (pk_rest k)) (pk_len k))) k =
    (pkt_write 0 (icmp_sealed h data) (packet_fresh hp f n i))\<lparr>pk_len := n, pk_layer := 4\<rparr>"
proof -
  have h: "h\<lparr>icmp_hdr_checksum := 0\<rparr> = h" using assms(1) by simp
  have len: "length (icmp_bytes h @ data) = n" using assms(2) by (simp add: icmp.length_bytes)
  have rest: "pk_rest k = icmp_bytes h @ data" unfolding k_def by (rule pk_rest_written [OF len])
  have kl: "pk_len k = n" by (simp add: k_def)
  show ?thesis
    unfolding rest kl unfolding k_def pkt_write_fields
    by (subst pkt_write_inside) (use len assms(2) in \<open>simp_all add: icmp_bytes_writes icmp_sealed_def h packet_fresh_def\<close>)
qed

lemma icmp_reply_fill_whole:
  assumes "pk_bytes req = icmp_bytes h @ data" "pk_len req = 8 + length data"
  shows "icmp_reply_fill req (packet_fresh hp f (8 + length data) i) =
    (pkt_write 0 (icmp_sealed (h\<lparr>icmp_type := 0, icmp_hdr_checksum := 0\<rparr>) data) (packet_fresh hp f (8 + length data) i))
      \<lparr>pk_len := 8 + length data, pk_layer := 4\<rparr>"
proof -
  let ?k = "packet_fresh hp f (8 + length data) i" and ?n = "8 + length data"
  let ?h = "h\<lparr>icmp_type := 0, icmp_hdr_checksum := 0\<rparr>"
  have fits: "pk_data ?k + ?n \<le> length (pk_buf ?k)" by (simp add: packet_fresh_def)
  have "pkt_write 2 (le16 0) (pkt_write 0 [ICMP_ECHO_REPLY] (pkt_write 0 (icmp_bytes h @ data) (?k\<lparr>pk_len := ?n, pk_layer := 4\<rparr>)))
      = (pkt_write 0 (icmp_bytes ?h @ data) ?k)\<lparr>pk_len := ?n, pk_layer := 4\<rparr>"
    using fits by (simp add: pkt_write_fields pkt_write_inside icmp_bytes_writes icmp.length_bytes)
  then show ?thesis
    using seal_written [of ?h ?n data _ hp f i] assms
    unfolding icmp_reply_fill_def Let_def pk_bytes_def [symmetric] by simp
qed

lemma icmp_request_fill_whole:
  assumes "n \<le> length data"
  shows "icmp_request_fill id' sq (Some data) n (packet_fresh hp f (8 + n) i) =
    (pkt_write 0 (icmp_sealed \<lparr>icmp_type = 8, icmp_code = 0, icmp_hdr_checksum = 0, icmp_id = ns_htons id',
        icmp_seq = ns_htons sq\<rparr> (take n data)) (packet_fresh hp f (8 + n) i))\<lparr>pk_len := 8 + n, pk_layer := 4\<rparr>"
proof -
  let ?k = "packet_fresh hp f (8 + n) i"
  let ?h = "\<lparr>icmp_type = 8, icmp_code = 0, icmp_hdr_checksum = 0, icmp_id = ns_htons id', icmp_seq = ns_htons sq\<rparr>"
  have "(if n > 0 then pkt_write 8 (take n data) ((pkt_write 0 (icmp_bytes ?h) ?k)\<lparr>pk_len := 8 + n, pk_layer := 4\<rparr>)
        else (pkt_write 0 (icmp_bytes ?h) ?k)\<lparr>pk_len := 8 + n, pk_layer := 4\<rparr>)
      = (pkt_write 0 (icmp_bytes ?h @ take n data) ?k)\<lparr>pk_len := 8 + n, pk_layer := 4\<rparr>"
    using assms by (auto simp: pkt_write_fields pkt_write_append icmp.length_bytes packet_fresh_def)
  then show ?thesis
    using seal_written [of ?h "8 + n" "take n data" _ hp f i] assms
    unfolding icmp_request_fill_def Let_def option.sel by simp
qed

lemma icmp_error_fill_whole:
  assumes "q \<le> 8" "length (pk_before orig 20) = 20" "length (bread (pk_buf orig) (pk_data orig) q) = q"
  shows "icmp_error_fill orig ty code mtu q (packet_fresh hp f (8 + (20 + q)) i) =
    (pkt_write 0 (icmp_sealed \<lparr>icmp_type = ty, icmp_code = code, icmp_hdr_checksum = 0, icmp_id = 0,
        icmp_seq = (if code = 4 then ns_htons mtu else 0)\<rparr>
        (pk_before orig 20 @ bread (pk_buf orig) (pk_data orig) q)) (packet_fresh hp f (8 + (20 + q)) i))
      \<lparr>pk_len := 8 + (20 + q), pk_layer := 4\<rparr>"
proof -
  let ?k = "packet_fresh hp f (8 + (20 + q)) i" and ?n = "8 + (20 + q)"
  let ?h = "\<lparr>icmp_type = ty, icmp_code = code, icmp_hdr_checksum = 0, icmp_id = 0,
        icmp_seq = (if code = 4 then ns_htons mtu else 0)\<rparr>"
  let ?quote = "pk_before orig 20 @ bread (pk_buf orig) (pk_data orig) q"
  have k: "pk_data ?k = 64" "length (pk_buf ?k) = 64 + ?n" by (simp_all add: packet_fresh_def)
  have "pkt_write (8 + 20) (bread (pk_buf orig) (pk_data orig) q) (pkt_write 8 (pk_before orig 20)
       (pkt_write 0 (icmp_bytes ?h) (?k\<lparr>pk_len := ?n, pk_layer := 4\<rparr>)))
     = (pkt_write 0 (icmp_bytes ?h @ ?quote) ?k)\<lparr>pk_len := ?n, pk_layer := 4\<rparr>"
    using assms k by (simp add: pkt_write_fields pkt_write_append icmp.length_bytes del: packet_fresh_bytes)
  then show ?thesis
    using seal_written [of ?h ?n ?quote _ hp f i] assms
    unfolding icmp_error_fill_def Let_def by simp
qed

section \<open>Answering a request\<close>

lemma delivers_free_old:
  assumes "delivers src dst t h ctx bytes sch w w'" "owned w p" "keeps w w'" "p < w_brk w"
  shows "delivers src dst t h ctx bytes sch w (packet_free p w')"
proof -
  have p: "pk_head (w_pkt w' p) = pk_head (w_pkt w p)" using assms(3,4) by (simp add: keeps_def)
  have "fresh_packet w x (packet_free p w')" if "fresh_packet w x w'" for x
    using that assms(2) p by (auto simp: fresh_packet_def owned_def packet_free_def free_block_def split: if_splits)
  then show ?thesis using assms(1) unfolding delivers_def by fastforce
qed

lemma echo_reply_sent:
  assumes ok: "mem_ok w" "eq_inv (sc_eq (w_sched w (sm_sched (w_sim w sim))))" "owned w req" "packet_ok (w_pkt w req)"
    and hdr: "pk_before (w_pkt w req) 20 = ip_bytes hdr" "20 \<le> pk_data (w_pkt w req)"
    and msg: "pk_bytes (w_pkt w req) = icmp_bytes h @ data" "icmp_type h = 8" "icmp_code h = 0"
    and net: "iface \<noteq> NULL" "neighbour sim i (ns_ntohl (ip_dst_ip hdr)) (ns_ntohl (ip_src_ip hdr)) m w"
    and s: "icmp_send_echo_reply sim iface req w = (r, w')"
  shows "r = 1 \<or> r = - 1"
    and "r = 1 \<Longrightarrow> delivers i (peer i w) (arrival sim i w) CB_ethernet_receive_event sim
      (eth_frame m (if_mac (w_iface w i)) 0x0800
        (ip_bytes (ip_send_header (ns_ntohl (ip_dst_ip hdr)) (ns_ntohl (ip_src_ip hdr)) 1 (8 + length data)) @
         icmp_sealed (h\<lparr>icmp_type := 0, icmp_hdr_checksum := 0\<rparr>) data)) (sm_sched (w_sim w sim)) w w'"
    and "(\<And>k. \<not> w_oom w k) \<Longrightarrow> path_up sim i w \<Longrightarrow> r = 1"
    and "r \<noteq> 1 \<Longrightarrow> w_sched w' = w_sched w"
proof -
  let ?req = "w_pkt w req" and ?a = "ns_ntohl (ip_dst_ip hdr)" and ?b = "ns_ntohl (ip_src_ip hdr)"
  let ?bytes = "icmp_sealed (h\<lparr>icmp_type := 0, icmp_hdr_checksum := 0\<rparr>) data"
  have sim: "sim \<noteq> 0" using net(2) by (simp add: neighbour_def)
  have p0: "req \<noteq> 0" "pk_head ?req \<noteq> 0" "req < w_brk w"
    using mem_okD [OF ok(1)] ok(3) by (auto simp: owned_def)
  have len: "pk_len ?req = 8 + length data"
    using arg_cong [OF msg(1), of length] packet_okD(2) [OF ok(4)] by (simp add: icmp.length_bytes)
  have "pk_rest ?req = icmp_bytes h @ (data @ drop (pk_len ?req) (pk_rest ?req))"
    using pk_rest_bytes [of ?req] msg(1) by (metis append.assoc)
  then have at: "icmp_at (pk_rest ?req) = h" by (metis icmp.at_bytes)
  have at_ip: "ip_at (pk_before ?req 20) = hdr" unfolding hdr(1) by (rule ip.at_bytes_exact) simp
  have fits: "\<not> pk_end ?req \<le> pk_data ?req" "\<not> pk_end ?req - pk_data ?req < 8 + length data"
    using ok(4) len by (auto simp: packet_ok_def pk_end_def)
  obtain p w1 where cr: "packet_create (pk_len ?req) w = (p, w1)" by fastforce
  obtain r' w2 where out: "ip_output sim ?a ?b 1 p (upd_pkt p (icmp_reply_fill ?req) w1) = (r', w2)" by fastforce
  have res: "(r, w') = (if p = 0 then (- 1, packet_free req (tx_error iface w1))
      else if r' = - 1 then (- 1, packet_free req (packet_free p (tx_error iface w2)))
      else (r', packet_free req w2))"
    using s cr out sim net(1) p0 len at at_ip fits hdr(2) msg(2,3)
    by (cases "p = 0") (simp_all add: icmp_send_echo_reply_def Let_def null_buffer_def split: if_splits)
  note sent = output_fresh_packet [OF ok(1,2) net(2) cr [unfolded len] _ icmp_reply_fill_whole [OF msg(1) len]
      icmp_sealed_length out]
  show "r = 1 \<or> r = - 1" using res sent(1) by (auto split: if_splits)
  show "w_sched w' = w_sched w" if "r \<noteq> 1"
    using that res sent(4) same_netD(3) [OF packet_create_effect(1) [OF ok(1) cr]]
    by (auto simp: tx_error_def split: if_splits)
  show "r = 1" if "\<And>k. \<not> w_oom w k" "path_up sim i w"
    using res that packet_create_effect(4) [OF ok(1) cr that(1)] sent(3) by (auto split: if_splits)
  assume r: "r = 1"
  then have p: "p \<noteq> 0" and r': "r' = 1" and w': "w' = packet_free req w2" using res by (auto split: if_splits)
  have "keeps w w2"
    using building_keeps [OF building_output [OF building_update [OF building_create [OF ok(1) cr p]]], of "icmp_reply_fill ?req" sim ?a ?b 1 p]
      out by simp
  then show "delivers i (peer i w) (arrival sim i w) CB_ethernet_receive_event sim
      (eth_frame m (if_mac (w_iface w i)) 0x0800 (ip_bytes (ip_send_header ?a ?b 1 (8 + length data)) @ ?bytes))
      (sm_sched (w_sim w sim)) w w'"
    unfolding w' by (rule delivers_free_old [OF sent(2) [OF p r'] ok(3) _ p0(3)])
qed

section \<open>Receiving\<close>

lemma be_words_prefix:
  assumes "2 * n \<le> length bs"
  shows "be_words n (bs @ rest) s = be_words n bs s"
proof -
  have "be_words n (take (2 * n) bs @ (drop (2 * n) bs @ rest)) s = be_words n (take (2 * n) bs) s"
    "be_words n (take (2 * n) bs @ drop (2 * n) bs) s = be_words n (take (2 * n) bs) s"
    using assms by (simp_all only: be_words_append length_take min_absorb2)
  then show ?thesis by (simp add: append_assoc [symmetric] del: append_assoc)
qed

lemma icmp_checksum_prefix:
  assumes "n = length bs"
  shows "icmp_checksum (Some (bs @ rest)) n = icmp_checksum (Some bs) n"
proof -
  have "be_words (n div 2) (bs @ rest) 0 = be_words (n div 2) bs 0" by (rule be_words_prefix) (simp add: assms)
  moreover have "n mod 2 = 1 \<Longrightarrow> (bs @ rest) ! (n - 1) = bs ! (n - 1)"
    using assms by (cases "length bs = 0") (simp_all add: nth_append)
  ultimately show ?thesis by (simp add: icmp_checksum_def Let_def)
qed

lemma icmp_receive_request:
  assumes p: "packet_ok (w_pkt w pkt)" "pk_head (w_pkt w pkt) \<noteq> NULL" "20 \<le> pk_data (w_pkt w pkt)"
    and nz: "iface \<noteq> NULL" "pkt \<noteq> NULL"
    and msg: "pk_bytes (w_pkt w pkt) = icmp_bytes h @ data" "icmp_type h = 8" "icmp_code h = 0"
      "icmp_checksum (Some (icmp_bytes h @ data)) (8 + length data) = 0"
  shows "icmp_receive iface pkt sim w = icmp_send_echo_reply sim iface pkt w"
proof -
  let ?k = "w_pkt w pkt"
  have len: "pk_len ?k = 8 + length data"
    using arg_cong [OF msg(1), of length] packet_okD(2) [OF p(1)] by (simp add: icmp.length_bytes)
  have fits: "\<not> pk_end ?k \<le> pk_data ?k" "\<not> pk_end ?k - pk_data ?k < 8 + length data"
    using p(1) len by (auto simp: packet_ok_def pk_end_def)
  have rest: "pk_rest ?k = (icmp_bytes h @ data) @ drop (pk_len ?k) (pk_rest ?k)"
    using pk_rest_bytes [of ?k] msg(1) by metis
  have at: "icmp_at (pk_rest ?k) = h" using rest icmp.at_bytes by (metis append.assoc)
  have "icmp_checksum (Some (pk_rest ?k)) (pk_len ?k) = 0"
    using rest icmp_checksum_prefix [of "8 + length data" "icmp_bytes h @ data"] msg(4) len
    by (metis icmp.length_bytes length_append)
  then show ?thesis
    using nz p(2,3) len fits at msg(2,3) by (simp add: icmp_receive_def Let_def null_buffer_def)
qed

section \<open>Properties\<close>

text \<open>
  C12 An echo request of less than 131072 bytes whose checksum verifies, from an address that the
  neighbour cache of the interface with the destination address has resolved, is answered:
  \<open>icmp_receive\<close> frees the request, and sends its source, from the address it was sent to, the same
  identifier, sequence number and data as an echo reply whose checksum verifies. The result is 1 and
  the reply is queued, or -1 and nothing is queued; it is 1 when the path is up and memory lasts.
\<close>

theorem echo_request_answered:
  assumes w: "mem_ok w" "eq_inv (sc_eq (w_sched w (sm_sched (w_sim w sim))))" "owned w pkt" "packet_ok (w_pkt w pkt)"
    and hdr: "pk_before (w_pkt w pkt) 20 = ip_bytes hdr" "20 \<le> pk_data (w_pkt w pkt)"
    and msg: "pk_bytes (w_pkt w pkt) = icmp_bytes h @ data" "icmp_type h = 8" "icmp_code h = 0"
      "8 + length data < 131072" "icmp_checksum (Some (icmp_bytes h @ data)) (8 + length data) = 0"
    and net: "iface \<noteq> NULL" "neighbour sim i (ns_ntohl (ip_dst_ip hdr)) (ns_ntohl (ip_src_ip hdr)) m w"
    and rc: "icmp_receive iface pkt sim w = (r, w')"
  shows "consumes pkt w w' \<and> (r = 1 \<or> r = - 1) \<and> ((\<forall>k. \<not> w_oom w k) \<and> path_up sim i w \<longrightarrow> r = 1) \<and>
    (r = - 1 \<longrightarrow> w_sched w' = w_sched w) \<and>
    (\<exists>reply. icmp_checksum (Some reply) (8 + length data) = 0 \<and> drop 8 reply = data \<and> length reply = 8 + length data \<and>
       icmp_type (icmp_at reply) = 0 \<and> icmp_code (icmp_at reply) = 0 \<and>
       icmp_id (icmp_at reply) = icmp_id h \<and> icmp_seq (icmp_at reply) = icmp_seq h \<and>
       (r = 1 \<longrightarrow> delivers i (peer i w) (arrival sim i w) CB_ethernet_receive_event sim
         (eth_frame m (if_mac (w_iface w i)) 0x0800
           (ip_bytes (ip_send_header (ns_ntohl (ip_dst_ip hdr)) (ns_ntohl (ip_src_ip hdr)) 1 (8 + length data)) @ reply))
         (sm_sched (w_sim w sim)) w w'))"
proof -
  have p0: "pkt \<noteq> 0" "pk_head (w_pkt w pkt) \<noteq> 0" "sim \<noteq> 0"
    using mem_okD [OF w(1)] w(3) net(2) by (auto simp: owned_def neighbour_def)
  have s: "icmp_send_echo_reply sim iface pkt w = (r, w')"
    using icmp_receive_request [OF w(4) p0(2) hdr(2) net(1) p0(1) msg(1-3,5)] rc by simp
  note sent = echo_reply_sent [OF w hdr msg(1-3) net s]
  let ?h = "h\<lparr>icmp_type := 0, icmp_hdr_checksum := 0\<rparr>"
  have "consumes pkt w w'" using icmp_echo_reply_consumes [OF w(1,3) p0(3) net(1)] s by (metis snd_conv)
  then show ?thesis
    using sent msg(3) icmp_sealed_verifies [OF msg(4), of ?h] icmp_sealed_length [of ?h data]
    by (intro conjI exI [of _ "icmp_sealed ?h data"]) simp_all
qed

theorem echo_request_answered_witness:
  "\<exists>w'. icmp_receive 10 20 1 (lan (stripped_packet (ip_send_header 0x0A000002 0x0A000001 1 8)
      (icmp_sealed \<lparr>icmp_type = 8, icmp_code = 0, icmp_hdr_checksum = 0, icmp_id = 7, icmp_seq = 1\<rparr> []))
      (event_queue_new 4)) = (1, w')"
proof -
  let ?hdr = "ip_send_header 0x0A000002 0x0A000001 1 8"
  let ?req = "\<lparr>icmp_type = 8, icmp_code = 0, icmp_hdr_checksum = 0, icmp_id = 7, icmp_seq = 1\<rparr>"
  let ?h = "?req\<lparr>icmp_hdr_checksum := icmp_checksum (Some (icmp_bytes ?req @ [])) (8 + length ([] :: u8 list))\<rparr>"
  have sealed: "icmp_sealed ?req [] = icmp_bytes ?h @ []" by (simp add: icmp_sealed_def)
  let ?w = "lan (stripped_packet ?hdr (icmp_sealed ?req [])) (event_queue_new 4)"
  obtain r w' where rc: "icmp_receive 10 20 1 ?w = (r, w')" by fastforce
  have p: "packet_ok (w_pkt ?w 20)" "pk_before (w_pkt ?w 20) 20 = ip_bytes ?hdr" "20 \<le> pk_data (w_pkt ?w 20)"
    "pk_bytes (w_pkt ?w 20) = icmp_bytes ?h @ []"
    using stripped_packet [of ?hdr "icmp_sealed ?req []"] sealed by simp_all
  have ok: "icmp_checksum (Some (icmp_bytes ?h @ [])) (8 + length ([] :: u8 list)) = 0"
    using icmp_sealed_verifies [of "[]" ?req] unfolding sealed by simp
  have addr: "ns_ntohl (ip_dst_ip ?hdr) = 0x0A000001" "ns_ntohl (ip_src_ip ?hdr) = 0x0A000002"
    by (simp_all add: ip_send_header_fields)
  have net: "neighbour 1 10 (ns_ntohl (ip_dst_ip ?hdr)) (ns_ntohl (ip_src_ip ?hdr)) [2, 0, 0, 0, 0, 2] ?w"
    unfolding addr by (rule lan_neighbour)
  have h: "icmp_type ?h = 8" "icmp_code ?h = 0" "8 + length ([] :: u8 list) < 131072" "10 \<noteq> (0 :: nat)" by simp_all
  have q: "eq_inv (sc_eq (w_sched ?w (sm_sched (w_sim ?w 1))))" using lan_queue by simp
  note all = echo_request_answered [OF lan_mem_ok q lan_owned p h(1-3) ok h(4) net rc]
  then have "r = 1" using lan_endpoint(3) by simp
  then show ?thesis using rc by blast
qed

text \<open>
  C23 \<open>icmp_send_error\<close>, for a packet with its IP header in front: about an ICMP message that is
  itself an error report, or too short to tell, it returns 0 and changes nothing. About any other
  packet it sends the source, when that is a resolved neighbour, an error message whose checksum
  verifies, with the given type and code, the IP header of the packet and the first eight bytes of its
  payload quoted, and the next-hop MTU only with code 4: the result is 1 and the message is queued, or
  -1 and nothing is queued, and it is 1 when the path is up and memory lasts. No block allocated
  before is freed.
\<close>

theorem icmp_error_correct:
  assumes w: "mem_ok w" "eq_inv (sc_eq (w_sched w (sm_sched (w_sim w sim))))" "packet_ok (w_pkt w orig)"
      "orig \<noteq> NULL" "pk_head (w_pkt w orig) \<noteq> NULL"
    and hdr: "pk_before (w_pkt w orig) 20 = ip_bytes hdr" "20 \<le> pk_data (w_pkt w orig)"
      "pk_data (w_pkt w orig) < pk_end (w_pkt w orig)"
    and net: "sim \<noteq> NULL" "iface \<noteq> NULL"
    and s: "icmp_send_error sim iface orig ty code mtu w = (r, w')"
  shows "keeps w w' \<and>
    (if ip_protocol hdr = 1 \<and> (pk_len (w_pkt w orig) < 8 \<or> icmp_type (icmp_at (pk_bytes (w_pkt w orig))) \<in> {3, 11})
     then r = 0 \<and> w' = w
     else (\<forall>i m. neighbour sim i (ns_ntohl (if_ip_addr (w_iface w iface))) (ns_ntohl (ip_src_ip hdr)) m w \<longrightarrow>
       (r = 1 \<or> r = - 1) \<and> ((\<forall>k. \<not> w_oom w k) \<and> path_up sim i w \<longrightarrow> r = 1) \<and>
       (r = - 1 \<longrightarrow> w_sched w' = w_sched w) \<and>
       (\<exists>error. icmp_checksum (Some error) (length error) = 0 \<and> icmp_type (icmp_at error) = ty \<and>
          icmp_code (icmp_at error) = code \<and> icmp_seq (icmp_at error) = (if code = 4 then ns_htons mtu else 0) \<and>
          drop 8 error = ip_bytes hdr @ take 8 (pk_bytes (w_pkt w orig)) \<and>
          (r = 1 \<longrightarrow> delivers i (peer i w) (arrival sim i w) CB_ethernet_receive_event sim
            (eth_frame m (if_mac (w_iface w i)) 0x0800
              (ip_bytes (ip_send_header (ns_ntohl (if_ip_addr (w_iface w iface))) (ns_ntohl (ip_src_ip hdr)) 1
                (length error)) @ error)) (sm_sched (w_sim w sim)) w w'))))"
proof -
  let ?k = "w_pkt w orig" and ?a = "ns_ntohl (if_ip_addr (w_iface w iface))" and ?b = "ns_ntohl (ip_src_ip hdr)"
  define q where "q = (if pk_len ?k < 8 then pk_len ?k else 8)"
  let ?h = "\<lparr>icmp_type = ty, icmp_code = code, icmp_hdr_checksum = 0, icmp_id = 0,
        icmp_seq = (if code = 4 then ns_htons mtu else 0)\<rparr>"
  let ?quote = "ip_bytes hdr @ take 8 (pk_bytes ?k)"
  have keep: "keeps w w'" using icmp_send_error_keeps [OF w(1)] s by (metis snd_conv)
  have fits: "\<not> pk_end ?k \<le> pk_data ?k" "\<not> pk_end ?k - pk_data ?k < pk_len ?k"
    using w(3) hdr(3) by (auto simp: packet_ok_def pk_end_def)
  have quote: "bread (pk_buf ?k) (pk_data ?k) q = take 8 (pk_bytes ?k)" "q = length (take 8 (pk_bytes ?k))" "q \<le> 8"
    using packet_okD(2) [OF w(3)] by (auto simp: q_def pk_bytes_def bread_def)
  have at: "icmp_at (pk_rest ?k) = icmp_at (pk_bytes ?k)" if "8 \<le> pk_len ?k"
    by (subst pk_rest_bytes) (rule icmp.at_prefix, use that packet_okD(2) [OF w(3)] in simp)
  have at_ip: "ip_at (pk_before ?k 20) = hdr" unfolding hdr(1) by (rule ip.at_bytes_exact) simp
  have sealed: "length (icmp_sealed ?h ?quote) = 8 + (20 + q)" "drop 8 (icmp_sealed ?h ?quote) = ?quote"
    using quote(2) by (simp_all add: icmp_sealed_length ip.length_bytes)
  have verifies: "icmp_checksum (Some (icmp_sealed ?h ?quote)) (length (icmp_sealed ?h ?quote)) = 0"
    using icmp_sealed_verifies [of ?quote ?h] quote(2,3) sealed(1) by (simp add: ip.length_bytes)
  let ?quiet = "ip_protocol hdr = 1 \<and> (pk_len ?k < 8 \<or> icmp_type (icmp_at (pk_bytes ?k)) \<in> {3, 11})"
  show ?thesis
  proof (cases ?quiet)
    case True
    then have "icmp_send_error sim iface orig ty code mtu w = (0, w)"
      using net w(4,5) hdr(2) fits at at_ip
      by (auto simp: icmp_send_error_def Let_def null_buffer_def not_less)
    then show ?thesis using s True keep by simp
  next
    case False
    obtain p w1 where cr: "packet_create (8 + (20 + q)) w = (p, w1)" by fastforce
    obtain r' w2 where out: "ip_output sim ?a ?b 1 p (upd_pkt p (icmp_error_fill ?k ty code mtu q) w1) = (r', w2)"
      by fastforce
    have net1: "w_iface w1 = w_iface w" using packet_create_effect(1) [OF w(1) cr] by (rule same_netD(1))
    have res: "(r, w') = (if p = 0 then (- 1, tx_error iface w1)
        else if r' = - 1 then (- 1, packet_free p (tx_error iface w2)) else (r', w2))"
      using s cr out net w(4,5) hdr(2) fits at at_ip False net1
      unfolding icmp_send_error_def Let_def q_def [symmetric]
      by (cases "p = 0") (auto simp: null_buffer_def not_less split: if_splits)
    have fill: "icmp_error_fill ?k ty code mtu q (packet_fresh hp f (8 + (20 + q)) j) =
      (pkt_write 0 (icmp_sealed ?h ?quote) (packet_fresh hp f (8 + (20 + q)) j))\<lparr>pk_len := 8 + (20 + q), pk_layer := 4\<rparr>"
      for hp f j
      using icmp_error_fill_whole [of q ?k ty code mtu hp f j] quote hdr(1) by (simp add: ip.length_bytes)
    have main: "(r = 1 \<or> r = - 1) \<and> ((\<forall>k. \<not> w_oom w k) \<and> path_up sim i w \<longrightarrow> r = 1) \<and>
       (r = - 1 \<longrightarrow> w_sched w' = w_sched w) \<and>
       (\<exists>error. icmp_checksum (Some error) (length error) = 0 \<and> icmp_type (icmp_at error) = ty \<and>
          icmp_code (icmp_at error) = code \<and> icmp_seq (icmp_at error) = (if code = 4 then ns_htons mtu else 0) \<and>
          drop 8 error = ?quote \<and>
          (r = 1 \<longrightarrow> delivers i (peer i w) (arrival sim i w) CB_ethernet_receive_event sim
            (eth_frame m (if_mac (w_iface w i)) 0x0800 (ip_bytes (ip_send_header ?a ?b 1 (length error)) @ error))
            (sm_sched (w_sim w sim)) w w'))" if nb: "neighbour sim i ?a ?b m w" for i m
    proof -
      note sent = output_fresh_packet [OF w(1,2) nb cr _ fill sealed(1) out]
      have "r = 1 \<or> r = - 1" using res sent(1) by (auto split: if_splits)
      moreover have "r = 1" if "\<forall>k. \<not> w_oom w k" "path_up sim i w"
        using res that packet_create_effect(4) [OF w(1) cr] sent(3) by (auto split: if_splits)
      moreover have "w_sched w' = w_sched w" if "r = - 1"
        using that res sent(4) same_netD(3) [OF packet_create_effect(1) [OF w(1) cr]]
        by (auto simp: tx_error_def split: if_splits)
      moreover have "delivers i (peer i w) (arrival sim i w) CB_ethernet_receive_event sim
          (eth_frame m (if_mac (w_iface w i)) 0x0800 (ip_bytes (ip_send_header ?a ?b 1
              (length (icmp_sealed ?h ?quote))) @ icmp_sealed ?h ?quote)) (sm_sched (w_sim w sim)) w w'" if "r = 1"
        unfolding sealed(1) using res that sent(2) by (auto split: if_splits)
      ultimately show ?thesis
        using verifies by (intro conjI impI exI [of _ "icmp_sealed ?h ?quote"]; simp)
    qed
    show ?thesis using False keep main by (simp only: if_False simp_thms) blast
  qed
qed

theorem icmp_error_correct_witness:
  "\<exists>w'. icmp_send_error 1 10 20 3 3 0 (lan (stripped_packet (ip_send_header 0x0A000002 0x0A000001 17 8) [1, 2, 3, 4])
      (event_queue_new 4)) = (1, w')"
proof -
  let ?hdr = "ip_send_header 0x0A000002 0x0A000001 17 8"
  let ?w = "lan (stripped_packet ?hdr [1, 2, 3, 4]) (event_queue_new 4)"
  obtain r w' where s: "icmp_send_error 1 10 20 3 3 0 ?w = (r, w')" by fastforce
  have p: "packet_ok (w_pkt ?w 20)" "20 \<noteq> (0 :: nat)" "pk_head (w_pkt ?w 20) \<noteq> 0"
    "pk_before (w_pkt ?w 20) 20 = ip_bytes ?hdr" "20 \<le> pk_data (w_pkt ?w 20)"
    "pk_data (w_pkt ?w 20) < pk_end (w_pkt ?w 20)" "10 \<noteq> (0 :: nat)"
    using stripped_packet [of ?hdr "[1, 2, 3, 4]"] by simp_all
  have addr: "ns_ntohl (if_ip_addr (w_iface ?w 10)) = 0x0A000001" "ns_ntohl (ip_src_ip ?hdr) = 0x0A000002"
    "ip_protocol ?hdr = 17"
    by (simp_all add: ip_send_header_fields)
  have net: "neighbour 1 10 (ns_ntohl (if_ip_addr (w_iface ?w 10))) (ns_ntohl (ip_src_ip ?hdr)) [2, 0, 0, 0, 0, 2] ?w"
    unfolding addr by (rule lan_neighbour)
  have q: "eq_inv (sc_eq (w_sched ?w (sm_sched (w_sim ?w 1))))" using lan_queue by simp
  have sim: "1 \<noteq> (0 :: nat)" by simp
  have "\<forall>k. \<not> w_oom ?w k" by simp
  then have "r = 1" using icmp_error_correct [OF lan_mem_ok q p(1-6) sim p(7) s] addr(3) net lan_endpoint(3) by fastforce
  then show ?thesis using s by blast
qed

end
