(* ===== verification/Layout.thy ===== *)
theory Layout
  imports Tcp_Delivery Echo
begin

text \<open>
  The frames that the senders of ARP, ICMP, UDP and TCP put on the wire, byte by byte: where the
  protocols want each field, most significant byte first.
\<close>

definition be16 :: "u16 \<Rightarrow> u8 list" where
  "be16 x = [ucast (drop_bit 8 x), ucast x]"

definition be32 :: "u32 \<Rightarrow> u8 list" where
  "be32 x = [ucast (drop_bit 24 x), ucast (drop_bit 16 x), ucast (drop_bit 8 x), ucast x]"

text \<open>
  The IPv4 header without options: version and length, total length, no identification and no
  fragment, TTL 64, protocol, checksum, addresses.
\<close>

definition ip_layout :: "nat \<Rightarrow> u8 \<Rightarrow> u8 list \<Rightarrow> u32 \<Rightarrow> u32 \<Rightarrow> u8 list" where
  "ip_layout len proto ck src dst =
     [0x45, 0] @ be16 (of_nat len) @ [0, 0, 0, 0, 64, proto] @ ck @ be32 src @ be32 dst"

lemma eth_frame_layout: "eth_frame dst src et data = dst @ src @ be16 et @ data"
  by (simp add: eth_frame_def eth_bytes_def le16_htons be16_def)

lemma le16_zero: "le16 0 = [0, 0]" "le16 (ns_htons 0) = [0, 0]"
  by (simp_all add: le16_def ns_htons_def ns_bswap16_def)

lemma ip_send_header_layout:
  obtains ck where "length ck = 2" "ip_bytes (ip_send_header a b pr n) = ip_layout (20 + n) pr ck a b"
    "65535 dvd be_total (ip_layout (20 + n) pr ck a b)"
proof -
  let ?h = "ip_send_header a b pr n" and ?ck = "le16 (ip_header_checksum (ip_send_header a b pr n))"
  have zero: "ip_dscp_ecn ?h = 0" "ip_identification ?h = 0" "ip_flags_fragment_offset ?h = 0"
    by (simp_all add: ip_send_header_def Let_def)
  have bytes: "ip_bytes ?h = ip_layout (20 + n) pr ?ck a b"
    by (simp add: ip_bytes_def ip_send_header_fields zero ip_layout_def le16_htons le32_htonl be16_def be32_def le16_zero)
  have "ip_checksum (Some (ip_bytes ?h @ [])) = 0" by (rule ip_send_header_checksum)
  then have "65535 dvd be_total (ip_bytes ?h)" using ip_checksum_ok_iff [of "ip_bytes ?h" "[]"] by simp
  then show ?thesis using that [of ?ck] bytes by simp
qed

lemma arp_request_layout:
  assumes "if_ip_addr i = ns_htonl a"
  shows "arp_request_bytes i (ns_htonl b) =
    [0, 1, 8, 0, 6, 4, 0, 1] @ if_mac i @ be32 a @ [0, 0, 0, 0, 0, 0] @ be32 b"
proof -
  have "replicate 6 (0 :: u8) = [0, 0, 0, 0, 0, 0]" by (simp add: numeral_eq_Suc)
  then show ?thesis by (simp add: arp_request_bytes_def arp_bytes_def assms le16_htons le32_htonl be32_def)
qed

lemma udp_datagram_layout:
  "udp_datagram sp dp n data = be16 sp @ be16 dp @ be16 (of_nat (8 + n)) @ [0, 0] @ take n data"
  by (simp add: udp_datagram_def udp_bytes_def le16_htons be16_def le16_zero)

lemma tcp_segment_layout:
  "tcp_segment sp dp sq ak fl body =
    be16 sp @ be16 dp @ be32 sq @ be32 ak @ [0x50, fl, 0xFF, 0xFF, 0, 0, 0, 0] @ body"
proof -
  have "ucast (drop_bit 8 (push_bit 12 x OR ucast fl :: u16)) = (push_bit 4 (ucast x) :: u8)"
    "ucast (push_bit 12 x OR ucast fl :: u16) = fl" for x :: u16
    by (rule bit_word_eqI; auto simp: bit_simps)+
  from this [of 5] have "ucast (drop_bit 8 (push_bit 12 5 OR ucast fl :: u16)) = (0x50 :: u8)"
    "ucast (push_bit 12 5 OR ucast fl :: u16) = fl" by simp_all
  then show ?thesis
    by (simp add: tcp_segment_def tcp_header_def tcp_bytes_def le16_htons le32_htonl be16_def be32_def le16_zero)
qed


lemma source_iface_address:
  assumes "ip_find_source_iface sim a w = i" "i \<noteq> NULL"
  shows "if_ip_addr (w_iface w i) = ns_htonl a"
  using assms by (auto simp: ip_find_source_iface_def Let_def dest!: first_index_SomeD split: if_splits option.splits)

text \<open>The message \<open>icmp_send_echo_request\<close> sends.\<close>

lemma echo_request_sent:
  assumes ok: "mem_ok w" "eq_inv (sc_eq (w_sched w (sm_sched (w_sim w sim))))" "neighbour sim i a b m w"
    and n: "n \<le> length data" and s: "icmp_send_echo_request sim a b ident sq (Some data) n w = (r, w')"
  shows "r = 1 \<Longrightarrow> delivers i (peer i w) (arrival sim i w) CB_ethernet_receive_event sim
     (eth_frame m (if_mac (w_iface w i)) 0x0800 (ip_bytes (ip_send_header a b 1 (8 + n)) @
        icmp_sealed \<lparr>icmp_type = 8, icmp_code = 0, icmp_hdr_checksum = 0, icmp_id = ns_htons ident,
          icmp_seq = ns_htons sq\<rparr> (take n data))) (sm_sched (w_sim w sim)) w w'"
    and "(\<And>k. \<not> w_oom w k) \<Longrightarrow> path_up sim i w \<Longrightarrow> r = 1"
proof -
  have sim: "sim \<noteq> 0" using ok(3) by (simp add: neighbour_def)
  obtain p w1 where cr: "packet_create (8 + n) w = (p, w1)" by fastforce
  obtain r' w2 where out: "ip_output sim a b 1 p (upd_pkt p (icmp_request_fill ident sq (Some data) n) w1) = (r', w2)"
    by fastforce
  have res: "(r, w') = (if p = 0 then (- 1, w1) else if r' = - 1 then (- 1, packet_free p w2) else (r', w2))"
    using s cr out sim by (auto simp: icmp_send_echo_request_def Let_def split: if_splits)
  have len: "length (icmp_sealed \<lparr>icmp_type = 8, icmp_code = 0, icmp_hdr_checksum = 0, icmp_id = ns_htons ident,
      icmp_seq = ns_htons sq\<rparr> (take n data)) = 8 + n" using n by (simp add: icmp_sealed_length)
  note sent = output_fresh_packet [OF ok cr _ icmp_request_fill_whole [OF n] len out]
  show "delivers i (peer i w) (arrival sim i w) CB_ethernet_receive_event sim
     (eth_frame m (if_mac (w_iface w i)) 0x0800 (ip_bytes (ip_send_header a b 1 (8 + n)) @
        icmp_sealed \<lparr>icmp_type = 8, icmp_code = 0, icmp_hdr_checksum = 0, icmp_id = ns_htons ident,
          icmp_seq = ns_htons sq\<rparr> (take n data))) (sm_sched (w_sim w sim)) w w'" if "r = 1"
    using res that sent(2) by (auto split: if_splits)
  show "r = 1" if "\<And>k. \<not> w_oom w k" "path_up sim i w"
    using res that packet_create_effect(4) [OF ok(1) cr that(1)] sent(3) by (auto split: if_splits)
qed

lemma echo_request_layout:
  obtains ck where "length ck = 2"
    "icmp_sealed \<lparr>icmp_type = 8, icmp_code = 0, icmp_hdr_checksum = 0, icmp_id = ns_htons ident,
       icmp_seq = ns_htons sq\<rparr> data = [8, 0] @ ck @ be16 ident @ be16 sq @ data"
proof -
  let ?h = "\<lparr>icmp_type = 8, icmp_code = 0, icmp_hdr_checksum = 0, icmp_id = ns_htons ident, icmp_seq = ns_htons sq\<rparr>"
  show ?thesis
    by (rule that [of "le16 (icmp_checksum (Some (icmp_bytes ?h @ data)) (8 + length data))"])
       (simp_all add: icmp_sealed_def icmp_bytes_def le16_htons be16_def Let_def)
qed

section \<open>The property\<close>



end
