(* ===== verification/Send_Queue.thy ===== *)
theory Send_Queue
  imports Tcp_Steps
begin

text \<open>
  The property of the send queue of a connection block (\<open>tcp_sendq_has_unacked\<close>,
  \<open>tcp_sendq_track\<close> and \<open>tcp_sendq_ack\<close> of \<open>protocols/tcp.c\<close>), the last with the packet it frees
  on the heap.
\<close>

lemma upd_tcb_same: "upd_tcb c (\<lambda>_. tcb_of w c) w = w"
  by (simp add: upd_tcb_def upd_tcp_def tcb_of_def)

lemma tcb_of_upd_other: "d \<noteq> c \<Longrightarrow> tcb_of (upd_tcb c f w) d = tcb_of w d"
  by (cases c; cases d) (auto simp: tcb_of_def at_slot_def)

lemma tcp_sendq_ack_1:
  assumes "sq_entries (tc_sendq (tcb_of w c)) = [s]"
  shows "tcp_sendq_ack (Some c) ack w =
    (if seg_used s \<and> sg_seq_end s \<le> ack
     then upd_tcb c (\<lambda>b. b\<lparr>tc_sendq := \<lparr>sq_entries = [s\<lparr>sg_acked := 1, sg_pkt := NULL\<rparr>],
       sq_count = sq_count (tc_sendq b) - 1\<rparr>\<rparr>) (packet_free (sg_pkt s) w)
     else w)"
  using sendq_acked_1 [OF assms, of ack] upd_tcb_same [of c w]
  by (simp add: tcp_sendq_ack_def upd_tcb_def upd_tcp_def tcb_of_def)

text \<open>
  C17 The send queue holds at most one segment. \<open>tcp_sendq_has_unacked\<close> says whether one is in flight
  that is not acknowledged. \<open>tcp_sendq_track\<close> stores a packet exactly when there is one to store and
  none is in flight, with its sequence numbers, flags and time as given, no retransmission and not
  acknowledged; otherwise it returns -1 and the block is as it was. \<open>tcp_sendq_ack\<close> frees the packet
  in flight, once, and empties the queue when the acknowledged number is at least the end of its
  segment (as unsigned numbers); otherwise it changes nothing. No other field of the block and no
  other block changes.
\<close>

theorem tcp_send_queue_correct:
  assumes "mem_ok w" "slot_ok c (w_tcp w)" "b = tcb_of w c" "sendq_inv b"
    and "\<And>s. in_flight b = Some s \<Longrightarrow> owned w (sg_pkt s)"
    and "w' = tcp_sendq_ack (Some c) ack w"
  shows "tcp_sendq_has_unacked b =
      (case in_flight b of Some s \<Rightarrow> if sg_acked s = 0 then 1 else 0 | None \<Rightarrow> 0) \<and>
    tcp_sendq_track b clone seq_start seq_end flags now =
      (if clone = NULL \<or> in_flight b \<noteq> None then (- 1, b)
       else (0, b\<lparr>tc_sendq := \<lparr>sq_entries = [\<lparr>sg_pkt = clone, sg_seq_start = seq_start,
         sg_seq_end = seq_end, sg_flags = flags, sg_sent_ts = now, sg_retransmits = 0, sg_acked = 0\<rparr>],
         sq_count = 1\<rparr>\<rparr>)) \<and>
    (case in_flight b of
       None \<Rightarrow> w' = w
     | Some s \<Rightarrow>
         if sg_seq_end s \<le> ack
         then consumes (sg_pkt s) w w' \<and> (\<forall>d. tcb_of w' d = (if d = c
           then b\<lparr>tc_sendq := \<lparr>sq_entries = [s\<lparr>sg_acked := 1, sg_pkt := NULL\<rparr>], sq_count = 0\<rparr>\<rparr>
           else tcb_of w d))
         else w' = w)"
  using assms(4)
proof (cases rule: sendq_single)
  case (1 s)
  note s = 1 [unfolded assms(3)]
  have track: "tcp_sendq_track b clone seq_start seq_end flags now =
      (if clone = NULL \<or> in_flight b \<noteq> None then (- 1, b)
       else (0, b\<lparr>tc_sendq := \<lparr>sq_entries = [\<lparr>sg_pkt = clone, sg_seq_start = seq_start,
         sg_seq_end = seq_end, sg_flags = flags, sg_sent_ts = now, sg_retransmits = 0, sg_acked = 0\<rparr>],
         sq_count = 1\<rparr>\<rparr>))"
    using 1 by (cases "tc_sendq b") (auto simp: tcp_sendq_track_def in_flight_1)
  show ?thesis
  proof (cases "seg_used s \<and> sg_seq_end s \<le> ack")
    case True
    let ?f = "\<lambda>b. b\<lparr>tc_sendq := \<lparr>sq_entries = [s\<lparr>sg_acked := 1, sg_pkt := NULL\<rparr>],
       sq_count = sq_count (tc_sendq b) - 1\<rparr>\<rparr>"
    have w': "w' = upd_tcb c ?f (packet_free (sg_pkt s) w)"
      using tcp_sendq_ack_1 [OF s(1), of ack] True assms(6) by simp
    have "owned w (sg_pkt s)" using assms(5) [of s] 1(1) True by (simp add: in_flight_1)
    then have "consumes (sg_pkt s) w (packet_free (sg_pkt s) w)"
      by (rule consumes_free [OF assms(1) _ keeps_refl [OF assms(1)]])
    then have "consumes (sg_pkt s) w w'" by (simp add: w' consumes_def upd_tcb_def mem_ok_def)
    moreover have "tcb_of w' d = (if d = c then ?f b else tcb_of w d)" for d
      using assms(2,3) tcb_of_upd_other [of d c ?f "packet_free (sg_pkt s) w"]
      by (simp add: w')
    ultimately show ?thesis using track 1 True by (simp add: in_flight_1 has_unacked_1)
  next
    case False
    then have "w' = w" using tcp_sendq_ack_1 [OF s(1), of ack] assms(6) by auto
    then show ?thesis using track 1 False by (auto simp: in_flight_1 has_unacked_1)
  qed
qed

theorem tcp_send_queue_correct_witness:
  "let b = tcb_zero\<lparr>tc_sendq := \<lparr>sq_entries = [\<lparr>sg_pkt = 20, sg_seq_start = 100, sg_seq_end = 120,
       sg_flags = 0x18, sg_sent_ts = 5, sg_retransmits = 0, sg_acked = 0\<rparr>], sq_count = 1\<rparr>\<rparr>;
     w = upd_tcb (15, 0) (\<lambda>_. b) (lan (packet_fresh 21 (\<lambda>_. 0) 8 1) (event_queue_new 4))
   in tcp_sendq_has_unacked b = 1 \<and> tcp_sendq_track b 22 120 130 0x18 6 = (- 1, b) \<and>
      20 \<notin> w_live (tcp_sendq_ack (Some (15, 0)) 120 w)"
proof -
  let ?lan = "lan (packet_fresh 21 (\<lambda>_. 0) 8 1) (event_queue_new 4)"
  let ?s = "\<lparr>sg_pkt = 20, sg_seq_start = 100, sg_seq_end = 120, sg_flags = 0x18, sg_sent_ts = 5,
     sg_retransmits = 0, sg_acked = 0\<rparr>"
  let ?b = "tcb_zero\<lparr>tc_sendq := \<lparr>sq_entries = [?s], sq_count = 1\<rparr>\<rparr>"
  let ?w = "upd_tcb (15, 0) (\<lambda>_. ?b) ?lan"
  have slot: "slot_ok (15, 0) (w_tcp ?lan)" by (simp add: slot_ok_def lan_def)
  have c: "slot_ok (15, 0) (w_tcp ?w)" "?b = tcb_of ?w (15, 0)" using slot by simp_all
  have mem: "mem_ok ?w" using lan_mem_ok by (simp add: mem_ok_def upd_tcb_def)
  have b: "sendq_inv ?b" "in_flight ?b = Some ?s" by (simp_all add: sendq_inv_def in_flight_def)
  have "owned ?w 20" using lan_owned by (simp add: owned_def upd_tcb_def)
  then show ?thesis
    using tcp_send_queue_correct [OF mem c b(1) _ refl, where clone = 22 and seq_start = 120
        and seq_end = 130 and flags = "0x18" and now = 6 and ack = 120] b(2)
    by (simp add: Let_def consumes_def)
qed

end
