(* ===== verification/Route_Select.thy ===== *)
theory Route_Select
  imports Route_Table
begin

text \<open>
  What the FIB rebuild computes: for every prefix the best candidate of the RIB, where candidates
  are compared by a linear order on route ranks (administrative distance, metric, sequence
  number), the first slot winning a tie; and the \<open>selected\<close> flags mark exactly those candidates.
\<close>

section \<open>Route ranks\<close>

datatype route_rank = RouteRank (rank_ad: int) (rank_metric: u32) (rank_sequence: u32)

instantiation route_rank :: linorder
begin

definition less_eq_route_rank :: "route_rank \<Rightarrow> route_rank \<Rightarrow> bool" where
  "less_eq_route_rank a b \<longleftrightarrow>
     rank_ad a < rank_ad b \<or> rank_ad a = rank_ad b \<and>
     (rank_metric a < rank_metric b \<or> rank_metric a = rank_metric b \<and>
      rank_sequence a \<le> rank_sequence b)"

definition less_route_rank :: "route_rank \<Rightarrow> route_rank \<Rightarrow> bool" where
  "less_route_rank a b \<longleftrightarrow>
     rank_ad a < rank_ad b \<or> rank_ad a = rank_ad b \<and>
     (rank_metric a < rank_metric b \<or> rank_metric a = rank_metric b \<and>
      rank_sequence a < rank_sequence b)"

instance
  by standard (auto simp: less_eq_route_rank_def less_route_rank_def route_rank.expand)

end

definition rank_of :: "RouteRibEntry \<Rightarrow> route_rank" where
  "rank_of r = RouteRank (route_admin_distance (rr_proto r)) (rr_metric r) (rr_sequence r)"

lemma route_replaces_rank: "route_replaces r cur \<longleftrightarrow> rank_of r < rank_of cur"
  by (simp add: route_replaces_def rank_of_def less_route_rank_def Let_def)

lemma rank_of_selected [simp]: "rank_of (r\<lparr>rr_selected := s\<rparr>) = rank_of r"
  by (simp add: rank_of_def)

section \<open>Best candidates\<close>

abbreviation rib_used :: "RouteRibEntry \<Rightarrow> bool" where "rib_used r \<equiv> rr_valid r \<noteq> 0"
abbreviation fib_used :: "RouteFibEntry \<Rightarrow> bool" where "fib_used f \<equiv> rf_valid f \<noteq> 0"

definition rib_dest :: "RouteRibEntry \<Rightarrow> u32 \<times> u8" where
  "rib_dest r = (rr_prefix r, rr_prefix_len r)"

definition fib_dest :: "RouteFibEntry \<Rightarrow> u32 \<times> u8" where
  "fib_dest f = (rf_prefix f, rf_prefix_len f)"

definition candidate :: "RouteRibEntry list \<Rightarrow> u32 \<times> u8 \<Rightarrow> nat \<Rightarrow> bool" where
  "candidate rib d i \<longleftrightarrow> i < length rib \<and> rib_used (rib ! i) \<and> rib_dest (rib ! i) = d"

fun best_upto :: "RouteRibEntry list \<Rightarrow> u32 \<times> u8 \<Rightarrow> nat \<Rightarrow> nat option" where
  "best_upto rib d 0 = None"
| "best_upto rib d (Suc n) =
     (if rib_used (rib ! n) \<and> rib_dest (rib ! n) = d then
        (case best_upto rib d n of
           None \<Rightarrow> Some n
         | Some k \<Rightarrow> if rank_of (rib ! n) < rank_of (rib ! k) then Some n else Some k)
      else best_upto rib d n)"

lemma best_upto_less: "best_upto rib d n = Some k \<Longrightarrow> k < n"
  by (induction n arbitrary: k) (auto split: option.splits if_splits dest: less_SucI)

lemma best_upto_candidate:
  "n \<le> length rib \<Longrightarrow> best_upto rib d n = Some k \<Longrightarrow> candidate rib d k"
  by (induction n arbitrary: k) (auto simp: candidate_def split: option.splits if_splits)

lemma best_upto_None:
  "n \<le> length rib \<Longrightarrow> best_upto rib d n = None \<longleftrightarrow> (\<forall>i < n. \<not> candidate rib d i)"
  by (induction n) (auto simp: candidate_def less_Suc_eq split: option.splits)

lemma best_upto_least:
  "n \<le> length rib \<Longrightarrow> best_upto rib d n = Some k \<Longrightarrow> i < n \<Longrightarrow> candidate rib d i \<Longrightarrow>
   rank_of (rib ! k) \<le> rank_of (rib ! i) \<and> (rank_of (rib ! k) = rank_of (rib ! i) \<longrightarrow> k \<le> i)"
proof (induction n arbitrary: k i)
  case 0
  then show ?case by simp
next
  case (Suc n)
  show ?case
  proof (cases "rib_used (rib ! n) \<and> rib_dest (rib ! n) = d")
    case False
    then have "i \<noteq> n" "best_upto rib d n = Some k"
      using Suc.prems by (auto simp: candidate_def)
    then show ?thesis using Suc by simp
  next
    case cand: True
    show ?thesis
    proof (cases "best_upto rib d n")
      case None
      then have "k = n" using cand Suc.prems by simp
      moreover have "i = n"
      proof (rule ccontr)
        assume "i \<noteq> n"
        then show False using None best_upto_None [of n rib d] Suc.prems by simp
      qed
      ultimately show ?thesis by simp
    next
      case (Some b)
      have b: "b < n" by (rule best_upto_less [OF Some])
      have ih: "rank_of (rib ! b) \<le> rank_of (rib ! j) \<and> (rank_of (rib ! b) = rank_of (rib ! j) \<longrightarrow> b \<le> j)"
        if "j < n" "candidate rib d j" for j
        using Suc.IH [OF _ Some that] Suc.prems by simp
      show ?thesis
      proof (cases "rank_of (rib ! n) < rank_of (rib ! b)")
        case True
        then have "k = n" using cand Some Suc.prems by simp
        then show ?thesis using ih [of i] True Suc.prems by (cases "i = n") auto
      next
        case False
        then have "k = b" using cand Some Suc.prems by simp
        then show ?thesis using ih [of i] False b Suc.prems by (cases "i = n") auto
      qed
    qed
  qed
qed

section \<open>The loop invariant of the rebuild\<close>

text \<open>The RIB after the candidates below \<open>n\<close>: the best of each prefix are marked.\<close>

definition marked :: "nat \<Rightarrow> RouteRibEntry list \<Rightarrow> RouteRibEntry list" where
  "marked n rib = map (\<lambda>k. if rib_used (rib ! k) \<and> best_upto rib (rib_dest (rib ! k)) n = Some k
                           then (rib ! k)\<lparr>rr_selected := 1\<rparr> else rib ! k) [0..<length rib]"

definition fib_image :: "RouteRibEntry list \<Rightarrow> nat \<Rightarrow> RouteFibEntry" where
  "fib_image rib k = fib_install (rib ! k) k fib_zero"

definition fib_for :: "nat \<Rightarrow> RouteRibEntry list \<Rightarrow> RouteFibEntry list \<Rightarrow> bool" where
  "fib_for n rib fib \<longleftrightarrow>
     length fib = 256 \<and> unique_keys fib_used fib_dest fib \<and> in_use fib_used fib \<le> n \<and>
     (\<forall>d. entry_of fib_used fib_dest d fib = map_option (fib_image rib) (best_upto rib d n))"

definition rebuilt :: "nat \<Rightarrow> RouteRibEntry list \<Rightarrow> RouteTable \<Rightarrow> bool" where
  "rebuilt n rib t \<longleftrightarrow>
     rt_rib t = marked n rib \<and> fib_for n rib (rt_fib t) \<and>
     rt_fib_count t = int (in_use fib_used (rt_fib t))"

lemma length_marked [simp]: "length (marked n rib) = length rib"
  by (simp add: marked_def)

lemma nth_marked:
  "k < length rib \<Longrightarrow> marked n rib ! k =
     (if rib_used (rib ! k) \<and> best_upto rib (rib_dest (rib ! k)) n = Some k
      then (rib ! k)\<lparr>rr_selected := 1\<rparr> else rib ! k)"
  by (simp add: marked_def)

lemma nth_marked_same: "n < length rib \<Longrightarrow> marked n rib ! n = rib ! n"
  using best_upto_less [of rib "rib_dest (rib ! n)" n n] by (auto simp: nth_marked)

lemma fib_install_image: "fib_install (rib ! k) k f = fib_image rib k"
  by (cases f) (simp add: fib_install_def fib_zero_def fib_image_def)

lemma fib_install_selected [simp]:
  "fib_install (r\<lparr>rr_selected := s\<rparr>) k f = fib_install r k f"
  by (simp add: fib_install_def)

lemma fib_image_simps [simp]:
  "rf_valid (fib_image rib k) = 1" "rf_rib_index (fib_image rib k) = int k"
  "fib_dest (fib_image rib k) = rib_dest (rib ! k)"
  by (simp_all add: fib_image_def fib_install_def fib_dest_def rib_dest_def)

lemma fib_slot:
  "first_index (\<lambda>f. rf_valid f \<noteq> 0 \<and> rf_prefix f = p \<and> rf_prefix_len f = l) fib
     = slot_of fib_used fib_dest (p, l) fib"
  by (simp add: slot_of_def fib_dest_def)

lemma marked_Suc_skip:
  assumes "\<And>d. best_upto rib d (Suc n) = best_upto rib d n"
  shows "marked (Suc n) rib = marked n rib"
  unfolding marked_def using assms by simp

lemma marked_Suc_first:
  assumes "n < length rib" "rib_used (rib ! n)" "best_upto rib (rib_dest (rib ! n)) n = None"
  shows "marked (Suc n) rib = (marked n rib)[n := (rib ! n)\<lparr>rr_selected := 1\<rparr>]"
proof (rule nth_equalityI)
  fix m assume "m < length (marked (Suc n) rib)"
  then have m: "m < length rib" by simp
  show "marked (Suc n) rib ! m = (marked n rib)[n := (rib ! n)\<lparr>rr_selected := 1\<rparr>] ! m"
    using assms m by (cases "m = n") (auto simp: nth_marked)
qed simp

lemma marked_Suc_replace:
  assumes "n < length rib" "rib_used (rib ! n)" "best_upto rib (rib_dest (rib ! n)) n = Some c"
    and "rank_of (rib ! n) < rank_of (rib ! c)"
  shows "marked (Suc n) rib = (marked n rib)[c := rib ! c, n := (rib ! n)\<lparr>rr_selected := 1\<rparr>]"
proof (rule nth_equalityI)
  fix m assume "m < length (marked (Suc n) rib)"
  then have m: "m < length rib" by simp
  have c: "c < n" "rib_dest (rib ! c) = rib_dest (rib ! n)"
    using best_upto_less [OF assms(3)] best_upto_candidate [OF _ assms(3)] assms(1)
    by (auto simp: candidate_def)
  have best: "best_upto rib (rib_dest (rib ! n)) (Suc n) = Some n"
    using assms by simp
  consider "m = n" | "m = c" "m \<noteq> n" | "m \<noteq> c" "m \<noteq> n" "rib_dest (rib ! m) = rib_dest (rib ! n)"
    | "m \<noteq> c" "m \<noteq> n" "rib_dest (rib ! m) \<noteq> rib_dest (rib ! n)" by blast
  then show "marked (Suc n) rib ! m = (marked n rib)[c := rib ! c, n := (rib ! n)\<lparr>rr_selected := 1\<rparr>] ! m"
  proof cases
    case 1
    then show ?thesis using best assms(1,2) by (simp add: nth_marked del: best_upto.simps)
  next
    case 2
    then show ?thesis using best assms(1) c by (simp add: nth_marked del: best_upto.simps)
  next
    case 3
    then show ?thesis using best assms(1,3) m by (simp add: nth_marked del: best_upto.simps)
  next
    case 4
    then have "best_upto rib (rib_dest (rib ! m)) (Suc n) = best_upto rib (rib_dest (rib ! m)) n"
      by simp
    then show ?thesis using 4 m by (simp add: nth_marked del: best_upto.simps)
  qed
qed simp

lemma fib_forD:
  "fib_for n rib fib \<Longrightarrow> entry_of fib_used fib_dest d fib = map_option (fib_image rib) (best_upto rib d n)"
  unfolding fib_for_def by blast

lemma fib_forI:
  assumes "length fib = 256" "unique_keys fib_used fib_dest fib" "in_use fib_used fib \<le> n"
    and "\<And>d. entry_of fib_used fib_dest d fib = map_option (fib_image rib) (best_upto rib d n)"
  shows "fib_for n rib fib"
  using assms unfolding fib_for_def by blast

lemma fib_for_skip:
  assumes "fib_for n rib fib" "\<And>d. best_upto rib d (Suc n) = best_upto rib d n"
  shows "fib_for (Suc n) rib fib"
  using assms(1) fib_forD [OF assms(1)] assms(2)
  by (intro fib_forI) (auto simp add: fib_for_def simp del: best_upto.simps)

text \<open>Writing the image of candidate \<open>n\<close> into slot \<open>j\<close> of the FIB.\<close>

lemma fib_for_write:
  assumes "fib_for n rib fib" "j < length fib"
    and "slot_of fib_used fib_dest (rib_dest (rib ! n)) fib = None \<and> \<not> fib_used (fib ! j)
      \<or> slot_of fib_used fib_dest (rib_dest (rib ! n)) fib = Some j"
    and "\<And>d. best_upto rib d (Suc n) = (if rib_dest (rib ! n) = d then Some n else best_upto rib d n)"
  shows "fib_for (Suc n) rib (fib[j := fib_image rib n])"
proof -
  let ?f = "fib_image rib n"
  have uk: "unique_keys fib_used fib_dest fib" using assms(1) by (simp add: fib_for_def)
  have slot: "slot_of fib_used fib_dest (fib_dest ?f) fib = None
      \<or> slot_of fib_used fib_dest (fib_dest ?f) fib = Some j" using assms(3) by auto
  have old: "fib_used (fib ! j) \<Longrightarrow> fib_dest (fib ! j) = rib_dest (rib ! n)"
    using assms(3) by (auto dest: slot_of_SomeD)
  show ?thesis
  proof (rule fib_forI)
    show "length (fib[j := ?f]) = 256" using assms(1) by (simp add: fib_for_def)
    show "unique_keys fib_used fib_dest (fib[j := ?f])"
      using uk assms(2) slot by (intro unique_keys_update) auto
    have "in_use fib_used (fib[j := ?f]) \<le> Suc (in_use fib_used fib)"
      using in_use_update_take [of j fib fib_used ?f] in_use_update_same [of j fib fib_used ?f] assms(2)
      by (cases "fib_used (fib ! j)") auto
    then show "in_use fib_used (fib[j := ?f]) \<le> Suc n" using assms(1) by (simp add: fib_for_def)
  next
    fix d
    have "entry_of fib_used fib_dest d (fib[j := ?f]) =
        (if rib_dest (rib ! n) = d then Some ?f
         else if fib_used (fib ! j) \<and> fib_dest (fib ! j) = d then None
         else entry_of fib_used fib_dest d fib)"
      using assms(2) slot by (subst entry_of_update [OF uk]) auto
    also have "\<dots> = map_option (fib_image rib) (best_upto rib d (Suc n))"
      using old fib_forD [OF assms(1), of d] by (auto simp add: assms(4) simp del: best_upto.simps)
    finally show "entry_of fib_used fib_dest d (fib[j := ?f]) =
        map_option (fib_image rib) (best_upto rib d (Suc n))" .
  qed
qed

lemma rebuild_step_rebuilt:
  assumes "rebuilt n rib t" "n < length rib" "length rib = 256"
    and cleared: "\<forall>r \<in> set rib. rib_used r \<longrightarrow> rr_selected r = 0"
  shows "rebuilt (Suc n) rib (rebuild_step n t)"
proof -
  let ?r = "rib ! n" and ?fib = "rt_fib t"
  have fib: "fib_for n rib ?fib" and rib: "rt_rib t = marked n rib"
    and cnt: "rt_fib_count t = int (in_use fib_used ?fib)"
    using assms(1) by (auto simp: rebuilt_def)
  have r: "rt_rib t ! n = ?r" using assms(2) by (simp add: rib nth_marked_same)
  have entry: "entry_of fib_used fib_dest d ?fib = map_option (fib_image rib) (best_upto rib d n)" for d
    by (rule fib_forD [OF fib])
  have slot: "first_index (\<lambda>f. rf_valid f \<noteq> 0 \<and> rf_prefix f = rr_prefix ?r \<and> rf_prefix_len f = rr_prefix_len ?r) ?fib
      = slot_of fib_used fib_dest (rib_dest ?r) ?fib" by (simp add: fib_slot rib_dest_def)
  show ?thesis
  proof (cases "rib_used ?r")
    case False
    then have same: "best_upto rib d (Suc n) = best_upto rib d n" for d by simp
    then show ?thesis
      using False r cnt rib marked_Suc_skip [OF same] fib_for_skip [OF fib same]
      by (simp add: rebuild_step_def rebuilt_def)
  next
    case used: True
    show ?thesis
    proof (cases "slot_of fib_used fib_dest (rib_dest ?r) ?fib")
      case None
      then have none: "best_upto rib (rib_dest ?r) n = None"
        using entry [of "rib_dest ?r"] by (simp add: entry_of_def split: option.splits)
      have "in_use fib_used ?fib < length ?fib" using fib assms(2,3) by (simp add: fib_for_def)
      then obtain j where j: "first_index (\<lambda>f. rf_valid f = 0) ?fib = Some j"
        by (metis first_index_None in_use_room option.exhaust)
      note jD = first_index_SomeD [OF j]
      have best: "best_upto rib d (Suc n) = (if rib_dest ?r = d then Some n else best_upto rib d n)" for d
        using used none by auto
      have "fib_for (Suc n) rib (?fib[j := fib_image rib n])"
        using jD None by (intro fib_for_write [OF fib _ _ best]) auto
      moreover have "in_use fib_used (?fib[j := fib_image rib n]) = Suc (in_use fib_used ?fib)"
        using jD by (intro in_use_update_take) auto
      ultimately show ?thesis
        using used r None j cnt rib marked_Suc_first [OF assms(2) used none]
        by (simp add: rebuild_step_def rebuilt_def slot fib_install_image)
    next
      case (Some j)
      then obtain c where c: "best_upto rib (rib_dest ?r) n = Some c" and fj: "?fib ! j = fib_image rib c"
        using entry [of "rib_dest ?r"] Some
        by (cases "best_upto rib (rib_dest ?r) n") (auto simp: entry_of_def)
      have cn: "c < n" by (rule best_upto_less [OF c])
      have cand: "rib_used (rib ! c)" "rib_dest (rib ! c) = rib_dest ?r"
        using best_upto_candidate [OF _ c] assms(2) by (auto simp: candidate_def)
      have cur: "rt_rib t ! c = (rib ! c)\<lparr>rr_selected := 1\<rparr>"
        using c cn cand assms(2) by (simp add: rib nth_marked)
      have jl: "j < length ?fib" "fib_used (?fib ! j)" using slot_of_SomeD [OF Some] by auto
      show ?thesis
      proof (cases "rank_of ?r < rank_of (rib ! c)")
        case True
        have best: "best_upto rib d (Suc n) = (if rib_dest ?r = d then Some n else best_upto rib d n)" for d
          using used c True by auto
        have "fib_for (Suc n) rib (?fib[j := fib_image rib n])"
          using Some jl by (intro fib_for_write [OF fib _ _ best]) auto
        moreover have "in_use fib_used (?fib[j := fib_image rib n]) = in_use fib_used ?fib"
          using jl by (intro in_use_update_same) auto
        moreover have "(rib ! c)\<lparr>rr_selected := 0\<rparr> = rib ! c"
          using cleared cand cn assms(2) by (cases "rib ! c") (metis RouteRibEntry.select_convs(5)
              RouteRibEntry.update_convs(5) nth_mem order.strict_trans)
        moreover have "((marked n rib)[c := rib ! c]) ! n = ?r"
          using cn assms(2) by (simp add: nth_marked_same)
        ultimately show ?thesis
          using True used r Some cnt cur fj marked_Suc_replace [OF assms(2) used c True]
          by (simp add: rebuild_step_def rebuilt_def slot route_replaces_rank Let_def rib
              fib_install_image)
      next
        case False
        then have same: "best_upto rib d (Suc n) = best_upto rib d n" for d
          using used c by auto
        then show ?thesis
          using False used r Some cnt rib cur fj marked_Suc_skip [OF same] fib_for_skip [OF fib same]
          by (simp add: rebuild_step_def rebuilt_def slot route_replaces_rank Let_def)
      qed
    qed
  qed
qed

lemma rebuild_loop_rebuilt:
  assumes "rebuilt i rib t" "i + n = 256" "length rib = 256"
    and "\<forall>r \<in> set rib. rib_used r \<longrightarrow> rr_selected r = 0"
  shows "rebuilt 256 rib (rebuild_loop i n t)"
  using assms
proof (induction i n t rule: rebuild_loop.induct)
  case (1 i t)
  then show ?case by simp
next
  case (2 i n t)
  have "rebuilt (Suc i) rib (rebuild_step i t)"
    using "2.prems" by (intro rebuild_step_rebuilt) auto
  then show ?case using 2 by simp
qed

section \<open>The result of a rebuild\<close>

text \<open>The candidate the FIB must hold for a destination.\<close>

definition best_route :: "RouteRibEntry list \<Rightarrow> u32 \<times> u8 \<Rightarrow> nat option" where
  "best_route rib d = best_upto rib d (length rib)"

definition unselect :: "RouteRibEntry \<Rightarrow> RouteRibEntry" where
  "unselect r = (if rib_used r then r\<lparr>rr_selected := 0\<rparr> else r)"

definition fib_correct :: "RouteTable \<Rightarrow> bool" where
  "fib_correct t \<longleftrightarrow>
     length (rt_rib t) = 256 \<and> length (rt_fib t) = 256 \<and>
     unique_keys fib_used fib_dest (rt_fib t) \<and>
     rt_fib_count t = int (in_use fib_used (rt_fib t)) \<and>
     (\<forall>d. entry_of fib_used fib_dest d (rt_fib t)
          = map_option (fib_image (rt_rib t)) (best_route (rt_rib t) d)) \<and>
     (\<forall>i < 256. rib_used (rt_rib t ! i) \<longrightarrow>
        rr_selected (rt_rib t ! i) =
          (if best_route (rt_rib t) (rib_dest (rt_rib t ! i)) = Some i then 1 else 0))"

text \<open>Ranks, destinations and the best routes do not look at the selected flags.\<close>

lemma unselect_simps [simp]:
  "rib_used (unselect r) = rib_used r" "rib_dest (unselect r) = rib_dest r"
  "rank_of (unselect r) = rank_of r" "fib_install (unselect r) k f = fib_install r k f"
  by (simp_all add: unselect_def rib_dest_def)

lemma rib_dest_selected [simp]: "rib_dest (r\<lparr>rr_selected := s\<rparr>) = rib_dest r"
  by (simp add: rib_dest_def)

lemma best_upto_cong:
  assumes "\<And>i. i < n \<Longrightarrow> rib_used (rib ! i) = rib_used (rib' ! i) \<and> rib_dest (rib ! i) = rib_dest (rib' ! i)
      \<and> rank_of (rib ! i) = rank_of (rib' ! i)"
  shows "best_upto rib d n = best_upto rib' d n"
  using assms
proof (induction n)
  case 0
  then show ?case by simp
next
  case (Suc n)
  then have "best_upto rib d n = best_upto rib' d n" by simp
  moreover have "rank_of (rib ! k) = rank_of (rib' ! k)" if "best_upto rib' d n = Some k" for k
    using Suc.prems [of k] best_upto_less [OF that] by simp
  ultimately show ?case using Suc.prems [of n] by (auto split: option.split)
qed

lemma rebuild_clear_rebuilt:
  assumes "length (rt_rib t) = 256" "length (rt_fib t) = 256"
  shows "rebuilt 0 (map unselect (rt_rib t)) (rebuild_clear t)"
proof -
  have "rt_rib (rebuild_clear t) = map unselect (rt_rib t)"
    by (simp add: rebuild_clear_def unselect_def)
  also have "\<dots> = marked 0 (map unselect (rt_rib t))"
    by (rule nth_equalityI) (simp_all add: nth_marked)
  finally have rib: "rt_rib (rebuild_clear t) = marked 0 (map unselect (rt_rib t))" .
  have fib: "rt_fib (rebuild_clear t) = replicate 256 fib_zero"
    using assms by (simp add: rebuild_clear_def map_replicate_const)
  have zero: "\<not> fib_used fib_zero" by (simp add: fib_zero_def)
  have "in_use fib_used (replicate 256 fib_zero) = 0" using zero by (auto simp: in_use_0)
  moreover have "fib_for 0 (map unselect (rt_rib t)) (replicate 256 fib_zero)"
    using zero calculation
    by (intro fib_forI) (auto simp: unique_keys_def entry_of_None slot_of_None)
  ultimately show ?thesis
    using rib fib by (simp add: rebuilt_def) (simp add: rebuild_clear_def Let_def)
qed

text \<open>The rebuild changes nothing of the RIB but the selected flags, and makes the FIB correct.\<close>

definition same_routes :: "RouteRibEntry list \<Rightarrow> RouteRibEntry list \<Rightarrow> bool" where
  "same_routes rib rib' \<longleftrightarrow> length rib = length rib' \<and>
     (\<forall>i < length rib. \<exists>s. rib' ! i = (rib ! i)\<lparr>rr_selected := s\<rparr>)"

lemma rebuild_step_frame:
  "rt_rib_count (rebuild_step i t) = rt_rib_count t"
  "rt_next_sequence (rebuild_step i t) = rt_next_sequence t"
  by (auto simp: rebuild_step_def Let_def split: option.split)

lemma rebuild_loop_frame:
  "rt_rib_count (rebuild_loop i n t) = rt_rib_count t"
  "rt_next_sequence (rebuild_loop i n t) = rt_next_sequence t"
  by (induction i n t rule: rebuild_loop.induct) (simp_all add: rebuild_step_frame)

lemma rib_selected_id: "(r :: RouteRibEntry)\<lparr>rr_selected := rr_selected r\<rparr> = r"
  by (cases r) simp

lemma marked_unselect_nth:
  assumes "k < length rib"
  shows "\<exists>s. marked n (map unselect rib) ! k = (rib ! k)\<lparr>rr_selected := s\<rparr>"
  using assms rib_selected_id [of "rib ! k"]
  by (auto simp: nth_marked unselect_def intro: exI [of _ "rr_selected (rib ! k)"])

lemma rebuild_fib_same_routes:
  "length rib = 256 \<Longrightarrow> same_routes rib (marked 256 (map unselect rib))"
  by (simp add: same_routes_def marked_unselect_nth)

lemma same_routes_best:
  assumes "same_routes rib rib'"
  shows "best_route rib d = best_route rib' d"
  unfolding best_route_def
  using assms by (subst best_upto_cong [of "length rib" rib rib']) (auto simp: same_routes_def)

lemma same_routes_image:
  assumes "same_routes rib rib'" "k < length rib"
  shows "fib_image rib k = fib_image rib' k"
  using assms by (auto simp: same_routes_def fib_image_def)

lemma same_routes_unselect: "same_routes (map unselect rib) rib" "same_routes rib (map unselect rib)"
proof -
  have "\<exists>s. r = (unselect r)\<lparr>rr_selected := s\<rparr>" "\<exists>s. unselect r = r\<lparr>rr_selected := s\<rparr>" for r
    by (cases r; auto simp: unselect_def)+
  then show "same_routes (map unselect rib) rib" "same_routes rib (map unselect rib)"
    by (simp_all add: same_routes_def)
qed

lemma marked_selected:
  assumes "i < length rib" "i < n" "rib_used (marked n rib ! i)" "rr_selected (rib ! i) = 0"
  shows "rr_selected (marked n rib ! i)
    = (if best_upto rib (rib_dest (marked n rib ! i)) n = Some i then 1 else 0)"
  using assms by (auto simp: nth_marked split: if_splits)

lemma rebuild_fib_correct:
  assumes len: "length (rt_rib t) = 256" "length (rt_fib t) = 256"
    and res: "route_table_rebuild_fib (Some t) = (r, Some t')"
  shows "r = 0" "fib_correct t'" "same_routes (rt_rib t) (rt_rib t')"
    "rt_rib_count t' = rt_rib_count t" "rt_next_sequence t' = rt_next_sequence t"
    "\<And>i. i < 256 \<Longrightarrow> \<not> rib_used (rt_rib t ! i) \<Longrightarrow> rt_rib t' ! i = rt_rib t ! i"
proof -
  let ?rib0 = "map unselect (rt_rib t)"
  have t': "t' = rebuild_loop 0 256 (rebuild_clear t)" and "r = 0"
    using res by (auto simp: route_table_rebuild_fib_def)
  then show "r = 0" by simp
  have rb: "rebuilt 256 ?rib0 t'"
    unfolding t' using len rebuild_clear_rebuilt [of t]
    by (intro rebuild_loop_rebuilt) (auto simp: unselect_def)
  then have rib: "rt_rib t' = marked 256 ?rib0" and fib: "fib_for 256 ?rib0 (rt_fib t')"
    and cnt: "rt_fib_count t' = int (in_use fib_used (rt_fib t'))"
    by (auto simp: rebuilt_def)
  show same: "same_routes (rt_rib t) (rt_rib t')"
    unfolding rib by (rule rebuild_fib_same_routes [OF len(1)])
  show "rt_rib_count t' = rt_rib_count t" "rt_next_sequence t' = rt_next_sequence t"
    by (simp_all add: t' rebuild_loop_frame rebuild_clear_def Let_def)
  show "rt_rib t' ! i = rt_rib t ! i" if "i < 256" "\<not> rib_used (rt_rib t ! i)" for i
    using that len by (simp add: rib nth_marked) (simp add: unselect_def)
  have best: "best_route (rt_rib t') d = best_upto ?rib0 d 256" for d
    using same_routes_best [OF same_routes_unselect(1) [of "rt_rib t"]] same_routes_best [OF same] len
    by (simp add: best_route_def)
  have img: "fib_image (rt_rib t') k = fib_image ?rib0 k" if "k < 256" for k
    using same_routes_image [OF same, of k] same_routes_image [OF same_routes_unselect(2), of k "rt_rib t"]
      that len by metis
  have entry: "entry_of fib_used fib_dest d (rt_fib t')
      = map_option (fib_image (rt_rib t')) (best_route (rt_rib t') d)" for d
    unfolding best fib_forD [OF fib]
    by (rule option.map_cong0) (auto simp: img dest: best_upto_less)
  have sel: "rr_selected (rt_rib t' ! i) = (if best_route (rt_rib t') (rib_dest (rt_rib t' ! i)) = Some i then 1 else 0)"
    if "i < 256" "rib_used (rt_rib t' ! i)" for i
    using marked_selected [of i ?rib0 256, folded rib] that len unfolding best
    by (auto simp: rib nth_marked unselect_def split: if_splits)
  have "unique_keys fib_used fib_dest (rt_fib t')" "length (rt_fib t') = 256"
    using fib by (simp_all add: fib_for_def)
  moreover have "length (rt_rib t') = 256" using len rib by simp
  ultimately show "fib_correct t'"
    unfolding fib_correct_def using cnt entry sel by blast
qed

end
