(* ===== verification/Route_Ops.thy ===== *)
theory Route_Ops
  imports Route_Select
begin

text \<open>
  The invariant of the routing table, the effect of adding, deleting and flushing routes on the
  abstract content of the RIB (a map from prefix, length and protocol to next hop, interface and
  metric), and the longest-prefix match computed by the lookup.
\<close>

section \<open>The validity predicates of the header\<close>

definition route_valid_rib_slot :: "RouteRibEntry \<Rightarrow> bool" where
  "route_valid_rib_slot r \<longleftrightarrow>
     rr_valid r = 0 \<and> rr_selected r = 0 \<and> rr_iface r = NULL \<or>
     rr_valid r = 1 \<and> rr_prefix_len r \<le> 32 \<and>
     rr_prefix r AND route_prefix_mask (rr_prefix_len r) = rr_prefix r \<and>
     rr_proto r \<noteq> 0 \<and> rr_iface r \<noteq> NULL"

definition route_valid_fib_slot :: "RouteFibEntry \<Rightarrow> bool" where
  "route_valid_fib_slot f \<longleftrightarrow>
     rf_valid f = 0 \<and> rf_iface f = NULL \<or>
     rf_valid f = 1 \<and> rf_prefix_len f \<le> 32 \<and>
     rf_prefix f AND route_prefix_mask (rf_prefix_len f) = rf_prefix f \<and>
     rf_proto f \<noteq> 0 \<and> rf_iface f \<noteq> NULL \<and> 0 \<le> rf_rib_index f \<and> rf_rib_index f < 256"

definition route_table_basic_valid :: "RouteTable \<Rightarrow> bool" where
  "route_table_basic_valid t \<longleftrightarrow>
     0 \<le> rt_rib_count t \<and> rt_rib_count t \<le> 256 \<and>
     0 \<le> rt_fib_count t \<and> rt_fib_count t \<le> 256 \<and>
     list_all route_valid_rib_slot (rt_rib t) \<and> list_all route_valid_fib_slot (rt_fib t)"

section \<open>The invariant\<close>

definition rib_key :: "RouteRibEntry \<Rightarrow> u32 \<times> u8 \<times> u8" where
  "rib_key r = (rr_prefix r, rr_prefix_len r, rr_proto r)"

definition rib_inv :: "RouteTable \<Rightarrow> bool" where
  "rib_inv t \<longleftrightarrow> length (rt_rib t) = 256 \<and> (\<forall>r \<in> set (rt_rib t). route_valid_rib_slot r) \<and>
     unique_keys rib_used rib_key (rt_rib t) \<and>
     rt_rib_count t = int (in_use rib_used (rt_rib t))"

definition fib_clean :: "RouteFibEntry list \<Rightarrow> bool" where
  "fib_clean fib \<longleftrightarrow> (\<forall>f \<in> set fib. fib_used f \<or> f = fib_zero)"

definition rt_inv :: "RouteTable \<Rightarrow> bool" where
  "rt_inv t \<longleftrightarrow> rib_inv t \<and> fib_correct t \<and> fib_clean (rt_fib t)"

lemma rib_key_selected [simp]: "rib_key (r\<lparr>rr_selected := s\<rparr>) = rib_key r"
  by (simp add: rib_key_def)

lemma rib_invD:
  assumes "rib_inv t"
  shows "length (rt_rib t) = 256" "unique_keys rib_used rib_key (rt_rib t)"
    "rt_rib_count t = int (in_use rib_used (rt_rib t))"
    "\<And>i. i < 256 \<Longrightarrow> route_valid_rib_slot (rt_rib t ! i)"
  using assms by (auto simp: rib_inv_def)

lemma rt_invD:
  assumes "rt_inv t"
  shows "rib_inv t" "fib_correct t" "length (rt_fib t) = 256" "length (rt_rib t) = 256"
  using assms by (auto simp: rt_inv_def fib_correct_def)

lemma fib_clean_update: "fib_clean fib \<Longrightarrow> fib_used f \<Longrightarrow> fib_clean (fib[j := f])"
  unfolding fib_clean_def by (metis in_set_conv_nth length_list_update nth_list_update_eq nth_list_update_neq)

lemma rebuild_loop_clean: "fib_clean (rt_fib t) \<Longrightarrow> fib_clean (rt_fib (rebuild_loop i n t))"
proof (induction i n t rule: rebuild_loop.induct)
  case (2 i n t)
  have "fib_clean (rt_fib (rebuild_step i t))"
    using 2(2) by (auto simp: rebuild_step_def Let_def fib_install_def intro: fib_clean_update
        split: option.split)
  then show ?case using 2 by simp
qed simp

lemma same_routes_nth:
  assumes "same_routes rib rib'" "i < length rib"
  obtains s where "rib' ! i = (rib ! i)\<lparr>rr_selected := s\<rparr>"
  using assms by (auto simp: same_routes_def)

lemma same_routes_length: "same_routes rib rib' \<Longrightarrow> length rib' = length rib"
  by (simp add: same_routes_def)

lemma same_routes_used:
  assumes "same_routes rib rib'" "i < length rib"
  shows "rib_used (rib' ! i) = rib_used (rib ! i)" "rib_key (rib' ! i) = rib_key (rib ! i)"
    "rr_next_hop (rib' ! i) = rr_next_hop (rib ! i)" "rr_iface (rib' ! i) = rr_iface (rib ! i)"
    "rr_metric (rib' ! i) = rr_metric (rib ! i)"
  using same_routes_nth [OF assms] by (metis RouteRibEntry.select_convs RouteRibEntry.surjective RouteRibEntry.update_convs(5) rib_key_selected)+

lemma in_use_cong:
  "length xs = length ys \<Longrightarrow> (\<And>i. i < length xs \<Longrightarrow> P (xs ! i) = P (ys ! i)) \<Longrightarrow> in_use P xs = in_use P ys"
  by (induction xs ys rule: list_induct2) (auto, (metis Suc_less_eq Zero_not_Suc length_Cons nth_Cons_0 nth_Cons_Suc zero_less_Suc)+)

lemma same_routes_rib_inv:
  assumes inv: "rib_inv t" and same: "same_routes (rt_rib t) (rt_rib t')"
    and cnt: "rt_rib_count t' = rt_rib_count t"
    and unused: "\<And>i. i < 256 \<Longrightarrow> \<not> rib_used (rt_rib t ! i) \<Longrightarrow> rt_rib t' ! i = rt_rib t ! i"
  shows "rib_inv t'"
proof -
  note len = rib_invD(1) [OF inv] same_routes_length [OF same]
  have slot: "route_valid_rib_slot (rt_rib t' ! i)" if i: "i < 256" for i
  proof (cases "rib_used (rt_rib t ! i)")
    case True
    then have "route_valid_rib_slot ((rt_rib t ! i)\<lparr>rr_selected := s\<rparr>)" for s
      using rib_invD(4) [OF inv i] by (auto simp: route_valid_rib_slot_def)
    then show ?thesis using same_routes_nth [OF same] i len by metis
  next
    case False
    then show ?thesis using unused rib_invD(4) [OF inv i] i by simp
  qed
  have "in_use rib_used (rt_rib t') = in_use rib_used (rt_rib t)"
    using len same_routes_used(1) [OF same] by (intro in_use_cong) auto
  moreover have "unique_keys rib_used rib_key (rt_rib t')"
    using rib_invD(2) [OF inv] len same_routes_used(1,2) [OF same] unfolding unique_keys_def by metis
  ultimately show ?thesis
    using len cnt slot rib_invD(3) [OF inv] by (auto simp: rib_inv_def in_set_conv_nth)
qed

text \<open>A rebuild establishes the invariant from the RIB part alone.\<close>

lemma rebuild_rt_inv:
  assumes "rib_inv t" "length (rt_fib t) = 256"
  obtains t' where "route_table_rebuild_fib (Some t) = (0, Some t')" "rt_inv t'"
    "same_routes (rt_rib t) (rt_rib t')" "rt_next_sequence t' = rt_next_sequence t"
proof -
  let ?t' = "rebuild_loop 0 256 (rebuild_clear t)"
  have res: "route_table_rebuild_fib (Some t) = (0, Some ?t')"
    by (simp add: route_table_rebuild_fib_def)
  note rb = rebuild_fib_correct [OF rib_invD(1) [OF assms(1)] assms(2) res]
  have "fib_clean (rt_fib (rebuild_clear t))"
    by (simp add: fib_clean_def rebuild_clear_def Let_def)
  then have "rt_inv ?t'"
    using same_routes_rib_inv [OF assms(1) rb(3,4,6)] rb(2)
    by (simp add: rt_inv_def rebuild_loop_clean)
  then show ?thesis using that res rb by blast
qed

text \<open>The invariant implies the validity predicate of the header's contracts.\<close>

lemma fib_entry_image:
  assumes inv: "rt_inv t" and f: "f \<in> set (rt_fib t)" "fib_used f"
  obtains k where "best_route (rt_rib t) (fib_dest f) = Some k" "k < 256" "f = fib_image (rt_rib t) k"
    "rib_used (rt_rib t ! k)" "rib_dest (rt_rib t ! k) = fib_dest f"
proof -
  have fc: "fib_correct t" by (rule rt_invD(2) [OF inv])
  have "entry_of fib_used fib_dest (fib_dest f) (rt_fib t) = Some f"
    using fc f by (subst entry_of_iff) (auto simp: fib_correct_def)
  moreover have "entry_of fib_used fib_dest (fib_dest f) (rt_fib t)
      = map_option (fib_image (rt_rib t)) (best_route (rt_rib t) (fib_dest f))"
    using fc unfolding fib_correct_def by blast
  ultimately obtain k where k: "best_route (rt_rib t) (fib_dest f) = Some k" "f = fib_image (rt_rib t) k"
    by (metis map_option_eq_Some)
  then have "candidate (rt_rib t) (fib_dest f) k"
    by (auto simp: best_route_def intro: best_upto_candidate)
  then show ?thesis using that k rt_invD(4) [OF inv] by (auto simp: candidate_def)
qed

lemma rt_inv_basic_valid: "rt_inv t \<Longrightarrow> route_table_basic_valid t"
proof -
  assume inv: "rt_inv t"
  have "route_valid_fib_slot f" if f: "f \<in> set (rt_fib t)" for f
  proof (cases "fib_used f")
    case True
    obtain k where k: "k < 256" "f = fib_image (rt_rib t) k" "rib_used (rt_rib t ! k)"
      using fib_entry_image [OF inv f True] by metis
    have "route_valid_rib_slot (rt_rib t ! k)"
      using k rib_invD(4) rt_invD(1) [OF inv] by blast
    then show ?thesis
      using k by (auto simp: route_valid_rib_slot_def route_valid_fib_slot_def fib_image_def fib_install_def)
  next
    case False
    then have "f = fib_zero" using inv f by (auto simp: rt_inv_def fib_clean_def)
    then show ?thesis by (simp add: route_valid_fib_slot_def fib_zero_def)
  qed
  moreover have "in_use fib_used (rt_fib t) \<le> 256" "in_use rib_used (rt_rib t) \<le> 256"
    using in_use_le rt_invD(3,4) [OF inv] by metis+
  ultimately show ?thesis
    using rt_invD(1,2) [OF inv] by (simp add: route_table_basic_valid_def rib_inv_def fib_correct_def list_all_iff)
qed

section \<open>The abstract content\<close>

type_synonym route_info = "u32 \<times> ptr \<times> u32"

definition route_info :: "RouteRibEntry \<Rightarrow> route_info" where
  "route_info r = (rr_next_hop r, rr_iface r, rr_metric r)"

definition routes :: "RouteTable \<Rightarrow> u32 \<times> u8 \<times> u8 \<Rightarrow> route_info option" where
  "routes t k = map_option route_info (entry_of rib_used rib_key k (rt_rib t))"

definition route_room :: "RouteTable \<Rightarrow> bool" where
  "route_room t \<longleftrightarrow> rt_rib_count t < 256"

lemma slot_of_same_routes:
  assumes "same_routes rib rib'"
  shows "slot_of rib_used rib_key k rib' = slot_of rib_used rib_key k rib"
proof -
  have "first_index P xs = first_index P ys"
    if "length xs = length ys" "\<And>i. i < length xs \<Longrightarrow> P (xs ! i) = P (ys ! i)" for P and xs ys :: "RouteRibEntry list"
    using that
    by (induction xs ys rule: list_induct2) (auto, (metis Suc_less_eq Zero_not_Suc length_Cons nth_Cons_0 nth_Cons_Suc zero_less_Suc)+)
  from this [of rib' rib] show ?thesis
    unfolding slot_of_def using same_routes_used(1,2) [OF assms] same_routes_length [OF assms] by auto
qed

lemma routes_same_routes:
  assumes "same_routes (rt_rib t) (rt_rib t')"
  shows "routes t' = routes t"
proof
  fix k show "routes t' k = routes t k"
    unfolding routes_def entry_of_def slot_of_same_routes [OF assms]
    using same_routes_used(3-5) [OF assms]
    by (auto simp: option.map_comp o_def route_info_def intro!: option.map_cong0 dest!: slot_of_SomeD(1))
qed

lemma rib_search:
  "first_index (\<lambda>e. rr_valid e \<noteq> 0 \<and> rr_prefix e = p \<and> rr_prefix_len e = l \<and> rr_proto e = q) rib
   = slot_of rib_used rib_key (p, l, q) rib"
  by (simp add: slot_of_def rib_key_def conj_assoc)

lemma rib_free:
  assumes "rib_inv t"
  shows "(\<exists>i. first_index (\<lambda>e. rr_valid e = 0) (rt_rib t) = Some i) \<longleftrightarrow> route_room t"
proof -
  have "route_room t \<longleftrightarrow> in_use rib_used (rt_rib t) < length (rt_rib t)"
    using rib_invD(1,3) [OF assms] by (simp add: route_room_def)
  also have "\<dots> \<longleftrightarrow> first_index (\<lambda>e. rr_valid e = 0) (rt_rib t) \<noteq> None"
    by (auto simp: in_use_room first_index_None)
  finally show ?thesis by blast
qed

text \<open>Writing one RIB slot.\<close>

lemma rib_write:
  assumes inv: "rib_inv t" and i: "i < 256" and e: "route_valid_rib_slot e"
    and slot: "rib_used e \<Longrightarrow> slot_of rib_used rib_key (rib_key e) (rt_rib t) = None
        \<or> slot_of rib_used rib_key (rib_key e) (rt_rib t) = Some i"
    and rib: "rt_rib t' = (rt_rib t)[i := e]"
    and cnt: "rt_rib_count t' = rt_rib_count t
        + (if rib_used e then 1 else 0) - (if rib_used (rt_rib t ! i) then 1 else 0)"
  shows "rib_inv t'"
proof -
  note len = rib_invD(1) [OF inv]
  have "in_use rib_used ((rt_rib t)[i := e]) + (if rib_used (rt_rib t ! i) then 1 else 0)
      = in_use rib_used (rt_rib t) + (if rib_used e then 1 else 0)"
    using in_use_update_take [of i "rt_rib t" rib_used e] in_use_update_same [of i "rt_rib t" rib_used e]
      in_use_update_release [of i "rt_rib t" rib_used e] i len by auto
  then have "rt_rib_count t' = int (in_use rib_used (rt_rib t'))"
    using rib cnt rib_invD(3) [OF inv] by (auto split: if_splits)
  moreover have "unique_keys rib_used rib_key (rt_rib t')"
    unfolding rib using rib_invD(2) [OF inv] i len slot by (intro unique_keys_update) auto
  moreover have "\<forall>r \<in> set (rt_rib t'). route_valid_rib_slot r"
    using inv e unfolding rib by (auto simp: rib_inv_def dest!: set_update_subset_insert [THEN subsetD])
  ultimately show ?thesis using len rib by (simp add: rib_inv_def)
qed

lemma routes_write:
  assumes inv: "rib_inv t" and i: "i < 256"
    and slot: "rib_used e \<Longrightarrow> slot_of rib_used rib_key (rib_key e) (rt_rib t) = None
        \<or> slot_of rib_used rib_key (rib_key e) (rt_rib t) = Some i"
    and rib: "rt_rib t' = (rt_rib t)[i := e]"
  shows "routes t' k = (if rib_used e \<and> rib_key e = k then Some (route_info e)
    else if rib_used (rt_rib t ! i) \<and> rib_key (rt_rib t ! i) = k then None else routes t k)"
  unfolding routes_def rib
  using rib_invD(1,2) [OF inv] i slot by (subst entry_of_update) auto

lemma mask_idem: "(p AND route_prefix_mask l) AND route_prefix_mask l = p AND route_prefix_mask l"
  by (simp add: and.assoc)

lemma route_table_add_cases:
  assumes inv: "rt_inv t" and ok: "iface \<noteq> 0" "len \<le> 32" "proto \<noteq> 0"
    and k_def: "k = (p AND route_prefix_mask len, len, proto)"
  obtains
    (added) t' where "route_table_add (Some t) p len nh iface metric proto = (0, Some t')" "rt_inv t'"
      "routes t' = (routes t)(k \<mapsto> (nh, iface, metric))" "route_room t \<or> routes t k \<noteq> None"
  | (full) "route_table_add (Some t) p len nh iface metric proto = (- 1, Some t)"
      "\<not> route_room t" "routes t k = None"
proof -
  let ?m = "p AND route_prefix_mask len"
  note ri = rt_invD(1) [OF inv] note fl = rt_invD(3) [OF inv]
  have args: "\<not> (iface = 0 \<or> len > 32 \<or> proto = 0)" using ok by auto
  show ?thesis
  proof (cases "slot_of rib_used rib_key k (rt_rib t)")
    case (Some i)
    note si = slot_of_SomeD [OF Some]
    let ?e = "(rt_rib t ! i)\<lparr>rr_next_hop := nh, rr_iface := iface, rr_metric := metric\<rparr>"
    let ?t = "t\<lparr>rt_rib := (rt_rib t)[i := ?e]\<rparr>"
    have i: "i < 256" using si rib_invD(1) [OF ri] by simp
    have e: "route_valid_rib_slot ?e" "rib_used ?e" "rib_key ?e = k" "route_info ?e = (nh, iface, metric)"
      using rib_invD(4) [OF ri i] si ok by (auto simp: route_valid_rib_slot_def rib_key_def route_info_def)
    have inv1: "rib_inv ?t"
      using si e Some by (intro rib_write [OF ri i e(1)]) auto
    have r1: "routes ?t = (routes t)(k \<mapsto> (nh, iface, metric))"
      using routes_write [OF ri i, of ?e ?t] e si Some by auto
    obtain t' where t': "route_table_rebuild_fib (Some ?t) = (0, Some t')" "rt_inv t'"
      "same_routes (rt_rib ?t) (rt_rib t')"
      using rebuild_rt_inv [OF inv1] fl by auto
    have "route_table_add (Some t) p len nh iface metric proto = (0, Some t')"
      using args Some t'(1) by (simp add: route_table_add_def rib_search k_def Let_def)
    moreover have "routes t k \<noteq> None" using Some by (simp add: routes_def entry_of_def)
    ultimately show ?thesis using added t'(2) routes_same_routes [OF t'(3)] r1 by metis
  next
    case None
    then have nok: "routes t k = None" by (simp add: routes_def entry_of_def)
    show ?thesis
    proof (cases "first_index (\<lambda>e. rr_valid e = 0) (rt_rib t)")
      case free: None
      then have "route_table_add (Some t) p len nh iface metric proto = (- 1, Some t)"
        using args None by (simp add: route_table_add_def rib_search k_def Let_def)
      moreover have "\<not> route_room t" using rib_free [OF ri] free by auto
      ultimately show ?thesis using full nok by blast
    next
      case free: (Some i)
      note si = first_index_SomeD [OF free]
      let ?e = "(rt_rib t ! i)\<lparr>rr_prefix := ?m, rr_prefix_len := len, rr_proto := proto, rr_valid := 1,
          rr_selected := 0, rr_next_hop := nh, rr_iface := iface, rr_metric := metric,
          rr_sequence := rt_next_sequence t\<rparr>"
      let ?t = "t\<lparr>rt_rib := (rt_rib t)[i := ?e], rt_next_sequence := rt_next_sequence t + 1,
          rt_rib_count := rt_rib_count t + 1\<rparr>"
      have i: "i < 256" using si rib_invD(1) [OF ri] by simp
      have e: "route_valid_rib_slot ?e" "rib_used ?e" "rib_key ?e = k" "route_info ?e = (nh, iface, metric)"
        using ok by (simp_all add: route_valid_rib_slot_def rib_key_def route_info_def k_def mask_idem)
      have inv1: "rib_inv ?t"
        using si e None by (intro rib_write [OF ri i e(1)]) auto
      have r1: "routes ?t = (routes t)(k \<mapsto> (nh, iface, metric))"
        using routes_write [OF ri i, of ?e ?t] e si None by auto
      obtain t' where t': "route_table_rebuild_fib (Some ?t) = (0, Some t')" "rt_inv t'"
        "same_routes (rt_rib ?t) (rt_rib t')"
        using rebuild_rt_inv [OF inv1] fl by auto
      have "route_table_add (Some t) p len nh iface metric proto = (0, Some t')"
        using args None free t'(1) by (simp add: route_table_add_def rib_search k_def Let_def)
      moreover have "route_room t" using rib_free [OF ri] free by auto
      ultimately show ?thesis using added t'(2) routes_same_routes [OF t'(3)] r1 by metis
    qed
  qed
qed

lemma rib_release_simps [simp]:
  "rr_valid (rib_release r) = 0" "route_valid_rib_slot (rib_release r)"
  by (simp_all add: rib_release_def route_valid_rib_slot_def)

lemma route_table_delete_cases:
  assumes inv: "rt_inv t" and ok: "len \<le> 32" "proto \<noteq> 0"
    and k_def: "k = (p AND route_prefix_mask len, len, proto)"
  obtains
    (deleted) t' where "route_table_delete (Some t) p len proto = (0, Some t')" "rt_inv t'"
      "routes t' = (routes t)(k := None)" "routes t k \<noteq> None"
      "rt_rib_count t' = rt_rib_count t - 1"
  | (absent) "route_table_delete (Some t) p len proto = (- 1, Some t)" "routes t k = None"
proof -
  note ri = rt_invD(1) [OF inv] note fl = rt_invD(3) [OF inv]
  have args: "\<not> (len > 32 \<or> proto = 0)" using ok by auto
  show ?thesis
  proof (cases "slot_of rib_used rib_key k (rt_rib t)")
    case None
    then have "route_table_delete (Some t) p len proto = (- 1, Some t)"
      using args by (simp add: route_table_delete_def rib_search k_def Let_def)
    then show ?thesis using absent None by (simp add: routes_def entry_of_def)
  next
    case (Some i)
    note si = slot_of_SomeD [OF Some]
    let ?t = "t\<lparr>rt_rib := (rt_rib t)[i := rib_release (rt_rib t ! i)], rt_rib_count := rt_rib_count t - 1\<rparr>"
    have i: "i < 256" using si rib_invD(1) [OF ri] by simp
    have pos: "rt_rib_count t > 0"
      using in_use_pos [of i "rt_rib t" rib_used] si rib_invD(3) [OF ri] by simp
    have inv1: "rib_inv ?t"
      using si by (intro rib_write [OF ri i, of "rib_release (rt_rib t ! i)"]) auto
    have r1: "routes ?t = (routes t)(k := None)"
      using routes_write [OF ri i, of "rib_release (rt_rib t ! i)" ?t] si by auto
    obtain t' where t': "route_table_rebuild_fib (Some ?t) = (0, Some t')" "rt_inv t'"
      "same_routes (rt_rib ?t) (rt_rib t')"
      using rebuild_rt_inv [OF inv1] fl by auto
    have "rt_rib_count t' = rt_rib_count t - 1"
      using rebuild_fib_correct(4) [OF _ _ t'(1)] rib_invD(1) [OF inv1] fl by simp
    moreover have "route_table_delete (Some t) p len proto = (0, Some t')"
      using args Some pos t'(1) by (simp add: route_table_delete_def rib_search k_def Let_def)
    moreover have "routes t k \<noteq> None" using Some by (simp add: routes_def entry_of_def)
    ultimately show ?thesis using deleted t'(2) routes_same_routes [OF t'(3)] r1 by metis
  qed
qed

subsection \<open>Flushing a protocol\<close>

definition flush_entry :: "u8 \<Rightarrow> RouteRibEntry \<Rightarrow> RouteRibEntry" where
  "flush_entry proto e = (if rib_used e \<and> rr_proto e = proto then rib_release e else e)"

lemma flush_loop_map:
  assumes "c \<ge> int (in_use rib_used es)"
  shows "flush_loop proto es c n =
    (map (flush_entry proto) es,
     c - int (in_use (\<lambda>e. rib_used e \<and> rr_proto e = proto) es),
     n + int (in_use (\<lambda>e. rib_used e \<and> rr_proto e = proto) es))"
  using assms
  by (induction es arbitrary: c n) (auto simp: flush_entry_def Let_def split: if_splits)

lemma in_use_flush:
  "in_use rib_used (map (flush_entry proto) es) + in_use (\<lambda>e. rib_used e \<and> rr_proto e = proto) es
   = in_use rib_used es"
  by (induction es) (auto simp: flush_entry_def)

lemma route_table_flush_effect:
  assumes inv: "rt_inv t" and ok: "proto \<noteq> 0"
  obtains t' where "route_table_flush_proto (Some t) proto
      = (int (in_use (\<lambda>e. rib_used e \<and> rr_proto e = proto) (rt_rib t)), Some t')"
    "rt_inv t'" "routes t' = (\<lambda>k. if snd (snd k) = proto then None else routes t k)"
proof -
  let ?n = "int (in_use (\<lambda>e. rib_used e \<and> rr_proto e = proto) (rt_rib t))"
  let ?t = "t\<lparr>rt_rib := map (flush_entry proto) (rt_rib t), rt_rib_count := rt_rib_count t - ?n\<rparr>"
  note ri = rt_invD(1) [OF inv] note fl = rt_invD(3) [OF inv]
  have loop: "flush_loop proto (rt_rib t) (rt_rib_count t) 0 = (rt_rib ?t, rt_rib_count ?t, ?n)"
    using flush_loop_map [of "rt_rib t" "rt_rib_count t" proto 0] rib_invD(3) [OF ri] by simp
  have kept: "rib_used (flush_entry proto e) \<Longrightarrow> rib_used e \<and> flush_entry proto e = e" for e
    by (auto simp: flush_entry_def)
  have "unique_keys rib_used rib_key (map (flush_entry proto) (rt_rib t))"
    by (rule unique_keys_map [OF rib_invD(2) [OF ri]]) (metis kept)
  then have "unique_keys rib_used rib_key (rt_rib ?t)" by simp
  moreover have "\<forall>r \<in> set (rt_rib ?t). route_valid_rib_slot r"
    using ri by (auto simp: rib_inv_def flush_entry_def)
  moreover have "rt_rib_count ?t = int (in_use rib_used (rt_rib ?t))"
    using in_use_flush [of proto "rt_rib t"] rib_invD(3) [OF ri] by simp
  ultimately have inv1: "rib_inv ?t" using rib_invD(1) [OF ri] by (simp add: rib_inv_def)
  have r1: "routes ?t = (\<lambda>k. if snd (snd k) = proto then None else routes t k)"
  proof
    fix k
    have eq: "routes ?t k = map_option route_info (case entry_of rib_used rib_key k (rt_rib t) of None \<Rightarrow> None
        | Some e \<Rightarrow> if rib_used (flush_entry proto e) then Some e else None)"
      using entry_of_map [OF rib_invD(2) [OF ri] kept] by (simp add: routes_def)
    show "routes ?t k = (if snd (snd k) = proto then None else routes t k)"
    proof (cases "entry_of rib_used rib_key k (rt_rib t)")
      case None
      then have "routes t k = None" by (simp add: routes_def)
      then show ?thesis unfolding eq None by simp
    next
      case (Some e)
      then have "rib_used e" "snd (snd k) = rr_proto e"
        using entry_of_iff [OF rib_invD(2) [OF ri], of k e] by (auto simp: rib_key_def)
      moreover have "routes t k = Some (route_info e)" using Some by (simp add: routes_def)
      ultimately show ?thesis unfolding eq Some by (simp add: flush_entry_def)
    qed
  qed
  obtain t' where t': "route_table_rebuild_fib (Some ?t) = (0, Some t')" "rt_inv t'"
    "same_routes (rt_rib ?t) (rt_rib t')"
    using rebuild_rt_inv [OF inv1] fl by auto
  have "route_table_flush_proto (Some t) proto = (?n, Some t')"
    using ok loop t'(1) by (simp add: route_table_flush_proto_def)
  moreover have "routes t' = (\<lambda>k. if snd (snd k) = proto then None else routes t k)"
    using routes_same_routes [OF t'(3)] r1 by (rule trans)
  ultimately show ?thesis by (rule that [OF _ t'(2)])
qed

section \<open>Longest-prefix match\<close>

definition fib_covers :: "u32 \<Rightarrow> RouteFibEntry \<Rightarrow> bool" where
  "fib_covers ip f \<longleftrightarrow> fib_used f \<and> rf_prefix_len f \<le> 32 \<and>
     ip AND route_prefix_mask (rf_prefix_len f) = rf_prefix f"

definition longest :: "u32 \<Rightarrow> RouteFibEntry list \<Rightarrow> nat \<Rightarrow> nat option \<Rightarrow> bool" where
  "longest ip fib n best \<longleftrightarrow>
     (case best of
        None \<Rightarrow> \<forall>j < n. \<not> fib_covers ip (fib ! j)
      | Some b \<Rightarrow> b < n \<and> fib_covers ip (fib ! b) \<and>
          (\<forall>j < n. fib_covers ip (fib ! j) \<longrightarrow> rf_prefix_len (fib ! j) \<le> rf_prefix_len (fib ! b)))"

lemma longest_step:
  assumes "longest ip fib i best"
  shows "longest ip fib (Suc i)
    (if fib_covers ip (fib ! i) then
       if (case best of None \<Rightarrow> True | Some b \<Rightarrow> rf_prefix_len (fib ! b) < rf_prefix_len (fib ! i))
       then Some i else best
     else best)"
  using assms by (cases best) (auto simp: longest_def less_Suc_eq)

lemma lookup_loop_step:
  "route_lookup_loop ip fib i (fib ! i # rest) best = route_lookup_loop ip fib (Suc i) rest
    (if fib_covers ip (fib ! i) then
       if (case best of None \<Rightarrow> True | Some b \<Rightarrow> rf_prefix_len (fib ! b) < rf_prefix_len (fib ! i))
       then Some i else best
     else best)"
proof (cases "rf_prefix_len (fib ! i) \<le> 24")
  case True
  then have "rf_prefix_len (fib ! i) \<le> 32" by (rule order_trans) simp
  with True show ?thesis by (simp add: fib_covers_def Let_def not_less del: split_paired_All)
next
  case False
  then show ?thesis by (auto simp: fib_covers_def Let_def not_le)
qed

lemma lookup_loop_longest:
  assumes "longest ip fib i best" "rest = drop i fib" "i \<le> length fib"
  shows "longest ip fib (length fib) (route_lookup_loop ip fib i rest best)"
  using assms
proof (induction rest arbitrary: i best)
  case Nil
  then show ?case by simp
next
  case (Cons e rest)
  then have i: "i < length fib" by (metis drop_all leI list.distinct(1))
  then have "e = fib ! i" "rest = drop (Suc i) fib"
    using Cons.prems(2) by (metis Cons_nth_drop_Suc list.inject)+
  then show ?case
    using Cons.IH [OF longest_step [OF Cons.prems(1)]] i by (simp only: lookup_loop_step)
qed

lemma lookup_longest:
  "longest ip (rt_fib t) (length (rt_fib t)) (route_table_lookup (Some t) ip)"
  unfolding route_table_lookup_def
  by (simp, rule lookup_loop_longest) (simp_all add: longest_def)

text \<open>In terms of the RIB: the routes that cover an address.\<close>

definition rib_covers :: "u32 \<Rightarrow> RouteRibEntry \<Rightarrow> bool" where
  "rib_covers ip r \<longleftrightarrow> rib_used r \<and> ip AND route_prefix_mask (rr_prefix_len r) = rr_prefix r"

lemma fib_covers_image:
  assumes "rt_inv t" "k < 256" "rib_used (rt_rib t ! k)"
  shows "fib_covers ip (fib_image (rt_rib t) k) = rib_covers ip (rt_rib t ! k)"
  using rib_invD(4) [OF rt_invD(1) [OF assms(1)] assms(2)] assms(3)
  by (auto simp: fib_covers_def rib_covers_def fib_image_def fib_install_def route_valid_rib_slot_def)

lemma rib_route_in_fib:
  assumes inv: "rt_inv t" and i: "i < 256" "rib_used (rt_rib t ! i)"
  obtains j k where "j < length (rt_fib t)" "rt_fib t ! j = fib_image (rt_rib t) k"
    "best_route (rt_rib t) (rib_dest (rt_rib t ! i)) = Some k"
    "rank_of (rt_rib t ! k) \<le> rank_of (rt_rib t ! i)" "candidate (rt_rib t) (rib_dest (rt_rib t ! i)) k"
proof -
  let ?d = "rib_dest (rt_rib t ! i)"
  note len = rt_invD(4) [OF inv]
  have cand: "candidate (rt_rib t) ?d i" using i len by (simp add: candidate_def)
  then have "best_route (rt_rib t) ?d \<noteq> None"
    using best_upto_None [of 256 "rt_rib t" ?d] i len by (auto simp: best_route_def)
  then obtain k where k: "best_route (rt_rib t) ?d = Some k" by blast
  have rank: "rank_of (rt_rib t ! k) \<le> rank_of (rt_rib t ! i)"
    using best_upto_least [of 256 "rt_rib t" ?d k i] k i cand len by (simp add: best_route_def)
  have "entry_of fib_used fib_dest ?d (rt_fib t) = Some (fib_image (rt_rib t) k)"
    using rt_invD(2) [OF inv] k unfolding fib_correct_def by (metis option.map(2))
  then have "fib_image (rt_rib t) k \<in> set (rt_fib t)"
    using rt_invD(2) [OF inv] by (subst (asm) entry_of_iff) (auto simp: fib_correct_def)
  moreover have "candidate (rt_rib t) ?d k"
    using k by (auto simp: best_route_def intro: best_upto_candidate)
  ultimately show ?thesis using that k rank by (metis in_set_conv_nth)
qed

lemma fib_correct_selected:
  assumes "fib_correct t" "i < 256" "rib_used (rt_rib t ! i)"
  shows "rr_selected (rt_rib t ! i)
    = (if best_route (rt_rib t) (rib_dest (rt_rib t ! i)) = Some i then 1 else 0)"
  using assms unfolding fib_correct_def by blast

lemma lookup_none:
  assumes inv: "rt_inv t" and none: "route_table_lookup (Some t) ip = None"
    and i: "i < 256" "rib_used (rt_rib t ! i)"
  shows "\<not> rib_covers ip (rt_rib t ! i)"
proof -
  obtain j k where jk: "j < length (rt_fib t)" "rt_fib t ! j = fib_image (rt_rib t) k"
    "candidate (rt_rib t) (rib_dest (rt_rib t ! i)) k"
    using rib_route_in_fib [OF inv i] by metis
  have "\<not> fib_covers ip (fib_image (rt_rib t) k)"
    using lookup_longest [of ip t] none jk by (auto simp: longest_def)
  then have "\<not> rib_covers ip (rt_rib t ! k)"
    using fib_covers_image [OF inv, of k ip] jk(3) rt_invD(4) [OF inv] by (simp add: candidate_def)
  then show ?thesis using jk(3) i by (auto simp: rib_covers_def candidate_def rib_dest_def)
qed

lemma lookup_some:
  assumes inv: "rt_inv t" and res: "route_table_lookup (Some t) ip = Some b"
  obtains k where "b < 256" "rt_fib t ! b = fib_image (rt_rib t) k" "k < 256"
    "rib_covers ip (rt_rib t ! k)" "rr_selected (rt_rib t ! k) = 1"
    "\<And>i. i < 256 \<Longrightarrow> rib_covers ip (rt_rib t ! i) \<Longrightarrow>
       rr_prefix_len (rt_rib t ! i) < rr_prefix_len (rt_rib t ! k) \<or>
       rr_prefix_len (rt_rib t ! i) = rr_prefix_len (rt_rib t ! k) \<and>
       rank_of (rt_rib t ! k) \<le> rank_of (rt_rib t ! i)"
proof -
  note len = rt_invD(3,4) [OF inv]
  have lg: "b < 256" "fib_covers ip (rt_fib t ! b)"
    "\<And>j. j < 256 \<Longrightarrow> fib_covers ip (rt_fib t ! j) \<Longrightarrow> rf_prefix_len (rt_fib t ! j) \<le> rf_prefix_len (rt_fib t ! b)"
    using lookup_longest [of ip t] res len by (auto simp: longest_def)
  then have "rt_fib t ! b \<in> set (rt_fib t)" "fib_used (rt_fib t ! b)"
    using len by (auto simp: fib_covers_def)
  then obtain k where k: "best_route (rt_rib t) (fib_dest (rt_fib t ! b)) = Some k" "k < 256"
    "rt_fib t ! b = fib_image (rt_rib t) k" "rib_used (rt_rib t ! k)"
    "rib_dest (rt_rib t ! k) = fib_dest (rt_fib t ! b)"
    by (rule fib_entry_image [OF inv]) blast
  have cov: "rib_covers ip (rt_rib t ! k)"
    using fib_covers_image [OF inv k(2,4)] lg(2) k(3) by simp
  have sel: "rr_selected (rt_rib t ! k) = 1"
    using fib_correct_selected [OF rt_invD(2) [OF inv] k(2,4)] k(1,5) by simp
  have img_len: "rf_prefix_len (fib_image rib m) = rr_prefix_len (rib ! m)" for rib m
    by (simp add: fib_image_def fib_install_def)
  have "rr_prefix_len (rt_rib t ! i) < rr_prefix_len (rt_rib t ! k) \<or>
       rr_prefix_len (rt_rib t ! i) = rr_prefix_len (rt_rib t ! k) \<and>
       rank_of (rt_rib t ! k) \<le> rank_of (rt_rib t ! i)"
    if i: "i < 256" "rib_covers ip (rt_rib t ! i)" for i
  proof -
    have iu: "rib_used (rt_rib t ! i)" using i by (simp add: rib_covers_def)
    obtain j m where jm: "j < length (rt_fib t)" "rt_fib t ! j = fib_image (rt_rib t) m"
      "best_route (rt_rib t) (rib_dest (rt_rib t ! i)) = Some m"
      "rank_of (rt_rib t ! m) \<le> rank_of (rt_rib t ! i)" "candidate (rt_rib t) (rib_dest (rt_rib t ! i)) m"
      by (rule rib_route_in_fib [OF inv i(1) iu]) blast
    have m: "m < 256" "rib_used (rt_rib t ! m)" "rib_dest (rt_rib t ! m) = rib_dest (rt_rib t ! i)"
      using jm(5) len by (auto simp: candidate_def)
    then have "rib_covers ip (rt_rib t ! m)" using i by (auto simp: rib_covers_def rib_dest_def)
    then have "rr_prefix_len (rt_rib t ! m) \<le> rr_prefix_len (rt_rib t ! k)"
      using lg(3) [of j] jm(1,2) fib_covers_image [OF inv m(1,2), of ip] k(3) len by (simp add: img_len)
    then have le: "rr_prefix_len (rt_rib t ! i) \<le> rr_prefix_len (rt_rib t ! k)"
      using m(3) by (simp add: rib_dest_def)
    show ?thesis
    proof (cases "rr_prefix_len (rt_rib t ! i) = rr_prefix_len (rt_rib t ! k)")
      case True
      then have "rib_dest (rt_rib t ! i) = rib_dest (rt_rib t ! k)"
        using i cov by (simp add: rib_covers_def rib_dest_def)
      then have "m = k" using jm(3) k(1,5) by simp
      then show ?thesis using True jm(4) by simp
    next
      case False
      then show ?thesis using le by simp
    qed
  qed
  then show ?thesis using that lg(1) k(2,3) cov sel by blast
qed

section \<open>The table as a keyed store\<close>

text \<open>
  What the clients of the table (the protocols that add and withdraw routes) rely on, stated as an
  interface: adding a route changes the content at its key only, unless the table is full;
  withdrawing it removes that key only.
\<close>

locale keyed_store =
  fixes add :: "'k \<Rightarrow> 'v \<Rightarrow> 't \<Rightarrow> 't"
    and del :: "'k \<Rightarrow> 't \<Rightarrow> 't"
    and find :: "'t \<Rightarrow> 'k \<Rightarrow> 'v option"
    and invar :: "'t \<Rightarrow> bool"
    and room :: "'t \<Rightarrow> bool"
    and ok_key :: "'k \<Rightarrow> bool"
    and ok_val :: "'v \<Rightarrow> bool"
  assumes invar_add: "invar t \<Longrightarrow> ok_key k \<Longrightarrow> ok_val v \<Longrightarrow> invar (add k v t)"
    and find_add: "invar t \<Longrightarrow> ok_key k \<Longrightarrow> ok_val v \<Longrightarrow>
          find (add k v t) = (if room t \<or> find t k \<noteq> None then (find t)(k \<mapsto> v) else find t)"
    and invar_del: "invar t \<Longrightarrow> ok_key k \<Longrightarrow> invar (del k t)"
    and find_del: "invar t \<Longrightarrow> ok_key k \<Longrightarrow> find (del k t) = (find t)(k := None)"
begin

lemma withdraw_added:
  assumes "invar t" "ok_key k" "ok_val v"
  shows "find (del k (add k v t)) = (find t)(k := None)"
  using assms by (simp add: find_del find_add invar_add)

lemma add_keeps_others:
  assumes "invar t" "ok_key k" "ok_val v" "k' \<noteq> k"
  shows "find (add k v t) k' = find t k'"
  using assms by (simp add: find_add)

lemma last_add_wins:
  assumes "invar t" "ok_key k" "ok_val v" "ok_val v'" "room t \<or> find t k \<noteq> None"
  shows "find (add k v' (add k v t)) = (find t)(k \<mapsto> v')"
  using assms by (simp add: find_add invar_add)

end

definition rt_ok_key :: "u32 \<times> u8 \<times> u8 \<Rightarrow> bool" where
  "rt_ok_key k = (case k of (p, len, proto) \<Rightarrow>
     len \<le> 32 \<and> proto \<noteq> 0 \<and> p AND route_prefix_mask len = p)"

definition rt_ok_val :: "route_info \<Rightarrow> bool" where
  "rt_ok_val v = (case v of (nh, iface, metric) \<Rightarrow> iface \<noteq> NULL)"

definition rt_put :: "u32 \<times> u8 \<times> u8 \<Rightarrow> route_info \<Rightarrow> RouteTable \<Rightarrow> RouteTable" where
  "rt_put k v t = (case k of (p, len, proto) \<Rightarrow> case v of (nh, iface, metric) \<Rightarrow>
     the (snd (route_table_add (Some t) p len nh iface metric proto)))"

definition rt_withdraw :: "u32 \<times> u8 \<times> u8 \<Rightarrow> RouteTable \<Rightarrow> RouteTable" where
  "rt_withdraw k t = (case k of (p, len, proto) \<Rightarrow>
     the (snd (route_table_delete (Some t) p len proto)))"

lemma rt_put_effect:
  assumes "rt_inv t" "rt_ok_key k" "rt_ok_val v"
  shows "rt_inv (rt_put k v t)" "routes (rt_put k v t)
    = (if route_room t \<or> routes t k \<noteq> None then (routes t)(k \<mapsto> v) else routes t)"
proof -
  obtain p len proto nh iface metric where kv: "k = (p, len, proto)" "v = (nh, iface, metric)"
    by (metis prod_cases3)
  then have ok: "iface \<noteq> 0" "len \<le> 32" "proto \<noteq> 0" "k = (p AND route_prefix_mask len, len, proto)"
    using assms by (auto simp: rt_ok_key_def rt_ok_val_def)
  have "rt_inv (rt_put k v t) \<and> routes (rt_put k v t)
    = (if route_room t \<or> routes t k \<noteq> None then (routes t)(k \<mapsto> v) else routes t)"
    using assms(1) ok
  proof (cases rule: route_table_add_cases [where nh = nh and metric = metric])
    case (added t')
    then show ?thesis by (simp add: rt_put_def kv(1) kv(2))
  next
    case full
    then show ?thesis using assms(1) by (simp add: rt_put_def kv(1) kv(2))
  qed
  then show "rt_inv (rt_put k v t)" "routes (rt_put k v t)
    = (if route_room t \<or> routes t k \<noteq> None then (routes t)(k \<mapsto> v) else routes t)" by blast+
qed

lemma rt_withdraw_effect:
  assumes "rt_inv t" "rt_ok_key k"
  shows "rt_inv (rt_withdraw k t)" "routes (rt_withdraw k t) = (routes t)(k := None)"
proof -
  obtain p len proto where k: "k = (p, len, proto)"
    by (metis prod_cases3)
  then have ok: "len \<le> 32" "proto \<noteq> 0" "k = (p AND route_prefix_mask len, len, proto)"
    using assms by (auto simp: rt_ok_key_def)
  have "rt_inv (rt_withdraw k t) \<and> routes (rt_withdraw k t) = (routes t)(k := None)"
    using assms(1) ok
  proof (cases rule: route_table_delete_cases)
    case (deleted t')
    then show ?thesis by (simp add: rt_withdraw_def k)
  next
    case absent
    then show ?thesis using assms(1) by (simp add: rt_withdraw_def k fun_upd_idem)
  qed
  then show "rt_inv (rt_withdraw k t)" "routes (rt_withdraw k t) = (routes t)(k := None)" by blast+
qed

interpretation rt_store: keyed_store rt_put rt_withdraw routes rt_inv route_room rt_ok_key rt_ok_val
  by unfold_locales (simp_all add: rt_put_effect rt_withdraw_effect)

section \<open>The initial table\<close>

lemma route_table_init_inv:
  assumes "route_table_init (Some t) = Some t'"
  shows "rt_inv t'" "routes t' k = None" "rt_next_sequence t' = 1"
proof -
  have t': "rt_rib t' = replicate 256 rib_zero" "rt_fib t' = replicate 256 fib_zero"
    "rt_rib_count t' = 0" "rt_fib_count t' = 0" "rt_next_sequence t' = 1"
    using assms by (auto simp: route_table_init_def)
  have z: "\<not> rib_used rib_zero" "\<not> fib_used fib_zero" by (simp_all add: rib_zero_def fib_zero_def)
  have "best_route (rt_rib t') d = None" for d
    using best_upto_None [of 256 "rt_rib t'" d] z by (simp add: best_route_def t' candidate_def)
  moreover have "entry_of fib_used fib_dest d (rt_fib t') = None" for d
    using z by (simp add: entry_of_None slot_of_None t')
  moreover have "in_use fib_used (rt_fib t') = 0" "in_use rib_used (rt_rib t') = 0"
    using z by (auto simp: in_use_0 t')
  moreover have "unique_keys fib_used fib_dest (rt_fib t')" "unique_keys rib_used rib_key (rt_rib t')"
    using z by (simp_all add: unique_keys_def t')
  ultimately have "fib_correct t'" "rib_inv t'"
    using z by (simp_all add: fib_correct_def rib_inv_def t' route_valid_rib_slot_def rib_zero_def)
  then show "rt_inv t'" by (simp add: rt_inv_def fib_clean_def t')
  show "routes t' k = None" using z by (simp add: routes_def entry_of_None slot_of_None t')
  show "rt_next_sequence t' = 1" by (simp add: t')
qed

section \<open>Properties\<close>

text \<open>
  C2 Selection: rebuilding the FIB of any table returns 0, keeps the candidate routes of the RIB,
  and leaves in the FIB, for every prefix that some valid candidate has, exactly one entry; it is
  a copy of the candidate that no other candidate of the prefix beats in administrative distance,
  then metric, then age, and exactly these candidates are marked selected.
\<close>

theorem route_rebuild_selects_best:
  assumes "length (rt_rib t) = 256" "length (rt_fib t) = 256"
  shows "\<exists>t'. route_table_rebuild_fib (Some t) = (0, Some t') \<and> routes t' = routes t \<and>
    unique_keys fib_used fib_dest (rt_fib t') \<and>
    (\<forall>d. (\<exists>f \<in> set (rt_fib t'). fib_used f \<and> fib_dest f = d) \<longleftrightarrow> (\<exists>i. candidate (rt_rib t') d i)) \<and>
    (\<forall>f \<in> set (rt_fib t'). fib_used f \<longrightarrow> (\<exists>k. f = fib_image (rt_rib t') k \<and>
       candidate (rt_rib t') (fib_dest f) k \<and> rr_selected (rt_rib t' ! k) = 1 \<and>
       (\<forall>i. candidate (rt_rib t') (fib_dest f) i \<longrightarrow>
          rank_of (rt_rib t' ! k) \<le> rank_of (rt_rib t' ! i) \<and>
          (i \<noteq> k \<longrightarrow> rr_selected (rt_rib t' ! i) = 0))))"
proof -
  obtain t' where res: "route_table_rebuild_fib (Some t) = (0, Some t')"
    by (simp add: route_table_rebuild_fib_def)
  note rb = rebuild_fib_correct [OF assms res]
  note fc = rb(2)
  have len: "length (rt_rib t') = 256" using fc by (simp add: fib_correct_def)
  have uk: "unique_keys fib_used fib_dest (rt_fib t')" using fc by (simp add: fib_correct_def)
  have entry: "entry_of fib_used fib_dest d (rt_fib t')
      = map_option (fib_image (rt_rib t')) (best_route (rt_rib t') d)" for d
    using fc unfolding fib_correct_def by blast
  have exists: "(\<exists>f \<in> set (rt_fib t'). fib_used f \<and> fib_dest f = d) \<longleftrightarrow> (\<exists>i. candidate (rt_rib t') d i)" for d
  proof -
    have "(\<exists>f \<in> set (rt_fib t'). fib_used f \<and> fib_dest f = d) \<longleftrightarrow> best_route (rt_rib t') d \<noteq> None"
      using entry_of_iff [OF uk, of d] entry [of d] by fastforce
    also have "\<dots> \<longleftrightarrow> (\<exists>i. candidate (rt_rib t') d i)"
      using best_upto_None [of 256 "rt_rib t'" d] len by (auto simp: best_route_def candidate_def)
    finally show ?thesis .
  qed
  have best: "\<exists>k. f = fib_image (rt_rib t') k \<and> candidate (rt_rib t') (fib_dest f) k \<and>
      rr_selected (rt_rib t' ! k) = 1 \<and> (\<forall>i. candidate (rt_rib t') (fib_dest f) i \<longrightarrow>
        rank_of (rt_rib t' ! k) \<le> rank_of (rt_rib t' ! i) \<and>
        (i \<noteq> k \<longrightarrow> rr_selected (rt_rib t' ! i) = 0))"
    if f: "f \<in> set (rt_fib t')" "fib_used f" for f
  proof -
    let ?d = "fib_dest f"
    have "entry_of fib_used fib_dest ?d (rt_fib t') = Some f" using entry_of_iff [OF uk] f by simp
    then obtain k where k: "best_route (rt_rib t') ?d = Some k" "f = fib_image (rt_rib t') k"
      using entry [of ?d] by auto
    have cand: "candidate (rt_rib t') ?d k"
      using k len by (auto simp: best_route_def intro: best_upto_candidate)
    have sel: "rr_selected (rt_rib t' ! i) = (if i = k then 1 else 0)"
      if "candidate (rt_rib t') ?d i" for i
      using fib_correct_selected [OF fc, of i] that k(1) len by (auto simp: candidate_def)
    have "rank_of (rt_rib t' ! k) \<le> rank_of (rt_rib t' ! i)" if "candidate (rt_rib t') ?d i" for i
      using best_upto_least [of 256 "rt_rib t'" ?d k i] k(1) that len
      by (simp add: best_route_def candidate_def)
    then show ?thesis using k(2) cand sel by (intro exI [of _ k]) auto
  qed
  show ?thesis using res routes_same_routes [OF rb(3)] uk exists best by blast
qed

theorem route_rebuild_selects_best_witness:
  "\<exists>t'. route_table_rebuild_fib (Some \<lparr>rt_rib = replicate 256 rib_zero, rt_rib_count = 0,
       rt_fib = replicate 256 fib_zero, rt_fib_count = 0, rt_next_sequence = 1\<rparr>) = (0, Some t')"
  using route_rebuild_selects_best [of "\<lparr>rt_rib = replicate 256 rib_zero, rt_rib_count = 0,
       rt_fib = replicate 256 fib_zero, rt_fib_count = 0, rt_next_sequence = 1\<rparr>"]
  by auto

text \<open>
  C14 \<open>route_table_add\<close> fails without an interface, with a length above 32 or with protocol 0, and
  when the RIB has no slot for a new key; otherwise the content afterwards is the content before
  with the route at its masked prefix. \<open>route_table_delete\<close> removes one key and fails when it is
  absent; \<open>route_table_flush_proto\<close> removes one protocol's keys and returns how many there were.
  The invariant holds after each, and a call that fails changes nothing.
\<close>

theorem route_operations_correct:
  assumes "rt_inv t" and k_def: "k = (p AND route_prefix_mask len, len, proto)"
  shows "(\<exists>t'. route_table_add (Some t) p len nh iface metric proto =
        (if iface \<noteq> NULL \<and> len \<le> 32 \<and> proto \<noteq> 0 \<and> (route_room t \<or> routes t k \<noteq> None) then 0 else - 1,
         Some t') \<and> rt_inv t' \<and>
      (if iface \<noteq> NULL \<and> len \<le> 32 \<and> proto \<noteq> 0 \<and> (route_room t \<or> routes t k \<noteq> None)
       then routes t' = (routes t)(k \<mapsto> (nh, iface, metric)) else t' = t)) \<and>
    (\<exists>t'. route_table_delete (Some t) p len proto =
        (if len \<le> 32 \<and> proto \<noteq> 0 \<and> routes t k \<noteq> None then 0 else - 1, Some t') \<and> rt_inv t' \<and>
      (if len \<le> 32 \<and> proto \<noteq> 0 \<and> routes t k \<noteq> None
       then routes t' = (routes t)(k := None) \<and> rt_rib_count t' = rt_rib_count t - 1 else t' = t)) \<and>
    (\<exists>t'. route_table_flush_proto (Some t) proto =
        (if proto = 0 then 0 else int (in_use (\<lambda>e. rib_used e \<and> rr_proto e = proto) (rt_rib t)), Some t') \<and>
      rt_inv t' \<and>
      routes t' = (\<lambda>k. if proto \<noteq> 0 \<and> snd (snd k) = proto then None else routes t k))"
proof (intro conjI)
  show "\<exists>t'. route_table_add (Some t) p len nh iface metric proto =
        (if iface \<noteq> NULL \<and> len \<le> 32 \<and> proto \<noteq> 0 \<and> (route_room t \<or> routes t k \<noteq> None) then 0 else - 1,
         Some t') \<and> rt_inv t' \<and>
      (if iface \<noteq> NULL \<and> len \<le> 32 \<and> proto \<noteq> 0 \<and> (route_room t \<or> routes t k \<noteq> None)
       then routes t' = (routes t)(k \<mapsto> (nh, iface, metric)) else t' = t)"
  proof (cases "iface \<noteq> 0 \<and> len \<le> 32 \<and> proto \<noteq> 0")
    case True
    then have ok: "iface \<noteq> 0" "len \<le> 32" "proto \<noteq> 0" by auto
    show ?thesis
      by (rule route_table_add_cases [OF assms(1) ok k_def, of nh metric]) (use ok assms(1) in auto)
  next
    case False
    then show ?thesis using assms(1) by (auto simp: route_table_add_def not_le)
  qed
  show "\<exists>t'. route_table_delete (Some t) p len proto =
        (if len \<le> 32 \<and> proto \<noteq> 0 \<and> routes t k \<noteq> None then 0 else - 1, Some t') \<and> rt_inv t' \<and>
      (if len \<le> 32 \<and> proto \<noteq> 0 \<and> routes t k \<noteq> None
       then routes t' = (routes t)(k := None) \<and> rt_rib_count t' = rt_rib_count t - 1 else t' = t)"
  proof (cases "len \<le> 32 \<and> proto \<noteq> 0")
    case True
    then have ok: "len \<le> 32" "proto \<noteq> 0" by auto
    show ?thesis
      by (rule route_table_delete_cases [OF assms(1) ok k_def]) (use ok assms(1) in auto)
  next
    case False
    then show ?thesis using assms(1) by (auto simp: route_table_delete_def not_le)
  qed
  show "\<exists>t'. route_table_flush_proto (Some t) proto =
        (if proto = 0 then 0 else int (in_use (\<lambda>e. rib_used e \<and> rr_proto e = proto) (rt_rib t)), Some t') \<and>
      rt_inv t' \<and>
      routes t' = (\<lambda>k. if proto \<noteq> 0 \<and> snd (snd k) = proto then None else routes t k)"
  proof (cases "proto = 0")
    case True
    then show ?thesis using assms(1) by (simp add: route_table_flush_proto_def)
  next
    case False
    show ?thesis by (rule route_table_flush_effect [OF assms(1) False]) (use False in auto)
  qed
qed

definition rt_fresh :: RouteTable where
  "rt_fresh = \<lparr>rt_rib = replicate 256 rib_zero, rt_rib_count = 0, rt_fib = replicate 256 fib_zero,
     rt_fib_count = 0, rt_next_sequence = 1\<rparr>"

lemma rt_fresh_inv: "rt_inv rt_fresh" "routes rt_fresh k = None" "route_room rt_fresh"
  using route_table_init_inv [of rt_fresh rt_fresh]
  by (simp_all add: route_table_init_def rt_fresh_def route_room_def)

theorem route_operations_correct_witness:
  "\<exists>t'. route_table_add (Some rt_fresh) 0x0A010203 16 0 5 0 1 = (0, Some t') \<and>
     routes t' = (routes rt_fresh)((0x0A010203 AND route_prefix_mask 16, 16, 1) \<mapsto> (0, 5, 0))"
  using route_operations_correct [OF rt_fresh_inv(1) refl, where p = "0x0A010203" and len = 16 and nh = 0
      and iface = 5 and metric = 0 and proto = 1] rt_fresh_inv(3)
  by auto

text \<open>
  C3 Longest-prefix match: in a table that satisfies the invariant, the lookup returns no entry
  exactly when no route of the RIB covers the address; otherwise it returns the FIB copy of a
  selected route that covers the address, and every other route that covers it is shorter, or as
  long and not better ranked.
\<close>

theorem route_lookup_correct:
  assumes "rt_inv t"
  shows "case route_table_lookup (Some t) ip of
      None \<Rightarrow> \<forall>i < 256. \<not> rib_covers ip (rt_rib t ! i)
    | Some b \<Rightarrow> \<exists>k < 256. rt_fib t ! b = fib_image (rt_rib t) k \<and> rib_covers ip (rt_rib t ! k) \<and>
        rr_selected (rt_rib t ! k) = 1 \<and>
        (\<forall>i < 256. rib_covers ip (rt_rib t ! i) \<longrightarrow>
           rr_prefix_len (rt_rib t ! i) < rr_prefix_len (rt_rib t ! k) \<or>
           rr_prefix_len (rt_rib t ! i) = rr_prefix_len (rt_rib t ! k) \<and>
           rank_of (rt_rib t ! k) \<le> rank_of (rt_rib t ! i))"
proof (cases "route_table_lookup (Some t) ip")
  case None
  then show ?thesis using lookup_none [OF assms None] by (auto simp: rib_covers_def)
next
  case (Some b)
  show ?thesis unfolding Some option.case
    by (rule lookup_some [OF assms Some]) blast
qed

theorem route_lookup_correct_witness:
  "\<exists>t' b. route_table_add (Some rt_fresh) 0x0A000000 8 0 5 0 1 = (0, Some t') \<and>
     route_table_lookup (Some t') 0x0A000001 = Some b"
proof -
  let ?k = "(0x0A000000 AND route_prefix_mask 8, 8, 1) :: u32 \<times> u8 \<times> u8"
  obtain t' where t': "route_table_add (Some rt_fresh) 0x0A000000 8 0 5 0 1 = (0, Some t')" "rt_inv t'"
      "routes t' = (routes rt_fresh)(?k \<mapsto> (0, 5, 0))"
    by (rule route_table_add_cases [OF rt_fresh_inv(1), of 5 8 1 ?k "0x0A000000" 0 0])
       (simp_all add: rt_fresh_inv)
  have "routes t' ?k \<noteq> None" unfolding t'(3) by simp
  then have "entry_of rib_used rib_key ?k (rt_rib t') \<noteq> None" unfolding routes_def by auto
  then obtain i where i: "slot_of rib_used rib_key ?k (rt_rib t') = Some i"
    by (auto simp: entry_of_None)
  note si = slot_of_SomeD [OF i]
  have "rib_covers 0x0A000001 (rt_rib t' ! i)" "i < 256"
    using si rt_invD(4) [OF t'(2)] by (auto simp: rib_covers_def rib_key_def route_prefix_mask_def)
  then show ?thesis
    using route_lookup_correct [OF t'(2), of "0x0A000001"] t'(1) by (auto split: option.splits)
qed

datatype route_call =
    AddRoute u32 u8 u32 ptr u32 u8 | DeleteRoute u32 u8 u8 | FlushProto u8 | RebuildFib

fun route_apply :: "RouteTable option \<Rightarrow> route_call \<Rightarrow> RouteTable option" where
  "route_apply t (AddRoute p len nh iface metric proto) = snd (route_table_add t p len nh iface metric proto)"
| "route_apply t (DeleteRoute p len proto) = snd (route_table_delete t p len proto)"
| "route_apply t (FlushProto proto) = snd (route_table_flush_proto t proto)"
| "route_apply t RebuildFib = snd (route_table_rebuild_fib t)"

lemma route_apply_inv:
  assumes "rt_inv t"
  shows "\<exists>t'. route_apply (Some t) c = Some t' \<and> rt_inv t'"
proof (cases c)
  case (AddRoute p len nh iface metric proto)
  show ?thesis
  proof (cases "iface \<noteq> 0 \<and> len \<le> 32 \<and> proto \<noteq> 0")
    case True
    then have ok: "iface \<noteq> 0" "len \<le> 32" "proto \<noteq> 0" by auto
    show ?thesis
      by (rule route_table_add_cases [OF assms ok refl, of p nh metric]) (use assms in \<open>auto simp: AddRoute\<close>)
  next
    case False
    then show ?thesis using assms by (auto simp: AddRoute route_table_add_def not_le)
  qed
next
  case (DeleteRoute p len proto)
  show ?thesis
  proof (cases "len \<le> 32 \<and> proto \<noteq> 0")
    case True
    then have ok: "len \<le> 32" "proto \<noteq> 0" by auto
    show ?thesis
      by (rule route_table_delete_cases [OF assms ok refl, of p]) (use assms in \<open>auto simp: DeleteRoute\<close>)
  next
    case False
    then show ?thesis using assms by (auto simp: DeleteRoute route_table_delete_def not_le)
  qed
next
  case (FlushProto proto)
  show ?thesis
  proof (cases "proto = 0")
    case True
    then show ?thesis using assms by (simp add: FlushProto route_table_flush_proto_def)
  next
    case False
    show ?thesis by (rule route_table_flush_effect [OF assms False]) (auto simp: FlushProto)
  qed
next
  case RebuildFib
  show ?thesis
    by (rule rebuild_rt_inv [OF rt_invD(1,3) [OF assms]]) (auto simp: RebuildFib)
qed

text \<open>
  C27 Whatever routes are added, deleted or flushed, in any order, valid or not, the table that
  \<open>route_table_init\<close> made keeps satisfying the validity predicate which the contracts of
  \<open>route_table.h\<close> require of it, with the right counters and a FIB that matches the RIB.
\<close>

theorem route_table_always_valid:
  assumes "route_table_init (Some t) = Some t\<^sub>0"
  shows "\<exists>t'. foldl route_apply (Some t\<^sub>0) calls = Some t' \<and> rt_inv t' \<and> route_table_basic_valid t'"
proof -
  have "\<exists>t'. foldl route_apply (Some s) calls = Some t' \<and> rt_inv t'" if "rt_inv s" for s
    using that
  proof (induction calls arbitrary: s)
    case (Cons c calls)
    then show ?case using route_apply_inv [OF Cons.prems, of c] by auto
  qed simp
  then show ?thesis using route_table_init_inv(1) [OF assms] rt_inv_basic_valid by blast
qed

theorem route_table_always_valid_witness:
  "\<exists>t'. foldl route_apply (Some rt_fresh) [AddRoute 0x0A000000 8 0 5 0 2, FlushProto 2] = Some t' \<and>
     route_table_basic_valid t'"
proof -
  have "route_table_init (Some rt_fresh) = Some rt_fresh" by (simp add: route_table_init_def rt_fresh_def)
  from route_table_always_valid [OF this] show ?thesis by blast
qed

end
