(* ===== verification/Route_Contract.thy ===== *)
theory Route_Contract
  imports Route_Ops
begin

text \<open>
  The contracts of \<open>routing/route_table.h\<close>, written out clause by clause as relations between the
  arguments, the table before, the result and the table after, and the proof that the operations
  meet them. The header declares \<open>route_prefix_normalizes\<close> and \<open>route_prefix_matches\<close> without a
  body; they are read here as what the code computes with \<open>route_prefix_mask\<close>. Quantification over
  the slots of an array is \<open>list_all\<close> and \<open>list_ex\<close>; \<open>assigns\<close> becomes equality of the fields that
  are not named; a behaviour that assigns nothing leaves the table equal.
\<close>

section \<open>The contracts\<close>

definition route_prefix_normalizes :: "u32 \<Rightarrow> u8 \<Rightarrow> u32 \<Rightarrow> bool" where
  "route_prefix_normalizes input prefix_len stored \<longleftrightarrow> stored = input AND route_prefix_mask prefix_len"

definition route_prefix_matches :: "u32 \<Rightarrow> u32 \<Rightarrow> u8 \<Rightarrow> bool" where
  "route_prefix_matches ip prefix prefix_len \<longleftrightarrow> ip AND route_prefix_mask prefix_len = prefix"

definition route_table_init_contract :: "RouteTable option \<Rightarrow> RouteTable option \<Rightarrow> bool" where
  "route_table_init_contract table table' \<longleftrightarrow>
     (case (table, table') of
        (None, None) \<Rightarrow> True
      | (Some t, Some t') \<Rightarrow>
          rt_rib_count t' = 0 \<and> rt_fib_count t' = 0 \<and> rt_next_sequence t' = 1 \<and>
          list_all (\<lambda>r. rr_valid r = 0) (rt_rib t') \<and> list_all (\<lambda>r. rr_selected r = 0) (rt_rib t') \<and>
          list_all (\<lambda>r. rr_iface r = NULL) (rt_rib t') \<and>
          list_all (\<lambda>f. rf_valid f = 0) (rt_fib t') \<and> list_all (\<lambda>f. rf_iface f = NULL) (rt_fib t') \<and>
          route_table_basic_valid t'
      | _ \<Rightarrow> False)"

definition route_table_add_contract ::
  "RouteTable option \<Rightarrow> u32 \<Rightarrow> u8 \<Rightarrow> u32 \<Rightarrow> ptr \<Rightarrow> u32 \<Rightarrow> u8 \<Rightarrow> int \<times> RouteTable option \<Rightarrow> bool" where
  "route_table_add_contract table prefix prefix_len next_hop iface metric proto res \<longleftrightarrow>
     (case res of (result, table') \<Rightarrow>
        if table = None \<or> iface = NULL \<or> prefix_len > 32 \<or> proto = 0 then table' = table \<and> result = - 1
        else
          (case (table, table') of
             (Some t, Some t') \<Rightarrow> route_table_basic_valid t \<longrightarrow>
               (result = 0 \<or> result = - 1) \<and>
               (result = - 1 \<longrightarrow> rt_rib_count t' = rt_rib_count t) \<and>
               (result = 0 \<longrightarrow> rt_rib_count t' = rt_rib_count t \<or> rt_rib_count t' = rt_rib_count t + 1) \<and>
               (result = 0 \<longrightarrow> list_ex (\<lambda>r. rr_valid r = 1 \<and>
                  route_prefix_normalizes prefix prefix_len (rr_prefix r) \<and>
                  rr_prefix_len r = prefix_len \<and> rr_proto r = proto \<and> rr_next_hop r = next_hop \<and>
                  rr_iface r = iface \<and> rr_metric r = metric) (rt_rib t')) \<and>
               route_table_basic_valid t'
           | _ \<Rightarrow> False))"

definition route_table_delete_contract ::
  "RouteTable option \<Rightarrow> u32 \<Rightarrow> u8 \<Rightarrow> u8 \<Rightarrow> int \<times> RouteTable option \<Rightarrow> bool" where
  "route_table_delete_contract table prefix prefix_len proto res \<longleftrightarrow>
     (case res of (result, table') \<Rightarrow>
        if table = None \<or> prefix_len > 32 \<or> proto = 0 then table' = table \<and> result = - 1
        else
          (case (table, table') of
             (Some t, Some t') \<Rightarrow> route_table_basic_valid t \<longrightarrow>
               rt_next_sequence t' = rt_next_sequence t \<and>
               (result = 0 \<or> result = - 1) \<and>
               (result = - 1 \<longrightarrow> rt_rib_count t' = rt_rib_count t) \<and>
               (result = 0 \<longrightarrow> rt_rib_count t' = rt_rib_count t - 1) \<and>
               (result = 0 \<longrightarrow> list_all (\<lambda>r. rr_valid r = 0 \<or>
                  \<not> route_prefix_normalizes prefix prefix_len (rr_prefix r) \<or>
                  rr_prefix_len r \<noteq> prefix_len \<or> rr_proto r \<noteq> proto) (rt_rib t')) \<and>
               route_table_basic_valid t'
           | _ \<Rightarrow> False))"

definition route_table_lookup_contract :: "RouteTable option \<Rightarrow> u32 \<Rightarrow> nat option \<Rightarrow> bool" where
  "route_table_lookup_contract table dst_ip result \<longleftrightarrow>
     (case table of
        None \<Rightarrow> result = None
      | Some t \<Rightarrow> route_table_basic_valid t \<longrightarrow>
          (case result of
             None \<Rightarrow> True
           | Some i \<Rightarrow> i < length (rt_fib t) \<and> rf_valid (rt_fib t ! i) = 1 \<and>
               rf_prefix_len (rt_fib t ! i) \<le> 32 \<and>
               route_prefix_matches dst_ip (rf_prefix (rt_fib t ! i)) (rf_prefix_len (rt_fib t ! i))))"

definition route_table_flush_proto_contract ::
  "RouteTable option \<Rightarrow> u8 \<Rightarrow> int \<times> RouteTable option \<Rightarrow> bool" where
  "route_table_flush_proto_contract table proto res \<longleftrightarrow>
     (case res of (result, table') \<Rightarrow>
        if table = None \<or> proto = 0 then table' = table \<and> result = 0
        else
          (case (table, table') of
             (Some t, Some t') \<Rightarrow> route_table_basic_valid t \<longrightarrow>
               rt_next_sequence t' = rt_next_sequence t \<and>
               result \<ge> 0 \<and> result \<le> rt_rib_count t \<and>
               rt_rib_count t' = rt_rib_count t - result \<and>
               list_all (\<lambda>r. rr_valid r = 0 \<or> rr_proto r \<noteq> proto) (rt_rib t') \<and>
               route_table_basic_valid t'
           | _ \<Rightarrow> False))"

text \<open>\<open>kept\<close> is the clause on the routes that were valid before the rebuild.\<close>

definition route_table_rebuild_fib_contract :: "RouteTable option \<Rightarrow> int \<times> RouteTable option \<Rightarrow> bool" where
  "route_table_rebuild_fib_contract table res \<longleftrightarrow>
     (case res of (result, table') \<Rightarrow>
        case (table, table') of
          (None, None) \<Rightarrow> result = - 1
        | (Some t, Some t') \<Rightarrow> route_table_basic_valid t \<longrightarrow>
            rt_rib_count t' = rt_rib_count t \<and> rt_next_sequence t' = rt_next_sequence t \<and>
            result = 0 \<and> rt_fib_count t' \<ge> 0 \<and> rt_fib_count t' \<le> rt_rib_count t' \<and>
            list_all2 (\<lambda>r r'. rr_valid r = 1 \<longrightarrow>
               rr_prefix r' = rr_prefix r \<and> rr_prefix_len r' = rr_prefix_len r \<and>
               rr_proto r' = rr_proto r \<and> rr_next_hop r' = rr_next_hop r \<and> rr_iface r' = rr_iface r \<and>
               rr_metric r' = rr_metric r \<and> rr_sequence r' = rr_sequence r) (rt_rib t) (rt_rib t') \<and>
            list_all (\<lambda>f. rf_valid f = 0 \<or>
               rf_prefix_len f \<le> 32 \<and> 0 \<le> rf_rib_index f \<and> rf_rib_index f < 256 \<and>
               rr_valid (rt_rib t' ! nat (rf_rib_index f)) = 1 \<and>
               rr_selected (rt_rib t' ! nat (rf_rib_index f)) = 1) (rt_fib t') \<and>
            route_table_basic_valid t'
        | _ \<Rightarrow> False)"

section \<open>The counters and the content\<close>

text \<open>The counter of the RIB is the size of its content.\<close>

lemma in_use_card:
  assumes "unique_keys used key xs"
  shows "in_use used xs = card (key ` {x \<in> set xs. used x})"
proof -
  let ?I = "{i. i < length xs \<and> used (xs ! i)}"
  have "inj_on (\<lambda>i. key (xs ! i)) ?I"
    using assms by (auto simp: inj_on_def unique_keys_def)
  then have "card ((\<lambda>i. key (xs ! i)) ` ?I) = card ?I" by (rule card_image)
  moreover have "(\<lambda>i. key (xs ! i)) ` ?I = key ` {x \<in> set xs. used x}"
    by (auto simp: in_set_conv_nth)
  moreover have "in_use used xs = card ?I"
    by (simp add: in_use_def length_filter_conv_card)
  ultimately show ?thesis by simp
qed

lemma routes_dom: "dom (routes t) = rib_key ` {r \<in> set (rt_rib t). rib_used r}"
proof -
  have "k \<in> dom (routes t) \<longleftrightarrow> (\<exists>r \<in> set (rt_rib t). rib_used r \<and> rib_key r = k)" for k
    by (simp add: domIff routes_def entry_of_None slot_of_None)
  note in_dom = this
  show ?thesis by (rule set_eqI, unfold in_dom) blast
qed

lemma rib_count_routes: "rt_inv t \<Longrightarrow> rt_rib_count t = int (card (dom (routes t)))"
  using rt_invD(1) [of t] by (simp add: routes_dom rib_invD(2,3) in_use_card)

lemma routes_finite: "finite (dom (routes t))"
  by (simp add: routes_dom)

lemma routes_entry:
  assumes inv: "rt_inv t" and r: "routes t (p, len, proto) = Some (nh, iface, metric)"
  shows "\<exists>e \<in> set (rt_rib t). rr_valid e = 1 \<and> rr_prefix e = p \<and> rr_prefix_len e = len \<and> rr_proto e = proto \<and>
    rr_next_hop e = nh \<and> rr_iface e = iface \<and> rr_metric e = metric"
proof -
  from r obtain i where i: "slot_of rib_used rib_key (p, len, proto) (rt_rib t) = Some i"
    "route_info (rt_rib t ! i) = (nh, iface, metric)"
    by (auto simp: routes_def entry_of_def)
  note si = slot_of_SomeD [OF i(1)]
  moreover have "rr_valid (rt_rib t ! i) = 1"
    using si rib_invD(1,4) [OF rt_invD(1) [OF inv]] by (auto simp: route_valid_rib_slot_def)
  ultimately show ?thesis
    using i(2) by (intro bexI [of _ "rt_rib t ! i"]) (auto simp: rib_key_def route_info_def)
qed

lemma routes_absent:
  assumes "routes t (p, len, proto) = None" "e \<in> set (rt_rib t)" "rib_used e"
  shows "rib_key e \<noteq> (p, len, proto)"
  using assms by (auto simp: routes_def entry_of_None slot_of_None)

text \<open>Entries of the FIB point at different routes, so there are no more of them than routes.\<close>

lemma fib_entry_selected:
  assumes inv: "rt_inv t" and f: "f \<in> set (rt_fib t)" "fib_used f"
  obtains k where "k < 256" "rf_rib_index f = int k" "f = fib_image (rt_rib t) k"
    "rr_valid (rt_rib t ! k) = 1" "rr_selected (rt_rib t ! k) = 1" "rib_dest (rt_rib t ! k) = fib_dest f"
proof -
  obtain k where k: "best_route (rt_rib t) (fib_dest f) = Some k" "k < 256" "f = fib_image (rt_rib t) k"
    "rib_used (rt_rib t ! k)" "rib_dest (rt_rib t ! k) = fib_dest f"
    by (rule fib_entry_image [OF inv f])
  have "rr_selected (rt_rib t ! k) = 1"
    using fib_correct_selected [OF rt_invD(2) [OF inv] k(2,4)] by (simp add: k(1,5))
  moreover have "rr_valid (rt_rib t ! k) = 1"
    using rib_invD(4) [OF rt_invD(1) [OF inv] k(2)] k(4) by (auto simp: route_valid_rib_slot_def)
  moreover have "rf_rib_index f = int k" by (subst k(3)) simp
  ultimately show ?thesis by (intro that [OF k(2) _ k(3) _ _ k(5)])
qed

lemma fib_count_le:
  assumes inv: "rt_inv t"
  shows "0 \<le> rt_fib_count t" "rt_fib_count t \<le> rt_rib_count t"
proof -
  have fc: "unique_keys fib_used fib_dest (rt_fib t)" "rt_fib_count t = int (in_use fib_used (rt_fib t))"
    using rt_invD(2) [OF inv] by (simp_all add: fib_correct_def)
  have "fib_dest ` {f \<in> set (rt_fib t). fib_used f} \<subseteq> (\<lambda>(p, len, proto). (p, len)) ` dom (routes t)"
  proof
    fix d assume "d \<in> fib_dest ` {f \<in> set (rt_fib t). fib_used f}"
    then obtain f where f: "f \<in> set (rt_fib t)" "fib_used f" and d: "d = fib_dest f" by auto
    obtain k where k: "k < 256" "rr_valid (rt_rib t ! k) = 1" "rib_dest (rt_rib t ! k) = d"
      using fib_entry_selected [OF inv f] d by metis
    then have "rib_key (rt_rib t ! k) \<in> dom (routes t)"
      using rt_invD(4) [OF inv] by (auto simp: routes_dom)
    then show "d \<in> (\<lambda>(p, len, proto). (p, len)) ` dom (routes t)"
      using k(3) by (intro image_eqI [of _ _ "rib_key (rt_rib t ! k)"]) (auto simp: rib_key_def rib_dest_def)
  qed
  then have "in_use fib_used (rt_fib t) \<le> card (dom (routes t))"
    unfolding in_use_card [OF fc(1)] using routes_finite surj_card_le by blast
  then show "0 \<le> rt_fib_count t" "rt_fib_count t \<le> rt_rib_count t"
    using fc(2) rib_count_routes [OF inv] by simp_all
qed

section \<open>The operations meet them\<close>

lemma delete_flush_sequence:
  "snd (route_table_delete (Some t) p len proto) = Some t' \<Longrightarrow> rt_next_sequence t' = rt_next_sequence t"
  "snd (route_table_flush_proto (Some t) proto) = Some t' \<Longrightarrow> rt_next_sequence t' = rt_next_sequence t"
  by (auto simp: route_table_delete_def route_table_flush_proto_def route_table_rebuild_fib_def
      rebuild_loop_frame rebuild_clear_def Let_def split: option.splits if_splits prod.splits)

lemma add_meets_contract:
  assumes inv: "rt_inv t"
  shows "route_table_add_contract (Some t) p len nh iface metric proto
    (route_table_add (Some t) p len nh iface metric proto)"
proof (cases "iface \<noteq> NULL \<and> len \<le> 32 \<and> proto \<noteq> 0")
  case False
  then show ?thesis by (auto simp: route_table_add_contract_def route_table_add_def not_le)
next
  case True
  then have ok: "iface \<noteq> NULL" "len \<le> 32" "proto \<noteq> 0" by auto
  let ?k = "(p AND route_prefix_mask len, len, proto)"
  show ?thesis
  proof (rule route_table_add_cases [OF inv ok refl, of p nh metric])
    fix t' assume t': "route_table_add (Some t) p len nh iface metric proto = (0, Some t')" "rt_inv t'"
      "routes t' = (routes t)(?k \<mapsto> (nh, iface, metric))"
    have "rt_rib_count t' = rt_rib_count t \<or> rt_rib_count t' = rt_rib_count t + 1"
      unfolding rib_count_routes [OF inv] rib_count_routes [OF t'(2)] t'(3)
      using routes_finite [of t] by (auto simp: card_insert_if)
    moreover have "\<exists>e \<in> set (rt_rib t'). rr_valid e = 1 \<and> rr_prefix e = p AND route_prefix_mask len \<and>
      rr_prefix_len e = len \<and> rr_proto e = proto \<and> rr_next_hop e = nh \<and> rr_iface e = iface \<and> rr_metric e = metric"
      by (rule routes_entry [OF t'(2)]) (simp add: t'(3))
    ultimately show ?thesis
      using ok rt_inv_basic_valid [OF t'(2)]
      by (auto simp: route_table_add_contract_def t'(1) list_ex_iff route_prefix_normalizes_def)
  next
    assume "route_table_add (Some t) p len nh iface metric proto = (- 1, Some t)"
    then show ?thesis using ok by (auto simp: route_table_add_contract_def)
  qed
qed

lemma delete_meets_contract:
  assumes inv: "rt_inv t"
  shows "route_table_delete_contract (Some t) p len proto (route_table_delete (Some t) p len proto)"
proof (cases "len \<le> 32 \<and> proto \<noteq> 0")
  case False
  then show ?thesis by (auto simp: route_table_delete_contract_def route_table_delete_def not_le)
next
  case True
  then have ok: "len \<le> 32" "proto \<noteq> 0" by auto
  let ?k = "(p AND route_prefix_mask len, len, proto)"
  show ?thesis
  proof (rule route_table_delete_cases [OF inv ok refl, of p])
    fix t' assume t': "route_table_delete (Some t) p len proto = (0, Some t')" "rt_inv t'"
      "routes t' = (routes t)(?k := None)" "rt_rib_count t' = rt_rib_count t - 1"
    have "rib_key e \<noteq> ?k" if "e \<in> set (rt_rib t')" "rib_used e" for e
      by (rule routes_absent [OF _ that]) (simp add: t'(3))
    then show ?thesis
      using ok rt_inv_basic_valid [OF t'(2)] t'(4) delete_flush_sequence(1) [of t p len proto t']
      by (auto simp: route_table_delete_contract_def t'(1) list_all_iff route_prefix_normalizes_def rib_key_def)
  next
    assume "route_table_delete (Some t) p len proto = (- 1, Some t)"
    then show ?thesis using ok by (auto simp: route_table_delete_contract_def)
  qed
qed

lemma flush_meets_contract:
  assumes inv: "rt_inv t"
  shows "route_table_flush_proto_contract (Some t) proto (route_table_flush_proto (Some t) proto)"
proof (cases "proto = 0")
  case True
  then show ?thesis by (simp add: route_table_flush_proto_contract_def route_table_flush_proto_def)
next
  case False
  let ?n = "in_use (\<lambda>e. rib_used e \<and> rr_proto e = proto) (rt_rib t)"
  show ?thesis
  proof (rule route_table_flush_effect [OF inv False])
    fix t' assume t': "route_table_flush_proto (Some t) proto = (int ?n, Some t')" "rt_inv t'"
      "routes t' = (\<lambda>k. if snd (snd k) = proto then None else routes t k)"
    have le: "?n \<le> in_use rib_used (rt_rib t)" using in_use_flush [of proto "rt_rib t"] by simp
    have "rt_rib_count t' = rt_rib_count t - int ?n"
      using t'(1) False flush_loop_map [of "rt_rib t" "rt_rib_count t" proto 0]
        rib_invD(3) [OF rt_invD(1) [OF inv]]
      by (auto simp: route_table_flush_proto_def route_table_rebuild_fib_def rebuild_loop_frame rebuild_clear_def Let_def)
    moreover have "rr_proto e \<noteq> proto" if "e \<in> set (rt_rib t')" "rib_used e" for e
      using routes_absent [OF _ that, of "rr_prefix e" "rr_prefix_len e" proto] by (auto simp: t'(3) rib_key_def)
    ultimately show ?thesis
      using False rt_inv_basic_valid [OF t'(2)] delete_flush_sequence(2) [of t proto t'] le
        rib_invD(3) [OF rt_invD(1) [OF inv]]
      by (auto simp: route_table_flush_proto_contract_def t'(1) list_all_iff)
  qed
qed

lemma rebuild_meets_contract:
  assumes inv: "rt_inv t"
  shows "route_table_rebuild_fib_contract (Some t) (route_table_rebuild_fib (Some t))"
proof -
  obtain t' where t': "route_table_rebuild_fib (Some t) = (0, Some t')" "rt_inv t'"
    "same_routes (rt_rib t) (rt_rib t')" "rt_next_sequence t' = rt_next_sequence t"
    by (rule rebuild_rt_inv [OF rt_invD(1,3) [OF inv]])
  have "list_all2 (\<lambda>r r'. \<exists>s. r' = r\<lparr>rr_selected := s\<rparr>) (rt_rib t) (rt_rib t')"
    using t'(3) by (simp add: same_routes_def list_all2_conv_all_nth)
  then have kept: "list_all2 (\<lambda>r r'. rr_valid r = 1 \<longrightarrow>
       rr_prefix r' = rr_prefix r \<and> rr_prefix_len r' = rr_prefix_len r \<and>
       rr_proto r' = rr_proto r \<and> rr_next_hop r' = rr_next_hop r \<and> rr_iface r' = rr_iface r \<and>
       rr_metric r' = rr_metric r \<and> rr_sequence r' = rr_sequence r) (rt_rib t) (rt_rib t')"
    by (rule list_all2_mono) auto
  have fib: "rf_prefix_len f \<le> 32 \<and> 0 \<le> rf_rib_index f \<and> rf_rib_index f < 256 \<and>
      rr_valid (rt_rib t' ! nat (rf_rib_index f)) = 1 \<and> rr_selected (rt_rib t' ! nat (rf_rib_index f)) = 1"
    if f: "f \<in> set (rt_fib t')" "rf_valid f \<noteq> 0" for f
  proof -
    obtain k where "k < 256" "rf_rib_index f = int k" "rr_valid (rt_rib t' ! k) = 1" "rr_selected (rt_rib t' ! k) = 1"
      by (rule fib_entry_selected [OF t'(2) f])
    moreover have "rf_prefix_len f \<le> 32"
      using rt_inv_basic_valid [OF t'(2)] f by (auto simp: route_table_basic_valid_def list_all_iff route_valid_fib_slot_def)
    ultimately show ?thesis by simp
  qed
  have "rt_rib_count t' = rt_rib_count t"
    using t'(1) by (auto simp: route_table_rebuild_fib_def rebuild_loop_frame rebuild_clear_def Let_def)
  then show ?thesis
    using kept fib fib_count_le [OF t'(2)] rt_inv_basic_valid [OF t'(2)] t'(4)
    by (auto simp: route_table_rebuild_fib_contract_def t'(1) list_all_iff)
qed

lemma lookup_meets_contract: "route_table_lookup_contract (Some t) ip (route_table_lookup (Some t) ip)"
proof (cases "route_table_lookup (Some t) ip")
  case (Some i)
  have i: "i < length (rt_fib t)" "fib_covers ip (rt_fib t ! i)"
    using lookup_longest [of ip t] by (simp_all add: Some longest_def)
  show ?thesis
    using i by (auto simp: route_table_lookup_contract_def Some fib_covers_def route_prefix_matches_def
        route_table_basic_valid_def list_all_length route_valid_fib_slot_def)
qed (simp add: route_table_lookup_contract_def)

text \<open>
  C32 Every operation of \<open>route_table.c\<close> meets its contract in \<open>route_table.h\<close>, on a null table and
  on every table that satisfies the invariant (which all tables reached from \<open>route_table_init\<close>
  do): arguments that are refused change nothing, the counters move by what the result says, an
  added route is found in the RIB as it was given, no deleted or flushed route is, a rebuild keeps
  every route and leaves no more FIB entries than routes, each pointing at a selected route.
\<close>

theorem route_table_meets_contracts:
  assumes "\<forall>t \<in> set_option table. rt_inv t"
  shows "route_table_init_contract table (route_table_init table) \<and>
    route_table_add_contract table p len nh iface metric proto (route_table_add table p len nh iface metric proto) \<and>
    route_table_delete_contract table p len proto (route_table_delete table p len proto) \<and>
    route_table_lookup_contract table ip (route_table_lookup table ip) \<and>
    route_table_flush_proto_contract table proto (route_table_flush_proto table proto) \<and>
    route_table_rebuild_fib_contract table (route_table_rebuild_fib table)"
proof (cases table)
  case None
  then show ?thesis
    by (simp add: route_table_init_contract_def route_table_init_def route_table_add_contract_def route_table_add_def
        route_table_delete_contract_def route_table_delete_def route_table_lookup_contract_def route_table_lookup_def
        route_table_flush_proto_contract_def route_table_flush_proto_def route_table_rebuild_fib_contract_def
        route_table_rebuild_fib_def)
next
  case (Some t)
  have inv: "rt_inv t" using assms Some by simp
  obtain t0 where t0: "route_table_init (Some t) = Some t0" by (simp add: route_table_init_def)
  have "route_table_init_contract (Some t) (Some t0)"
    using rt_inv_basic_valid [OF route_table_init_inv(1) [OF t0]] t0
    by (auto simp: route_table_init_contract_def route_table_init_def list_all_iff rib_zero_def fib_zero_def)
  then show ?thesis
    using add_meets_contract [OF inv] delete_meets_contract [OF inv] lookup_meets_contract
      flush_meets_contract [OF inv] rebuild_meets_contract [OF inv]
    by (simp add: Some t0)
qed

theorem route_table_meets_contracts_witness:
  "route_table_add_contract (Some rt_fresh) 0x0A010203 16 0 5 0 1 (route_table_add (Some rt_fresh) 0x0A010203 16 0 5 0 1)"
  using route_table_meets_contracts [of "Some rt_fresh" "0x0A010203" 16 0 5 0 1 0] rt_fresh_inv(1) by simp

end
