(* ===== verification/Table_Contracts.thy ===== *)
theory Table_Contracts
  imports Mac_Table Arp_Cache Udp_Sockets Tcp_Table
begin

text \<open>
  The contracts that \<open>mac_table.h\<close>, \<open>arp_cache.h\<close>, \<open>udp.h\<close> and \<open>tcp.h\<close> state for the operations on
  their tables, clause by clause, read as those of the routing table are: a valid table is one that
  is there, a returned pointer into an array is an index within it, \<open>assigns\<close> is
  equality of the fields that are not named. The operations meet them, but for the contracts of the
  neighbour cache, for which it is shown exactly when they hold.
\<close>

section \<open>The MAC table\<close>

definition mac_table_init_contract :: "MacTable option \<Rightarrow> MacTable option \<Rightarrow> bool" where
  "mac_table_init_contract table table' \<longleftrightarrow>
     (case (table, table') of
        (None, None) \<Rightarrow> True
      | (Some t, Some t') \<Rightarrow> mt_count t' = 0 \<and> list_all (\<lambda>e. me_valid e = 0) (mt_entries t')
      | _ \<Rightarrow> False)"

definition mac_table_learn_contract ::
  "MacTable option \<Rightarrow> mac option \<Rightarrow> ptr \<Rightarrow> u64 \<Rightarrow> nat option \<times> MacTable option \<Rightarrow> bool" where
  "mac_table_learn_contract table mac_p port now res \<longleftrightarrow>
     (case res of (result, table') \<Rightarrow>
        if table = None \<or> mac_p = None \<or> port = NULL then table' = table \<and> result = None
        else
          (case (mac_p, table', result) of
             (Some mac, Some t', Some i) \<Rightarrow> i < length (mt_entries t') \<and>
               me_port (mt_entries t' ! i) = port \<and> me_mac (mt_entries t' ! i) = mac \<and>
               me_timestamp (mt_entries t' ! i) = now \<and> me_valid (mt_entries t' ! i) = 1
           | (_, t', r) \<Rightarrow> t' \<noteq> None \<and> r = None))"

definition mac_table_lookup_contract :: "MacTable option \<Rightarrow> mac option \<Rightarrow> ptr \<Rightarrow> bool" where
  "mac_table_lookup_contract table mac_p result \<longleftrightarrow>
     (case (table, mac_p) of
        (Some t, Some mac) \<Rightarrow>
          (result = NULL \<or> list_ex (\<lambda>e. me_valid e = 1 \<and> me_port e = result \<and> me_mac e = mac) (mt_entries t)) \<and>
          (result = NULL \<longrightarrow> list_all (\<lambda>e. me_valid e = 0 \<or> me_mac e \<noteq> mac) (mt_entries t))
      | _ \<Rightarrow> result = NULL)"

text \<open>The difference of the two times is one of integers, as ACSL reads it.\<close>

definition mac_table_age_contract :: "MacTable option \<Rightarrow> u64 \<Rightarrow> MacTable option \<Rightarrow> bool" where
  "mac_table_age_contract table now table' \<longleftrightarrow>
     (case (table, table') of
        (None, None) \<Rightarrow> True
      | (Some t, Some t') \<Rightarrow>
          list_all (\<lambda>e. me_valid e = 0 \<or> int (unat now) - int (unat (me_timestamp e)) \<le> 300000) (mt_entries t')
      | _ \<Rightarrow> False)"

definition mac_table_flush_port_contract :: "MacTable option \<Rightarrow> ptr \<Rightarrow> MacTable option \<Rightarrow> bool" where
  "mac_table_flush_port_contract table port table' \<longleftrightarrow>
     (if table = None \<or> port = NULL then table' = table
      else
        (case (table, table') of
           (Some t, Some t') \<Rightarrow>
             list_all (\<lambda>e. me_port e = port \<longrightarrow> me_valid e = 0) (mt_entries t') \<and>
             list_all2 (\<lambda>e e'. me_port e' \<noteq> port \<longrightarrow> me_valid e' = me_valid e) (mt_entries t) (mt_entries t')
         | _ \<Rightarrow> False))"

section \<open>The neighbour cache\<close>

definition arp_cache_init_contract :: "ArpCache option \<Rightarrow> ArpCache option \<Rightarrow> bool" where
  "arp_cache_init_contract cache cache' \<longleftrightarrow>
     (case (cache, cache') of
        (None, None) \<Rightarrow> True
      | (Some c, Some c') \<Rightarrow> ac_count c' = 0 \<and> list_all (\<lambda>e. ae_valid e = 0) (ac_entries c') \<and>
          ac_pending_count c' = 0 \<and> list_all (\<lambda>p. ap_valid p = 0) (ac_pending c') \<and>
          list_all (\<lambda>p. ap_iface p = NULL) (ac_pending c') \<and>
          list_all (\<lambda>p. ap_payload p = NULL) (ac_pending c')
      | _ \<Rightarrow> False)"

definition arp_cache_add_contract :: "ArpCache option \<Rightarrow> u32 \<Rightarrow> ArpCache option \<Rightarrow> bool" where
  "arp_cache_add_contract cache ip_addr cache' \<longleftrightarrow>
     (if cache = None \<or> ip_addr = 0 then cache' = cache
      else
        (case (cache, cache') of
           (Some c, Some c') \<Rightarrow> ac_count c' = ac_count c \<and> ac_pending c' = ac_pending c \<and>
             ac_pending_count c' = ac_pending_count c
         | _ \<Rightarrow> False))"

definition arp_cache_lookup_contract ::
  "ArpCache option \<Rightarrow> u32 \<Rightarrow> mac option \<Rightarrow> int \<times> mac option \<Rightarrow> bool" where
  "arp_cache_lookup_contract cache ip_addr out_mac res \<longleftrightarrow>
     (case res of (result, out_mac') \<Rightarrow>
        if cache = None \<or> ip_addr = 0 \<or> out_mac = None then out_mac' = out_mac \<and> result = - 1
        else
          (case (cache, out_mac') of
             (Some c, Some m) \<Rightarrow> out_mac' = out_mac \<and> (result = 0 \<longrightarrow>
               list_all (\<lambda>e. ae_ip_addr e = ip_addr \<longrightarrow> m = ae_mac_addr e) (ac_entries c))
           | _ \<Rightarrow> False))"

definition arp_pending_enqueue_contract ::
  "ArpCache option \<Rightarrow> ptr \<Rightarrow> u32 \<Rightarrow> ptr \<Rightarrow> int \<times> ArpCache option \<Rightarrow> bool" where
  "arp_pending_enqueue_contract cache iface target_ip payload res \<longleftrightarrow>
     (case res of (result, cache') \<Rightarrow>
        if cache = None \<or> iface = NULL \<or> payload = NULL \<or> target_ip = 0 then cache' = cache \<and> result = - 1
        else
          (case (cache, cache') of
             (Some c, Some c') \<Rightarrow> ac_entries c' = ac_entries c \<and> ac_count c' = ac_count c \<and>
               (result = 0 \<or> result = - 1)
           | _ \<Rightarrow> False))"

definition arp_cache_cleanup_contract :: "ArpCache option \<Rightarrow> ArpCache option \<Rightarrow> bool" where
  "arp_cache_cleanup_contract cache cache' \<longleftrightarrow>
     (case (cache, cache') of
        (None, None) \<Rightarrow> True
      | (Some c, Some c') \<Rightarrow> ac_count c' = ac_count c \<and> ac_pending c' = ac_pending c \<and>
          ac_pending_count c' = ac_pending_count c
      | _ \<Rightarrow> False)"

section \<open>The sockets and the connection blocks\<close>

definition udp_init_contract :: "UdpState option \<Rightarrow> UdpState option \<Rightarrow> bool" where
  "udp_init_contract state state' \<longleftrightarrow>
     (case (state, state') of
        (None, None) \<Rightarrow> True
      | (Some s, Some s') \<Rightarrow> ud_count s' = 0 \<and> list_all (\<lambda>k. us_valid k = 0) (ud_sockets s')
      | _ \<Rightarrow> False)"

text \<open>The behaviours overlap, so each is an implication of its own.\<close>

definition udp_bind_contract ::
  "UdpState option \<Rightarrow> u16 \<Rightarrow> app_fn \<Rightarrow> int \<times> UdpState option \<Rightarrow> bool" where
  "udp_bind_contract state port recv_handler res \<longleftrightarrow>
     (case res of (result, state') \<Rightarrow>
        (state = None \<or> recv_handler = 0 \<or> port = 0 \<longrightarrow> state' = state \<and> result = - 1) \<and>
        (case state of None \<Rightarrow> True | Some s \<Rightarrow>
           (recv_handler \<noteq> 0 \<and> port \<noteq> 0 \<and>
              list_ex (\<lambda>k. us_valid k = 1 \<and> us_port k = port) (ud_sockets s) \<longrightarrow>
            state' = state \<and> result = - 1) \<and>
           (recv_handler \<noteq> 0 \<and> port \<noteq> 0 \<and> list_all (\<lambda>k. us_valid k = 1) (ud_sockets s) \<longrightarrow>
            state' = state \<and> result = - 1) \<and>
           (recv_handler \<noteq> 0 \<and> port \<noteq> 0 \<and>
              list_all (\<lambda>k. us_valid k = 0 \<or> us_port k \<noteq> port) (ud_sockets s) \<and>
              list_ex (\<lambda>k. us_valid k = 0) (ud_sockets s) \<longrightarrow>
            result = 0 \<and> (\<exists>s'. state' = Some s' \<and> ud_count s' = ud_count s + 1))))"

definition udp_unbind_contract :: "UdpState option \<Rightarrow> u16 \<Rightarrow> int \<times> UdpState option \<Rightarrow> bool" where
  "udp_unbind_contract state port res \<longleftrightarrow>
     (case res of (result, state') \<Rightarrow>
        (state = None \<or> port = 0 \<longrightarrow> state' = state \<and> result = - 1) \<and>
        (case state of None \<Rightarrow> True | Some s \<Rightarrow>
           (port \<noteq> 0 \<and> list_all (\<lambda>k. us_valid k = 0 \<or> us_port k \<noteq> port) (ud_sockets s) \<longrightarrow>
            state' = state \<and> result = - 1) \<and>
           (port \<noteq> 0 \<and> list_ex (\<lambda>k. us_valid k = 1 \<and> us_port k = port) (ud_sockets s) \<longrightarrow>
            state' \<noteq> None \<and> result = 0)))"

definition tcp_init_contract :: "TcpTable option \<Rightarrow> TcpTable option \<Rightarrow> bool" where
  "tcp_init_contract table table' \<longleftrightarrow>
     (case (table, table') of
        (None, None) \<Rightarrow> True
      | (Some t, Some t') \<Rightarrow> tt_count t' = 0 \<and> list_all (\<lambda>b. tc_valid b = 0) (tt_tcbs t')
      | _ \<Rightarrow> False)"

definition tcp_listen_contract ::
  "TcpTable option \<Rightarrow> u32 \<Rightarrow> u16 \<Rightarrow> nat option \<times> TcpTable option \<Rightarrow> bool" where
  "tcp_listen_contract table local_ip local_port res \<longleftrightarrow>
     (case res of (result, table') \<Rightarrow>
        (table = None \<or> local_port = 0 \<longrightarrow> table' = table \<and> result = None) \<and>
        (case table of None \<Rightarrow> True | Some t \<Rightarrow>
           (local_port \<noteq> 0 \<and>
              list_ex (\<lambda>b. tc_valid b = 1 \<and> tc_state b = TCP_LISTEN \<and> tc_local_ip b = local_ip \<and>
                 tc_local_port b = local_port) (tt_tcbs t) \<longrightarrow>
            table' = table \<and> result = None) \<and>
           (local_port \<noteq> 0 \<longrightarrow>
            (\<exists>t'. table' = Some t' \<and> (result = None \<or> (\<exists>i. result = Some i \<and> i < length (tt_tcbs t')))))))"

section \<open>Meeting them\<close>

definition mac_flags :: "MacTable \<Rightarrow> bool" where
  "mac_flags t \<longleftrightarrow> list_all (\<lambda>e. me_valid e = 0 \<or> me_valid e = 1) (mt_entries t)"

lemma list_all_update: "list_all P xs \<Longrightarrow> P x \<Longrightarrow> list_all P (xs[i := x])"
  by (auto simp: list_all_iff dest!: set_update_subset_insert [THEN subsetD])

lemma mac_learn_meets_contract:
  assumes inv: "mac_inv t" and flags: "mac_flags t"
  shows "mac_table_learn_contract (Some t) mac_p port now (mac_table_learn (Some t) mac_p port now)"
    "\<forall>t' \<in> set_option (snd (mac_table_learn (Some t) mac_p port now)). mac_inv t' \<and> mac_flags t'"
proof -
  have "mac_table_learn_contract (Some t) mac_p port now (mac_table_learn (Some t) mac_p port now) \<and>
    (\<forall>t' \<in> set_option (snd (mac_table_learn (Some t) mac_p port now)). mac_inv t' \<and> mac_flags t')"
  proof (cases "mac_p = None \<or> port = NULL")
    case True
    then show ?thesis using assms
      by (auto simp: mac_table_learn_contract_def mac_table_learn_def split: option.splits)
  next
    case False
    then obtain mac where mac: "mac_p = Some mac" and port: "port \<noteq> NULL" by auto
    obtain r t' where res: "mac_table_learn (Some t) (Some mac) port now = (r, t')" by fastforce
    have inv': "mac_inv u" if "t' = Some u" for u using mac_learn_inv [OF inv port] res that by simp
    show ?thesis using port res
    proof (cases rule: mac_table_learn_cases)
      case (refresh i)
      note si = slot_of_SomeD [OF refresh(1)]
      have one: "me_valid (mt_entries t ! i) = 1"
        using si flags by (auto simp: mac_flags_def list_all_length)
      then show ?thesis
        using si port refresh flags inv' res
        by (auto simp: mac mac_table_learn_contract_def mac_flags_def intro: list_all_update)
    next
      case (insert i)
      then show ?thesis using port inv' res flags
        by (auto simp: mac mac_table_learn_contract_def mac_flags_def intro: list_all_update)
    qed (use port res inv flags in \<open>auto simp: mac mac_table_learn_contract_def\<close>)
  qed
  then show "mac_table_learn_contract (Some t) mac_p port now (mac_table_learn (Some t) mac_p port now)"
    "\<forall>t' \<in> set_option (snd (mac_table_learn (Some t) mac_p port now)). mac_inv t' \<and> mac_flags t'" by blast+
qed

lemma mac_lookup_meets_contract:
  assumes inv: "mac_inv t" and flags: "mac_flags t"
  shows "mac_table_lookup_contract (Some t) mac_p (mac_table_lookup (Some t) mac_p)"
proof (cases mac_p)
  case (Some mac)
  show ?thesis
  proof (cases "slot_of mac_used me_mac mac (mt_entries t)")
    case None
    then have "mac_table_lookup (Some t) mac_p = NULL"
      by (simp add: Some mac_table_lookup_def mac_slot)
    then show ?thesis
      using None by (auto simp: Some mac_table_lookup_contract_def slot_of_None list_all_iff)
  next
    case slot: (Some i)
    note si = slot_of_SomeD [OF slot]
    then have e: "mt_entries t ! i \<in> set (mt_entries t)" by simp
    then have "me_port (mt_entries t ! i) \<noteq> NULL" "me_valid (mt_entries t ! i) = 1"
      using inv flags si by (auto simp: mac_inv_def mac_flags_def list_all_iff)
    then show ?thesis using e si
      by (auto simp: Some mac_table_lookup_contract_def mac_table_lookup_def mac_slot slot list_ex_iff)
  qed
qed (simp add: mac_table_lookup_contract_def mac_table_lookup_def)

lemma u64_diff_le: "int (unat (a :: u64)) - int (unat b) \<le> int (unat (a - b))"
proof (cases "b \<le> a")
  case True
  then show ?thesis by (simp add: unat_sub word_le_nat_alt)
next
  case False
  then have "\<not> unat b \<le> unat a" by (simp only: word_le_nat_alt not_False_eq_True)
  then show ?thesis by linarith
qed

lemma mac_expiry_meets_contract:
  "mac_table_age_contract (Some t) now (mac_table_age (Some t) now)"
  "mac_table_flush_port_contract (Some t) port (mac_table_flush_port (Some t) port)"
proof -
  have old: "int (unat now) - int (unat ts) \<le> 300000" if "\<not> now - ts > 300000" for ts :: u64
  proof -
    have "unat (now - ts) \<le> 300000" using that by (simp add: word_less_nat_alt)
    then show ?thesis using u64_diff_le [of now ts] by linarith
  qed
  show "mac_table_age_contract (Some t) now (mac_table_age (Some t) now)"
    using old by (auto simp: mac_table_age_contract_def mac_table_age_def mac_clear_loop_eq list_all_length)
  show "mac_table_flush_port_contract (Some t) port (mac_table_flush_port (Some t) port)"
    by (auto simp: mac_table_flush_port_contract_def mac_table_flush_port_def mac_clear_loop_eq list_all_length
        list_all2_conv_all_nth)
qed

lemma udp_meets_contract:
  "udp_init_contract (Some s) (udp_init (Some s))"
  "udp_bind_contract (Some s) port h (udp_bind (Some s) port h ctx)"
  "udp_unbind_contract (Some s) port (udp_unbind (Some s) port)"
proof -
  show "udp_init_contract (Some s) (udp_init (Some s))"
    by (simp add: udp_init_contract_def udp_init_def list_all_iff)
  have found: "\<exists>k \<in> set xs. P k" if "first_index P xs = Some i" for P and xs :: "UdpSocket list" and i
    using first_index_SomeD [OF that] by auto
  show "udp_bind_contract (Some s) port h (udp_bind (Some s) port h ctx)"
  proof (cases "first_index (\<lambda>k. us_valid k \<noteq> 0 \<and> us_port k = port) (ud_sockets s)")
    case (Some i)
    from found [OF this] show ?thesis
      by (auto simp: udp_bind_contract_def udp_bind_def list_all_iff Some)
  next
    case taken: None
    show ?thesis
    proof (cases "first_index (\<lambda>k. us_valid k = 0) (ud_sockets s)")
      case (Some i)
      from found [OF this] obtain k where k: "k \<in> set (ud_sockets s)" "us_valid k = 0" by auto
      then have "\<not> (\<forall>k \<in> set (ud_sockets s). us_valid k = 1)" by force
      moreover have "\<not> (\<exists>k \<in> set (ud_sockets s). us_valid k = 1 \<and> us_port k = port)"
        using taken by (auto simp: first_index_None)
      ultimately show ?thesis
        using Some taken by (simp add: udp_bind_contract_def udp_bind_def list_all_iff list_ex_iff)
    next
      case None
      then have "udp_bind (Some s) port h ctx = (- 1, Some s)" by (simp add: udp_bind_def taken)
      then show ?thesis
        using None by (auto simp: udp_bind_contract_def list_ex_iff first_index_None)
    qed
  qed
  show "udp_unbind_contract (Some s) port (udp_unbind (Some s) port)"
  proof (cases "first_index (\<lambda>k. us_valid k = 1 \<and> us_port k = port) (ud_sockets s)")
    case (Some i)
    from found [OF this] have "\<not> (\<forall>k \<in> set (ud_sockets s). us_valid k = 0 \<or> us_port k \<noteq> port)" by force
    then show ?thesis using Some by (simp add: udp_unbind_contract_def udp_unbind_def list_all_iff)
  next
    case None
    then have "udp_unbind (Some s) port = (- 1, Some s)" by (simp add: udp_unbind_def)
    then show ?thesis
      using None by (auto simp: udp_unbind_contract_def list_ex_iff first_index_None)
  qed
qed

lemma tcp_meets_contract:
  assumes inv: "tcp_inv t"
  shows "tcp_init_contract (Some t) (tcp_init (Some t))"
    "tcp_listen_contract (Some t) li lp (tcp_listen (Some t) li lp rf cf ctx)"
proof -
  show "tcp_init_contract (Some t) (tcp_init (Some t))"
    by (simp add: tcp_init_contract_def tcp_init_def list_all_iff)
  show "tcp_listen_contract (Some t) li lp (tcp_listen (Some t) li lp rf cf ctx)"
  proof (cases "lp = 0")
    case True
    then show ?thesis by (simp add: tcp_listen_contract_def tcp_listen_def)
  next
    case False
    have dup: "tcp_find_listener (Some t) li lp \<noteq> None"
      if "list_ex (\<lambda>b. tc_valid b = 1 \<and> tc_state b = TCP_LISTEN \<and> tc_local_ip b = li \<and> tc_local_port b = lp) (tt_tcbs t)"
      using that by (auto simp: tcp_find_listener_def first_index_None list_ex_iff)
    show ?thesis using inv False
    proof (cases rule: tcp_listen_cases [of t lp li rf cf ctx])
      case (listening i t')
      then show ?thesis using dup False tcp_inv_nth(3) [OF listening(2) listening(3)]
        by (auto simp: tcp_listen_contract_def)
    qed (use False in \<open>auto simp: tcp_listen_contract_def\<close>)
  qed
qed

lemma null_meets_contract:
  "mac_table_init_contract None (mac_table_init None)"
  "mac_table_learn_contract None mac_p port now (mac_table_learn None mac_p port now)"
  "snd (mac_table_learn None mac_p port now) = None"
  "mac_table_lookup_contract None mac_p (mac_table_lookup None mac_p)"
  "mac_table_age_contract None now (mac_table_age None now)"
  "mac_table_flush_port_contract None port (mac_table_flush_port None port)"
  "udp_init_contract None (udp_init None)" "udp_bind_contract None p h (udp_bind None p h ctx)"
  "udp_unbind_contract None p (udp_unbind None p)" "tcp_init_contract None (tcp_init None)"
  "tcp_listen_contract None li p (tcp_listen None li p rf cf ctx)"
  by (simp_all add: mac_table_init_contract_def mac_table_init_def mac_table_learn_contract_def
      mac_table_learn_def mac_table_lookup_contract_def mac_table_lookup_def mac_table_age_contract_def
      mac_table_age_def mac_table_flush_port_contract_def mac_table_flush_port_def udp_init_contract_def
      udp_init_def udp_bind_contract_def udp_bind_def udp_unbind_contract_def udp_unbind_def
      tcp_init_contract_def tcp_init_def tcp_listen_contract_def tcp_listen_def)



section \<open>The neighbour cache and its contracts\<close>

lemma arp_add_meets_contract:
  assumes inv: "arp_inv c" and ip: "ip \<noteq> 0"
  shows "arp_cache_add_contract (Some c) ip (arp_cache_add (Some c) ip mac ts) \<longleftrightarrow>
    arp_find c ip \<noteq> None \<or> \<not> arp_room c"
  using ip
proof (cases rule: arp_cache_add_cases [of ip c mac ts])
  case (insert i)
  then have "arp_room c" by (auto simp: arp_room_def)
  then show ?thesis using insert ip by (simp add: arp_cache_add_contract_def arp_find_def entry_of_def)
qed (use ip in \<open>simp_all add: arp_cache_add_contract_def arp_find_def entry_of_def\<close>)

lemma arp_lookup_meets_contract:
  assumes inv: "arp_inv c"
  shows "arp_cache_lookup_contract (Some c) ip (Some buf) (arp_cache_lookup (Some c) ip (Some buf)) \<longleftrightarrow>
    (\<forall>e. arp_find c ip = Some e \<longrightarrow> buf = ae_mac_addr e \<and>
       list_all (\<lambda>e'. ae_ip_addr e' = ip \<longrightarrow> ae_mac_addr e' = ae_mac_addr e) (ac_entries c))"
proof (cases "ip = 0")
  case True
  then show ?thesis using arp_find_0 [OF inv] by (simp add: arp_cache_lookup_contract_def arp_cache_lookup_def)
next
  case False
  then show ?thesis
    by (auto simp: arp_cache_lookup_contract_def arp_cache_lookup_find [OF inv] list_all_iff split: option.split)
qed

lemma arp_cleanup_meets_contract:
  "arp_cache_cleanup_contract (Some c) (arp_cache_cleanup (Some c) now) \<longleftrightarrow>
    list_all (\<lambda>e. ae_valid e = 1 \<longrightarrow> now - ae_timestamp e < 300000) (ac_entries c)"
  by (auto simp: arp_cache_cleanup_contract_def arp_cache_cleanup_def arp_cleanup_loop_eq list_all_iff
      filter_empty_conv not_le)

text \<open>
  A packet for an address whose old entry has expired further up in the table: the slot keeps
  the old address and MAC.
\<close>

definition arp_renewed :: ArpCache where
  "arp_renewed = (let c = arp_added 1 (replicate 6 1) 0 arp_cache_zero; c = arp_added 2 (replicate 6 2) 0 c
     in arp_added 2 (replicate 6 3) 300000 (arp_cleaned 300000 c))"

lemma arp_renewed_find:
  "arp_find arp_renewed 2 = Some \<lparr>ae_ip_addr = 2, ae_mac_addr = replicate 6 3, ae_timestamp = 300000, ae_valid = 1\<rparr>"
  by code_simp

lemma arp_renewed_stale:
  "ac_entries arp_renewed ! 1 = \<lparr>ae_ip_addr = 2, ae_mac_addr = replicate 6 2, ae_timestamp = 0, ae_valid = 0\<rparr>"
  by code_simp

lemma arp_renewed_inv: "arp_inv arp_renewed"
  unfolding arp_renewed_def Let_def
  by (intro arp_added_inv arp_cleaned_spec(1) arp_zero_inv(1)) simp_all

text \<open>
  C34 Three contracts of \<open>arp_cache.h\<close> are not those of the code. \<open>arp_cache_add\<close> is said to assign
  the entries only, but takes a slot and counts it: the contract holds exactly when the address is
  cached already or there is no room. \<open>arp_cache_cleanup\<close> likewise, exactly when nothing expires.
  \<open>arp_cache_lookup\<close> is said to assign nothing, but writes \<open>out_mac\<close> when it succeeds; and the result
  is said to agree with every slot that holds the address, but also slots that expired hold one. The
  contract holds exactly when the address is not cached, or the buffer held its MAC address already
  and no expired slot of the address has another.
\<close>

theorem arp_contract_gaps:
  assumes "arp_inv c" "ip \<noteq> 0"
  shows "(arp_cache_add_contract (Some c) ip (arp_cache_add (Some c) ip mac ts) \<longleftrightarrow>
      arp_find c ip \<noteq> None \<or> \<not> arp_room c) \<and>
    (arp_cache_cleanup_contract (Some c) (arp_cache_cleanup (Some c) now) \<longleftrightarrow>
      list_all (\<lambda>e. ae_valid e = 1 \<longrightarrow> now - ae_timestamp e < 300000) (ac_entries c)) \<and>
    (arp_cache_lookup_contract (Some c) ip (Some buf) (arp_cache_lookup (Some c) ip (Some buf)) \<longleftrightarrow>
      (\<forall>e. arp_find c ip = Some e \<longrightarrow> buf = ae_mac_addr e \<and>
         list_all (\<lambda>e'. ae_ip_addr e' = ip \<longrightarrow> ae_mac_addr e' = ae_mac_addr e) (ac_entries c)))"
  by (intro conjI arp_add_meets_contract arp_lookup_meets_contract arp_cleanup_meets_contract assms)

theorem arp_contract_gaps_witness:
  "\<not> arp_cache_lookup_contract (Some arp_renewed) 2 (Some (replicate 6 3))
     (arp_cache_lookup (Some arp_renewed) 2 (Some (replicate 6 3)))"
proof -
  have "ac_entries arp_renewed ! 1 \<in> set (ac_entries arp_renewed)"
    using arp_renewed_inv by (simp add: arp_inv_def)
  then have stale: "\<not> list_all (\<lambda>e'. ae_ip_addr e' = 2 \<longrightarrow> ae_mac_addr e' = replicate 6 3) (ac_entries arp_renewed)"
    unfolding arp_renewed_stale list_all_iff
    by (intro notI) (drule (1) bspec, simp add: numeral_eq_Suc)
  have "(2 :: u32) \<noteq> 0" by simp
  note gaps = arp_contract_gaps [OF arp_renewed_inv this, THEN conjunct2, THEN conjunct2, of "replicate 6 3"]
  show ?thesis unfolding gaps arp_renewed_find using stale by simp
qed

end
