(* ===== verification/Runs.thy ===== *)
theory Runs
  imports Scenario
begin

text \<open>
  Whole runs of the simulator: when \<open>simulator_run\<close> returns and in which state, and a network in
  which it never does.
\<close>

section \<open>The loop\<close>

abbreviation run_sched :: "ptr \<Rightarrow> world \<Rightarrow> Scheduler" where
  "run_sched sim w \<equiv> w_sched w (sm_sched (w_sim w sim))"

text \<open>What every iteration keeps holds when the loop returns, and then the flag is not 1.\<close>

lemma sim_loop_inv:
  assumes ret: "sim_loop A sim w = Some w'" and start: "I w"
    and keep: "\<And>v. I v \<Longrightarrow> sc_running (run_sched sim v) = 1 \<Longrightarrow> I (sim_iter A sim v)"
  shows "I w' \<and> sc_running (run_sched sim w') \<noteq> 1"
proof -
  let ?P = "\<lambda>B s v v'. B = A \<and> s = sim \<and> I v \<longrightarrow> I v' \<and> sc_running (run_sched sim v') \<noteq> 1"
  have "?P A sim w w'"
  proof (rule sim_loop.raw_induct [where P = ?P, OF _ ret])
    fix loop B s v v'
    assume IH: "\<And>B s v v'. loop B s v = Some v' \<Longrightarrow> ?P B s v v'"
      and iter: "(if sc_running (w_sched v (sm_sched (w_sim v s))) = 1
        then loop B s (sim_iter B s v) else Some v) = Some (v' :: world)"
    show "?P B s v v'"
    proof
      assume eq: "B = A \<and> s = sim \<and> I v"
      show "I v' \<and> sc_running (run_sched sim v') \<noteq> 1"
      proof (cases "sc_running (run_sched sim v) = 1")
        case True
        then have "loop A sim (sim_iter A sim v) = Some v'" using iter eq by simp
        then show ?thesis using IH [of A sim "sim_iter A sim v" v'] keep [of v] True eq by blast
      next
        case False
        then show ?thesis using iter eq by simp
      qed
    qed
  qed
  then show ?thesis using start by blast
qed

text \<open>It never returns from a set of states in which it goes on.\<close>

lemma sim_loop_diverges:
  assumes "I w" and go: "\<And>v. I v \<Longrightarrow> sc_running (run_sched sim v) = 1 \<and> I (sim_iter A sim v)"
  shows "sim_loop A sim w = None"
proof (cases "sim_loop A sim w")
  case (Some w')
  have "I w' \<and> sc_running (run_sched sim w') \<noteq> 1"
    using go by (intro sim_loop_inv [where I = I, OF Some assms(1)]) blast
  then show ?thesis using go by blast
qed

text \<open>It returns when every iteration stops or makes a well-founded measure smaller.\<close>

lemma sim_loop_returns:
  assumes wf: "wf r" and "I w"
    and iter: "\<And>v. I v \<Longrightarrow> sc_running (run_sched sim v) = 1 \<Longrightarrow> I (sim_iter A sim v) \<and>
       (sc_running (run_sched sim (sim_iter A sim v)) \<noteq> 1 \<or> (m (sim_iter A sim v), m v) \<in> r)"
  shows "\<exists>w'. sim_loop A sim w = Some w' \<and> I w' \<and> sc_running (run_sched sim w') \<noteq> 1"
  using wf_inv_image [OF wf, of m] \<open>I w\<close>
proof (induction w rule: wf_induct_rule)
  case (less v)
  show ?case
  proof (cases "sc_running (run_sched sim v) = 1")
    case True
    let ?v = "sim_iter A sim v"
    have step: "sim_loop A sim v = sim_loop A sim ?v" by (subst sim_loop.simps) (simp add: True)
    show ?thesis
    proof (cases "sc_running (run_sched sim ?v) = 1")
      case on: True
      then have "(?v, v) \<in> inv_image r m" using iter [OF less.prems True] by (simp add: inv_image_def)
      then show ?thesis using less.IH iter [OF less.prems True] step by simp
    next
      case False
      then have "sim_loop A sim ?v = Some ?v" by (subst sim_loop.simps) simp
      then show ?thesis using step iter [OF less.prems True] False by auto
    qed
  next
    case False
    then show ?thesis using less.prems by (subst sim_loop.simps) auto
  qed
qed

section \<open>The running flag and the allocator\<close>

text \<open>No handler of the program stops the simulator, and memory is only ever added.\<close>

definition steady :: "world \<Rightarrow> world \<Rightarrow> bool" where
  "steady w w' \<longleftrightarrow> (\<forall>s. sc_now (w_sched w' s) = sc_now (w_sched w s) \<and> sc_running (w_sched w' s) = sc_running (w_sched w s)) \<and>
     w_sim w' = w_sim w \<and> w_tcpctx w' = w_tcpctx w \<and> w_link w' = w_link w \<and> w_brk w \<le> w_brk w' \<and>
     w_oom w' = w_oom w \<and> (\<forall>p. sw_sim (w_switch w' p) = sw_sim (w_switch w p))"

lemma schedule_running [simp]: "sc_running (w_sched (snd (scheduler_schedule s e w)) t) = sc_running (w_sched w t)"
  by (simp add: scheduler_schedule_def Let_def split_def realloc_def split: option.split)

lemma malloc_brk: "w_brk w \<le> w_brk (snd (malloc w))"
  by (cases w rule: malloc_cases) simp_all

interpretation steady: world_relation steady
proof unfold_locales
  show "steady w (snd (malloc w))" for w by (simp add: steady_def malloc_brk)
qed (auto simp: steady_def)

lemma scheduler_step_steady:
  assumes A: "app_within steady A"
  shows "sc_running (w_sched (snd (scheduler_step A s w)) s) = sc_running (w_sched w s)"
    "w_brk w \<le> w_brk (snd (scheduler_step A s w))" "w_sim (snd (scheduler_step A s w)) = w_sim w"
    "w_oom (snd (scheduler_step A s w)) = w_oom w"
    "sw_sim (w_switch (snd (scheduler_step A s w)) p) = sw_sim (w_switch w p)"
proof -
  define Q :: "world \<Rightarrow> bool" where "Q x \<longleftrightarrow> sc_running (w_sched x s) = sc_running (w_sched w s) \<and> w_brk w \<le> w_brk x \<and>
    w_sim x = w_sim w \<and> w_oom x = w_oom w \<and> sw_sim (w_switch x p) = sw_sim (w_switch w p)" for x
  obtain r q where pop: "event_queue_pop (sc_eq (w_sched w s)) = (r, q)" by fastforce
  have call: "Q (call_event A h e c x)" if "Q x" for x h e c
  proof -
    have "steady x (call_event A h e c x)" by (rule steady.step_call_event [OF A steady.R_refl])
    then show ?thesis using that by (auto simp: Q_def steady_def)
  qed
  have upd: "Q (upd_sched s (\<lambda>k. k\<lparr>sc_eq := q\<rparr>) x)" "Q (upd_sched s (\<lambda>k. k\<lparr>sc_now := t\<rparr>) x)" if "Q x" for x q t
    using that by (simp_all add: Q_def)
  have free: "Q (event_free e x)" if "Q x" for x e using that by (simp add: Q_def)
  have "Q w" by (simp add: Q_def)
  then have "Q (snd (scheduler_step A s w))"
    unfolding scheduler_step_def pop by (cases r) (auto simp: Let_def split_def intro!: call upd free)
  then show "sc_running (w_sched (snd (scheduler_step A s w)) s) = sc_running (w_sched w s)"
    "w_brk w \<le> w_brk (snd (scheduler_step A s w))" "w_sim (snd (scheduler_step A s w)) = w_sim w"
    "w_oom (snd (scheduler_step A s w)) = w_oom w"
    "sw_sim (w_switch (snd (scheduler_step A s w)) p) = sw_sim (w_switch w p)"
    by (simp_all add: Q_def)
qed

section \<open>Runs with an end time\<close>

text \<open>How far the pending events are from the end.\<close>

definition pending :: "u64 \<Rightarrow> Event multiset \<Rightarrow> nat multiset" where
  "pending T es = image_mset (\<lambda>e. unat (T - ev_timestamp e)) (filter_mset (\<lambda>e. ev_timestamp e < T) es)"

lemma pending_union [simp]: "pending T (es + new) = pending T es + pending T new"
  by (simp add: pending_def)

text \<open>An event before the end is replaced by later ones.\<close>

lemma pending_decreases:
  assumes e: "ev_timestamp e < T" and new: "\<And>x. x \<in># new \<Longrightarrow> ev_timestamp e < ev_timestamp x"
  shows "(pending T (es + new), pending T (add_mset e es)) \<in> mult less_than"
proof -
  have "unat (T - ev_timestamp x) < unat (T - ev_timestamp e)"
    if "x \<in># new" "ev_timestamp x < T" for x
  proof -
    have "ev_timestamp e < ev_timestamp x" by (rule new [OF that(1)])
    then have "unat (T - ev_timestamp x) + unat (ev_timestamp x) = unat T"
      "unat (T - ev_timestamp e) + unat (ev_timestamp e) = unat T" "unat (ev_timestamp e) < unat (ev_timestamp x)"
      using that(2) e by (simp_all add: unat_sub word_less_nat_alt word_le_nat_alt)
    then show ?thesis by linarith
  qed
  then have "(pending T es + pending T new, pending T es + {#unat (T - ev_timestamp e)#}) \<in> mult less_than"
    by (intro one_step_implies_mult) (auto simp: pending_def)
  then show ?thesis using e by (simp add: pending_def)
qed

lemma ahead_later:
  assumes "ahead w now t" "\<not> zero_delay w" "now < TIME_LIMIT"
  shows "now < t"
  using assms future_not_before [of t now] by (auto simp: ahead_def)

lemma sim_iter_stop_simps [simp]:
  "w_sim (upd_sched s f w) = w_sim w" "zero_delay (upd_sched s f w) = zero_delay w"
  by (simp_all add: zero_delay_def)

definition on_course :: "ptr \<Rightarrow> world \<Rightarrow> world \<Rightarrow> bool" where
  "on_course sim w v \<longleftrightarrow> w_sim v = w_sim w \<and> \<not> zero_delay v \<and>
     sc_now (run_sched sim w) \<le> sc_now (run_sched sim v) \<and>
     (sc_running (run_sched sim v) = 1 \<longrightarrow> causal (run_sched sim v))"

lemma sim_iter_course:
  assumes A: "app_within only_future A" and T: "0 < T" "T \<le> TIME_LIMIT" "sm_end_time (w_sim w sim) = T"
    and v: "on_course sim w v" "sc_running (run_sched sim v) = 1"
  shows "on_course sim w (sim_iter A sim v) \<and>
    (sc_running (run_sched sim (sim_iter A sim v)) \<noteq> 1 \<or>
     (pending T (mset (eq_list (sc_eq (run_sched sim (sim_iter A sim v))))),
      pending T (mset (eq_list (sc_eq (run_sched sim v))))) \<in> mult less_than)"
proof -
  let ?s = "sm_sched (w_sim w sim)"
  obtain r u where step: "scheduler_step A ?s v = (r, u)" by fastforce
  have sim: "w_sim v = w_sim w" and pos: "\<not> zero_delay v" using v(1) by (simp_all add: on_course_def)
  have causal: "causal (w_sched v ?s)" and now: "sc_now (w_sched w ?s) \<le> sc_now (w_sched v ?s)"
    using v unfolding on_course_def by (simp_all add: sim)
  have inv: "eq_inv (sc_eq (w_sched v ?s))" using causal by (simp add: causal_def)
  show ?thesis
    using A inv step
  proof (cases rule: scheduler_step_course)
    case idle
    then show ?thesis using step sim pos now T(3)
      by (simp add: sim_iter_def on_course_def Let_def)
  next
    case (event e es new)
    have posu: "\<not> zero_delay u" using pos event(8) by (simp add: zero_delay_def)
    have later: "sc_now (w_sched v ?s) \<le> ev_timestamp e" using causal event(1) by (simp add: causal_def)
    then have time: "max (sc_now (w_sched v ?s)) (ev_timestamp e) = ev_timestamp e" by simp
    note event = event [unfolded time]
    show ?thesis
    proof (cases "ev_timestamp e < T")
      case True
      then have "\<not> T \<le> ev_timestamp e" by simp
      then have iter: "sim_iter A sim v = u"
        using step event sim T(3) by (simp add: sim_iter_def)
      have lim: "ev_timestamp e < TIME_LIMIT" using True T(2) by simp
      have "causal (w_sched u ?s)"
        by (rule causal_step [OF causal event(1,3,4,5,6) lim])
      moreover have "(pending T (mset es + new), pending T (add_mset e (mset es))) \<in> mult less_than"
        using ahead_later [OF event(6) pos lim] by (intro pending_decreases [OF True]) blast
      ultimately show ?thesis
        using iter event sim posu now later by (simp add: on_course_def)
    next
      case False
      then have "sim_iter A sim v = upd_sched ?s (\<lambda>k. k\<lparr>sc_running := 0\<rparr>) u"
        using step event sim T(1,3) by (simp add: sim_iter_def not_less)
      then show ?thesis using event sim posu now later by (simp add: on_course_def)
    qed
  qed
qed

text \<open>
  C35 \<open>simulator_run\<close> with an end time returns 0, whatever the network and the traffic are: if the
  application's callbacks keep to scheduling ahead, every link has a delay, no event of the queue
  lies before the clock and the end time is at most \<open>2 ^ 64 - 2 ^ 32\<close>, the loop ends after finitely
  many events, the clock has not moved back and the running flag is no longer set.
\<close>

theorem simulator_run_returns:
  assumes A: "app_within only_future A" and delays: "\<And>l. ln_delay_ms (w_link w l) \<noteq> 0"
    and causal: "causal (run_sched sim w)"
    and T: "0 < sm_end_time (w_sim w sim)" "sm_end_time (w_sim w sim) \<le> TIME_LIMIT"
  shows "\<exists>w'. simulator_run A sim w = Some (0, w') \<and> w_sim w' = w_sim w \<and>
    sc_now (run_sched sim w) \<le> sc_now (run_sched sim w') \<and> sc_running (run_sched sim w') \<noteq> 1"
proof -
  let ?T = "sm_end_time (w_sim w sim)"
  let ?w = "upd_sched (sm_sched (w_sim w sim)) (\<lambda>k. k\<lparr>sc_running := 1\<rparr>) w"
  have start: "on_course sim ?w ?w"
    using delays causal by (simp add: on_course_def zero_delay_def causal_def)
  have T': "sm_end_time (w_sim ?w sim) = ?T" by simp
  have "\<exists>w'. sim_loop A sim ?w = Some w' \<and> on_course sim ?w w' \<and> sc_running (run_sched sim w') \<noteq> 1"
    by (rule sim_loop_returns [where m = "\<lambda>v. pending ?T (mset (eq_list (sc_eq (run_sched sim v))))",
        OF wf_mult [OF wf_less_than] start sim_iter_course [OF A T T']])
  then obtain w' where "sim_loop A sim ?w = Some w'" "on_course sim ?w w'" "sc_running (run_sched sim w') \<noteq> 1"
    by blast
  moreover from this have "w_sim w' = w_sim w" by (simp add: on_course_def)
  ultimately show ?thesis by (simp add: simulator_run_def on_course_def)
qed

text \<open>The two hosts of the example with a frame on its way and 20 microseconds to go.\<close>

definition lan_event :: Event where
  "lan_event = \<lparr>ev_self = 22, ev_type = EVT_PACKET_RECEIVE, ev_timestamp = 5, ev_src_device = 10, ev_dst_device = 11,
     ev_packet = 20, ev_data = None, ev_handler = CB_ethernet_receive_event, ev_handler_ctx = 0\<rparr>"

theorem simulator_run_returns_witness:
  "let w = simulator_set_end_time 1 20 (lan (packet_fresh 21 (\<lambda>_. 0) 40 1) (snd (event_queue_push True (event_queue_new 4) lan_event)))
   in \<exists>w'. simulator_run quiet_app 1 w = Some (0, w') \<and> sc_running (w_sched w' 3) \<noteq> 1"
proof -
  define q where "q = snd (event_queue_push True (event_queue_new 4) lan_event)"
  let ?w = "simulator_set_end_time 1 20 (lan (packet_fresh 21 (\<lambda>_. 0) 40 1) q)"
  have q: "eq_inv q" "eq_list q = [lan_event]"
    using event_queue_push_list [OF lan_queue(1), of True lan_event 0 q] lan_queue(2)
    by (simp_all add: q_def event_queue_push_def event_queue_new_def)
  have sim: "w_sim ?w 1 = \<lparr>sm_topo = 2, sm_sched = 3, sm_end_time = 20\<rparr>"
    by (simp add: simulator_set_end_time_def)
  have "\<exists>w'. simulator_run quiet_app 1 ?w = Some (0, w') \<and> w_sim w' = w_sim ?w \<and>
    sc_now (run_sched 1 ?w) \<le> sc_now (run_sched 1 w') \<and> sc_running (run_sched 1 w') \<noteq> 1"
  proof (rule simulator_run_returns)
    show "app_within only_future quiet_app" by (rule quiet_within [OF future.R_refl])
    show "ln_delay_ms (w_link ?w l) \<noteq> 0" for l by (simp add: simulator_set_end_time_def)
    show "causal (run_sched 1 ?w)" using q by (simp add: causal_def sim simulator_set_end_time_def)
  qed (simp_all add: simulator_set_end_time_def)
  then show ?thesis unfolding Let_def q_def [symmetric] by (auto simp: simulator_set_end_time_def)
qed

section \<open>A switch without an end time\<close>

text \<open>An ageing event of switch \<open>sw\<close> is waiting.\<close>

definition ageing :: "ptr \<Rightarrow> EventQueue \<Rightarrow> bool" where
  "ageing sw q \<longleftrightarrow> (\<exists>e \<in> set (eq_list q). ev_handler e = CB_mac_age_handler \<and> ev_handler_ctx e = sw)"

text \<open>Its handler puts the next one into the queue.\<close>

lemma event_queue_grown: "event_queue_push True q e = (r, q') \<Longrightarrow> r = 0"
  using event_queue_push_fst [of True q e] by simp

lemma eq_count_list: "eq_inv q \<Longrightarrow> eq_count q = length (eq_list q)"
  by (simp add: eq_inv_def eq_list_def)

lemma schedule_ageing:
  assumes ev: "event_create_callback ty t src dst p d CB_mac_age_handler sw w = (age, w1)" "age \<noteq> None"
    and sch: "scheduler_schedule s age w1 = (0, w2)" and inv: "eq_inv (sc_eq (w_sched w s))"
  shows "ageing sw (sc_eq (w_sched w2 s)) \<and> eq_inv (sc_eq (w_sched w2 s)) \<and>
    eq_count (sc_eq (w_sched w2 s)) = Suc (eq_count (sc_eq (w_sched w s))) \<and> w_sim w2 = w_sim w \<and>
    w_switch w2 = w_switch w \<and> w_oom w2 = w_oom w \<and> w_brk w \<le> w_brk w2"
proof -
  obtain nx where nx: "age = Some nx" "ev_handler nx = CB_mac_age_handler" "ev_handler_ctx nx = sw" "w1 = snd (malloc w)"
    using ev by (auto simp: event_create_callback_def Let_def split_def split: if_splits)
  obtain g m where g: "(if eq_count (sc_eq (w_sched w s)) \<ge> eq_capacity (sc_eq (w_sched w s)) then realloc w1 else (True, w1)) = (g, m)"
    by fastforce
  have m: "w_sched m = w_sched w" "w_sim m = w_sim w" "w_switch m = w_switch w" "w_oom m = w_oom w" "w_brk w \<le> w_brk m"
    using g nx(4) malloc_brk [of w] by (auto simp: realloc_def Let_def split: if_splits)
  obtain r q where push: "event_queue_push g (sc_eq (w_sched w s)) nx = (r, q)" by fastforce
  have r: "r = 0" "w2 = upd_sched s (\<lambda>k. k\<lparr>sc_eq := q\<rparr>) m"
    using sch nx(1,4) g push m(1) by (auto simp: scheduler_schedule_def Let_def split: if_splits)
  have l: "eq_inv q" "eq_list q = insert_event nx (eq_list (sc_eq (w_sched w s)))"
    using event_queue_push_list [OF inv push] r(1) by simp_all
  have "eq_count q = Suc (eq_count (sc_eq (w_sched w s)))"
    using eq_count_list [OF inv] eq_count_list [OF l(1)] l(2)
      arg_cong [where f = size, OF mset_insert_event [of nx "eq_list (sc_eq (w_sched w s))"]] by simp
  then have "ageing sw q \<and> eq_inv q \<and> eq_count q = Suc (eq_count (sc_eq (w_sched w s)))"
    using l nx by (auto simp: set_insert_event ageing_def)
  then show ?thesis using r(2) m by simp
qed

lemma mac_age_again:
  assumes sw: "sw \<noteq> NULL" "sw_sim (w_switch w sw) = sim" "sim \<noteq> NULL" "sm_sched (w_sim w sim) = s" "s \<noteq> NULL"
    and mem: "\<And>n. \<not> w_oom w n" "0 < w_brk w" and inv: "eq_inv (sc_eq (w_sched w s))"
  shows "ageing sw (sc_eq (w_sched (mac_age_handler e sw w) s))"
    "eq_count (sc_eq (w_sched (mac_age_handler e sw w) s)) = Suc (eq_count (sc_eq (w_sched w s)))"
proof -
  define w1 where "w1 = set_mac_tbl sw (mac_table_age (Some (sw_mac_tbl (w_switch w sw))) (sc_now (w_sched w s))) w"
  have w1: "w_sched w1 = w_sched w" "w_brk w1 = w_brk w" "w_oom w1 = w_oom w" "w_mallocs w1 = w_mallocs w"
    by (simp_all add: w1_def set_mac_tbl_def split: option.split)
  obtain nx w2 where ev: "event_create_callback EVT_MAC_AGE (sc_now (w_sched w1 s) + SW_AGE_INTERVAL)
      NULL NULL NULL None CB_mac_age_handler sw w1 = (Some nx, w2)" "w_oom w2 = w_oom w"
    using w1 mem by (simp add: event_create_callback_def malloc_def Let_def)
  obtain r w3 where sch: "scheduler_schedule s (Some nx) w2 = (r, w3)" by fastforce
  have "r = 0"
    using sch ev(2) mem(1) sw(5) by (auto simp: scheduler_schedule_def realloc_def Let_def split: if_splits prod.splits dest: event_queue_grown)
  then have "mac_age_handler e sw w = w3"
    using ev(1) sch sw by (simp add: mac_age_handler_def Let_def w1_def [symmetric])
  then show "ageing sw (sc_eq (w_sched (mac_age_handler e sw w) s))"
    "eq_count (sc_eq (w_sched (mac_age_handler e sw w) s)) = Suc (eq_count (sc_eq (w_sched w s)))"
    using schedule_ageing [OF ev(1) _ _ , of s w3] sch \<open>r = 0\<close> inv w1(1) by simp_all
qed

lemma ageing_survives:
  assumes A: "app_within only_future A" and inv: "eq_inv (sc_eq (w_sched w s))" and age: "ageing sw (sc_eq (w_sched w s))"
    and sw: "sw \<noteq> NULL" "sw_sim (w_switch w sw) = sim" "sim \<noteq> NULL" "sm_sched (w_sim w sim) = s" "s \<noteq> NULL"
    and mem: "\<And>n. \<not> w_oom w n" "0 < w_brk w"
  obtains u where "scheduler_step A s w = (1, u)" "eq_inv (sc_eq (w_sched u s))" "ageing sw (sc_eq (w_sched u s))"
    "w_sim u = w_sim w"
proof -
  obtain r u where step: "scheduler_step A s w = (r, u)" by fastforce
  show ?thesis
    using A inv step
  proof (cases rule: scheduler_step_course)
    case idle
    then show ?thesis using age by (simp add: ageing_def)
  next
    case (event e es new)
    have "ageing sw (sc_eq (w_sched u s))"
    proof (cases "ev_handler e = CB_mac_age_handler \<and> ev_handler_ctx e = sw")
      case True
      obtain q where q: "eq_inv q" "scheduler_step A s w = (1, event_free (Some e) (call_event A (ev_handler e) e (ev_handler_ctx e)
          (upd_sched s (\<lambda>k. k\<lparr>sc_eq := q, sc_now := max (sc_now k) (ev_timestamp e)\<rparr>) w)))"
        by (rule scheduler_step_first [OF inv event(1), of A]) (use True in auto)
      define w1 where "w1 = upd_sched s (\<lambda>k. k\<lparr>sc_eq := q, sc_now := max (sc_now k) (ev_timestamp e)\<rparr>) w"
      have "u = event_free (Some e) (mac_age_handler e sw w1)"
        using q(2) step True by (simp add: call_event_def w1_def)
      moreover have "ageing sw (sc_eq (w_sched (mac_age_handler e sw w1) s))"
        using sw mem q(1) by (intro mac_age_again) (simp_all add: w1_def)
      ultimately show ?thesis by simp
    next
      case False
      then obtain x where x: "x \<in> set es" "ev_handler x = CB_mac_age_handler" "ev_handler_ctx x = sw"
        using age event(1) by (auto simp: ageing_def)
      have "x \<in># mset es + new" using x(1) by simp
      then have "x \<in> set (eq_list (sc_eq (w_sched u s)))" by (simp flip: event(5))
      then show ?thesis using x by (auto simp: ageing_def)
    qed
    then show ?thesis using that event step by blast
  qed
qed

text \<open>The event is there as soon as the switch is.\<close>

lemma device_create_frame:
  assumes "device_create name n w = (d, w')"
  shows "w_sched w' = w_sched w" "w_sim w' = w_sim w" "w_oom w' = w_oom w" "w_brk w \<le> w_brk w'"
  using assms malloc_brk [of w] order_trans [OF malloc_brk [of w] malloc_brk [of "snd (malloc w)"]]
  by (auto simp: device_create_def Let_def split_def split: if_splits option.splits)

lemma switch_create_ageing:
  assumes create: "switch_create name sim w = (sw, w')" and sw: "sw \<noteq> NULL" and inv: "eq_inv (sc_eq (run_sched sim w))"
  shows "ageing sw (sc_eq (run_sched sim w')) \<and> eq_inv (sc_eq (run_sched sim w')) \<and> sw_sim (w_switch w' sw) = sim \<and>
    w_sim w' = w_sim w \<and> w_oom w' = w_oom w \<and> w_brk w \<le> w_brk w'"
proof -
  have some: "name \<noteq> None" "sim \<noteq> NULL" 
    using create sw unfolding switch_create_def by (metis fst_conv)+
  obtain a m1 where m': "malloc w = (a, m1)" by fastforce
  obtain dev m2 where d: "device_create name (int SW_MAX_PORTS) m1 = (dev, m2)" by fastforce
  have m: "malloc w = (sw, m1)"
    using create sw some m' d by (auto simp: switch_create_def Let_def split: if_splits prod.splits)
  have m1: "w_sched m1 = w_sched w" "w_sim m1 = w_sim w" "w_oom m1 = w_oom w" "w_brk w \<le> w_brk m1"
    using m malloc_simps [of w] malloc_brk [of w] by simp_all
  define v where "v = set_mac_tbl sw (mac_table_init (Some mac_table_zero))
    (upd_switch sw (\<lambda>_. \<lparr>sw_mac_tbl = mac_table_zero, sw_port_count = 0, sw_sim = sim\<rparr>)
       (free_block dev (upd_dev sw (\<lambda>_. w_dev m2 dev) m2)))"
  have v: "w_sched v = w_sched w" "w_sim v = w_sim w" "w_oom v = w_oom w" "w_brk w \<le> w_brk v" "sw_sim (w_switch v sw) = sim"
    using device_create_frame [OF d] m1 by (auto simp: v_def set_mac_tbl_def split: option.split)
  obtain age v1 where e: "event_create_callback EVT_MAC_AGE (sc_now (run_sched sim w) + SW_AGE_INTERVAL)
      NULL NULL NULL None CB_mac_age_handler sw v = (age, v1)" by fastforce
  have age: "age \<noteq> None" "scheduler_schedule (sm_sched (w_sim w sim)) age v1 = (0, w')"
    using create sw some m d e v
    by (auto simp: switch_create_def Let_def v_def [symmetric] split: if_splits prod.splits)
  show ?thesis using schedule_ageing [OF e age] inv v by auto
qed

text \<open>While there is memory, \<open>switch_create\<close> makes the switch.\<close>

lemma switch_create_succeeds:
  assumes mem: "\<And>n. \<not> w_oom w n" "0 < w_brk w" and sim: "sim \<noteq> NULL" "sm_sched (w_sim w sim) \<noteq> NULL"
    and create: "switch_create (Some name) sim w = (sw, w')"
  shows "sw \<noteq> NULL"
proof -
  obtain a m1 where m: "malloc w = (a, m1)" by fastforce
  then have m1: "a \<noteq> NULL" "w_sim m1 = w_sim w" "\<And>n. \<not> w_oom m1 n" "0 < w_brk m1"
    using mem malloc_simps [of w] by (auto simp: malloc_def Let_def)
  obtain dev m2 where d: "device_create (Some name) (int SW_MAX_PORTS) m1 = (dev, m2)" by fastforce
  have dev: "dev \<noteq> NULL" using d m1 by (auto simp: device_create_def malloc_def Let_def)
  define v where "v = set_mac_tbl a (mac_table_init (Some mac_table_zero))
    (upd_switch a (\<lambda>_. \<lparr>sw_mac_tbl = mac_table_zero, sw_port_count = 0, sw_sim = sim\<rparr>)
       (free_block dev (upd_dev a (\<lambda>_. w_dev m2 dev) m2)))"
  have v: "w_sim v = w_sim w" "\<And>n. \<not> w_oom v n" "0 < w_brk v"
    using device_create_frame [OF d] m1 by (auto simp: v_def set_mac_tbl_def split: option.split)
  obtain age v1 where e: "event_create_callback EVT_MAC_AGE (sc_now (w_sched v (sm_sched (w_sim w sim))) + SW_AGE_INTERVAL)
      NULL NULL NULL None CB_mac_age_handler a v = (age, v1)" by fastforce
  have age: "age \<noteq> None" "w_oom v1 = w_oom v"
    using e v by (auto simp: event_create_callback_def malloc_def Let_def)
  obtain r v2 where s: "scheduler_schedule (sm_sched (w_sim w sim)) age v1 = (r, v2)" by fastforce
  have "r = 0"
    using s age v(2) sim(2)
    by (auto simp: scheduler_schedule_def realloc_def Let_def split: if_splits prod.splits dest: event_queue_grown)
  then show ?thesis using create sim(1) m d m1(1) dev v(1) e age s
    by (auto simp: switch_create_def Let_def v_def [symmetric])
qed

text \<open>While the ageing event waits, the loop goes on.\<close>

lemma ageing_diverges:
  assumes A: "app_within only_future A" "app_within steady A"
    and sw: "sw \<noteq> NULL" "sw_sim (w_switch w sw) = sim" "sim \<noteq> NULL" "sm_sched (w_sim w sim) \<noteq> NULL"
    and mem: "\<And>n. \<not> w_oom w n" "0 < w_brk w"
    and queue: "eq_inv (sc_eq (run_sched sim w))" "ageing sw (sc_eq (run_sched sim w))"
    and no_end: "sm_end_time (w_sim w sim) = 0"
  shows "simulator_run A sim w = None"
proof -
  let ?s = "sm_sched (w_sim w sim)"
  let ?w = "upd_sched ?s (\<lambda>k. k\<lparr>sc_running := 1\<rparr>) w"
  define I :: "world \<Rightarrow> bool" where "I v \<longleftrightarrow> sc_running (w_sched v ?s) = 1 \<and> w_sim v = w_sim w \<and> sw_sim (w_switch v sw) = sim \<and>
    w_oom v = w_oom w \<and> 0 < w_brk v \<and> eq_inv (sc_eq (w_sched v ?s)) \<and> ageing sw (sc_eq (w_sched v ?s))" for v
  have "sim_loop A sim ?w = None"
  proof (rule sim_loop_diverges)
    show "I ?w" using sw mem queue by (simp add: I_def)
    fix v assume v: "I v"
    have v_mem: "\<not> w_oom v n" for n using v mem(1) by (simp add: I_def)
    obtain u where u: "scheduler_step A ?s v = (1, u)" "eq_inv (sc_eq (w_sched u ?s))"
      "ageing sw (sc_eq (w_sched u ?s))" "w_sim u = w_sim v"
      by (rule ageing_survives [OF A(1), of v ?s sw sim]) (use v sw v_mem in \<open>auto simp: I_def\<close>)
    have "sc_running (w_sched u ?s) = 1" "w_brk v \<le> w_brk u" "w_oom u = w_oom w" "sw_sim (w_switch u sw) = sim"
      using scheduler_step_steady [OF A(2), where s = ?s and w = v] u(1) v by (simp_all add: I_def)
    then have "I u" using u v by (auto simp: I_def)
    moreover have "sim_iter A sim v = u"
      using u v no_end by (simp add: sim_iter_def I_def)
    ultimately show "sc_running (run_sched sim v) = 1 \<and> I (sim_iter A sim v)"
      using v by (simp add: I_def)
  qed
  then show ?thesis by (simp add: simulator_run_def)
qed

text \<open>
  C36 Without an end time \<open>simulator_run\<close> does not return once a switch exists, unless memory runs out
  or the application stops it. If memory lasts, \<open>switch_create\<close> makes the switch and leaves its ageing
  event in the queue; whatever else is done before the run, as long as that event waits at its start the
  run goes on forever: the handler schedules the next one, and no other event of the program, whatever
  traffic there is, removes it or clears the running flag. The callbacks of the application may schedule
  events ahead, send, bind and connect, but must not call \<open>scheduler_stop\<close> or \<open>simulator_stop\<close>, take
  events from the queue, set the clock, or change a simulator, a link, a TCP context or the simulator
  of a switch (\<open>only_future\<close>, \<open>steady\<close>).
\<close>

theorem simulator_run_with_switch_diverges:
  assumes A: "app_within only_future A" "app_within steady A"
    and sim: "sim \<noteq> NULL" "sm_sched (w_sim w sim) \<noteq> NULL" "sm_end_time (w_sim w sim) = 0"
    and mem: "\<And>n. \<not> w_oom w n" "0 < w_brk w" and queue: "eq_inv (sc_eq (run_sched sim w))"
  shows "(\<forall>name sw w'. switch_create (Some name) sim w = (sw, w') \<longrightarrow>
      sw \<noteq> NULL \<and> sw_sim (w_switch w' sw) = sim \<and> ageing sw (sc_eq (run_sched sim w')) \<and>
      simulator_run A sim w' = None) \<and>
    (\<forall>sw. sw \<noteq> NULL \<and> sw_sim (w_switch w sw) = sim \<and> ageing sw (sc_eq (run_sched sim w)) \<longrightarrow>
      simulator_run A sim w = None)"
proof (intro conjI allI impI)
  fix name sw w' assume create: "switch_create (Some name) sim w = (sw, w')"
  show sw: "sw \<noteq> NULL" by (rule switch_create_succeeds [OF mem sim(1,2) create])
  note made = switch_create_ageing [OF create sw queue]
  show "sw_sim (w_switch w' sw) = sim" "ageing sw (sc_eq (run_sched sim w'))" using made by blast+
  show "simulator_run A sim w' = None"
    using made sim mem sw by (intro ageing_diverges [OF A, of sw]) auto
next
  fix sw assume "sw \<noteq> NULL \<and> sw_sim (w_switch w sw) = sim \<and> ageing sw (sc_eq (run_sched sim w))"
  then show "simulator_run A sim w = None"
    using sim mem queue by (intro ageing_diverges [OF A, of sw]) auto
qed

text \<open>A switch created next to the two hosts of the example, and nothing else to do.\<close>

theorem simulator_run_with_switch_diverges_witness:
  "let (sw, w) = switch_create (Some ''s1'') 1 (lan (packet_fresh 21 (\<lambda>_. 0) 40 1) (event_queue_new 4))
   in sw \<noteq> NULL \<and> simulator_run quiet_app 1 w = None"
proof -
  let ?v = "lan (packet_fresh 21 (\<lambda>_. 0) 40 1) (event_queue_new 4)"
  obtain sw w where create: "switch_create (Some ''s1'') 1 ?v = (sw, w)" by fastforce
  have "eq_inv (sc_eq (run_sched 1 ?v))" using lan_queue by simp
  then have "sw \<noteq> NULL \<and> simulator_run quiet_app 1 w = None"
    using simulator_run_with_switch_diverges [OF quiet_within [OF future.R_refl] quiet_within [OF steady.R_refl],
        of 1 ?v] create by simp
  then show ?thesis using create by simp
qed

end
