(* ===== verification/Well_Formed.thy ===== *)
theory Well_Formed
  imports Runs
begin

text \<open>
  What is in order at all times of a simulation, whatever events the scheduler dispatches: the
  event queues, the neighbour caches with their waiting packets and the MAC tables keep their
  invariants, and every packet stays within its buffer. Both are instances of the frame locale,
  because the tables are written by their own operations only and packets where there is room.
\<close>

section \<open>Invariants of a simulation\<close>

lemma simulation_invariant:
  assumes call: "\<And>h e c v. P v \<Longrightarrow> P (call_event A h e c v)"
    and pop: "\<And>s v. P v \<Longrightarrow> P (upd_sched s (\<lambda>k. k\<lparr>sc_eq := snd (event_queue_pop (sc_eq (w_sched v s)))\<rparr>) v)"
    and upd: "\<And>s n v. P v \<Longrightarrow> P (upd_sched s (\<lambda>k. k\<lparr>sc_now := n\<rparr>) v)"
      "\<And>s n v. P v \<Longrightarrow> P (upd_sched s (\<lambda>k. k\<lparr>sc_running := n\<rparr>) v)"
    and free: "\<And>e v. P v \<Longrightarrow> P (event_free e v)" and start: "P w"
  shows "P (snd (simulator_step A sim w)) \<and>
    (case simulator_run A sim w of None \<Rightarrow> True | Some (r, w') \<Rightarrow> P w')"
proof -
  have step: "P (snd (scheduler_step A s v))" if "P v" for s v
    unfolding scheduler_step_def
    by (cases "event_queue_pop (sc_eq (w_sched v s))"; cases "fst (event_queue_pop (sc_eq (w_sched v s)))")
       (use pop [OF that, of s] in \<open>auto simp: Let_def split_def intro!: call upd free\<close>)
  have "P (sim_iter A sim v)" if "P v" for v
    using step [OF that] by (auto simp: sim_iter_def Let_def split_def intro: upd)
  then have "P w'" if "simulator_run A sim w = Some (r, w')" for r w'
    using that sim_loop_inv [where I = P] upd(2) [OF start] by (auto simp: simulator_run_def)
  then show ?thesis using step start by (auto simp: simulator_step_def split: option.split)
qed

section \<open>Tables and queues\<close>

definition objects_ok :: "world \<Rightarrow> bool" where
  "objects_ok w \<longleftrightarrow>
     (\<forall>p. arp_ok (w_arp w p)) \<and> (\<forall>p. mac_inv (sw_mac_tbl (w_switch w p))) \<and> (\<forall>s. eq_inv (sc_eq (w_sched w s)))"

definition same_clock :: "world \<Rightarrow> world \<Rightarrow> bool" where
  "same_clock w w' \<longleftrightarrow> (\<forall>s. sc_now (w_sched w' s) = sc_now (w_sched w s)) \<and> w_sim w' = w_sim w \<and>
     w_tcpctx w' = w_tcpctx w \<and> w_link w' = w_link w"

definition objects_kept :: "world \<Rightarrow> world \<Rightarrow> bool" where
  "objects_kept w w' \<longleftrightarrow> same_clock w w' \<and>
     (\<forall>p. arp_ok (w_arp w p) \<longrightarrow> arp_ok (w_arp w' p)) \<and>
     (\<forall>p. mac_inv (sw_mac_tbl (w_switch w p)) \<longrightarrow> mac_inv (sw_mac_tbl (w_switch w' p))) \<and>
     (\<forall>s. eq_inv (sc_eq (w_sched w s)) \<longrightarrow> eq_inv (sc_eq (w_sched w' s)))"

lemma objects_kept_ok: "objects_kept w w' \<Longrightarrow> objects_ok w \<Longrightarrow> objects_ok w'"
  by (simp add: objects_kept_def objects_ok_def)

lemma push_eq_inv: "eq_inv q \<Longrightarrow> eq_inv (snd (event_queue_push grow q e))"
  using event_queue_push_list [of q grow e] event_queue_push_fail [of grow q e]
  by (cases "event_queue_push grow q e") (metis snd_conv)

lemma pop_eq_inv: "eq_inv q \<Longrightarrow> eq_inv (snd (event_queue_pop q))"
  using event_queue_pop_list [of q] by (cases "event_queue_pop q") (auto split: list.splits)

lemma schedule_eq_inv:
  "eq_inv (sc_eq (w_sched w t)) \<Longrightarrow> eq_inv (sc_eq (w_sched (snd (scheduler_schedule s e w)) t))"
  by (auto simp: scheduler_schedule_def Let_def split_def realloc_def push_eq_inv split: option.split)

interpretation objects: world_relation objects_kept
proof unfold_locales
  fix c p and w :: world
  assume "\<And>b. c = Some b \<Longrightarrow> arp_ok (w_arp w p) \<Longrightarrow> arp_ok b"
  then show "objects_kept w (set_arp p c w)"
    by (auto simp: objects_kept_def same_clock_def store_def split: option.split)
qed (auto simp: objects_kept_def same_clock_def schedule_eq_inv)

lemma objects_bounds:
  assumes "objects_ok w"
  shows "0 \<le> mt_count (sw_mac_tbl (w_switch w p)) \<and> mt_count (sw_mac_tbl (w_switch w p)) \<le> 1024 \<and>
    0 \<le> ac_count (w_arp w p) \<and> ac_count (w_arp w p) \<le> 256 \<and>
    0 \<le> ac_pending_count (w_arp w p) \<and> ac_pending_count (w_arp w p) \<le> 32"
  using assms in_use_le [of mac_used "mt_entries (sw_mac_tbl (w_switch w p))"]
    in_use_le [of arp_used "ac_entries (w_arp w p)"] in_use_le [of pend_used "ac_pending (w_arp w p)"]
  by (simp add: objects_ok_def arp_ok_def arp_core_def pend_inv_def mac_inv_def)

text \<open>
  C37 Event queues, neighbour caches and MAC tables that are well-formed before a simulation are
  well-formed after any single step and when \<open>simulator_run\<close> returns, whatever events were
  dispatched: queues sorted within their arrays, no address twice in a table, counters that count
  the slots in use (so never more than 1024, 256 and 32), waiting packets with an interface and a
  payload, and MAC entries with a port.
\<close>

theorem simulation_well_formed:
  assumes A: "app_within objects_kept A" and ok: "objects_ok w"
  shows "objects_ok (snd (simulator_step A sim w)) \<and>
    (case simulator_run A sim w of None \<Rightarrow> True | Some (r, w') \<Rightarrow> objects_ok w' \<and>
       0 \<le> mt_count (sw_mac_tbl (w_switch w' p)) \<and> mt_count (sw_mac_tbl (w_switch w' p)) \<le> 1024 \<and>
       0 \<le> ac_count (w_arp w' p) \<and> ac_count (w_arp w' p) \<le> 256 \<and>
       0 \<le> ac_pending_count (w_arp w' p) \<and> ac_pending_count (w_arp w' p) \<le> 32)"
proof -
  have call: "objects_ok (call_event A h e c v)" if "objects_ok v" for h e c v
    by (rule objects_kept_ok [OF objects.step_call_event [OF A objects.R_refl] that])
  have "objects_ok (snd (simulator_step A sim w)) \<and>
    (case simulator_run A sim w of None \<Rightarrow> True | Some (r, w') \<Rightarrow> objects_ok w')"
    by (rule simulation_invariant [where P = objects_ok, OF call]) (use ok in \<open>auto intro!: pop_eq_inv simp: objects_ok_def\<close>)
  then show ?thesis using objects_bounds by (auto split: option.splits)
qed

text \<open>The two hosts of the example with a frame on its way.\<close>

lemma lan_objects:
  assumes "eq_inv q"
  shows "objects_ok (lan pk q)"
proof -
  have "arp_ok arp_cache_zero" using arp_zero_inv by (simp add: arp_ok_def arp_inv_core)
  moreover from this have "arp_ok (arp_added ip m ts arp_cache_zero)" for ip m ts
    using arp_added_core by (simp add: arp_ok_def pend_inv_def)
  ultimately show ?thesis using assms mac_zero_inv(1) by (simp add: objects_ok_def lan_def)
qed

theorem simulation_well_formed_witness:
  "let w = lan (packet_fresh 21 (\<lambda>_. 0) 40 1) (snd (event_queue_push True (event_queue_new 4) lan_event))
   in objects_ok (snd (simulator_step quiet_app 1 w)) \<and>
     (case simulator_run quiet_app 1 w of None \<Rightarrow> True | Some (r, w') \<Rightarrow> objects_ok w')"
proof -
  have ok: "objects_ok (lan (packet_fresh 21 (\<lambda>_. 0) 40 1) (snd (event_queue_push True (event_queue_new 4) lan_event)))"
    by (intro lan_objects push_eq_inv lan_queue)
  show ?thesis
    using simulation_well_formed [OF quiet_within ok, OF objects.R_refl, where sim = 1]
    by (auto simp: Let_def split: option.splits)
qed

section \<open>Packets within their buffers\<close>

definition packets_ok :: "world \<Rightarrow> bool" where
  "packets_ok w \<longleftrightarrow> (\<forall>p. packet_ok (w_pkt w p))"

definition packets_kept :: "world \<Rightarrow> world \<Rightarrow> bool" where
  "packets_kept w w' \<longleftrightarrow> same_clock w w' \<and> (\<forall>p. packet_ok (w_pkt w p) \<longrightarrow> packet_ok (w_pkt w' p))"

interpretation packets: world_relation packets_kept
  by unfold_locales (auto simp: packets_kept_def same_clock_def)

lemma packets_kept_ok: "packets_kept w w' \<Longrightarrow> packets_ok w \<Longrightarrow> packets_ok w'"
  by (simp add: packets_kept_def packets_ok_def)

text \<open>
  C38 No packet ever leaves its buffer. If before a simulation the data of every packet lies within the
  \<open>PKT_HEADROOM + capacity\<close> bytes allocated for it, this is so after any single step and when
  \<open>simulator_run\<close> returns, and after every sending operation an application may call; no header,
  payload or checksum is written outside the buffer either (the buffer in the model would have
  grown). This covers the frames a switch copies and the packets received, forged ones included.
\<close>

theorem packets_within_buffers:
  assumes A: "app_within packets_kept A" and ok: "packets_ok w"
  shows "packets_ok (snd (simulator_step A sim w)) \<and>
    (case simulator_run A sim w of None \<Rightarrow> True | Some (r, w') \<Rightarrow> packets_ok w') \<and>
    packets_ok (snd (udp_send sim a b sp dp pl n w)) \<and>
    packets_ok (snd (icmp_send_echo_request sim a b i sq pl n w)) \<and>
    packets_ok (snd (tcp_send sim tcb d n w)) \<and> packets_ok (snd (tcp_close sim tcb w)) \<and>
    packets_ok (snd (tcp_connect sim t a b sp dp rf cf ctx w)) \<and>
    packets_ok (snd (ip_output sim a b pr payload w))"
proof -
  have call: "packets_ok (call_event A h e c v)" if "packets_ok v" for h e c v
    by (rule packets_kept_ok [OF packets.step_call_event [OF A packets.R_refl] that])
  have "packets_ok (snd (simulator_step A sim w)) \<and>
    (case simulator_run A sim w of None \<Rightarrow> True | Some (r, w') \<Rightarrow> packets_ok w')"
    by (rule simulation_invariant [where P = packets_ok, OF call]) (use ok in \<open>auto simp: packets_ok_def\<close>)
  moreover have "packets_ok v" if "packets_kept w v" for v by (rule packets_kept_ok [OF that ok])
  ultimately show ?thesis
    using packets.step_udp_send packets.step_echo_request packets.step_tcp_send packets.step_tcp_close
      packets.step_connect packets.step_ip_output packets.R_refl by simp
qed

text \<open>The same example, whose event frees the frame or hands it on.\<close>

theorem packets_within_buffers_witness:
  "let w = lan (packet_fresh 21 (\<lambda>_. 0) 40 1) (snd (event_queue_push True (event_queue_new 4) lan_event))
   in packets_ok (snd (simulator_step quiet_app 1 w)) \<and>
     packets_ok (snd (udp_send 1 0x0A000001 0x0A000002 1000 2000 (Some [1, 2, 3]) 3 w))"
proof -
  have ok: "packets_ok (lan (packet_fresh 21 (\<lambda>_. 0) 40 1) q)" for q
    by (simp add: packets_ok_def lan_def packet_ok_def packet_fresh_def)
  show ?thesis
    using packets_within_buffers [OF quiet_within ok, OF packets.R_refl, where sim = 1] by (simp add: Let_def)
qed

end
