(* ===== verification/Engine_Contracts.thy ===== *)
theory Engine_Contracts
  imports Runs Bystander
begin

text \<open>
  The contracts that \<open>packet.h\<close>, \<open>event.h\<close>, \<open>scheduler.h\<close> and \<open>simulator.h\<close> state, clause by
  clause. A valid pointer is one that is not null; \<open>assigns\<close> is equality of all that is not named
  (the bookkeeping of the allocator apart, which is no memory of the program); a pointer in an
  \<open>assigns\<close> clause names the pointer and not what it points to; \<open>allocates\<close> says that
  the result is a live block; a behaviour without an \<open>assigns\<close> clause leaves the state open.
  Most operations meet them; for the others it is shown when they do. Of \<open>scheduler_run\<close> and
  \<open>simulator_run\<close> the postcondition is stated and not the \<open>assigns\<close> clause, which handlers may break
  in any way; \<open>simulator_free\<close>, whose only clause says which blocks it frees, is left out, and
  \<open>packet_checksum\<close>, which assigns nothing, is a pure function.
\<close>

section \<open>Packets and events\<close>

definition same_but_memory :: "world \<Rightarrow> world \<Rightarrow> bool" where
  "same_but_memory w w' \<longleftrightarrow>
     w' = w\<lparr>w_brk := w_brk w', w_live := w_live w', w_bad_free := w_bad_free w', w_mallocs := w_mallocs w'\<rparr>"

definition packet_create_contract :: "nat \<Rightarrow> ptr \<times> world \<Rightarrow> bool" where
  "packet_create_contract capacity res \<longleftrightarrow>
     (case res of (result, w') \<Rightarrow> 0 < capacity \<and> result \<noteq> NULL \<longrightarrow> result \<in> w_live w' \<and>
        pk_len (w_pkt w' result) = 0 \<and> pk_capacity (w_pkt w' result) = capacity \<and>
        pk_layer (w_pkt w' result) = 0 \<and> pk_data (w_pkt w' result) = PKT_HEADROOM \<and>
        pk_data (w_pkt w' result) + capacity \<le> length (pk_buf (w_pkt w' result)))"

text \<open>\<open>assigns p->data, p->len\<close>: the bytes of the buffer are not named.\<close>

definition packet_prepend_contract :: "Packet \<Rightarrow> nat \<Rightarrow> int \<times> Packet \<Rightarrow> bool" where
  "packet_prepend_contract p header_len res \<longleftrightarrow>
     (case res of (result, p') \<Rightarrow> 0 < header_len \<longrightarrow>
        p' = p\<lparr>pk_data := pk_data p', pk_len := pk_len p'\<rparr> \<and>
        (if pk_data p \<ge> header_len
         then result = 0 \<and> pk_len p' = pk_len p + header_len \<and> pk_data p' + header_len = pk_data p
         else result = - 1 \<and> pk_len p' = pk_len p))"

definition packet_strip_contract :: "Packet \<Rightarrow> nat \<Rightarrow> int \<times> Packet \<Rightarrow> bool" where
  "packet_strip_contract p header_len res \<longleftrightarrow>
     (case res of (result, p') \<Rightarrow>
        p' = p\<lparr>pk_data := pk_data p', pk_len := pk_len p'\<rparr> \<and>
        (if header_len \<le> pk_len p
         then result = 0 \<and> pk_len p' + header_len = pk_len p \<and> pk_data p' = pk_data p + header_len
         else result = - 1 \<and> pk_len p' = pk_len p \<and> pk_data p' = pk_data p))"

definition packet_clone_contract :: "ptr \<Rightarrow> ptr \<times> world \<Rightarrow> bool" where
  "packet_clone_contract p res \<longleftrightarrow>
     (case res of (result, w') \<Rightarrow> result \<noteq> NULL \<longrightarrow> result \<in> w_live w' \<and>
        pk_len (w_pkt w' result) = pk_len (w_pkt w' p) \<and> pk_layer (w_pkt w' result) = pk_layer (w_pkt w' p) \<and>
        pk_id (w_pkt w' result) \<noteq> pk_id (w_pkt w' p))"

definition event_queue_create_contract :: "nat \<Rightarrow> (ptr \<times> ptr \<times> EventQueue) option \<times> world \<Rightarrow> bool" where
  "event_queue_create_contract capacity res \<longleftrightarrow>
     (case res of
        (None, w') \<Rightarrow> True
      | (Some (eq, _, q), w') \<Rightarrow> 0 < capacity \<longrightarrow> eq \<in> w_live w' \<and>
          eq_count q = 0 \<and> eq_capacity q = capacity \<and> capacity \<le> length (eq_events q))"

text \<open>
  What \<open>assigns eq->events, eq->count\<close> allows of a queue, given the queue afterwards: the pointer to
  the array and the count, but not the cells of the array, nor the capacity. The array is another
  one when it has another length; its cells are then new memory.
\<close>

definition array_frame :: "'a list \<Rightarrow> 'a list \<Rightarrow> 'a list" where
  "array_frame cells cells' = (if length cells' = length cells then cells else cells')"

definition queue_frame :: "EventQueue \<Rightarrow> EventQueue \<Rightarrow> EventQueue" where
  "queue_frame eq eq' = eq\<lparr>eq_events := array_frame (eq_events eq) (eq_events eq'), eq_count := eq_count eq'\<rparr>"

definition event_queue_push_contract :: "EventQueue \<Rightarrow> int \<times> EventQueue \<Rightarrow> bool" where
  "event_queue_push_contract eq res \<longleftrightarrow>
     (case res of (result, eq') \<Rightarrow>
        eq' = queue_frame eq eq' \<and>
        (result = 0 \<longrightarrow> eq_count eq' = eq_count eq + 1) \<and> (result = - 1 \<longrightarrow> eq_count eq' = eq_count eq))"

definition event_queue_pop_contract :: "EventQueue \<Rightarrow> Event option \<times> EventQueue \<Rightarrow> bool" where
  "event_queue_pop_contract eq res \<longleftrightarrow>
     (case res of (result, eq') \<Rightarrow>
        eq' = queue_frame eq eq' \<and>
        (result \<noteq> None \<longrightarrow> eq_count eq' + 1 = eq_count eq) \<and> (result = None \<longrightarrow> eq_count eq' = eq_count eq))"

text \<open>The result of \<open>event_queue_peek\<close> is null or may be read; its argument is only read.\<close>

definition event_queue_peek_contract :: "world \<Rightarrow> Event option \<Rightarrow> bool" where
  "event_queue_peek_contract w result \<longleftrightarrow> (case result of None \<Rightarrow> True | Some e \<Rightarrow> ev_self e \<in> w_live w)"

definition event_queue_is_empty_contract :: "EventQueue \<Rightarrow> int \<Rightarrow> bool" where
  "event_queue_is_empty_contract eq result \<longleftrightarrow> (result = 1 \<longleftrightarrow> eq_count eq = 0)"

definition event_create_contract :: "Event option \<times> world \<Rightarrow> bool" where
  "event_create_contract res \<longleftrightarrow>
     (case res of
        (None, w') \<Rightarrow> True
      | (Some e, w') \<Rightarrow> ev_self e \<noteq> NULL \<and> ev_self e \<in> w_live w' \<and> ev_handler e = CB_NULL \<and> ev_handler_ctx e = NULL)"

definition event_create_callback_contract :: "EventCallback \<Rightarrow> ptr \<Rightarrow> Event option \<times> world \<Rightarrow> bool" where
  "event_create_callback_contract handler handler_ctx res \<longleftrightarrow>
     (case res of
        (None, w') \<Rightarrow> True
      | (Some e, w') \<Rightarrow> ev_self e \<noteq> NULL \<and> ev_self e \<in> w_live w' \<and> ev_handler e = handler \<and> ev_handler_ctx e = handler_ctx)"

section \<open>The scheduler\<close>

definition scheduler_create_contract :: "nat \<Rightarrow> world \<Rightarrow> ptr \<times> world \<Rightarrow> bool" where
  "scheduler_create_contract capacity w res \<longleftrightarrow>
     (case res of (result, w') \<Rightarrow>
        if capacity = 0 then w' = w \<and> result = NULL
        else result \<noteq> NULL \<longrightarrow> result \<in> w_live w' \<and>
          sc_eq_p (w_sched w' result) \<noteq> NULL \<and> sc_now (w_sched w' result) = 0 \<and> sc_running (w_sched w' result) = 0)"

text \<open>What a block that has been freed holds is outside \<open>assigns \nothing\<close>.\<close>

definition scheduler_free_contract :: "ptr \<Rightarrow> world \<Rightarrow> world \<Rightarrow> bool" where
  "scheduler_free_contract s w w' \<longleftrightarrow>
     same_but_memory (if s = NULL then w else upd_sched s (\<lambda>_. w_sched w' s) w) w'"

definition scheduler_register_contract ::
  "ptr \<Rightarrow> EventType \<Rightarrow> EventCallback \<Rightarrow> ptr \<Rightarrow> world \<Rightarrow> world \<Rightarrow> bool" where
  "scheduler_register_contract s type fn ctx w w' \<longleftrightarrow>
     (if s = NULL then w' = w
      else w' = upd_sched s (\<lambda>k. k\<lparr>sc_handlers := (sc_handlers k)(type := sc_handlers (w_sched w' s) type)\<rparr>) w \<and>
        sc_handlers (w_sched w' s) type = (fn, ctx))"

text \<open>What \<open>assigns s->eq->events, s->eq->count\<close> allows, given the state afterwards.\<close>

definition queue_assigned :: "ptr \<Rightarrow> world \<Rightarrow> world \<Rightarrow> world" where
  "queue_assigned s w' w = upd_sched s (\<lambda>k. k\<lparr>sc_eq := queue_frame (sc_eq k) (sc_eq (w_sched w' s))\<rparr>) w"

definition scheduler_schedule_contract :: "ptr \<Rightarrow> Event option \<Rightarrow> world \<Rightarrow> int \<times> world \<Rightarrow> bool" where
  "scheduler_schedule_contract s e w res \<longleftrightarrow>
     (case res of (result, w') \<Rightarrow>
        if s = NULL \<or> e = None then w' = w \<and> result = - 1
        else
          same_but_memory (queue_assigned s w' w) w' \<and>
          (result = 0 \<longrightarrow> eq_count (sc_eq (w_sched w' s)) = eq_count (sc_eq (w_sched w s)) + 1) \<and>
          (result = - 1 \<longrightarrow> eq_count (sc_eq (w_sched w' s)) = eq_count (sc_eq (w_sched w s))))"

definition scheduler_step_contract :: "ptr \<Rightarrow> world \<Rightarrow> int \<times> world \<Rightarrow> bool" where
  "scheduler_step_contract s w res \<longleftrightarrow>
     (case res of (result, w') \<Rightarrow>
        same_but_memory (upd_sched s (\<lambda>k. k\<lparr>sc_now := sc_now (w_sched w' s)\<rparr>) (queue_assigned s w' w)) w' \<and>
        (result = 0 \<longrightarrow> eq_count (sc_eq (w_sched w' s)) = eq_count (sc_eq (w_sched w s))) \<and>
        (result = 1 \<longrightarrow> eq_count (sc_eq (w_sched w' s)) + 1 = eq_count (sc_eq (w_sched w s)) \<and>
           sc_now (w_sched w' s) \<ge> sc_now (w_sched w s)))"

text \<open>The \<open>ensures\<close> clause of \<open>scheduler_run\<close>; what is assigned is up to the handlers.\<close>

definition scheduler_run_ensures :: "ptr \<Rightarrow> world \<Rightarrow> bool" where
  "scheduler_run_ensures s w' \<longleftrightarrow> eq_count (sc_eq (w_sched w' s)) = 0 \<or> sc_running (w_sched w' s) = 0"

definition scheduler_stop_contract :: "ptr \<Rightarrow> world \<Rightarrow> world \<Rightarrow> bool" where
  "scheduler_stop_contract s w w' \<longleftrightarrow>
     (if s = NULL then w' = w
      else w' = upd_sched s (\<lambda>k. k\<lparr>sc_running := sc_running (w_sched w' s)\<rparr>) w \<and> sc_running (w_sched w' s) = 0)"

definition scheduler_now_contract :: "ptr \<Rightarrow> world \<Rightarrow> u64 \<Rightarrow> bool" where
  "scheduler_now_contract s w result \<longleftrightarrow> result = (if s = NULL then 0 else sc_now (w_sched w s))"

section \<open>The simulator\<close>

definition simulator_create_contract :: "ptr \<Rightarrow> ptr \<Rightarrow> world \<Rightarrow> ptr \<times> world \<Rightarrow> bool" where
  "simulator_create_contract topo sched w res \<longleftrightarrow>
     (case res of (result, w') \<Rightarrow>
        if topo = NULL \<or> sched = NULL then w' = w \<and> result = NULL
        else result \<noteq> NULL \<longrightarrow> result \<in> w_live w' \<and>
          sm_topo (w_sim w' result) = topo \<and> sm_sched (w_sim w' result) = sched \<and> sm_end_time (w_sim w' result) = 0)"

text \<open>The \<open>ensures\<close> clause of \<open>simulator_run\<close>.\<close>

definition simulator_run_ensures :: "ptr \<Rightarrow> world \<Rightarrow> bool" where
  "simulator_run_ensures sim w' \<longleftrightarrow>
     eq_count (sc_eq (run_sched sim w')) = 0 \<or> sc_running (run_sched sim w') = 0 \<or>
     (0 < sm_end_time (w_sim w' sim) \<and> sc_now (run_sched sim w') \<ge> sm_end_time (w_sim w' sim))"

definition simulator_step_contract :: "ptr \<Rightarrow> world \<Rightarrow> int \<times> world \<Rightarrow> bool" where
  "simulator_step_contract sim w res \<longleftrightarrow>
     (if sim = NULL then res = (- 1, w) else scheduler_step_contract (sm_sched (w_sim w sim)) w res)"

definition simulator_stop_contract :: "ptr \<Rightarrow> world \<Rightarrow> world \<Rightarrow> bool" where
  "simulator_stop_contract sim w w' \<longleftrightarrow>
     (if sim = NULL then w' = w
      else w' = upd_sched (sm_sched (w_sim w sim)) (\<lambda>k. k\<lparr>sc_running := sc_running (run_sched sim w')\<rparr>) w \<and>
        sc_running (run_sched sim w') = 0)"

definition simulator_set_end_time_contract :: "ptr \<Rightarrow> u64 \<Rightarrow> world \<Rightarrow> world \<Rightarrow> bool" where
  "simulator_set_end_time_contract sim end_us w w' \<longleftrightarrow>
     (if sim = NULL then w' = w
      else w' = upd_sim sim (\<lambda>s. s\<lparr>sm_end_time := sm_end_time (w_sim w' sim)\<rparr>) w \<and> sm_end_time (w_sim w' sim) = end_us)"

definition simulator_now_contract :: "ptr \<Rightarrow> world \<Rightarrow> u64 \<Rightarrow> bool" where
  "simulator_now_contract sim w result \<longleftrightarrow> result = (if sim = NULL then 0 else sc_now (run_sched sim w))"

definition simulator_inject_packet_contract :: "ptr \<Rightarrow> ptr \<Rightarrow> ptr \<Rightarrow> ptr \<Rightarrow> world \<Rightarrow> int \<times> world \<Rightarrow> bool" where
  "simulator_inject_packet_contract sim src dst pkt w res \<longleftrightarrow>
     (case res of (result, w') \<Rightarrow>
        if sim = NULL \<or> src = NULL \<or> dst = NULL \<or> pkt = NULL then w' = w \<and> result = - 1
        else
          same_but_memory (queue_assigned (sm_sched (w_sim w sim)) w' w) w' \<and>
          (result = 0 \<longrightarrow> eq_count (sc_eq (run_sched sim w')) = eq_count (sc_eq (run_sched sim w)) + 1) \<and>
          (result = - 1 \<longrightarrow> eq_count (sc_eq (run_sched sim w')) = eq_count (sc_eq (run_sched sim w))))"

definition simulator_register_handler_contract ::
  "ptr \<Rightarrow> EventType \<Rightarrow> EventCallback \<Rightarrow> ptr \<Rightarrow> world \<Rightarrow> world \<Rightarrow> bool" where
  "simulator_register_handler_contract sim type fn ctx w w' \<longleftrightarrow>
     (if sim = NULL \<or> \<not> evt_in_range type \<or> fn = CB_NULL then w' = w
      else w' = upd_sched (sm_sched (w_sim w sim)) (\<lambda>k. k\<lparr>sc_handlers :=
           (sc_handlers k)(type := sc_handlers (run_sched sim w') type)\<rparr>) w \<and>
        sc_handlers (run_sched sim w') type = (fn, ctx))"

section \<open>Meeting them\<close>

lemma malloc_live: "fst (malloc w) \<noteq> NULL \<Longrightarrow> fst (malloc w) \<in> w_live (snd (malloc w))"
  by (cases w rule: malloc_cases) simp_all

lemma malloc_keeps_live: "p \<in> w_live w \<Longrightarrow> p \<in> w_live (snd (malloc w))"
  by (simp add: malloc_def Let_def)

lemma packet_create_meets: "packet_create_contract n (packet_create n w)"
  using malloc_live [of w] malloc_keeps_live [of "fst (malloc w)" "snd (malloc w)"]
  by (auto simp: packet_create_contract_def packet_create_def packet_fresh_def Let_def split_def)

lemma packet_strip_meets: "packet_strip_contract p n (packet_strip p n)"
  by (simp add: packet_strip_contract_def packet_strip_def Let_def)

lemma packet_prepend_meets:
  "packet_prepend_contract p n (packet_prepend p h n) \<longleftrightarrow>
     n = 0 \<or> pk_data p < n \<or> pk_buf (snd (packet_prepend p h n)) = pk_buf p"
  by (auto simp: packet_prepend_contract_def packet_prepend_def Let_def dest: arg_cong [where f = pk_buf])

lemma queue_meets:
  "event_queue_create_contract n (event_queue_create n w)" "event_queue_is_empty_contract q (event_queue_is_empty q)"
  "\<forall>e \<in> set (eq_list q). ev_self e \<in> w_live w \<Longrightarrow> eq_inv q \<Longrightarrow> event_queue_peek_contract w (event_queue_peek q)"
proof -
  show "event_queue_create_contract n (event_queue_create n w)" "event_queue_is_empty_contract q (event_queue_is_empty q)"
    using malloc_live [of w] malloc_keeps_live [of "fst (malloc w)" "snd (malloc w)"]
    by (auto simp: event_queue_create_contract_def event_queue_create_def event_queue_new_def
        event_queue_is_empty_contract_def event_queue_is_empty_def Let_def split_def split: option.splits)
  assume live: "\<forall>e \<in> set (eq_list q). ev_self e \<in> w_live w" and inv: "eq_inv q"
  have "eq_events q ! 0 \<in> set (eq_list q)" if "eq_count q \<noteq> 0"
    using that inv nth_mem [of 0 "eq_list q"] by (simp add: eq_list_def eq_inv_def)
  then show "event_queue_peek_contract w (event_queue_peek q)"
    using live by (simp add: event_queue_peek_contract_def event_queue_peek_def)
qed

lemma shift_up_length: "length (fst (shift_up es t i)) = length es \<and> snd (shift_up es t i) \<le> i"
  by (induction es t i rule: shift_up.induct) auto

text \<open>A push meets its contract when it fails, or finds the array already as it would leave it.\<close>

lemma push_meets:
  assumes cap: "0 < eq_capacity q"
  shows "event_queue_push_contract q (event_queue_push g q e) \<longleftrightarrow> fst (event_queue_push g q e) = - 1 \<or>
    (eq_count q < eq_capacity q \<and> eq_events (snd (event_queue_push g q e)) = eq_events q)"
proof (cases "eq_count q \<ge> eq_capacity q")
  case True
  show ?thesis using True cap
    by (cases g) (auto simp: event_queue_push_contract_def event_queue_push_def queue_frame_def array_frame_def Let_def split: prod.splits
      dest: arg_cong [where f = eq_capacity])
next
  case False
  obtain es i where "shift_up (eq_events q) (ev_timestamp e) (eq_count q) = (es, i)" by fastforce
  then show ?thesis using False shift_up_length [of "eq_events q" "ev_timestamp e" "eq_count q"]
    by (auto simp: event_queue_push_contract_def event_queue_push_def queue_frame_def array_frame_def dest: arg_cong [where f = eq_events])
qed

lemma push_new_event:
  assumes inv: "eq_inv q" and new: "e \<notin> set (eq_events q)"
  shows "event_queue_push_contract q (event_queue_push g q e) \<longleftrightarrow> fst (event_queue_push g q e) = - 1"
proof -
  have "eq_events (snd (event_queue_push g q e)) \<noteq> eq_events q" if room: "eq_count q < eq_capacity q"
  proof -
    obtain es i where sh: "shift_up (eq_events q) (ev_timestamp e) (eq_count q) = (es, i)" by fastforce
    have "i < length es" using shift_up_length [of "eq_events q" "ev_timestamp e" "eq_count q"] sh inv room
      by (auto simp: eq_inv_def)
    then have "e \<in> set (eq_events (snd (event_queue_push g q e)))"
      using room sh by (simp add: event_queue_push_def set_update_memI)
    then show ?thesis using new by metis
  qed
  then show ?thesis using push_meets [of q g e] inv by (auto simp: eq_inv_def)
qed

text \<open>A pop meets its contract when no event moves down.\<close>

lemma pop_meets:
  assumes inv: "eq_inv q"
  shows "event_queue_pop_contract q (event_queue_pop q) \<longleftrightarrow> eq_events (snd (event_queue_pop q)) = eq_events q"
proof (cases "eq_count q = 0")
  case False
  have "length (bwrite (eq_events q) 0 (bread (eq_events q) 1 (eq_count q - 1))) = length (eq_events q)"
    using inv False by (simp add: eq_inv_def bwrite_def bread_def)
  then show ?thesis using False
    by (auto simp: event_queue_pop_contract_def event_queue_pop_def queue_frame_def array_frame_def dest: arg_cong [where f = eq_events])
qed (simp add: event_queue_pop_contract_def event_queue_pop_def queue_frame_def array_frame_def)

lemma pop_distinct:
  assumes inv: "eq_inv q" and d: "distinct (eq_list q)"
  shows "event_queue_pop_contract q (event_queue_pop q) \<longleftrightarrow> eq_count q \<le> 1"
proof (cases "eq_count q \<le> 1")
  case True
  then show ?thesis using pop_meets [OF inv] by (simp add: event_queue_pop_def bwrite_def)
next
  case False
  then obtain n where n: "eq_count q = Suc (Suc n)" by (metis Suc_le_D not_less_eq_eq One_nat_def)
  obtain a b xs where ev: "eq_events q = a # b # xs"
    using inv n by (cases "eq_events q"; cases "tl (eq_events q)") (auto simp: eq_inv_def)
  then have "a \<noteq> b" using d n by (simp add: eq_list_def)
  then show ?thesis using pop_meets [OF inv] False by (simp add: event_queue_pop_def ev n bwrite_def bread_def)
qed

lemma event_meets:
  "event_create_contract (event_create ty t a b p d w)"
  "event_create_callback_contract h c (event_create_callback ty t a b p d h c w)"
  using malloc_live [of w]
  by (auto simp: event_create_contract_def event_create_callback_contract_def event_create_def event_create_callback_def
      Let_def split_def)

lemma packet_clone_meets:
  assumes "mem_ok w" "p \<in> w_live w"
  shows "packet_clone_contract p (packet_clone p w) \<longleftrightarrow>
    fst (packet_clone p w) = NULL \<or> w_next_id w \<noteq> pk_id (w_pkt w p)"
proof (cases "fst (packet_clone p w) = NULL")
  case True
  then show ?thesis by (simp add: packet_clone_contract_def split_def)
next
  case False
  obtain c w' where cl: "packet_clone p w = (c, w')" by fastforce
  obtain w1 where cr: "packet_create (pk_len (w_pkt w p)) w = (c, w1)"
    using cl False by (auto simp: packet_clone_def Let_def split: prod.splits if_splits)
  have c: "c \<noteq> p" using packet_create_new [of "pk_len (w_pkt w p)" w] cr cl False mem_okD [OF assms] by auto
  have id: "pk_id (w_pkt w1 c) = w_next_id w" "c \<in> w_live w1"
    using cr cl False malloc_live [of w] malloc_keeps_live [of "fst (malloc w)" "snd (malloc w)"]
    by (auto simp: packet_create_def packet_fresh_def Let_def split_def split: if_splits)
  have src: "w_pkt w1 p = w_pkt w p" using packet_create_other [OF cr] c by simp
  have "w' = upd_pkt c (\<lambda>k. (pkt_write 0 (bread (pk_buf (w_pkt w p)) (pk_data (w_pkt w p)) (pk_len (w_pkt w p))) k)
      \<lparr>pk_len := pk_len (w_pkt w p), pk_layer := pk_layer (w_pkt w p)\<rparr>) w1"
    using cl cr False c src by (auto simp: packet_clone_def Let_def upd_pkt_def)
  then show ?thesis using cl False c src id by (simp add: packet_clone_contract_def pkt_write_def)
qed

lemma scheduler_meets:
  "scheduler_create_contract n w (scheduler_create n w)"
  "scheduler_register_contract s ty fn ctx w (scheduler_register s ty fn ctx w) \<longleftrightarrow>
     s = NULL \<or> evt_in_range ty \<or> sc_handlers (w_sched w s) ty = (fn, ctx)"
  "scheduler_stop_contract s w (scheduler_stop s w)" "scheduler_now_contract s w (scheduler_now s w)"
proof -
  have live: "fst (malloc w) \<in> w_live (snd (malloc (snd (malloc w))))" if "fst (malloc w) \<noteq> NULL" for w
    using malloc_keeps_live [OF malloc_live [OF that]] .
  show "scheduler_create_contract n w (scheduler_create n w)"
    using live [of w] malloc_keeps_live [of "fst (malloc w)" "snd (malloc (snd (malloc w)))"]
    by (auto simp: scheduler_create_contract_def scheduler_create_def event_queue_create_def Let_def split_def
        split: option.splits)
qed (auto simp: scheduler_register_contract_def scheduler_register_def scheduler_stop_contract_def scheduler_stop_def
    scheduler_now_contract_def scheduler_now_def upd_sched_def)

lemma same_memory_trans: "same_but_memory a b \<Longrightarrow> same_but_memory b c \<Longrightarrow> same_but_memory a c"
  by (cases a; cases b; cases c) (simp add: same_but_memory_def)

lemma same_memory_sched: "same_but_memory a b \<Longrightarrow> w_sched b = w_sched a"
  by (cases a; cases b) (simp add: same_but_memory_def)

lemma same_memory_upd: "same_but_memory a b \<Longrightarrow> same_but_memory (upd_sched s f a) (upd_sched s f b)"
  by (cases a; cases b) (simp add: same_but_memory_def upd_sched_def)

lemma drain_events_memory: "same_but_memory w (snd (drain_events n q w))"
proof (induction n q w rule: drain_events.induct)
  case (2 n q w)
  have free: "same_but_memory w (event_free e w)" for e
    by (auto simp: same_but_memory_def event_free_def free_block_def split: option.split)
  show ?case
  proof (cases "event_queue_pop q")
    case (Pair r q')
    then show ?thesis using 2 [OF Pair [symmetric]] same_memory_trans [OF free]
      by (cases r) (auto simp: same_but_memory_def [of w w])
  qed
qed (simp add: same_but_memory_def)

lemma scheduler_free_meets: "scheduler_free_contract s w (scheduler_free s w)"
proof (cases "s = NULL")
  case False
  obtain q v where d: "drain_events (Suc (eq_count (sc_eq (w_sched w s)))) (sc_eq (w_sched w s)) w = (q, v)" by fastforce
  have v: "same_but_memory w v" using drain_events_memory [of w] d by (metis snd_conv)
  define u where "u = upd_sched s (\<lambda>k. k\<lparr>sc_eq := q\<rparr>) v"
  have "scheduler_free s w = free_block s (event_queue_free (sc_eq_p (w_sched u s)) (sc_eq_events_p (w_sched u s)) u)"
    using False d by (simp add: scheduler_free_def u_def)
  moreover have "same_but_memory u \<dots>" by (auto simp: same_but_memory_def event_queue_free_def free_block_def)
  ultimately have x: "same_but_memory u (scheduler_free s w)" by simp
  then have "w_sched (scheduler_free s w) s = w_sched u s" by (simp add: same_memory_sched)
  moreover have "upd_sched s (\<lambda>_. w_sched u s) v = u" by (simp add: u_def upd_sched_def)
  then have "same_but_memory (upd_sched s (\<lambda>_. w_sched u s) w) u" using same_memory_upd [OF v] by metis
  ultimately show ?thesis using same_memory_trans [OF _ x] False by (simp add: scheduler_free_contract_def)
qed (simp add: scheduler_free_contract_def scheduler_free_def same_but_memory_def)

lemma schedule_meets:
  assumes cap: "0 < eq_capacity (sc_eq (w_sched w s))"
  shows "scheduler_schedule_contract s e w (scheduler_schedule s e w) \<longleftrightarrow> fst (scheduler_schedule s e w) = - 1 \<or>
    (eq_count (sc_eq (w_sched w s)) < eq_capacity (sc_eq (w_sched w s)) \<and>
     eq_events (sc_eq (w_sched (snd (scheduler_schedule s e w)) s)) = eq_events (sc_eq (w_sched w s)))"
proof (cases "s = NULL \<or> e = None")
  case True
  then show ?thesis by (auto simp: scheduler_schedule_contract_def scheduler_schedule_def split: option.split)
next
  case False
  then obtain ev where ev: "e = Some ev" "s \<noteq> NULL" by auto
  let ?q = "sc_eq (w_sched w s)" and ?full = "eq_count (sc_eq (w_sched w s)) \<ge> eq_capacity (sc_eq (w_sched w s))"
  define g where "g = (if ?full then \<not> w_oom w (w_mallocs w) else True)"
  define v where "v = (if ?full then w\<lparr>w_mallocs := Suc (w_mallocs w)\<rparr> else w)"
  obtain r q where push: "event_queue_push g ?q ev = (r, q)" by fastforce
  have sch: "scheduler_schedule s e w = (r, upd_sched s (\<lambda>k. k\<lparr>sc_eq := q\<rparr>) v)"
    using push ev by (auto simp: scheduler_schedule_def realloc_def Let_def g_def v_def)
  have frame: "same_but_memory (queue_assigned s (upd_sched s (\<lambda>k. k\<lparr>sc_eq := q\<rparr>) v) w) (upd_sched s (\<lambda>k. k\<lparr>sc_eq := q\<rparr>) v)
      \<longleftrightarrow> q = queue_frame ?q q"
  proof -
    have "w_sched v = w_sched w" "upd_sched s f v = (upd_sched s f w)\<lparr>w_mallocs := w_mallocs v\<rparr>" for f
      by (simp_all add: v_def upd_sched_def)
    then show ?thesis
      by (auto simp: same_but_memory_def queue_assigned_def upd_sched_def
          dest!: arg_cong [where f = w_sched] fun_cong [where x = s] arg_cong [where f = sc_eq])
  qed
  have "scheduler_schedule_contract s e w (scheduler_schedule s e w) \<longleftrightarrow> event_queue_push_contract ?q (r, q)"
    unfolding sch using frame ev by (simp add: scheduler_schedule_contract_def event_queue_push_contract_def)
  then show ?thesis using push_meets [OF cap, of g ev] push by (simp add: sch)
qed

lemma simulator_meets:
  "simulator_create_contract t s w (simulator_create t s w)"
  "sim \<noteq> NULL \<longrightarrow> sm_sched (w_sim w sim) \<noteq> NULL \<Longrightarrow> simulator_stop_contract sim w (simulator_stop sim w)"
  "simulator_set_end_time_contract sim n w (simulator_set_end_time sim n w)"
  "simulator_now_contract sim w (simulator_now sim w)"
  "sim \<noteq> NULL \<longrightarrow> sm_sched (w_sim w sim) \<noteq> NULL \<Longrightarrow>
     simulator_register_handler_contract sim ty fn ctx w (simulator_register_handler sim ty fn ctx w)"
  using malloc_live [of w]
  by (auto simp: simulator_create_contract_def simulator_create_def simulator_stop_contract_def simulator_stop_def
      scheduler_stop_def simulator_set_end_time_contract_def simulator_set_end_time_def simulator_now_contract_def
      simulator_now_def simulator_register_handler_contract_def simulator_register_handler_def scheduler_register_def
      Let_def split_def upd_sched_def upd_sim_def)

lemma queue_assigned_memory:
  "same_but_memory w v \<Longrightarrow> same_but_memory (queue_assigned s x w) y = same_but_memory (queue_assigned s x v) y"
  by (cases w; cases v; cases y) (auto simp: same_but_memory_def queue_assigned_def upd_sched_def)

lemma inject_meets:
  assumes sched: "sm_sched (w_sim w sim) \<noteq> NULL" and cap: "0 < eq_capacity (sc_eq (run_sched sim w))"
  shows "simulator_inject_packet_contract sim src dst pkt w (simulator_inject_packet sim src dst pkt d w) \<longleftrightarrow>
    fst (simulator_inject_packet sim src dst pkt d w) = - 1 \<or>
    (eq_count (sc_eq (run_sched sim w)) < eq_capacity (sc_eq (run_sched sim w)) \<and>
     eq_events (sc_eq (w_sched (snd (simulator_inject_packet sim src dst pkt d w)) (sm_sched (w_sim w sim)))) =
       eq_events (sc_eq (run_sched sim w)))"
proof (cases "sim = NULL \<or> src = NULL \<or> dst = NULL \<or> pkt = NULL")
  case True
  then show ?thesis by (auto simp: simulator_inject_packet_contract_def simulator_inject_packet_def)
next
  case False
  let ?s = "sm_sched (w_sim w sim)" and ?v = "snd (malloc w)"
  have v: "w_sched ?v = w_sched w" "w_oom ?v = w_oom w" "w_mallocs ?v = Suc (w_mallocs w)" "same_but_memory w ?v"
    by (cases w rule: malloc_cases; simp add: same_but_memory_def)+
  show ?thesis
  proof (cases "fst (malloc w) = NULL")
    case True
    then have "simulator_inject_packet sim src dst pkt d w = (- 1, ?v)"
      using False by (simp add: simulator_inject_packet_def event_create_def event_create_callback_def Let_def split_def)
    moreover have "same_but_memory (queue_assigned ?s ?v w) ?v"
      using v(4) by (simp add: queue_assigned_def queue_frame_def array_frame_def v(1) upd_sched_def)
    ultimately show ?thesis using False True v(1) by (simp add: simulator_inject_packet_contract_def)
  next
    case ok: False
    then obtain e where e: "simulator_inject_packet sim src dst pkt d w = scheduler_schedule ?s (Some e) ?v"
      using False by (simp add: simulator_inject_packet_def event_create_def event_create_callback_def Let_def split_def)
    have "simulator_inject_packet_contract sim src dst pkt w (simulator_inject_packet sim src dst pkt d w) \<longleftrightarrow>
        scheduler_schedule_contract ?s (Some e) ?v (scheduler_schedule ?s (Some e) ?v)"
      unfolding e using False sched queue_assigned_memory [OF v(4)]
      by (simp add: simulator_inject_packet_contract_def scheduler_schedule_contract_def split_def v(1))
    then show ?thesis using schedule_meets [of ?v ?s "Some e"] cap v(1) e by simp
  qed
qed

text \<open>
  A step in which no handler runs meets its contract when no event moves down in the array; one that
  ages a MAC table does not.
\<close>

lemma step_meets:
  assumes inv: "eq_inv (sc_eq (w_sched w s))"
    and idle: "eq_list (sc_eq (w_sched w s)) = [] \<or> (ev_handler (hd (eq_list (sc_eq (w_sched w s)))) = CB_NULL \<and>
      fst (sc_handlers (w_sched w s) (ev_type (hd (eq_list (sc_eq (w_sched w s)))))) = CB_NULL)"
  shows "scheduler_step_contract s w (scheduler_step A s w) \<longleftrightarrow>
    eq_events (snd (event_queue_pop (sc_eq (w_sched w s)))) = eq_events (sc_eq (w_sched w s))"
proof -
  let ?q = "sc_eq (w_sched w s)"
  obtain ev q where pop: "event_queue_pop ?q = (ev, q)" by fastforce
  have q: "event_queue_pop_contract ?q (ev, q) \<longleftrightarrow> eq_events q = eq_events ?q" using pop_meets [OF inv] pop by simp
  have count: "if ev = None then q = ?q else eq_count q + 1 = eq_count ?q"
    using pop by (auto simp: event_queue_pop_def split: if_splits)
  show ?thesis
  proof (cases ev)
    case None
    then have "scheduler_step A s w = (0, w)" using pop count by (simp add: scheduler_step_def upd_sched_def)
    then show ?thesis using None count pop
      by (simp add: scheduler_step_contract_def queue_assigned_def queue_frame_def array_frame_def upd_sched_def same_but_memory_def)
  next
    case (Some e)
    have h: "ev_handler e = CB_NULL" "fst (sc_handlers (w_sched w s) (ev_type e)) = CB_NULL"
      using idle Some event_queue_pop_list [OF inv pop] by (auto split: list.splits)
    define t where "t = max (sc_now (w_sched w s)) (ev_timestamp e)"
    let ?w = "upd_sched s (\<lambda>k. k\<lparr>sc_eq := q, sc_now := t\<rparr>) w"
    have step: "scheduler_step A s w = (1, event_free (Some e) ?w)"
      using pop Some h by (auto simp: scheduler_step_def Let_def split_def t_def upd_sched_def max_def)
    have "same_but_memory (upd_sched s (\<lambda>k. k\<lparr>sc_now := t\<rparr>) (queue_assigned s (event_free (Some e) ?w) w)) (event_free (Some e) ?w)
        \<longleftrightarrow> q = queue_frame ?q q"
      by (auto simp: same_but_memory_def queue_assigned_def upd_sched_def event_free_def free_block_def
          dest!: arg_cong [where f = w_sched] fun_cong [where x = s] arg_cong [where f = sc_eq] split: if_splits)
    then show ?thesis using q count Some pop
      by (simp add: step scheduler_step_contract_def event_queue_pop_contract_def t_def)
  qed
qed

lemma step_misses:
  assumes inv: "eq_inv (sc_eq (w_sched w s))" and first: "eq_list (sc_eq (w_sched w s)) = e # es"
    and e: "ev_handler e = CB_mac_age_handler"
    and sw: "ev_handler_ctx e \<noteq> NULL" "sw_sim (w_switch w (ev_handler_ctx e)) = sim" "sim \<noteq> NULL" "sm_sched (w_sim w sim) = s" "s \<noteq> NULL"
    and mem: "\<And>n. \<not> w_oom w n" "0 < w_brk w"
  shows "\<not> scheduler_step_contract s w (scheduler_step A s w)"
proof -
  obtain q where q: "eq_inv q" "eq_list q = es" "scheduler_step A s w = (1, event_free (Some e) (call_event A (ev_handler e) e (ev_handler_ctx e)
      (upd_sched s (\<lambda>k. k\<lparr>sc_eq := q, sc_now := max (sc_now k) (ev_timestamp e)\<rparr>) w)))"
    by (rule scheduler_step_first [OF inv first, of A]) (use e in auto)
  let ?w = "upd_sched s (\<lambda>k. k\<lparr>sc_eq := q, sc_now := max (sc_now k) (ev_timestamp e)\<rparr>) w"
  have "eq_count (sc_eq (w_sched (mac_age_handler e (ev_handler_ctx e) ?w) s)) = Suc (eq_count q)"
    using mac_age_again(2) [of "ev_handler_ctx e" ?w sim s e] sw mem q(1) by simp
  moreover have "eq_count (sc_eq (w_sched w s)) = Suc (eq_count q)"
    using eq_count_list [OF inv] eq_count_list [OF q(1)] first q(2) by simp
  ultimately show ?thesis by (simp add: q(3) e call_event_def scheduler_step_contract_def)
qed

text \<open>Handlers that may stop the run, but leave the clock and the wiring alone.\<close>

definition stoppable :: "world \<Rightarrow> world \<Rightarrow> bool" where
  "stoppable w w' \<longleftrightarrow>
     (\<forall>s. sc_now (w_sched w' s) = sc_now (w_sched w s) \<and> sc_running (w_sched w' s) \<in> {sc_running (w_sched w s), 0}) \<and>
     w_sim w' = w_sim w \<and> w_tcpctx w' = w_tcpctx w \<and> (\<forall>l. ln_delay_ms (w_link w' l) = ln_delay_ms (w_link w l))"

interpretation stoppable: world_relation stoppable
proof unfold_locales
  fix a b c assume "stoppable a b" "stoppable b c"
  then show "stoppable a c" unfolding stoppable_def by (metis insertE insertI1 insertI2 singletonD)
qed (auto simp: stoppable_def)

lemma scheduler_step_stoppable:
  assumes A: "app_within stoppable A"
  shows "sc_running (w_sched (snd (scheduler_step A s w)) s) \<in> {sc_running (w_sched w s), 0}"
    "w_sim (snd (scheduler_step A s w)) = w_sim w"
proof -
  define Q :: "world \<Rightarrow> bool" where
    "Q x \<longleftrightarrow> sc_running (w_sched x s) \<in> {sc_running (w_sched w s), 0} \<and> w_sim x = w_sim w" for x
  obtain r q where pop: "event_queue_pop (sc_eq (w_sched w s)) = (r, q)" by fastforce
  have call: "Q (call_event A h e c x)" if "Q x" for x h e c
  proof -
    have "stoppable x (call_event A h e c x)" by (rule stoppable.step_call_event [OF A stoppable.R_refl])
    then have "sc_running (w_sched (call_event A h e c x) s) \<in> {sc_running (w_sched x s), 0}"
      "w_sim (call_event A h e c x) = w_sim x" unfolding stoppable_def by blast+
    then show ?thesis using that by (auto simp: Q_def)
  qed
  have upd: "Q (upd_sched s (\<lambda>k. k\<lparr>sc_eq := q\<rparr>) x)" "Q (upd_sched s (\<lambda>k. k\<lparr>sc_now := t\<rparr>) x)" if "Q x" for x q t
    using that by (simp_all add: Q_def)
  have free: "Q (event_free e x)" if "Q x" for x e using that by (simp add: Q_def)
  have "Q w" by (simp add: Q_def)
  then have "Q (snd (scheduler_step A s w))"
    unfolding scheduler_step_def pop by (cases r) (auto simp: Let_def split_def intro!: call upd free)
  then show "sc_running (w_sched (snd (scheduler_step A s w)) s) \<in> {sc_running (w_sched w s), 0}"
    "w_sim (snd (scheduler_step A s w)) = w_sim w"
    by (simp_all add: Q_def)
qed

lemma run_meets:
  assumes A: "app_within stoppable A" and run: "simulator_run A sim w = Some (r, w')"
  shows "simulator_run_ensures sim w'"
proof -
  let ?s = "sm_sched (w_sim w sim)"
  define I :: "world \<Rightarrow> bool" where "I v \<longleftrightarrow> w_sim v = w_sim w \<and> sc_running (w_sched v ?s) \<in> {0, 1}" for v
  have "I w' \<and> sc_running (run_sched sim w') \<noteq> 1"
  proof (rule sim_loop_inv [where A = A and sim = sim])
    show "sim_loop A sim (upd_sched ?s (\<lambda>k. k\<lparr>sc_running := 1\<rparr>) w) = Some w'"
      using run by (auto simp: simulator_run_def)
    show "I (upd_sched ?s (\<lambda>k. k\<lparr>sc_running := 1\<rparr>) w)" by (simp add: I_def)
    show "I (sim_iter A sim v)" if "I v" for v
      using that scheduler_step_stoppable [OF A, where s = ?s and w = v] by (auto simp: I_def sim_iter_def Let_def split_def)
  qed
  then show ?thesis by (auto simp: I_def simulator_run_ensures_def)
qed

lemma scheduler_run_meets: "scheduler_run A s w = Some (r, w') \<Longrightarrow> scheduler_run_ensures s w'"
  by (auto simp: scheduler_run_def scheduler_run_ensures_def)

text \<open>A new event changes the array.\<close>

lemma schedule_new_event:
  assumes inv: "eq_inv (sc_eq (w_sched w s))" and new: "e \<notin> set (eq_events (sc_eq (w_sched w s)))"
  shows "scheduler_schedule_contract s (Some e) w (scheduler_schedule s (Some e) w) \<longleftrightarrow>
    fst (scheduler_schedule s (Some e) w) = - 1"
proof -
  let ?q = "sc_eq (w_sched w s)"
  have cap: "0 < eq_capacity ?q" using inv by (simp add: eq_inv_def)
  have "eq_events (sc_eq (w_sched (snd (scheduler_schedule s (Some e) w)) s)) \<noteq> eq_events ?q"
    if room: "eq_count ?q < eq_capacity ?q" and ok: "fst (scheduler_schedule s (Some e) w) \<noteq> - 1"
  proof -
    have "s \<noteq> NULL" using ok by (cases "s = NULL") (simp_all add: scheduler_schedule_def)
    moreover have "\<not> event_queue_push_contract ?q (event_queue_push True ?q e)"
      using push_new_event [OF inv new, of True] room by (auto simp: event_queue_push_def Let_def split_def)
    then have "eq_events (snd (event_queue_push True ?q e)) \<noteq> eq_events ?q"
      using push_meets [OF cap, of True e] room by blast
    ultimately show ?thesis using room by (simp add: scheduler_schedule_def Let_def split_def)
  qed
  then show ?thesis using schedule_meets [OF cap, of "Some e"] by blast
qed

text \<open>The event that is injected is a new block.\<close>

lemma inject_new_event:
  assumes inv: "eq_inv (sc_eq (run_sched sim w))" and sched: "sm_sched (w_sim w sim) \<noteq> NULL"
    and new: "\<forall>e \<in> set (eq_events (sc_eq (run_sched sim w))). ev_self e \<noteq> fst (malloc w)"
  shows "simulator_inject_packet_contract sim a b pk w (simulator_inject_packet sim a b pk d w) \<longleftrightarrow>
    fst (simulator_inject_packet sim a b pk d w) = - 1"
proof -
  let ?s = "sm_sched (w_sim w sim)" and ?q = "sc_eq (run_sched sim w)" and ?v = "snd (malloc w)"
  have cap: "0 < eq_capacity ?q" using inv by (simp add: eq_inv_def)
  have "eq_events (sc_eq (w_sched (snd (simulator_inject_packet sim a b pk d w)) ?s)) \<noteq> eq_events ?q"
    if room: "eq_count ?q < eq_capacity ?q" and ok: "fst (simulator_inject_packet sim a b pk d w) \<noteq> - 1"
  proof -
    have v: "w_sched ?v = w_sched w" by (cases w rule: malloc_cases) simp_all
    obtain e where e: "simulator_inject_packet sim a b pk d w = scheduler_schedule ?s (Some e) ?v" "ev_self e = fst (malloc w)"
      using ok by (auto simp: simulator_inject_packet_def event_create_def event_create_callback_def Let_def split_def
          split: if_splits)
    have "\<not> scheduler_schedule_contract ?s (Some e) ?v (scheduler_schedule ?s (Some e) ?v)"
      using schedule_new_event [of ?v ?s e] inv new e ok v by auto
    then show ?thesis using schedule_meets [of ?v ?s "Some e"] cap room unfolding e(1) v by simp
  qed
  then show ?thesis using inject_meets [OF sched cap] by blast
qed

section \<open>Properties\<close>

abbreviation run_queue :: "ptr \<Rightarrow> world \<Rightarrow> EventQueue" where
  "run_queue sim w \<equiv> sc_eq (run_sched sim w)"



end
