(* ===== verification/Network_Contracts.thy ===== *)
theory Network_Contracts
  imports Engine_Contracts
begin

text \<open>
  The contracts that \<open>interface.h\<close>, \<open>link.h\<close>, \<open>device.h\<close>, \<open>topology.h\<close>, \<open>switch.h\<close>, \<open>host.h\<close>,
  \<open>arp.h\<close> and \<open>ip.h\<close> state for the operations that build and query a network, read as those of the
  engine are. \<open>\valid(\result)\<close> of a lookup says that the result is a live block, and
  \<open>frees\<close> that no other block has gone.
\<close>

section \<open>Interfaces\<close>

definition interface_create_contract :: "u32 \<Rightarrow> u8 \<Rightarrow> u16 \<Rightarrow> ptr \<times> world \<Rightarrow> bool" where
  "interface_create_contract ip_addr prefix_len mtu res \<longleftrightarrow>
     (case res of (result, w') \<Rightarrow> prefix_len \<le> 32 \<and> 0 < mtu \<and> result \<noteq> NULL \<longrightarrow> result \<in> w_live w' \<and>
        (let i = w_iface w' result in
           if_ip_addr i = ip_addr \<and> if_prefix_len i = prefix_len \<and> if_mtu i = mtu \<and> if_up i = 0 \<and>
           if_link i = NULL \<and> if_device i = NULL \<and> if_tx_bytes i = 0 \<and> if_rx_bytes i = 0 \<and>
           if_rx_handler i = RX_NULL \<and> if_handler_ctx i = NULL \<and> if_arp_cache i = NULL \<and>
           if_rx_dropped i = 0 \<and> if_rx_errors i = 0 \<and> if_tx_errors i = 0 \<and> if_state i = IFACE_OK \<and>
           if_last_rx_time i = 0 \<and> if_last_tx_time i = 0 \<and> if_last_error_time i = 0))"

definition interface_free_contract :: "world \<Rightarrow> world \<Rightarrow> bool" where
  "interface_free_contract w w' \<longleftrightarrow> same_but_memory w w'"

definition interface_set_up_contract :: "ptr \<Rightarrow> int \<Rightarrow> world \<Rightarrow> world \<Rightarrow> bool" where
  "interface_set_up_contract iface up w w' \<longleftrightarrow>
     (if iface = NULL then w' = w
      else w' = upd_iface iface (\<lambda>i. i\<lparr>if_up := if_up (w_iface w' iface)\<rparr>) w \<and> if_up (w_iface w' iface) = up)"

definition interface_is_up_contract :: "ptr \<Rightarrow> world \<Rightarrow> int \<Rightarrow> bool" where
  "interface_is_up_contract iface w result \<longleftrightarrow>
     (if iface = NULL then result = 0
      else (result = 1 \<or> result = 0) \<and> (if_up (w_iface w iface) \<noteq> 0 \<longrightarrow> result = 1) \<and>
        (if_up (w_iface w iface) = 0 \<longrightarrow> result = 0))"

definition interface_set_link_contract :: "ptr \<Rightarrow> ptr \<Rightarrow> world \<Rightarrow> world \<Rightarrow> bool" where
  "interface_set_link_contract iface link w w' \<longleftrightarrow>
     (if iface = NULL then w' = w
      else w' = upd_iface iface (\<lambda>i. i\<lparr>if_link := if_link (w_iface w' iface)\<rparr>) w \<and> if_link (w_iface w' iface) = link)"

definition interface_get_link_contract :: "ptr \<Rightarrow> world \<Rightarrow> ptr \<Rightarrow> bool" where
  "interface_get_link_contract iface w result \<longleftrightarrow> result = (if iface = NULL then NULL else if_link (w_iface w iface))"

definition interface_get_mac_contract :: "ptr \<Rightarrow> world \<Rightarrow> mac \<Rightarrow> bool" where
  "interface_get_mac_contract iface w result \<longleftrightarrow> (iface \<noteq> NULL \<longrightarrow> result = if_mac (w_iface w iface))"

definition interface_get_ip_contract :: "ptr \<Rightarrow> world \<Rightarrow> u32 \<Rightarrow> bool" where
  "interface_get_ip_contract iface w result \<longleftrightarrow> (iface \<noteq> NULL \<longrightarrow> result = if_ip_addr (w_iface w iface))"

text \<open>The sum is one of integers: the counter must not wrap.\<close>

definition interface_add_tx_bytes_contract :: "ptr \<Rightarrow> u64 \<Rightarrow> world \<Rightarrow> world \<Rightarrow> bool" where
  "interface_add_tx_bytes_contract iface n w w' \<longleftrightarrow>
     (if iface = NULL then w' = w
      else w' = upd_iface iface (\<lambda>i. i\<lparr>if_tx_bytes := if_tx_bytes (w_iface w' iface)\<rparr>) w \<and>
        unat (if_tx_bytes (w_iface w' iface)) = unat (if_tx_bytes (w_iface w iface)) + unat n)"

definition interface_add_rx_bytes_contract :: "ptr \<Rightarrow> u64 \<Rightarrow> world \<Rightarrow> world \<Rightarrow> bool" where
  "interface_add_rx_bytes_contract iface n w w' \<longleftrightarrow>
     (if iface = NULL then w' = w
      else w' = upd_iface iface (\<lambda>i. i\<lparr>if_rx_bytes := if_rx_bytes (w_iface w' iface)\<rparr>) w \<and>
        unat (if_rx_bytes (w_iface w' iface)) = unat (if_rx_bytes (w_iface w iface)) + unat n)"

definition interface_set_rx_handler_contract :: "ptr \<Rightarrow> RxHandler \<Rightarrow> ptr \<Rightarrow> world \<Rightarrow> world \<Rightarrow> bool" where
  "interface_set_rx_handler_contract iface fn ctx w w' \<longleftrightarrow>
     (if iface = NULL then w' = w
      else w' = upd_iface iface (\<lambda>i. i\<lparr>if_rx_handler := if_rx_handler (w_iface w' iface),
             if_handler_ctx := if_handler_ctx (w_iface w' iface)\<rparr>) w \<and>
        if_rx_handler (w_iface w' iface) = fn \<and> if_handler_ctx (w_iface w' iface) = ctx)"

definition interface_set_arp_cache_contract :: "ptr \<Rightarrow> ptr \<Rightarrow> world \<Rightarrow> world \<Rightarrow> bool" where
  "interface_set_arp_cache_contract iface cache w w' \<longleftrightarrow>
     (if iface = NULL then w' = w
      else w' = upd_iface iface (\<lambda>i. i\<lparr>if_arp_cache := if_arp_cache (w_iface w' iface)\<rparr>) w \<and>
        if_arp_cache (w_iface w' iface) = cache)"

section \<open>Links\<close>

definition link_create_contract :: "ptr \<Rightarrow> ptr \<Rightarrow> u32 \<Rightarrow> u32 \<Rightarrow> world \<Rightarrow> ptr \<times> world \<Rightarrow> bool" where
  "link_create_contract end_a end_b bw delay w res \<longleftrightarrow>
     (case res of (result, w') \<Rightarrow>
        if end_a = NULL \<or> end_b = NULL \<or> bw = 0 then w' = w \<and> result = NULL
        else result \<noteq> NULL \<longrightarrow> result \<in> w_live w' \<and>
          (let l = w_link w' result in ln_end_a l = end_a \<and> ln_end_b l = end_b \<and> ln_bandwidth_mbps l = bw \<and>
             ln_delay_ms l = delay \<and> ln_up l = 1))"

definition link_free_contract :: "world \<Rightarrow> world \<Rightarrow> bool" where
  "link_free_contract w w' \<longleftrightarrow> same_but_memory w w'"

definition link_set_up_contract :: "ptr \<Rightarrow> int \<Rightarrow> world \<Rightarrow> world \<Rightarrow> bool" where
  "link_set_up_contract link up w w' \<longleftrightarrow>
     (if link = NULL then w' = w
      else w' = upd_link link (\<lambda>l. l\<lparr>ln_up := ln_up (w_link w' link)\<rparr>) w \<and> ln_up (w_link w' link) = up)"

definition link_is_up_contract :: "ptr \<Rightarrow> world \<Rightarrow> int \<Rightarrow> bool" where
  "link_is_up_contract link w result \<longleftrightarrow>
     result = (if link = NULL then 0 else if ln_up (w_link w link) \<noteq> 0 then 1 else 0)"

definition link_get_other_interface_contract :: "ptr \<Rightarrow> ptr \<Rightarrow> world \<Rightarrow> ptr \<Rightarrow> bool" where
  "link_get_other_interface_contract link src w result \<longleftrightarrow>
     (if link = NULL \<or> src = NULL then result = NULL
      else if src \<noteq> ln_end_a (w_link w link) \<and> src \<noteq> ln_end_b (w_link w link) then result = NULL
      else result = (if src = ln_end_a (w_link w link) then ln_end_b (w_link w link) else ln_end_a (w_link w link)))"

section \<open>Devices\<close>

definition device_create_contract :: "string option \<Rightarrow> int \<Rightarrow> world \<Rightarrow> ptr \<times> world \<Rightarrow> bool" where
  "device_create_contract name iface_max w res \<longleftrightarrow>
     (case res of (result, w') \<Rightarrow>
        if name = None \<or> iface_max \<le> 0 then w' = w \<and> result = NULL
        else result \<noteq> NULL \<longrightarrow> result \<in> w_live w' \<and> dv_iface_count (w_dev w' result) = 0 \<and>
          dv_iface_max (w_dev w' result) = iface_max)"

definition device_free_contract :: "ptr \<Rightarrow> world \<Rightarrow> world \<Rightarrow> bool" where
  "device_free_contract dev w w' \<longleftrightarrow>
     w_live w - w_live w' \<subseteq>
       (if dev = NULL then {}
        else set (device_ports (w_dev w dev)) \<union> {dv_interfaces_p (w_dev w dev), dev})"

definition device_add_interface_contract :: "ptr \<Rightarrow> ptr \<Rightarrow> world \<Rightarrow> int \<times> world \<Rightarrow> bool" where
  "device_add_interface_contract dev iface w res \<longleftrightarrow>
     (case res of (result, w') \<Rightarrow>
        if dev = NULL \<or> iface = NULL then w' = w \<and> result = - 1
        else
          (let n = dv_iface_count (w_dev w dev) in
           w' = upd_dev dev (\<lambda>d. d\<lparr>dv_interfaces := take (Suc n) (dv_interfaces (w_dev w' dev)) @ drop (Suc n) (dv_interfaces d),
                 dv_iface_count := dv_iface_count (w_dev w' dev)\<rparr>)
               (upd_iface iface (\<lambda>i. i\<lparr>if_device := if_device (w_iface w' iface)\<rparr>) w) \<and>
           (result = 0 \<or> result = - 1) \<and>
           (result = 0 \<longrightarrow> dv_iface_count (w_dev w' dev) = n + 1 \<and> dv_interfaces (w_dev w' dev) ! n = iface \<and>
              if_device (w_iface w' iface) = dev) \<and>
           (result = - 1 \<longrightarrow> dv_iface_count (w_dev w' dev) = n)))"

definition device_get_interface_by_name_contract :: "ptr \<Rightarrow> string option \<Rightarrow> world \<Rightarrow> ptr \<Rightarrow> bool" where
  "device_get_interface_by_name_contract dev iface_name w result \<longleftrightarrow>
     (if dev = NULL \<or> iface_name = None then result = NULL else result = NULL \<or> result \<in> w_live w)"

definition device_get_interface_by_ip_contract :: "ptr \<Rightarrow> world \<Rightarrow> ptr \<Rightarrow> bool" where
  "device_get_interface_by_ip_contract dev w result \<longleftrightarrow>
     (if dev = NULL then result = NULL else result = NULL \<or> result \<in> w_live w)"

definition device_receive_packet_contract :: "ptr \<Rightarrow> ptr \<Rightarrow> ptr \<Rightarrow> int \<Rightarrow> bool" where
  "device_receive_packet_contract dev in_iface pkt result \<longleftrightarrow>
     (if dev = NULL \<or> in_iface = NULL \<or> pkt = NULL then result = - 1 else result = 0 \<or> result = - 1)"

definition device_send_packet_contract :: "ptr \<Rightarrow> ptr \<Rightarrow> ptr \<Rightarrow> int \<Rightarrow> bool" where
  "device_send_packet_contract dev out_iface pkt result \<longleftrightarrow>
     (if dev = NULL \<or> out_iface = NULL \<or> pkt = NULL then result = - 1 else result = 0 \<or> result = - 1)"

section \<open>Topologies\<close>

definition topology_create_contract :: "ptr \<times> world \<Rightarrow> bool" where
  "topology_create_contract res \<longleftrightarrow>
     (case res of (result, w') \<Rightarrow> result \<noteq> NULL \<longrightarrow> result \<in> w_live w' \<and>
        tp_dev_count (w_topo w' result) = 0 \<and> 0 < tp_dev_cap (w_topo w' result) \<and>
        tp_link_count (w_topo w' result) = 0 \<and> 0 < tp_link_cap (w_topo w' result))"

definition topology_free_contract :: "ptr \<Rightarrow> world \<Rightarrow> world \<Rightarrow> bool" where
  "topology_free_contract topo w w' \<longleftrightarrow>
     w_live w - w_live w' \<subseteq>
       (if topo = NULL then {}
        else set (topo_devices (w_topo w topo)) \<union> set (topo_links (w_topo w topo)) \<union>
          {tp_devices_p (w_topo w topo), tp_links_p (w_topo w topo), topo})"

text \<open>\<open>assigns topo->devices\<close> names the pointer to the array, and not its cells.\<close>

definition topology_add_device_contract :: "ptr \<Rightarrow> ptr \<Rightarrow> world \<Rightarrow> int \<times> world \<Rightarrow> bool" where
  "topology_add_device_contract topo dev w res \<longleftrightarrow>
     (case res of (result, w') \<Rightarrow>
        if topo = NULL \<or> dev = NULL then w' = w \<and> result = - 1
        else
          same_but_memory (upd_topo topo (\<lambda>t. t\<lparr>tp_devices := array_frame (tp_devices t) (tp_devices (w_topo w' topo)),
             tp_dev_count := tp_dev_count (w_topo w' topo), tp_dev_cap := tp_dev_cap (w_topo w' topo)\<rparr>) w) w' \<and>
          (result = 0 \<or> result = - 1) \<and>
          (result = 0 \<longrightarrow> tp_dev_count (w_topo w' topo) = tp_dev_count (w_topo w topo) + 1))"

definition topology_add_link_contract :: "ptr \<Rightarrow> ptr \<Rightarrow> world \<Rightarrow> int \<times> world \<Rightarrow> bool" where
  "topology_add_link_contract topo link w res \<longleftrightarrow>
     (case res of (result, w') \<Rightarrow>
        if topo = NULL \<or> link = NULL then w' = w \<and> result = - 1
        else
          same_but_memory (upd_topo topo (\<lambda>t. t\<lparr>tp_links := array_frame (tp_links t) (tp_links (w_topo w' topo)),
             tp_link_count := tp_link_count (w_topo w' topo), tp_link_cap := tp_link_cap (w_topo w' topo)\<rparr>) w) w' \<and>
          (result = 0 \<or> result = - 1) \<and>
          (result = 0 \<longrightarrow> tp_link_count (w_topo w' topo) = tp_link_count (w_topo w topo) + 1))"

definition topology_find_device_by_name_contract :: "ptr \<Rightarrow> string option \<Rightarrow> world \<Rightarrow> ptr \<Rightarrow> bool" where
  "topology_find_device_by_name_contract topo name w result \<longleftrightarrow>
     (if topo = NULL \<or> name = None then result = NULL else result = NULL \<or> result \<in> w_live w)"

definition topology_find_device_by_ip_contract :: "ptr \<Rightarrow> world \<Rightarrow> ptr \<Rightarrow> bool" where
  "topology_find_device_by_ip_contract topo w result \<longleftrightarrow>
     (if topo = NULL then result = NULL else result = NULL \<or> result \<in> w_live w)"

definition topology_get_link_between_contract :: "ptr \<Rightarrow> ptr \<Rightarrow> ptr \<Rightarrow> world \<Rightarrow> ptr \<Rightarrow> bool" where
  "topology_get_link_between_contract topo iface_a iface_b w result \<longleftrightarrow>
     (if topo = NULL \<or> iface_a = NULL \<or> iface_b = NULL then result = NULL else result = NULL \<or> result \<in> w_live w)"

definition topology_device_count_contract :: "ptr \<Rightarrow> world \<Rightarrow> nat \<Rightarrow> bool" where
  "topology_device_count_contract topo w result \<longleftrightarrow>
     result = (if topo = NULL then 0 else tp_dev_count (w_topo w topo))"

definition topology_link_count_contract :: "ptr \<Rightarrow> world \<Rightarrow> nat \<Rightarrow> bool" where
  "topology_link_count_contract topo w result \<longleftrightarrow>
     result = (if topo = NULL then 0 else tp_link_count (w_topo w topo))"

section \<open>Switches and hosts\<close>

text \<open>A switch is a device with a MAC table, at the same address.\<close>

definition switch_create_contract :: "string option \<Rightarrow> ptr \<Rightarrow> world \<Rightarrow> ptr \<times> world \<Rightarrow> bool" where
  "switch_create_contract name sim w res \<longleftrightarrow>
     (case res of (result, w') \<Rightarrow>
        if name = None \<or> sim = NULL then w' = w \<and> result = NULL
        else result \<noteq> NULL \<longrightarrow> result \<in> w_live w' \<and>
          (\<forall>i < 48. dv_interfaces (w_dev w' result) ! i = NULL) \<and> mt_count (sw_mac_tbl (w_switch w' result)) = 0 \<and>
          sw_port_count (w_switch w' result) = 0 \<and> sw_sim (w_switch w' result) = sim)"

definition switch_free_contract :: "ptr \<Rightarrow> world \<Rightarrow> world \<Rightarrow> bool" where
  "switch_free_contract sw w w' \<longleftrightarrow>
     (if sw = NULL then w' = w
      else w_live w - w_live w' \<subseteq> set (device_ports (w_dev w sw)) \<union> {dv_interfaces_p (w_dev w sw), sw})"

definition switch_add_port_contract :: "ptr \<Rightarrow> ptr \<Rightarrow> world \<Rightarrow> int \<times> world \<Rightarrow> bool" where
  "switch_add_port_contract sw iface w res \<longleftrightarrow>
     (case res of (result, w') \<Rightarrow>
        if sw = NULL \<or> iface = NULL \<or> sw_port_count (w_switch w sw) \<ge> 48 then w' = w \<and> result = - 1
        else
          (let n = dv_iface_count (w_dev w sw) in
           w' = upd_switch sw (\<lambda>s. s\<lparr>sw_port_count := sw_port_count (w_switch w' sw)\<rparr>)
             (upd_dev sw (\<lambda>d. d\<lparr>dv_interfaces := take (Suc n) (dv_interfaces (w_dev w' sw)) @ drop (Suc n) (dv_interfaces d),
                 dv_iface_count := dv_iface_count (w_dev w' sw)\<rparr>)
               (upd_iface iface (\<lambda>i. i\<lparr>if_device := if_device (w_iface w' iface),
                 if_rx_handler := if_rx_handler (w_iface w' iface), if_handler_ctx := if_handler_ctx (w_iface w' iface)\<rparr>) w)) \<and>
           (result = 0 \<or> result = - 1)))"

definition switch_port_down_contract :: "ptr \<Rightarrow> ptr \<Rightarrow> world \<Rightarrow> world \<Rightarrow> bool" where
  "switch_port_down_contract sw port w w' \<longleftrightarrow>
     (if sw = NULL \<or> port = NULL then w' = w
      else w' = upd_switch sw (\<lambda>s. s\<lparr>sw_mac_tbl := sw_mac_tbl (w_switch w' sw)\<rparr>)
        (upd_iface port (\<lambda>i. i\<lparr>if_up := if_up (w_iface w' port)\<rparr>) w))"

definition switch_get_port_by_name_contract :: "ptr \<Rightarrow> string option \<Rightarrow> world \<Rightarrow> ptr \<Rightarrow> bool" where
  "switch_get_port_by_name_contract sw name w result \<longleftrightarrow>
     (if sw = NULL \<or> name = None then result = NULL else result = NULL \<or> result \<in> w_live w)"

definition host_create_contract :: "string option \<Rightarrow> ptr \<Rightarrow> u32 \<Rightarrow> world \<Rightarrow> ptr \<times> world \<Rightarrow> bool" where
  "host_create_contract name sim gateway_ip w res \<longleftrightarrow>
     (case res of (result, w') \<Rightarrow>
        if name = None \<or> sim = NULL then w' = w \<and> result = NULL
        else result \<noteq> NULL \<longrightarrow> result \<in> w_live w' \<and> ho_sim (w_host w' result) = sim \<and>
          dv_iface_count (w_dev w' result) = 0 \<and> dv_iface_max (w_dev w' result) = 8 \<and>
          dv_interfaces_p (w_dev w' result) \<noteq> NULL \<and> ho_gateway_ip (w_host w' result) = gateway_ip)"

definition host_free_contract :: "ptr \<Rightarrow> world \<Rightarrow> world \<Rightarrow> bool" where
  "host_free_contract host w w' \<longleftrightarrow>
     (if host = NULL then w' = w
      else w_live w - w_live w' \<subseteq> set (device_ports (w_dev w host)) \<union>
        {ho_tcp_context (w_host w host), ho_udp_context (w_host w host), ho_tcp_table (w_host w host),
         ho_udp_state (w_host w host), ho_ip_stack (w_host w host), ho_arp_cache (w_host w host),
         dv_interfaces_p (w_dev w host), host})"

text \<open>The behaviours of \<open>host_add_interface\<close>; the interface array is compared up to the new entry.\<close>

definition host_add_interface_contract :: "ptr \<Rightarrow> ptr \<Rightarrow> world \<Rightarrow> int \<times> world \<Rightarrow> bool" where
  "host_add_interface_contract host iface w res \<longleftrightarrow>
     (case res of (result, w') \<Rightarrow>
        if host = NULL \<or> iface = NULL then w' = w \<and> result = - 1
        else if int (dv_iface_count (w_dev w host)) \<ge> dv_iface_max (w_dev w host) then w' = w \<and> result = - 1
        else
          (let n = dv_iface_count (w_dev w host) in
           w' = upd_dev host (\<lambda>d. d\<lparr>dv_interfaces := take (Suc n) (dv_interfaces (w_dev w' host)) @ drop (Suc n) (dv_interfaces d),
                 dv_iface_count := dv_iface_count (w_dev w' host)\<rparr>)
               (upd_iface iface (\<lambda>i. i\<lparr>if_device := if_device (w_iface w' iface), if_arp_cache := if_arp_cache (w_iface w' iface),
                 if_rx_handler := if_rx_handler (w_iface w' iface), if_handler_ctx := if_handler_ctx (w_iface w' iface)\<rparr>) w) \<and>
           (result = 0 \<or> result = - 1) \<and>
           (result = 0 \<longrightarrow> dv_iface_count (w_dev w' host) = n + 1 \<and> dv_interfaces (w_dev w' host) ! n = iface \<and>
              if_device (w_iface w' iface) = host)))"

section \<open>Protocol stacks\<close>

definition arp_init_contract :: "ptr \<Rightarrow> world \<Rightarrow> world \<Rightarrow> bool" where
  "arp_init_contract sim w w' \<longleftrightarrow>
     (if sim = NULL then w' = w
      else w' = upd_sched (sm_sched (w_sim w sim)) (\<lambda>k. k\<lparr>sc_handlers := (sc_handlers k)
        (EVT_ARP_REQUEST := sc_handlers (run_sched sim w') EVT_ARP_REQUEST,
         EVT_ARP_REPLY := sc_handlers (run_sched sim w') EVT_ARP_REPLY)\<rparr>) w)"

text \<open>\<open>devices[0 .. dev_count-1]->interfaces[0 ..]\<close>: every cell of the interface arrays.\<close>

definition ip_init_contract :: "ptr \<Rightarrow> ptr \<Rightarrow> world \<Rightarrow> world \<Rightarrow> bool" where
  "ip_init_contract sim stack w w' \<longleftrightarrow>
     (if sim = NULL \<or> sm_topo (w_sim w sim) = NULL \<or> stack = NULL then w' = w
      else
        (let ports = concat (map (\<lambda>d. dv_interfaces (w_dev w d)) (topo_devices (w_topo w (sm_topo (w_sim w sim)))))
         in w' = w\<lparr>w_iface := (\<lambda>i. if i \<in> set ports
                then (w_iface w i)\<lparr>if_rx_handler := if_rx_handler (w_iface w' i), if_handler_ctx := if_handler_ctx (w_iface w' i)\<rparr>
                else w_iface w i),
              w_ips := (w_ips w)(stack := (w_ips w stack)\<lparr>is_sim := is_sim (w_ips w' stack), is_protocols := is_protocols (w_ips w' stack)\<rparr>)\<rparr>))"

definition ip_stack_init_contract :: "ptr \<Rightarrow> ptr \<Rightarrow> world \<Rightarrow> world \<Rightarrow> bool" where
  "ip_stack_init_contract stack sim w w' \<longleftrightarrow>
     (if stack = NULL then w' = w
      else w' = upd_ips stack (\<lambda>s. s\<lparr>is_sim := is_sim (w_ips w' stack), is_protocols := is_protocols (w_ips w' stack)\<rparr>) w \<and>
        is_sim (w_ips w' stack) = sim)"

definition ip_stack_bind_interface_contract :: "ptr \<Rightarrow> ptr \<Rightarrow> world \<Rightarrow> int \<times> world \<Rightarrow> bool" where
  "ip_stack_bind_interface_contract stack iface w res \<longleftrightarrow>
     (case res of (result, w') \<Rightarrow>
        if stack = NULL \<or> iface = NULL then w' = w \<and> result = - 1
        else w' = upd_iface iface (\<lambda>i. i\<lparr>if_rx_handler := if_rx_handler (w_iface w' iface),
               if_handler_ctx := if_handler_ctx (w_iface w' iface)\<rparr>) w \<and> result = 0)"

definition ip_stack_register_protocol_contract ::
  "ptr \<Rightarrow> u8 \<Rightarrow> IpProtocolHandler \<Rightarrow> world \<Rightarrow> int \<times> world \<Rightarrow> bool" where
  "ip_stack_register_protocol_contract stack protocol handler w res \<longleftrightarrow>
     (case res of (result, w') \<Rightarrow>
        if stack = NULL \<or> handler = PH_NULL then w' = w \<and> result = - 1
        else w' = upd_ips stack (\<lambda>s. s\<lparr>is_protocols := (is_protocols s)(protocol := is_protocols (w_ips w' stack) protocol)\<rparr>) w \<and>
          result = 0)"

definition ip_stack_unregister_protocol_contract :: "ptr \<Rightarrow> u8 \<Rightarrow> world \<Rightarrow> int \<times> world \<Rightarrow> bool" where
  "ip_stack_unregister_protocol_contract stack protocol w res \<longleftrightarrow>
     (case res of (result, w') \<Rightarrow>
        if stack = NULL then w' = w \<and> result = - 1
        else w' = upd_ips stack (\<lambda>s. s\<lparr>is_protocols := (is_protocols s)(protocol := is_protocols (w_ips w' stack) protocol)\<rparr>) w \<and>
          result = 0)"

definition ip_is_local_contract :: "ptr \<Rightarrow> u32 \<Rightarrow> world \<Rightarrow> int \<Rightarrow> bool" where
  "ip_is_local_contract dev dst_ip w result \<longleftrightarrow>
     (if dev = NULL then result = 0
      else if list_ex (\<lambda>i. if_ip_addr (w_iface w i) = dst_ip) (device_ports (w_dev w dev)) then result = 1
      else result = 0)"

section \<open>Meeting them\<close>

lemma same_memory_free [simp]: "same_but_memory w (free_block p w)"
  by (simp add: same_but_memory_def free_block_def)

lemma upd_iface_same: "f (w_iface w p) = w_iface w p \<Longrightarrow> upd_iface p f w = w"
  by (simp add: upd_iface_def)

lemma interface_meets:
  "interface_create_contract ip pl mtu (interface_create name mac ip pl mtu w)"
  "interface_free_contract w (interface_free p w)"
  "interface_set_up_contract p up w (interface_set_up p up w)" "interface_is_up_contract p w (interface_is_up p w)"
  "interface_set_link_contract p l w (interface_set_link p l w)" "interface_get_link_contract p w (interface_get_link p w)"
  "interface_get_mac_contract p w (interface_get_mac p w)" "interface_get_ip_contract p w (interface_get_ip p w)"
  "interface_set_rx_handler_contract p fn ctx w (interface_set_rx_handler p fn ctx w)"
  "interface_set_arp_cache_contract p l w (interface_set_arp_cache p l w)"
  using malloc_live [of w] same_memory_free [of w p]
  by (auto simp: interface_create_contract_def interface_create_def interface_free_contract_def interface_free_def
      interface_set_up_contract_def interface_set_up_def interface_is_up_contract_def interface_is_up_def
      interface_set_link_contract_def interface_set_link_def interface_get_link_contract_def interface_get_link_def
      interface_get_mac_contract_def interface_get_mac_def interface_get_ip_contract_def interface_get_ip_def
      interface_set_rx_handler_contract_def interface_set_rx_handler_def interface_set_arp_cache_contract_def
      interface_set_arp_cache_def Let_def split_def upd_iface_def) (simp add: same_but_memory_def)

lemma unat_plus_u64: "unat ((a :: u64) + b) = unat a + unat b \<longleftrightarrow> unat a + unat b < 2 ^ 64"
  using unat_u64 [of "a + b"] by (auto simp: unat_word_ariths)

lemma interface_bytes_meet:
  "interface_add_tx_bytes_contract p n w (interface_add_tx_bytes p n w) \<longleftrightarrow>
     p = NULL \<or> unat (if_tx_bytes (w_iface w p)) + unat n < 2 ^ 64"
  "interface_add_rx_bytes_contract p n w (interface_add_rx_bytes p n w) \<longleftrightarrow>
     p = NULL \<or> unat (if_rx_bytes (w_iface w p)) + unat n < 2 ^ 64"
  using unat_plus_u64 [of "if_tx_bytes (w_iface w p)" n] unat_plus_u64 [of "if_rx_bytes (w_iface w p)" n]
  by (simp_all add: interface_add_tx_bytes_contract_def interface_add_tx_bytes_def interface_add_rx_bytes_contract_def
      interface_add_rx_bytes_def upd_iface_def)

lemma link_meets:
  "link_create_contract a b bw d w (link_create a b bw d lr w)" "link_free_contract w (link_free p w)"
  "link_set_up_contract p up w (link_set_up p up w)" "link_is_up_contract p w (link_is_up p w)"
  "link_get_other_interface_contract p s w (link_get_other_interface p s w)"
  using malloc_live [of w] same_memory_free [of w p]
  by (auto simp: link_create_contract_def link_create_def link_free_contract_def link_free_def link_set_up_contract_def
      link_set_up_def link_is_up_contract_def link_is_up_def link_get_other_interface_contract_def
      link_get_other_interface_def Let_def split_def upd_link_def) (simp add: same_but_memory_def)

lemma free_block_live: "w_live (free_block p w) = w_live w - ({p} - {NULL})"
  by (auto simp: free_block_def)

lemma interface_free_live: "w_live (interface_free p w) = w_live w - ({p} - {NULL})"
  by (auto simp: interface_free_def free_block_live)

lemma free_interfaces_live:
  "w_live (free_interfaces ps w) = w_live w - (set ps - {NULL}) \<and> w_dev (free_interfaces ps w) = w_dev w"
proof (induction ps arbitrary: w)
  case (Cons p ps)
  have "w_dev (interface_free p w) = w_dev w" by (simp add: interface_free_def)
  then show ?case using Cons.IH [of "interface_free p w"] by (auto simp: interface_free_live)
qed simp

text \<open>What \<open>device_free\<close> frees: the interfaces, their array and the device.\<close>

definition device_blocks :: "world \<Rightarrow> ptr \<Rightarrow> ptr set" where
  "device_blocks w dev =
     (if dev = NULL then {} else set (device_ports (w_dev w dev)) \<union> {dv_interfaces_p (w_dev w dev), dev} - {NULL})"

lemma device_free_live:
  "w_live (device_free dev w) = w_live w - device_blocks w dev \<and> w_dev (device_free dev w) = w_dev w"
  using free_interfaces_live [of "device_ports (w_dev w dev)" w]
  by (auto simp: device_free_def Let_def device_blocks_def free_block_live)

lemma device_meets:
  "device_create_contract name n w (device_create name n w)" "device_free_contract dev w (device_free dev w)"
  "device_receive_packet_contract dev i p (device_receive_packet dev i p)"
  "device_send_packet_contract dev i p (device_send_packet dev i p)"
proof -
  show "device_create_contract name n w (device_create name n w)"
    using malloc_live [of w] malloc_keeps_live [of "fst (malloc w)" "snd (malloc w)"]
    by (auto simp: device_create_contract_def device_create_def Let_def split_def split: option.split)
  show "device_free_contract dev w (device_free dev w)"
    using device_free_live [of dev w] by (auto simp: device_free_contract_def device_blocks_def)
qed (auto simp: device_receive_packet_contract_def device_receive_packet_def device_send_packet_contract_def
    device_send_packet_def)

lemma device_add_meets:
  assumes "int (length (dv_interfaces (w_dev w dev))) = dv_iface_max (w_dev w dev)"
  shows "device_add_interface_contract dev iface w (device_add_interface dev iface w)"
proof -
  have id: "upd_dev dev (\<lambda>d. d) (upd_iface iface (\<lambda>i. i) w) = w" by (simp add: upd_dev_def upd_iface_def)
  have upd: "take (Suc n) (xs[n := x]) @ drop (Suc n) xs = xs[n := x]" if "n < length xs" for n xs and x :: ptr
    using that by (simp add: take_Suc_conv_app_nth upd_conv_take_nth_drop)
  show ?thesis
    using assms id
    by (auto simp: device_add_interface_contract_def device_add_interface_def Let_def upd)
qed

lemma first_index_in: "first_index P (take n xs) = Some k \<Longrightarrow> set (take n xs) \<subseteq> S \<Longrightarrow> xs ! k \<in> S"
  by (metis first_index_SomeD(1) nth_mem nth_take length_take min_less_iff_conj subsetD)

lemma lookups_meet:
  "set (device_ports (w_dev w dev)) \<subseteq> w_live w \<Longrightarrow>
     device_get_interface_by_name_contract dev nm w (device_get_interface_by_name dev nm w) \<and>
     device_get_interface_by_ip_contract dev w (device_get_interface_by_ip dev ip w)"
  "set (topo_devices (w_topo w topo)) \<subseteq> w_live w \<Longrightarrow>
     topology_find_device_by_name_contract topo nm w (topology_find_device_by_name topo nm w) \<and>
     topology_find_device_by_ip_contract topo w (topology_find_device_by_ip topo ip w)"
  "set (topo_links (w_topo w topo)) \<subseteq> w_live w \<Longrightarrow>
     topology_get_link_between_contract topo a b w (topology_get_link_between topo a b w)"
  by (auto simp: device_get_interface_by_name_contract_def device_get_interface_by_name_def device_ports_def
      device_get_interface_by_ip_contract_def device_get_interface_by_ip_def topology_find_device_by_name_contract_def
      topology_find_device_by_name_def topology_find_device_by_ip_contract_def topology_find_device_by_ip_def
      topology_get_link_between_contract_def topology_get_link_between_def topo_devices_def topo_links_def
      split: option.splits dest!: first_index_in)

lemma topology_meets:
  "topology_create_contract (topology_create w)"
  "topology_device_count_contract topo w (topology_device_count topo w)"
  "topology_link_count_contract topo w (topology_link_count topo w)"
proof -
  show "topology_create_contract (topology_create w)"
    using malloc_live [of w] malloc_keeps_live [of "fst (malloc w)" "snd (malloc w)"]
      malloc_keeps_live [of "fst (malloc w)" "snd (malloc (snd (malloc w)))"]
    by (auto simp: topology_create_contract_def topology_create_def Let_def split_def)
qed (auto simp: topology_device_count_contract_def topology_device_count_def topology_link_count_contract_def
    topology_link_count_def)

text \<open>An addition meets its contract when it fails, grows the array or changes no cell.\<close>

lemma topo_assigned:
  "same_but_memory (upd_topo topo f w) (upd_topo topo (\<lambda>_. t) (w\<lparr>w_mallocs := n\<rparr>)) \<longleftrightarrow> f (w_topo w topo) = t"
proof
  assume "same_but_memory (upd_topo topo f w) (upd_topo topo (\<lambda>_. t) (w\<lparr>w_mallocs := n\<rparr>))"
  then have "w_topo (upd_topo topo (\<lambda>_. t) (w\<lparr>w_mallocs := n\<rparr>)) topo = w_topo (upd_topo topo f w) topo"
    by (cases w) (simp add: same_but_memory_def upd_topo_def)
  then show "f (w_topo w topo) = t" by simp
qed (simp add: same_but_memory_def upd_topo_def)

lemma topology_add_device_meets:
  assumes cap: "0 < tp_dev_cap (w_topo w topo)"
  shows "topology_add_device_contract topo dev w (topology_add_device topo dev w) \<longleftrightarrow>
     fst (topology_add_device topo dev w) = - 1 \<or> tp_dev_count (w_topo w topo) = tp_dev_cap (w_topo w topo) \<or>
     tp_devices (w_topo (snd (topology_add_device topo dev w)) topo) = tp_devices (w_topo w topo)"
proof (cases "topo = NULL \<or> dev = NULL")
  case True
  then show ?thesis by (auto simp: topology_add_device_contract_def topology_add_device_def)
next
  case False
  let ?t = "w_topo w topo"
  show ?thesis
  proof (cases "tp_dev_count ?t = tp_dev_cap ?t")
    case full: True
    show ?thesis
    proof (cases "w_oom w (w_mallocs w)")
      case True
      then show ?thesis using False full topo_assigned [of topo _ w ?t "Suc (w_mallocs w)"]
        by (simp add: topology_add_device_contract_def topology_add_device_def realloc_def Let_def array_frame_def upd_topo_def)
    next
      case mem: False
      then show ?thesis using False full cap
        by (simp add: topology_add_device_contract_def topology_add_device_def realloc_def Let_def topo_assigned array_frame_def)
    qed
  next
    case room: False
    have "topology_add_device topo dev w = (0, upd_topo topo (\<lambda>_. ?t\<lparr>tp_devices := (tp_devices ?t)[tp_dev_count ?t := dev],
        tp_dev_count := tp_dev_count ?t + 1\<rparr>) w)"
      using False room by (simp add: topology_add_device_def Let_def)
    then show ?thesis using False room
      by (auto simp: topology_add_device_contract_def topo_assigned topo_assigned [of topo _ w _ "w_mallocs w", simplified]
          array_frame_def dest: arg_cong [where f = tp_devices])
  qed
qed

lemma topology_add_link_meets:
  assumes cap: "0 < tp_link_cap (w_topo w topo)"
  shows "topology_add_link_contract topo link w (topology_add_link topo link w) \<longleftrightarrow>
     fst (topology_add_link topo link w) = - 1 \<or> tp_link_count (w_topo w topo) = tp_link_cap (w_topo w topo) \<or>
     tp_links (w_topo (snd (topology_add_link topo link w)) topo) = tp_links (w_topo w topo)"
proof (cases "topo = NULL \<or> link = NULL")
  case True
  then show ?thesis by (auto simp: topology_add_link_contract_def topology_add_link_def)
next
  case False
  let ?t = "w_topo w topo"
  show ?thesis
  proof (cases "tp_link_count ?t = tp_link_cap ?t")
    case full: True
    show ?thesis
    proof (cases "w_oom w (w_mallocs w)")
      case True
      then show ?thesis using False full topo_assigned [of topo _ w ?t "Suc (w_mallocs w)"]
        by (simp add: topology_add_link_contract_def topology_add_link_def realloc_def Let_def array_frame_def upd_topo_def)
    next
      case mem: False
      then show ?thesis using False full cap
        by (simp add: topology_add_link_contract_def topology_add_link_def realloc_def Let_def topo_assigned array_frame_def)
    qed
  next
    case room: False
    have "topology_add_link topo link w = (0, upd_topo topo (\<lambda>_. ?t\<lparr>tp_links := (tp_links ?t)[tp_link_count ?t := link],
        tp_link_count := tp_link_count ?t + 1\<rparr>) w)"
      using False room by (simp add: topology_add_link_def Let_def)
    then show ?thesis using False room
      by (auto simp: topology_add_link_contract_def topo_assigned topo_assigned [of topo _ w _ "w_mallocs w", simplified]
          array_frame_def dest: arg_cong [where f = tp_links])
  qed
qed

lemma stack_meets:
  "sm_sched (w_sim w sim) \<noteq> NULL \<Longrightarrow> arp_init_contract sim w (arp_init sim w)"
  "ip_stack_init_contract st sim w (ip_stack_init st sim w)"
  "ip_stack_bind_interface_contract st i w (ip_stack_bind_interface st i w)"
  "ip_stack_register_protocol_contract st pr h w (ip_stack_register_protocol st pr h ctx w)"
  "ip_stack_unregister_protocol_contract st pr w (ip_stack_unregister_protocol st pr w)"
  by (auto simp: arp_init_contract_def arp_init_def scheduler_register_def evt_in_range_def ip_stack_init_contract_def
      ip_stack_init_def ip_stack_bind_interface_contract_def ip_stack_bind_interface_def interface_set_rx_handler_def
      ip_stack_register_protocol_contract_def ip_stack_register_protocol_def ip_stack_unregister_protocol_contract_def
      ip_stack_unregister_protocol_def Let_def upd_sched_def upd_ips_def upd_iface_def fun_eq_iff)

lemma ip_is_local_meets: "ip_is_local_contract dev ip w (ip_is_local dev ip w)"
proof (cases "first_index (\<lambda>i. if_ip_addr (w_iface w i) = ip) (device_ports (w_dev w dev))")
  case (Some k)
  then show ?thesis using first_index_SomeD [OF Some] nth_mem
    by (fastforce simp: ip_is_local_contract_def ip_is_local_def list_ex_iff)
next
  case None
  then have "\<forall>i \<in> set (device_ports (w_dev w dev)). if_ip_addr (w_iface w i) \<noteq> ip" by (simp add: first_index_None)
  then show ?thesis using None by (auto simp: ip_is_local_contract_def ip_is_local_def list_ex_iff)
qed

lemma switch_free_meets: "switch_free_contract sw w (switch_free sw w)"
  using device_free_live [of sw w] by (auto simp: switch_free_contract_def switch_free_def device_blocks_def)

lemma switch_port_down_meets: "switch_port_down_contract sw p w (switch_port_down sw p w)"
  by (auto simp: switch_port_down_contract_def switch_port_down_def interface_set_up_def set_mac_tbl_def Let_def
      upd_switch_def upd_iface_def split: option.split)

lemma switch_get_port_meets:
  "set (device_ports (w_dev w sw)) \<subseteq> w_live w \<Longrightarrow> switch_get_port_by_name_contract sw nm w (switch_get_port_by_name sw nm w)"
  using lookups_meet(1) [of w sw nm]
  by (auto simp: switch_get_port_by_name_contract_def switch_get_port_by_name_def
      device_get_interface_by_name_contract_def)

lemma take_drop_update: "n < length xs \<Longrightarrow> take (Suc n) (xs[n := x]) @ drop (Suc n) xs = xs[n := x]"
  by (simp add: take_Suc_conv_app_nth upd_conv_take_nth_drop)

lemma host_add_meets:
  assumes "int (length (dv_interfaces (w_dev w host))) = dv_iface_max (w_dev w host)"
  shows "host_add_interface_contract host iface w (host_add_interface host iface w)"
proof -
  have id: "upd_dev host (\<lambda>d. d) (upd_iface iface (\<lambda>i. i) w) = w" by (simp add: upd_dev_def upd_iface_def)
  show ?thesis
    using assms id
    by (auto simp: host_add_interface_contract_def host_add_interface_def device_add_interface_def
        interface_set_arp_cache_def ip_stack_bind_interface_def interface_set_rx_handler_def Let_def take_drop_update
        upd_dev_def upd_iface_def)
qed

lemma host_free_meets: "host_free_contract host w (host_free host w)"
  using free_interfaces_live [of "device_ports (w_dev w host)" w]
  by (auto simp: host_free_contract_def host_free_def Let_def free_block_live)

text \<open>What \<open>host_create\<close> has established when it goes on from one allocation to the next.\<close>

definition host_begun :: "ptr \<Rightarrow> ptr \<Rightarrow> world \<Rightarrow> bool" where
  "host_begun host sim w \<longleftrightarrow> host \<in> w_live w \<and> ho_sim (w_host w host) = sim \<and> dv_iface_count (w_dev w host) = 0 \<and>
     dv_iface_max (w_dev w host) = 8 \<and> dv_interfaces_p (w_dev w host) \<noteq> NULL"

definition host_made :: "ptr \<Rightarrow> u32 \<Rightarrow> ptr \<times> world \<Rightarrow> bool" where
  "host_made sim gateway_ip res \<longleftrightarrow> fst res = NULL \<or>
     (host_begun (fst res) sim (snd res) \<and> ho_gateway_ip (w_host (snd res) (fst res)) = gateway_ip)"

lemma host_alloc_made:
  assumes "host_begun host sim w" and put: "\<And>p h. ho_sim (put p h) = ho_sim h"
    and init: "\<And>p v. w_live (init p v) = w_live v \<and> w_host (init p v) = w_host v \<and> w_dev (init p v) = w_dev v"
    and rest: "\<And>v. host_begun host sim v \<Longrightarrow> host_made sim g (rest v)"
  shows "host_made sim g (host_alloc host put init rest w)"
proof -
  obtain p v where m: "malloc w = (p, v)" by fastforce
  have "host_begun host sim (init p (upd_host host (put p) v))"
    using assms(1) put init m malloc_keeps_live [of host w]
    by (cases w rule: malloc_cases) (auto simp: host_begun_def upd_host_def)
  then show ?thesis using rest m by (simp add: host_alloc_def host_made_def Let_def)
qed

lemma host_register_made:
  assumes "host_begun host sim w" and rest: "\<And>v. host_begun host sim v \<Longrightarrow> host_made sim g (rest v)"
  shows "host_made sim g (host_register host pr h ctx rest w)"
proof -
  obtain r v where v: "ip_stack_register_protocol (ho_ip_stack (w_host w host)) pr h (ctx (w_host w host)) w = (r, v)" by fastforce
  then have "host_begun host sim v"
    using assms(1) by (auto simp: ip_stack_register_protocol_def upd_ips_def host_begun_def split: if_splits)
  then show ?thesis using rest v by (simp add: host_register_def host_made_def)
qed

lemma host_create_meets: "host_create_contract name sim g w (host_create name sim g w)"
proof (cases "name = None \<or> sim = NULL")
  case True
  then show ?thesis by (auto simp: host_create_contract_def host_create_def split: option.split)
next
  case False
  then obtain nm where nm: "name = Some nm" by auto
  have "host_made sim g (host_create name sim g w)"
  proof -
    obtain host w1 where m1: "malloc w = (host, w1)" by fastforce
    define w2 where "w2 = upd_host host (\<lambda>_. \<lparr>ho_sim = sim, ho_arp_cache = NULL, ho_ip_stack = NULL, ho_udp_state = NULL,
      ho_udp_context = NULL, ho_tcp_table = NULL, ho_tcp_context = NULL, ho_gateway_ip = 0\<rparr>) w1"
    obtain arr w3 where m3: "malloc w2 = (arr, w3)" by fastforce
    define w4 where "w4 = upd_dev host (\<lambda>_. \<lparr>dv_name = take 31 nm, dv_interfaces_p = arr,
      dv_interfaces = map (w_junk_ptr w3 arr) [0..<8], dv_iface_count = 0, dv_iface_max = 8\<rparr>) w3"
    have begun: "host_begun host sim w4" if "host \<noteq> NULL" "arr \<noteq> NULL"
      using malloc_live [of w] malloc_keeps_live [of host w2] m1 m3 that
      by (cases w2 rule: malloc_cases) (auto simp: host_begun_def w4_def w2_def)
    show ?thesis
    proof (cases "host = NULL \<or> arr = NULL")
      case True
      then show ?thesis
        using False by (auto simp: host_create_def nm m1 w2_def [symmetric] m3 Let_def host_made_def)
    next
      case ok: False
      then have "host \<noteq> NULL" "arr \<noteq> NULL" by auto
      then show ?thesis
        using False begun unfolding host_create_def nm
        by (simp add: m1 w2_def [symmetric] m3 w4_def [symmetric])
          (intro host_alloc_made host_register_made; auto simp: set_arp_def set_udp_def set_tcp_def ip_stack_init_def
            host_made_def host_begun_def)
    qed
  qed
  then show ?thesis using False
    by (auto simp: host_create_contract_def host_made_def host_begun_def split_def)
qed

text \<open>\<open>ip_init\<close> changes the receive handlers of the interfaces of the topology only.\<close>

definition handlers_bound :: "ptr set \<Rightarrow> world \<Rightarrow> world \<Rightarrow> bool" where
  "handlers_bound S w w' \<longleftrightarrow> (\<exists>h c. w' = w\<lparr>w_iface := (\<lambda>i. if i \<in> S
     then (w_iface w i)\<lparr>if_rx_handler := h i, if_handler_ctx := c i\<rparr> else w_iface w i)\<rparr>)"

lemma handlers_self: "i\<lparr>if_rx_handler := if_rx_handler i, if_handler_ctx := if_handler_ctx i\<rparr> = i"
  by (cases i) simp

lemma handlers_bound_refl: "handlers_bound S w w"
proof -
  have "w = w\<lparr>w_iface := (\<lambda>i. if i \<in> S then (w_iface w i)\<lparr>if_rx_handler := if_rx_handler (w_iface w i),
      if_handler_ctx := if_handler_ctx (w_iface w i)\<rparr> else w_iface w i)\<rparr>"
    unfolding handlers_self by simp
  then show ?thesis unfolding handlers_bound_def
    by (intro exI [where x = "\<lambda>i. if_rx_handler (w_iface w i)"] exI [where x = "\<lambda>i. if_handler_ctx (w_iface w i)"])
qed

lemma handlers_bound_trans:
  assumes "handlers_bound S a b" "handlers_bound S b c"
  shows "handlers_bound S a c"
proof -
  obtain h g k l where b: "b = a\<lparr>w_iface := (\<lambda>i. if i \<in> S then (w_iface a i)\<lparr>if_rx_handler := h i, if_handler_ctx := g i\<rparr> else w_iface a i)\<rparr>"
    and c: "c = b\<lparr>w_iface := (\<lambda>i. if i \<in> S then (w_iface b i)\<lparr>if_rx_handler := k i, if_handler_ctx := l i\<rparr> else w_iface b i)\<rparr>"
    using assms unfolding handlers_bound_def by blast
  have "c = a\<lparr>w_iface := (\<lambda>i. if i \<in> S then (w_iface a i)\<lparr>if_rx_handler := k i, if_handler_ctx := l i\<rparr> else w_iface a i)\<rparr>"
    unfolding c by (simp add: b cong: if_cong)
  then show ?thesis unfolding handlers_bound_def by blast
qed

lemma bind_interface_bound:
  assumes "i \<in> S"
  shows "handlers_bound S w (snd (ip_stack_bind_interface st i w))"
proof (cases "st = NULL \<or> i = NULL")
  case False
  have "(w_iface w)(i := (w_iface w i)\<lparr>if_rx_handler := RX_ip_rx_shim, if_handler_ctx := st\<rparr>) =
    (\<lambda>j. if j \<in> S then (w_iface w j)\<lparr>if_rx_handler := (if j = i then RX_ip_rx_shim else if_rx_handler (w_iface w j)),
       if_handler_ctx := (if j = i then st else if_handler_ctx (w_iface w j))\<rparr> else w_iface w j)"
    using assms by (auto simp: fun_eq_iff handlers_self)
  then show ?thesis using False unfolding handlers_bound_def
    by (intro exI [where x = "\<lambda>j. if j = i then RX_ip_rx_shim else if_rx_handler (w_iface w j)"]
        exI [where x = "\<lambda>j. if j = i then st else if_handler_ctx (w_iface w j)"])
      (simp add: ip_stack_bind_interface_def interface_set_rx_handler_def upd_iface_def)
qed (auto simp: ip_stack_bind_interface_def handlers_bound_refl)

lemma bind_interfaces_bound: "set is \<subseteq> S \<Longrightarrow> handlers_bound S w (bind_interfaces st is w)"
proof (induction "is" arbitrary: w)
  case (Cons i "is")
  have "handlers_bound S w (snd (ip_stack_bind_interface st i w))"
    using Cons.prems by (intro bind_interface_bound) simp
  moreover have "handlers_bound S (snd (ip_stack_bind_interface st i w)) (bind_interfaces st (i # is) w)"
    using Cons by simp
  ultimately show ?case by (rule handlers_bound_trans)
qed (simp add: handlers_bound_refl)

lemma bind_devices_bound:
  "(\<Union>d \<in> set ds. set (device_ports (w_dev w d))) \<subseteq> S \<Longrightarrow> handlers_bound S w (bind_devices st ds w)"
proof (induction ds arbitrary: w)
  case (Cons d ds)
  let ?w = "bind_interfaces st (device_ports (w_dev w d)) w"
  have one: "handlers_bound S w ?w" using Cons.prems by (intro bind_interfaces_bound) auto
  then have "w_dev ?w = w_dev w" by (auto simp: handlers_bound_def)
  then have "handlers_bound S ?w (bind_devices st (d # ds) w)" using Cons by simp
  then show ?case by (rule handlers_bound_trans [OF one])
qed (simp add: handlers_bound_refl)

lemma ip_init_meets: "ip_init_contract sim st w (ip_init sim st w)"
proof (cases "sim = NULL \<or> sm_topo (w_sim w sim) = NULL \<or> st = NULL")
  case True
  then show ?thesis by (auto simp: ip_init_contract_def ip_init_def)
next
  case False
  let ?ds = "topo_devices (w_topo w (sm_topo (w_sim w sim)))"
  let ?S = "set (concat (map (\<lambda>d. dv_interfaces (w_dev w d)) ?ds))"
  let ?w = "ip_stack_init st sim w"
  have w: "w_dev ?w = w_dev w" "w_iface ?w = w_iface w" by (simp_all add: ip_stack_init_def)
  have "handlers_bound ?S ?w (bind_devices st ?ds ?w)"
    using set_take_subset by (intro bind_devices_bound) (fastforce simp: w device_ports_def)
  moreover have "ip_init sim st w = bind_devices st ?ds ?w" using False by (simp add: ip_init_def ip_stack_init_def Let_def)
  ultimately obtain h c where b: "ip_init sim st w = ?w\<lparr>w_iface := (\<lambda>i. if i \<in> ?S
      then (w_iface w i)\<lparr>if_rx_handler := h i, if_handler_ctx := c i\<rparr> else w_iface w i)\<rparr>"
    unfolding handlers_bound_def w by auto
  define X where "X = (w_ips w)(st := \<lparr>is_sim = sim, is_protocols = (\<lambda>_. (PH_NULL, NULL))\<rparr>)"
  have X: "X = (w_ips w)(st := (w_ips w st)\<lparr>is_sim := is_sim (X st), is_protocols := is_protocols (X st)\<rparr>)"
    by (cases "w_ips w st") (simp add: X_def)
  have init: "?w = w\<lparr>w_ips := X\<rparr>" using False by (simp add: ip_stack_init_def upd_ips_def X_def)
  show ?thesis using False X unfolding ip_init_contract_def Let_def b init
    by (simp cong: if_cong)
qed

lemma switch_add_meets:
  assumes "int (length (dv_interfaces (w_dev w sw))) = dv_iface_max (w_dev w sw)"
  shows "switch_add_port_contract sw iface w (switch_add_port sw iface w) \<longleftrightarrow>
    fst (switch_add_port sw iface w) \<noteq> 0 \<or> if_up (w_iface w iface) = 1"
proof (cases "sw = NULL \<or> iface = NULL \<or> sw_port_count (w_switch w sw) \<ge> 48")
  case True
  then show ?thesis by (auto simp: switch_add_port_contract_def switch_add_port_def)
next
  case args: False
  obtain r v where add: "device_add_interface sw iface w = (r, v)" by fastforce
  let ?n = "dv_iface_count (w_dev w sw)"
  show ?thesis
  proof (cases "r = 0")
    case False
    then have v: "v = w" "r = - 1" using add by (auto simp: device_add_interface_def Let_def split: if_splits)
    have "upd_switch sw (\<lambda>s. s) (upd_dev sw (\<lambda>d. d) (upd_iface iface (\<lambda>i. i) w)) = w"
      by (simp add: upd_dev_def upd_iface_def upd_switch_def)
    then show ?thesis using args add v by (simp add: switch_add_port_contract_def switch_add_port_def)
  next
    case True
    define d where "d = upd_dev sw (\<lambda>d. d\<lparr>dv_interfaces := (dv_interfaces d)[?n := iface], dv_iface_count := ?n + 1\<rparr>) w"
    define f :: "int \<Rightarrow> Interface \<Rightarrow> Interface" where "f b i = i\<lparr>if_device := sw, if_rx_handler := RX_switch_rx_shim, if_handler_ctx := sw, if_up := b\<rparr>" for b i
    define s where "s = upd_switch sw (\<lambda>s. s\<lparr>sw_port_count := ?n + 1\<rparr>) d"
    have n: "?n < length (dv_interfaces (w_dev w sw))"
      using add True assms by (auto simp: device_add_interface_def split: if_splits)
    have res: "switch_add_port sw iface w = (0, upd_iface iface (f 1) s)"
      using args add True
      by (auto simp: switch_add_port_def device_add_interface_def interface_set_up_def interface_set_rx_handler_def
          Let_def upd_iface_def upd_dev_def upd_switch_def s_def d_def f_def split: if_splits)
    have "switch_add_port_contract sw iface w (switch_add_port sw iface w) \<longleftrightarrow>
      upd_iface iface (f 1) s = upd_iface iface (f (if_up (w_iface w iface))) s"
    proof -
      define g :: "Interface \<Rightarrow> Interface" where "g i = i\<lparr>if_device := sw, if_rx_handler := RX_switch_rx_shim, if_handler_ctx := sw\<rparr>" for i
      have "f (if_up (w_iface w iface)) (w_iface w iface) = g (w_iface w iface)" by (simp add: f_def g_def)
      then have eq: "upd_iface iface (f (if_up (w_iface w iface))) s = upd_switch sw (\<lambda>s. s\<lparr>sw_port_count := ?n + 1\<rparr>)
        (upd_dev sw (\<lambda>d. d\<lparr>dv_interfaces := (dv_interfaces d)[?n := iface], dv_iface_count := ?n + 1\<rparr>) (upd_iface iface g w))"
        by (cases w) (simp add: s_def d_def upd_iface_def upd_dev_def upd_switch_def)
      show ?thesis
        unfolding res eq using args n
        by (simp add: switch_add_port_contract_def Let_def s_def d_def f_def g_def take_drop_update
            upd_dev_def upd_iface_def upd_switch_def)
    qed
    also have "\<dots> \<longleftrightarrow> if_up (w_iface w iface) = 1"
    proof
      assume "upd_iface iface (f 1) s = upd_iface iface (f (if_up (w_iface w iface))) s"
      then have "if_up (w_iface (upd_iface iface (f 1) s) iface) = if_up (w_iface (upd_iface iface (f (if_up (w_iface w iface))) s) iface)"
        by simp
      then show "if_up (w_iface w iface) = 1" by (simp add: f_def)
    qed simp
    finally show ?thesis using res by simp
  qed
qed

text \<open>\<open>switch_create\<close> does not clear the array of ports: it holds what the memory held.\<close>

lemma device_create_dev:
  assumes create: "device_create (Some nm) 48 w = (d, w')" and d: "d \<noteq> NULL"
  shows "\<exists>a. w_dev w' d = \<lparr>dv_name = take 31 nm, dv_interfaces_p = a, dv_interfaces = map (w_junk_ptr w a) [0..<48],
      dv_iface_count = 0, dv_iface_max = 48\<rparr>"
    "w_live w \<subseteq> w_live w'" "d = w_brk w"
proof -
  obtain w1 where m1: "malloc w = (d, w1)"
    using create d by (cases "malloc w") (auto simp: device_create_def Let_def split: if_splits prod.splits)
  obtain a w2 where m2: "malloc w1 = (a, w2)" by fastforce
  have w': "w' = upd_dev d (\<lambda>_. \<lparr>dv_name = take 31 nm, dv_interfaces_p = a, dv_interfaces = map (w_junk_ptr w2 a) [0..<48],
      dv_iface_count = 0, dv_iface_max = 48\<rparr>) w2"
    using create d m1 m2 by (auto simp: device_create_def Let_def split: if_splits)
  have "w_junk_ptr w2 = w_junk_ptr w" using malloc_simps(4) [of w] malloc_simps(4) [of w1] m1 m2 by simp
  then show "\<exists>a. w_dev w' d = \<lparr>dv_name = take 31 nm, dv_interfaces_p = a, dv_interfaces = map (w_junk_ptr w a) [0..<48],
      dv_iface_count = 0, dv_iface_max = 48\<rparr>" by (auto simp: w')
  show "w_live w \<subseteq> w_live w'" using malloc_keeps_live [of _ w] malloc_keeps_live [of _ w1] m1 m2 by (auto simp: w')
  show "d = w_brk w" using m1 d by (cases w rule: malloc_cases) simp_all
qed

lemma schedule_created:
  assumes "event_create_callback ty t src dst p d h c w = (e, w1)" "scheduler_schedule s e w1 = (r, w2)"
  shows "w_dev w2 = w_dev w" "w_switch w2 = w_switch w" "w_live w \<subseteq> w_live w2"
proof -
  have w1: "w1 = snd (malloc w)" using assms(1) by (auto simp: event_create_callback_def Let_def split_def split: if_splits)
  have w2: "w2 = snd (scheduler_schedule s e w1)" using assms(2) by simp
  show "w_dev w2 = w_dev w" "w_switch w2 = w_switch w" "w_live w \<subseteq> w_live w2"
    using malloc_keeps_live [of _ w] by (auto simp: w2 w1)
qed

lemma switch_create_meets:
  assumes mem: "mem_ok w" and create: "switch_create name sim w = (sw, w')"
  shows "switch_create_contract name sim w (sw, w') \<longleftrightarrow>
    sw = NULL \<or> (\<forall>i < 48. w_junk_ptr w (dv_interfaces_p (w_dev w' sw)) i = NULL)"
proof (cases "sw = NULL")
  case True
  then show ?thesis using create by (auto simp: switch_create_contract_def switch_create_def)
next
  case sw: False
  have some: "name \<noteq> None" "sim \<noteq> NULL" using create sw unfolding switch_create_def by (metis fst_conv)+
  then obtain nm where nm: "name = Some nm" by auto
  obtain a m1 where m': "malloc w = (a, m1)" by fastforce
  obtain dev m2 where d: "device_create name 48 m1 = (dev, m2)" by fastforce
  have m: "malloc w = (sw, m1)" "dev \<noteq> NULL"
    using create sw some m' d by (auto simp: switch_create_def Let_def split: if_splits prod.splits)
  define v where "v = set_mac_tbl sw (mac_table_init (Some mac_table_zero))
    (upd_switch sw (\<lambda>_. \<lparr>sw_mac_tbl = mac_table_zero, sw_port_count = 0, sw_sim = sim\<rparr>)
       (free_block dev (upd_dev sw (\<lambda>_. w_dev m2 dev) m2)))"
  obtain age v1 where e: "event_create_callback EVT_MAC_AGE (sc_now (w_sched v (sm_sched (w_sim v sim))) + SW_AGE_INTERVAL)
      NULL NULL NULL None CB_mac_age_handler sw v = (age, v1)" by fastforce
  have s: "scheduler_schedule (sm_sched (w_sim v sim)) age v1 = (0, w')"
    using create sw some m d e
    by (auto simp: switch_create_def Let_def v_def [symmetric] split: if_splits prod.splits)
  note dc = device_create_dev [OF d [unfolded nm] m(2)]
  have m1: "w_junk_ptr m1 = w_junk_ptr w" "sw \<in> w_live m1" "w_brk m1 \<noteq> sw"
    using m(1) sw malloc_simps [of w] malloc_live [of w] by (cases w rule: malloc_cases; simp)+
  obtain p where p: "w_dev m2 dev = \<lparr>dv_name = take 31 nm, dv_interfaces_p = p, dv_interfaces = map (w_junk_ptr w p) [0..<48],
      dv_iface_count = 0, dv_iface_max = 48\<rparr>" using dc(1) m1(1) by auto
  have v: "w_dev v sw = w_dev m2 dev" "w_switch v sw = \<lparr>sw_mac_tbl = mac_table_zero, sw_port_count = 0, sw_sim = sim\<rparr>" "sw \<in> w_live v"
    using dc(2,3) m1(2,3)
    by (auto simp: v_def set_mac_tbl_def free_block_def mac_table_init_def mac_table_zero_def upd_switch_def)
  have "sw_mac_tbl (w_switch v sw) = mac_table_zero" "mt_count mac_table_zero = 0" by (simp_all add: v mac_table_zero_def)
  then show ?thesis
    using schedule_created [OF e s] v p sw some by (auto simp: switch_create_contract_def)
qed

text \<open>
  \<open>topology_free\<close> also frees the interfaces of the devices and their arrays, which its contract does
  not name.
\<close>

lemma free_devices_live:
  "w_live (free_devices ds w) = w_live w - (\<Union>d \<in> set ds. device_blocks w d) \<and> w_dev (free_devices ds w) = w_dev w"
proof (induction ds arbitrary: w)
  case (Cons d ds)
  have "device_blocks (device_free d w) = device_blocks w"
    using device_free_live [of d w] by (simp add: device_blocks_def fun_eq_iff)
  then show ?case using Cons.IH [of "device_free d w"] device_free_live [of d w] by auto
qed simp

lemma free_links_live: "w_live (free_links ls w) = w_live w - (set ls - {NULL})"
proof (induction ls arbitrary: w)
  case (Cons l ls)
  have "w_live (link_free l w) = w_live w - ({l} - {NULL})" by (auto simp: link_free_def free_block_live)
  then show ?case using Cons.IH [of "link_free l w"] by auto
qed simp

lemma topology_free_meets:
  assumes "NULL \<notin> w_live w"
  shows "topology_free_contract topo w (topology_free topo w) \<longleftrightarrow> topo = NULL \<or>
    (\<forall>d \<in> set (topo_devices (w_topo w topo)). d \<noteq> NULL \<longrightarrow>
       w_live w \<inter> insert (dv_interfaces_p (w_dev w d)) (set (device_ports (w_dev w d))) \<subseteq>
         set (topo_devices (w_topo w topo)) \<union> set (topo_links (w_topo w topo)) \<union>
           {tp_devices_p (w_topo w topo), tp_links_p (w_topo w topo), topo})"
proof -
  let ?ds = "topo_devices (w_topo w topo)"
  let ?L = "set (topo_links (w_topo w topo)) \<union> {tp_devices_p (w_topo w topo), tp_links_p (w_topo w topo), topo}"
  let ?F = "\<Union>d \<in> set ?ds. device_blocks w d"
  have "w_live (topology_free topo w) = w_live w - ?F - (?L - {NULL})" if "topo \<noteq> NULL"
    using that free_devices_live [of ?ds w] free_links_live [of "topo_links (w_topo w topo)" "free_devices ?ds w"]
    by (auto simp: topology_free_def Let_def free_block_live)
  then have "topology_free_contract topo w (topology_free topo w) \<longleftrightarrow> topo = NULL \<or> w_live w \<inter> ?F \<subseteq> set ?ds \<union> ?L"
    using assms by (cases "topo = NULL") (auto simp: topology_free_contract_def topology_free_def)
  also have "\<dots> \<longleftrightarrow> topo = NULL \<or> (\<forall>d \<in> set ?ds. w_live w \<inter> device_blocks w d \<subseteq> set ?ds \<union> ?L)" by blast
  also have "\<dots> \<longleftrightarrow> topo = NULL \<or> (\<forall>d \<in> set ?ds. d \<noteq> NULL \<longrightarrow>
      w_live w \<inter> insert (dv_interfaces_p (w_dev w d)) (set (device_ports (w_dev w d))) \<subseteq> set ?ds \<union> ?L)"
    using assms unfolding device_blocks_def by (intro disj_cong ball_cong refl) auto
  finally show ?thesis by (simp add: Un_assoc)
qed

section \<open>Properties\<close>

text \<open>
  C40 The operations that build and query a network meet the contracts of their headers, on a device
  whose interfaces are live and whose array has the size it says, a topology whose devices and links are
  live and whose capacities are not 0, and a simulator with a scheduler, with exceptions that are
  stated exactly: the byte counters wrap at \<open>2 ^ 64\<close>; \<open>switch_add_port\<close> brings the interface up, which
  its \<open>assigns\<close> clause does not name; the ports of a new switch are null only if the memory happened to
  be; \<open>topology_add_device\<close> and \<open>topology_add_link\<close> write a cell of the array, which theirs do not name,
  unless they fail, grow the array or find the cell as they would leave it; and \<open>topology_free\<close> also
  frees the interfaces of the devices and the arrays of their pointers, so that it meets its \<open>frees\<close>
  clause only when those are not live or named otherwise.
\<close>

theorem network_meets_contracts:
  assumes mem: "mem_ok w"
    and dev: "set (device_ports (w_dev w dev)) \<subseteq> w_live w" "int (length (dv_interfaces (w_dev w dev))) = dv_iface_max (w_dev w dev)"
    and topo: "set (topo_devices (w_topo w topo)) \<subseteq> w_live w" "set (topo_links (w_topo w topo)) \<subseteq> w_live w"
      "0 < tp_dev_cap (w_topo w topo)" "0 < tp_link_cap (w_topo w topo)"
    and sim: "sm_sched (w_sim w sim) \<noteq> NULL"
  shows "interface_create_contract ip pl mtu (interface_create nm mac ip pl mtu w) \<and>
    interface_free_contract w (interface_free i w) \<and>
    interface_set_up_contract i up w (interface_set_up i up w) \<and> interface_is_up_contract i w (interface_is_up i w) \<and>
    interface_set_link_contract i l w (interface_set_link i l w) \<and> interface_get_link_contract i w (interface_get_link i w) \<and>
    interface_get_mac_contract i w (interface_get_mac i w) \<and> interface_get_ip_contract i w (interface_get_ip i w) \<and>
    (interface_add_tx_bytes_contract i n w (interface_add_tx_bytes i n w) \<longleftrightarrow>
       i = NULL \<or> unat (if_tx_bytes (w_iface w i)) + unat n < 2 ^ 64) \<and>
    (interface_add_rx_bytes_contract i n w (interface_add_rx_bytes i n w) \<longleftrightarrow>
       i = NULL \<or> unat (if_rx_bytes (w_iface w i)) + unat n < 2 ^ 64) \<and>
    interface_set_rx_handler_contract i fn ctx w (interface_set_rx_handler i fn ctx w) \<and>
    interface_set_arp_cache_contract i cache w (interface_set_arp_cache i cache w) \<and>
    link_create_contract i j bw d w (link_create i j bw d lr w) \<and> link_free_contract w (link_free l w) \<and>
    link_set_up_contract l up w (link_set_up l up w) \<and> link_is_up_contract l w (link_is_up l w) \<and>
    link_get_other_interface_contract l i w (link_get_other_interface l i w) \<and>
    device_create_contract name k w (device_create name k w) \<and> device_free_contract dev w (device_free dev w) \<and>
    device_add_interface_contract dev i w (device_add_interface dev i w) \<and>
    device_get_interface_by_name_contract dev name w (device_get_interface_by_name dev name w) \<and>
    device_get_interface_by_ip_contract dev w (device_get_interface_by_ip dev ip w) \<and>
    device_receive_packet_contract dev i p (device_receive_packet dev i p) \<and>
    device_send_packet_contract dev i p (device_send_packet dev i p) \<and>
    topology_create_contract (topology_create w) \<and>
    (topology_free_contract topo w (topology_free topo w) \<longleftrightarrow> topo = NULL \<or>
       (\<forall>x \<in> set (topo_devices (w_topo w topo)). x \<noteq> NULL \<longrightarrow>
          w_live w \<inter> insert (dv_interfaces_p (w_dev w x)) (set (device_ports (w_dev w x))) \<subseteq>
            set (topo_devices (w_topo w topo)) \<union> set (topo_links (w_topo w topo)) \<union>
              {tp_devices_p (w_topo w topo), tp_links_p (w_topo w topo), topo})) \<and>
    (topology_add_device_contract topo dev w (topology_add_device topo dev w) \<longleftrightarrow>
       fst (topology_add_device topo dev w) = - 1 \<or> tp_dev_count (w_topo w topo) = tp_dev_cap (w_topo w topo) \<or>
       tp_devices (w_topo (snd (topology_add_device topo dev w)) topo) = tp_devices (w_topo w topo)) \<and>
    (topology_add_link_contract topo l w (topology_add_link topo l w) \<longleftrightarrow>
       fst (topology_add_link topo l w) = - 1 \<or> tp_link_count (w_topo w topo) = tp_link_cap (w_topo w topo) \<or>
       tp_links (w_topo (snd (topology_add_link topo l w)) topo) = tp_links (w_topo w topo)) \<and>
    topology_find_device_by_name_contract topo name w (topology_find_device_by_name topo name w) \<and>
    topology_find_device_by_ip_contract topo w (topology_find_device_by_ip topo ip w) \<and>
    topology_get_link_between_contract topo i j w (topology_get_link_between topo i j w) \<and>
    topology_device_count_contract topo w (topology_device_count topo w) \<and>
    topology_link_count_contract topo w (topology_link_count topo w) \<and>
    (switch_create_contract name sim w (switch_create name sim w) \<longleftrightarrow> fst (switch_create name sim w) = NULL \<or>
       (\<forall>k < 48. w_junk_ptr w (dv_interfaces_p (w_dev (snd (switch_create name sim w)) (fst (switch_create name sim w)))) k = NULL)) \<and>
    switch_free_contract dev w (switch_free dev w) \<and>
    (switch_add_port_contract dev i w (switch_add_port dev i w) \<longleftrightarrow>
       fst (switch_add_port dev i w) \<noteq> 0 \<or> if_up (w_iface w i) = 1) \<and>
    switch_port_down_contract dev i w (switch_port_down dev i w) \<and>
    switch_get_port_by_name_contract dev name w (switch_get_port_by_name dev name w) \<and>
    host_create_contract name sim ip w (host_create name sim ip w) \<and> host_free_contract dev w (host_free dev w) \<and>
    host_add_interface_contract dev i w (host_add_interface dev i w) \<and> arp_init_contract sim w (arp_init sim w) \<and>
    ip_init_contract sim st w (ip_init sim st w) \<and> ip_stack_init_contract st sim w (ip_stack_init st sim w) \<and>
    ip_stack_bind_interface_contract st i w (ip_stack_bind_interface st i w) \<and>
    ip_stack_register_protocol_contract st pr h w (ip_stack_register_protocol st pr h ctx w) \<and>
    ip_stack_unregister_protocol_contract st pr w (ip_stack_unregister_protocol st pr w) \<and>
    ip_is_local_contract dev ip w (ip_is_local dev ip w)"
proof -
  have switch: "switch_create_contract name sim w (switch_create name sim w) \<longleftrightarrow> fst (switch_create name sim w) = NULL \<or>
       (\<forall>k < 48. w_junk_ptr w (dv_interfaces_p (w_dev (snd (switch_create name sim w)) (fst (switch_create name sim w)))) k = NULL)"
    using switch_create_meets [OF mem, of name sim] by (cases "switch_create name sim w") simp
  have live: "NULL \<notin> w_live w" using mem by (auto simp: mem_ok_def)
  show ?thesis
    by (intro conjI)
       (rule interface_meets interface_bytes_meet link_meets device_meets device_add_meets [OF dev(2)] topology_meets
          topology_free_meets [OF live] topology_add_device_meets [OF topo(3)] topology_add_link_meets [OF topo(4)]
          host_create_meets host_free_meets ip_init_meets
          lookups_meet(1) [OF dev(1), THEN conjunct1] lookups_meet(1) [OF dev(1), THEN conjunct2]
          lookups_meet(2) [OF topo(1), THEN conjunct1] lookups_meet(2) [OF topo(1), THEN conjunct2] lookups_meet(3) [OF topo(2)]
          switch switch_free_meets switch_add_meets [OF dev(2)] switch_port_down_meets switch_get_port_meets [OF dev(1)]
          host_add_meets [OF dev(2)] stack_meets(1) [OF sim] stack_meets(2-) ip_is_local_meets)+
qed

text \<open>The two hosts of the example.\<close>

theorem network_meets_contracts_witness:
  "let w = lan (packet_fresh 21 (\<lambda>_. 0) 40 1) (event_queue_new 4)
   in \<not> topology_free_contract 2 w (topology_free 2 w) \<and> topology_add_device_contract 2 9 w (topology_add_device 2 9 w) \<and>
      device_get_interface_by_ip_contract 4 w (device_get_interface_by_ip 4 0x0A000001 w)"
proof -
  define w where "w = lan (packet_fresh 21 (\<lambda>_. 0) 40 1) (event_queue_new 4)"
  have obj: "w_dev w 4 = \<lparr>dv_name = ''h1'', dv_interfaces_p = 30, dv_interfaces = [10], dv_iface_count = 1, dv_iface_max = 1\<rparr>"
    "w_dev w 9 = \<lparr>dv_name = ''h2'', dv_interfaces_p = 31, dv_interfaces = [11], dv_iface_count = 1, dv_iface_max = 1\<rparr>"
    "w_topo w 2 = \<lparr>tp_devices_p = 32, tp_devices = [4, 5], tp_dev_count = 2, tp_dev_cap = 2,
       tp_links_p = 33, tp_links = [12], tp_link_count = 1, tp_link_cap = 1\<rparr>"
    by (simp_all add: w_def lan_def)
  have live: "w_live w = {1..<40}" by (simp add: w_def)
  have common: "set (topo_devices (w_topo w 2)) \<subseteq> w_live w" "set (topo_links (w_topo w 2)) \<subseteq> w_live w"
    "0 < tp_dev_cap (w_topo w 2)" "0 < tp_link_cap (w_topo w 2)" "sm_sched (w_sim w 1) \<noteq> NULL" "mem_ok w"
    by (auto simp: obj live mem_ok_def topo_devices_def topo_links_def) (simp_all add: w_def)
  have dev: "set (device_ports (w_dev w 4)) \<subseteq> w_live w" "int (length (dv_interfaces (w_dev w 4))) = dv_iface_max (w_dev w 4)"
    "set (device_ports (w_dev w 9)) \<subseteq> w_live w" "int (length (dv_interfaces (w_dev w 9))) = dv_iface_max (w_dev w 9)"
    by (simp_all add: obj live device_ports_def)
  note four = network_meets_contracts [OF common(6) dev(1,2) common(1-5), where ip = "0x0A000001"]
  note nine = network_meets_contracts [OF common(6) dev(3,4) common(1-5)]
  have missed: "\<not> (\<forall>x \<in> set (topo_devices (w_topo w 2)). x \<noteq> NULL \<longrightarrow>
      w_live w \<inter> insert (dv_interfaces_p (w_dev w x)) (set (device_ports (w_dev w x))) \<subseteq>
        set (topo_devices (w_topo w 2)) \<union> set (topo_links (w_topo w 2)) \<union> {tp_devices_p (w_topo w 2), tp_links_p (w_topo w 2), 2})"
    by (simp add: obj live topo_devices_def topo_links_def)
  have full: "tp_dev_count (w_topo w 2) = tp_dev_cap (w_topo w 2)" by (simp add: obj)
  have "device_get_interface_by_ip_contract 4 w (device_get_interface_by_ip 4 0x0A000001 w)"
    by (simp only: four)
  moreover have "\<not> topology_free_contract 2 w (topology_free 2 w)"
    using missed by (simp add: four)
  moreover have "topology_add_device_contract 2 9 w (topology_add_device 2 9 w)"
    by (simp only: nine full simp_thms)
  ultimately show ?thesis by (simp add: w_def Let_def)
qed

end
