(* ===== verification/Spec2Isabelle.thy ===== *)
theory Spec2Isabelle
  imports Layout Send_Queue Route_Contract Table_Contracts Well_Formed Network_Contracts
begin

text \<open>
  PhosphorFrame: a discrete-event network simulator in C (\<open>src/src\<close>), with packets in buffers
  with headroom, a queue of timed events, devices, links and switches, and the protocols
  Ethernet, ARP, IPv4, ICMP, UDP and TCP of the simulated hosts.

  The program and its parts. Everything happens in event handlers. \<open>simulator_run\<close> takes the
  earliest event of the queue, moves the clock and calls the handler. Sending goes downwards by
  calls: \<open>udp_send\<close>, \<open>tcp_send_segment\<close> and the senders of \<open>icmp.c\<close> call \<open>ip_output\<close>, which
  looks the next hop up in the ARP cache and calls \<open>ip_send\<close>, then \<open>ethernet_send\<close>, then
  \<open>link_transmit\<close>, which puts a clone of the frame into the queue as a receive event. Receiving
  goes upwards by the function pointers of interfaces and of the IP stack:
  \<open>ethernet_receive_event\<close>, \<open>ip_rx_shim\<close> or \<open>switch_rx_shim\<close>, \<open>ip_receive\<close>, and one of
  \<open>icmp_receive\<close>, \<open>udp_receive\<close>, \<open>tcp_receive\<close>.

  The theories, bottom up.

    \<^item> \<open>Prelude\<close>: widths, addresses, byte lists, first free slot, named collections.
    \<^item> \<open>Byte_Order\<close> (\<open>common/byte_order.h\<close>), \<open>Checksum\<close> (the checksums of \<open>packet.c\<close>, \<open>ip.c\<close>,
      \<open>icmp.c\<close>), \<open>Wire_Format\<close> (the packed headers; locale \<open>packed_struct\<close> for what a layout
      promises, interpreted on all six), \<open>Packet\<close> (\<open>network/packet.c\<close>).
    \<^item> \<open>Event_Queue\<close> (\<open>engine/event.c\<close>; locale \<open>timed_queue\<close>).
    \<^item> \<open>Slot_Table\<close>: the arrays of slots with a valid flag that four tables of the program are;
      locales for what they share, and \<open>learning_cache\<close> for the two that learn addresses.
      \<open>Mac_Table\<close>, \<open>Arp_Cache\<close>, \<open>Udp_Sockets\<close>, \<open>Tcp_Table\<close> model the tables of the files of
      these names.
    \<^item> \<open>Route_Table\<close>, \<open>Route_Select\<close>, \<open>Route_Ops\<close> (\<open>routing/route_table.c\<close>): the operations, the
      selection of best routes, the contract as a keyed store (locale \<open>keyed_store\<close>).
    \<^item> \<open>World\<close>: the structures that live on the heap, the allocator, packets and events on the
      heap. \<open>Net_Ops\<close> (interface, link, device, topology), \<open>Sched_Ops\<close> (scheduler and simulator
      without the loops), \<open>Ethernet\<close> (\<open>link_transmit\<close>, \<open>ethernet.c\<close>), \<open>Ip_Output\<close> (\<open>arp.c\<close> and
      the sending half of \<open>ip.c\<close>), \<open>Icmp\<close>, \<open>Udp\<close>, \<open>Tcp\<close>, \<open>Ip_Input\<close> (the receiving half),
      \<open>Switch_Ops\<close>, \<open>Host_Ops\<close>, \<open>Engine\<close> (dispatch of an event, the loops).
    \<^item> \<open>Frame\<close>: locales \<open>net_relation\<close> and \<open>world_relation\<close>, a relation between states that every
      write of the program respects is respected by every handler; \<open>Buffers\<close>: the places that write
      into a packet write within its buffer. \<open>Causality\<close> interprets the locales on the fixed wiring
      and on the clock, \<open>Ownership\<close> follows the packets, \<open>Scenario\<close> is a concrete
      network of two hosts for the witnesses, \<open>Delivery\<close> describes exactly what a transmission does,
      \<open>Bystander\<close> that it leaves other packets alone, \<open>Wire\<close> states the results.
    \<^item> \<open>Arrival\<close>: from the event queue to the protocol handler. \<open>Datagram\<close> (UDP) and \<open>Echo\<close> (ICMP)
      compose it with what the senders put on the wire.
    \<^item> \<open>Tcp_Machine\<close>: the abstract machine of a TCP connection and of the connection table, its
      invariant by rule induction. \<open>Tcp_Steps\<close>: the handlers and calls of \<open>tcp.c\<close> are steps of it.
      \<open>Tcp_Data\<close>: the segments on the wire and what an established connection does with one.
      \<open>Send_Queue\<close>: the queue of unacknowledged segments of a connection. \<open>Tcp_Delivery\<close>: from
      \<open>tcp_send\<close> on one host to the receive handler on the other.
    \<^item> \<open>Layout\<close>: the frames of the four senders, byte by byte.
    \<^item> \<open>Runs\<close>: the loop of \<open>simulator_run\<close>: when it returns, and that it does not on a network with
      a switch and without an end time. \<open>Well_Formed\<close>: two more interpretations of the frame, the
      invariants of the tables and queues and the bounds of the packets, through whole runs.
    \<^item> \<open>Route_Contract\<close>, \<open>Table_Contracts\<close>, \<open>Engine_Contracts\<close>, \<open>Network_Contracts\<close>: the ACSL
      contracts that the headers state for the operations, transcribed clause by clause
      (\<open><function>_contract\<close>), and which of them the code meets.

  How the state corresponds. A pointer is a natural number, 0 the null pointer. Each structure
  type has its own heap, a total function from addresses (\<open>world\<close> in \<open>World\<close>); the set \<open>w_live\<close>
  holds the blocks that are allocated, \<open>w_bad_free\<close> records a free of a block that is not. \<open>malloc\<close>
  fails when the oracle \<open>w_oom\<close> says so, at any call. Fresh memory reads as \<open>w_junk\<close>. Operations
  that take a pointer which may be null take it as an address, or as an option where the table is
  a value. Counters and times have the width of the code and wrap.

  What the lemmas show. The queue is a stable sort; the tables refine finite maps and keep their
  invariants; the FIB holds, for each destination of the RIB, the route of least administrative
  distance, metric and age, and lookup is longest-prefix match; checksums detect the corruption
  they promise to; the frames of ARP, ICMP, UDP and TCP have each field where the protocols want it,
  in network order; what \<open>ip_output\<close> accepts goes out with a valid header, or waits for the address of
  the neighbour, and it sends when the path is up and memory lasts; what is received is checked and handed to the registered protocol. A
  datagram of \<open>udp_send\<close> and a segment of \<open>tcp_send\<close> reach the handler of the peer after the event
  that carries them; an echo request is answered by a reply with the same identifier, sequence
  number and data. Whatever the application and the network do, every connection table refines the
  abstract machine and keeps its invariant (the state of a connection agrees with its send queue).
  Queues, neighbour caches and MAC tables stay well-formed through every run, and no packet leaves
  its buffer. A run with an end time returns when every link has a delay; one without does not,
  once there is a switch, as long as the application does not stop it. The operations on tables, the
  engine and the network objects meet the contracts of their headers with the exceptions that the
  theorems name. \<open>assigns\<close> is read strictly: a pointer in it names the pointer, and not the memory it
  points to.

  Bounds and fuel. Loops over arrays are structural recursions. \<open>scheduler_run\<close> and
  \<open>simulator_run\<close> are \<open>partial_function (option)\<close>: None when the loop does not end. \<open>drain_events\<close>
  has the number of queued events as fuel, and pops one at each turn. That a run with an end time
  \<open>T\<close> returns is shown by the multiset of the distances \<open>T - timestamp\<close> of the waiting events: a
  handler replaces one by finitely many smaller ones, because it schedules less than \<open>2 ^ 32\<close>
  microseconds ahead (the delay of a link has 32 bits) and not at the present moment; \<open>T\<close> is at
  most \<open>2 ^ 64 - 2 ^ 32\<close>, so that no time wraps below it.

  Not modelled. The contracts of the sending and receiving functions (in \<open>ip.h\<close>, \<open>icmp.h\<close>,
  \<open>udp.h\<close>, \<open>tcp.h\<close>, \<open>ethernet.h\<close> and \<open>arp.h\<close>, and of \<open>link_transmit\<close>, \<open>switch_receive\<close>, \<open>host_receive\<close>
  and \<open>host_send_ip\<close>), whose \<open>assigns\<close> clauses leave out what the handlers below and above them
  write and whose results some of the code does not keep to; their functional behaviour is stated
  instead. Of \<open>scheduler_run\<close> and \<open>simulator_run\<close> the postcondition is stated and not the \<open>assigns\<close>
  clause, since a handler may write anything, and the \<open>frees\<close> clause of \<open>simulator_free\<close> is left out. Sizes
  of packets and queues are natural numbers: that \<open>PKT_HEADROOM + capacity\<close> and the doubled capacity
  of the queue fit into \<open>size_t\<close>, and the count of events into the \<open>int\<close> by which \<open>event_queue_push\<close>
  counts down, is taken for granted. \<open>packet_dump\<close> prints. \<open>router.c\<close>, \<open>rip.c\<close>, \<open>static_route.c\<close>, \<open>cli\<close>, \<open>display\<close>
  and \<open>main.c\<close> hold no code. Functions of the application (socket handlers, protocol handlers,
  callbacks of its own events) are the parameter \<open>app\<close>.
\<close>

end
